(* ===== verification/Prelude.thy ===== *)
theory Prelude
  imports Main "HOL-Library.Sublist"
begin

text \<open>
  Shared vocabulary of the development: the JavaScript and SQL string operations the program
  uses (joining and splitting on a separator, decimal rendering of identifiers, ASCII case
  folding, blank trimming, the SQL pattern operator), and the list lemmas that several
  components need. A string is a list of characters; a character outside the 256 codes of
  Isabelle's \<open>char\<close> is not represented, and case folding is the ASCII one.
\<close>

named_theorems model_defs \<open>definitions of operations, unfolded when an operation is run\<close>

section \<open>Joining and splitting strings\<close>

text \<open>\<open>xs.join(sep)\<close> in JavaScript and \<open>string_agg(x, sep)\<close> over a non-empty group in SQL.\<close>

fun join_on :: "char \<Rightarrow> string list \<Rightarrow> string" where
  "join_on c [] = []"
| "join_on c [x] = x"
| "join_on c (x # y # xs) = x @ c # join_on c (y # xs)"

text \<open>\<open>s.split(sep)\<close> in JavaScript for a one-character separator: never empty.\<close>

fun split_on :: "char \<Rightarrow> string \<Rightarrow> string list" where
  "split_on c [] = [[]]"
| "split_on c (x # xs) =
     (if x = c then [] # split_on c xs
      else (case split_on c xs of [] \<Rightarrow> [[x]] | y # ys \<Rightarrow> (x # y) # ys))"

text \<open>SQL's \<open>string_to_array(s, sep)\<close>: as splitting, but the empty string gives no element.\<close>

definition string_to_array :: "char \<Rightarrow> string \<Rightarrow> string list" where
  "string_to_array c s = (if s = [] then [] else split_on c s)"

lemma split_on_not_Nil [simp]: "split_on c s \<noteq> []"
  by (cases s) (auto split: list.splits)

lemma split_on_no_sep [simp]: "c \<notin> set s \<Longrightarrow> split_on c s = [s]"
  by (induction s) auto

lemma split_on_append_sep:
  "c \<notin> set x \<Longrightarrow> split_on c (x @ c # s) = x # split_on c s"
  by (induction x) auto

text \<open>Splitting undoes joining exactly when no element holds the separator.\<close>

lemma split_on_join_on:
  assumes "xs \<noteq> []" and "\<forall>x \<in> set xs. c \<notin> set x"
  shows "split_on c (join_on c xs) = xs"
  using assms by (induction c xs rule: join_on.induct) (auto simp: split_on_append_sep)

lemma join_on_Nil_iff: "join_on c xs = [] \<longleftrightarrow> xs = [] \<or> xs = [[]]"
  by (induction c xs rule: join_on.induct) auto

lemma string_to_array_join_on:
  assumes "\<forall>x \<in> set xs. x \<noteq> [] \<and> c \<notin> set x"
  shows "string_to_array c (join_on c xs) = xs"
  using assms by (cases "xs = []") (auto simp: string_to_array_def split_on_join_on join_on_Nil_iff)

lemma length_split_on_join_on:
  "xs \<noteq> [] \<Longrightarrow> length xs \<le> length (split_on c (join_on c xs))"
proof (induction c xs rule: join_on.induct)
  case (3 c x y xs)
  have "Suc (length (split_on c s)) \<le> length (split_on c (x @ c # s))" for s
    by (induction x) (auto split: list.splits)
  from this[of "join_on c (y # xs)"] 3 show ?case by simp
qed (auto simp: Suc_leI)

section \<open>Decimal rendering of identifiers\<close>

text \<open>The rendering that \<open>id::text\<close>, \<open>String(id)\<close> and a template literal give an integer.\<close>

definition digit_char :: "nat \<Rightarrow> char" where
  "digit_char d = char_of (48 + d)"

fun nat_to_string :: "nat \<Rightarrow> string" where
  "nat_to_string n =
     (if n < 10 then [digit_char n] else nat_to_string (n div 10) @ [digit_char (n mod 10)])"

declare nat_to_string.simps [simp del]

definition int_to_string :: "int \<Rightarrow> string" where
  "int_to_string i =
     (if i < 0 then CHR ''-'' # nat_to_string (nat (- i)) else nat_to_string (nat i))"

text \<open>Reading the rendering back.\<close>

definition digit_val :: "char \<Rightarrow> nat" where
  "digit_val c = of_char c - 48"

definition string_to_nat :: "string \<Rightarrow> nat" where
  "string_to_nat s = foldl (\<lambda>n c. 10 * n + digit_val c) 0 s"

lemma digit_val_digit_char [simp]: "d < 10 \<Longrightarrow> digit_val (digit_char d) = d"
  by (simp add: digit_val_def digit_char_def)

lemma of_char_digit_char: "d < 10 \<Longrightarrow> of_char (digit_char d) = 48 + d"
  by (simp add: digit_char_def)

lemma string_to_nat_nat_to_string [simp]: "string_to_nat (nat_to_string n) = n"
proof (induction n rule: nat_to_string.induct)
  case (1 n)
  show ?case
  proof (cases "n < 10")
    case True
    then show ?thesis by (simp add: nat_to_string.simps[of n] string_to_nat_def)
  next
    case False
    with 1 have "string_to_nat (nat_to_string (n div 10)) = n div 10" by simp
    with False show ?thesis
      by (simp add: nat_to_string.simps[of n] string_to_nat_def)
  qed
qed

lemma nat_to_string_digits:
  "c \<in> set (nat_to_string n) \<Longrightarrow> of_char c \<ge> (48::nat) \<and> of_char c \<le> (57::nat)"
proof (induction n rule: nat_to_string.induct)
  case (1 n)
  show ?case
  proof (cases "n < 10")
    case True
    with "1.prems" show ?thesis by (simp add: nat_to_string.simps[of n] of_char_digit_char)
  next
    case False
    have "n mod 10 < 10" by simp
    with False 1 show ?thesis
      by (auto simp: nat_to_string.simps[of n] of_char_digit_char dest: less_imp_le_nat)
  qed
qed

lemma nat_to_string_not_Nil [simp]: "nat_to_string n \<noteq> []"
  by (subst nat_to_string.simps) simp

lemma minus_not_digit: "CHR ''-'' \<notin> set (nat_to_string n)"
  using nat_to_string_digits[of "CHR ''-''" n] by auto

lemma comma_not_digit: "CHR '','' \<notin> set (nat_to_string n)"
  using nat_to_string_digits[of "CHR '',''" n] by auto

lemma nat_to_string_inj: "nat_to_string m = nat_to_string n \<Longrightarrow> m = n"
  using string_to_nat_nat_to_string by metis

lemma int_to_string_inj [simp]: "int_to_string i = int_to_string j \<longleftrightarrow> i = j"
proof
  assume eq: "int_to_string i = int_to_string j"
  have mixed: False if "CHR ''-'' # nat_to_string m = nat_to_string n" for m n
    using that minus_not_digit[of n] by (metis list.set_intros(1))
  show "i = j"
  proof (cases "i < 0"; cases "j < 0")
    assume "i < 0" "j < 0"
    with eq have "nat (- i) = nat (- j)" by (auto simp: int_to_string_def dest: nat_to_string_inj)
    with \<open>i < 0\<close> \<open>j < 0\<close> show ?thesis by simp
  next
    assume "i < 0" "\<not> j < 0"
    with eq mixed show ?thesis by (auto simp: int_to_string_def)
  next
    assume "\<not> i < 0" "j < 0"
    with eq mixed show ?thesis by (auto simp: int_to_string_def dest: sym)
  next
    assume "\<not> i < 0" "\<not> j < 0"
    with eq have "nat i = nat j" by (auto simp: int_to_string_def dest: nat_to_string_inj)
    with \<open>\<not> i < 0\<close> \<open>\<not> j < 0\<close> show ?thesis by simp
  qed
qed simp

lemma int_to_string_no_comma [simp]: "CHR '','' \<notin> set (int_to_string i)"
  by (simp add: int_to_string_def comma_not_digit)

lemma int_to_string_not_Nil [simp]: "int_to_string i \<noteq> []"
  by (simp add: int_to_string_def)

section \<open>Case folding, trimming and SQL patterns\<close>

definition lower_char :: "char \<Rightarrow> char" where
  "lower_char c =
     (let n = of_char c :: nat in if 65 \<le> n \<and> n \<le> 90 then char_of (n + 32) else c)"

definition lower :: "string \<Rightarrow> string" where
  "lower s = map lower_char s"

text \<open>\<open>trim(both s)\<close> removes blanks only.\<close>

definition trim_both :: "string \<Rightarrow> string" where
  "trim_both s = rev (dropWhile ((=) CHR '' '') (rev (dropWhile ((=) CHR '' '') s)))"

text \<open>
  \<open>s like p\<close>: a percent sign matches any run, an underscore one character, a backslash makes
  the next pattern character literal.
\<close>

fun sql_like :: "string \<Rightarrow> string \<Rightarrow> bool" where
  "sql_like [] s = (s = [])"
| "sql_like (c # p) s =
     (if c = CHR ''%'' then
        sql_like p s \<or> (case s of [] \<Rightarrow> False | _ # s' \<Rightarrow> sql_like (c # p) s')
      else if c = CHR ''_'' then (case s of [] \<Rightarrow> False | _ # s' \<Rightarrow> sql_like p s')
      else if c = CHR 0x5C then
        (case p of [] \<Rightarrow> False
         | e # p' \<Rightarrow> (case s of [] \<Rightarrow> False | x # s' \<Rightarrow> x = e \<and> sql_like p' s'))
      else (case s of [] \<Rightarrow> False | x # s' \<Rightarrow> x = c \<and> sql_like p s'))"

declare sql_like.simps(2) [simp del]

definition sql_ilike :: "string \<Rightarrow> string \<Rightarrow> bool" where
  "sql_ilike s p = sql_like (lower p) (lower s)"

definition plain_pattern :: "string \<Rightarrow> bool" where
  "plain_pattern q = list_all (\<lambda>c. c \<noteq> CHR ''%'' \<and> c \<noteq> CHR ''_'' \<and> c \<noteq> CHR 0x5C) q"

lemma sql_like_plain_append:
  "plain_pattern q \<Longrightarrow> sql_like (q @ p) s \<longleftrightarrow> (\<exists>r. s = q @ r \<and> sql_like p r)"
proof (induction q arbitrary: s)
  case (Cons c q)
  then show ?case
    by (auto simp: plain_pattern_def sql_like.simps(2) split: list.splits)
qed simp

lemma sql_like_percent: "sql_like (CHR ''%'' # p) s \<longleftrightarrow> (\<exists>u r. s = u @ r \<and> sql_like p r)"
proof (induction s)
  case Nil
  then show ?case by (simp add: sql_like.simps(2))
next
  case (Cons x s)
  have "sql_like (CHR ''%'' # p) (x # s) \<longleftrightarrow> sql_like p (x # s) \<or> (\<exists>u r. s = u @ r \<and> sql_like p r)"
    using Cons.IH by (simp add: sql_like.simps(2))
  also have "\<dots> \<longleftrightarrow> (\<exists>u r. x # s = u @ r \<and> sql_like p r)"
    by (metis append_Cons append_Nil list.exhaust list.inject)
  finally show ?case .
qed

text \<open>A pattern with a percent sign around a plain text finds the text anywhere.\<close>

lemma sql_like_contains:
  assumes "plain_pattern q"
  shows "sql_like (CHR ''%'' # q @ ''%'') s \<longleftrightarrow> sublist q s"
proof -
  have "sql_like ''%'' r" for r by (simp add: sql_like_percent)
  with assms show ?thesis
    by (auto simp: sql_like_percent sql_like_plain_append sublist_def)
qed

lemma lower_char_special:
  "lower_char c = CHR ''%'' \<longleftrightarrow> c = CHR ''%''"
  "lower_char c = CHR ''_'' \<longleftrightarrow> c = CHR ''_''"
  "lower_char c = CHR 0x5C \<longleftrightarrow> c = CHR 0x5C"
proof -
  have ne: "lower_char c \<noteq> CHR ''%''" "lower_char c \<noteq> CHR ''_''" "lower_char c \<noteq> CHR 0x5C"
    if "65 \<le> (of_char c :: nat)" "(of_char c :: nat) \<le> 90"
  proof -
    from that have "(of_char (lower_char c) :: nat) = of_char c + 32"
      by (simp add: lower_char_def Let_def)
    with that have "(of_char (lower_char c) :: nat) \<ge> 97" by simp
    then show "lower_char c \<noteq> CHR ''%''" "lower_char c \<noteq> CHR ''_''" "lower_char c \<noteq> CHR 0x5C"
      by auto
  qed
  have range: "\<not> (65 \<le> (of_char x :: nat) \<and> (of_char x :: nat) \<le> 90)"
    if "x \<in> {CHR ''%'', CHR ''_'', CHR 0x5C}" for x
    using that by auto
  show "lower_char c = CHR ''%'' \<longleftrightarrow> c = CHR ''%''"
    using ne range[of c] range[of "lower_char c"] by (auto simp: lower_char_def Let_def)
  show "lower_char c = CHR ''_'' \<longleftrightarrow> c = CHR ''_''"
    using ne range[of c] by (auto simp: lower_char_def Let_def)
  show "lower_char c = CHR 0x5C \<longleftrightarrow> c = CHR 0x5C"
    using ne range[of c] by (auto simp: lower_char_def Let_def)
qed

lemma plain_pattern_lower [simp]: "plain_pattern (lower q) = plain_pattern q"
  by (simp add: plain_pattern_def lower_def list_all_iff lower_char_special)

lemma lower_percent [simp]: "lower (CHR ''%'' # q @ ''%'') = CHR ''%'' # lower q @ ''%''"
  by (simp add: lower_def lower_char_def)

section \<open>Lists\<close>

lemma map_nth_pairs:
  assumes "length xs = length ys"
  shows "map (\<lambda>i. (ys ! i, xs ! i)) [0..<length xs] = zip ys xs"
  using assms by (intro nth_equalityI) auto

lemma filter_conj_map: "filter P (map f xs) = map f (filter (P \<circ> f) xs)"
  by (simp add: filter_map)

lemma distinct_map_inj_filter: "distinct (map f xs) \<Longrightarrow> distinct (map f (filter P xs))"
  by (induction xs) auto

text \<open>With a key that identifies the elements, selecting on the key gives at most one.\<close>

lemma distinct_key_filter:
  "distinct (map f xs) \<Longrightarrow> x \<in> set xs \<Longrightarrow> filter (\<lambda>y. f y = f x) xs = [x]"
  by (induction xs) (auto simp: filter_empty_conv image_iff)

lemma distinct_key_eq:
  "distinct (map f xs) \<Longrightarrow> x \<in> set xs \<Longrightarrow> y \<in> set xs \<Longrightarrow> f x = f y \<Longrightarrow> x = y"
  by (auto simp: distinct_map dest: inj_onD)

lemma distinct_key_filter_eq:
  "distinct (map f xs) \<Longrightarrow> x \<in> set xs \<Longrightarrow> f x = k \<Longrightarrow> filter (\<lambda>y. f y = k) xs = [x]"
  using distinct_key_filter by fastforce

lemma distinct_key_length_filter:
  assumes "distinct (map f xs)"
  shows "length (filter (\<lambda>y. f y = k \<and> P y) xs) \<le> 1"
  using assms by (induction xs) (auto simp: image_iff filter_empty_conv)

text \<open>Selecting on a key is looking the key up.\<close>

definition list_option :: "'a option \<Rightarrow> 'a list" where
  "list_option v = (case v of None \<Rightarrow> [] | Some x \<Rightarrow> [x])"

lemma list_option_simps [simp]: "list_option None = []" "list_option (Some x) = [x]"
  by (simp_all add: list_option_def)

lemma filter_key_find:
  "distinct (map f xs) \<Longrightarrow> filter (\<lambda>y. f y = k) xs = list_option (find (\<lambda>y. f y = k) xs)"
proof (induction xs)
  case (Cons x xs)
  have "f x = k \<Longrightarrow> filter (\<lambda>y. f y = k) xs = []"
    using Cons.prems by (simp add: filter_empty_conv) (metis imageI)
  with Cons show ?case by simp
qed simp

lemma find_key_Some:
  "distinct (map f xs) \<Longrightarrow> find (\<lambda>y. f y = k) xs = Some x \<longleftrightarrow> x \<in> set xs \<and> f x = k"
  by (induction xs) auto

lemma find_key_None: "find (\<lambda>y. f y = k) xs = None \<longleftrightarrow> k \<notin> f ` set xs"
  by (induction xs) auto

lemma concat_map_if:
  "concat (map (\<lambda>x. if P x then [f x] else []) xs) = map f (filter P xs)"
  by (induction xs) auto

text \<open>An update that leaves the selected elements alone.\<close>

lemma filter_map_other:
  "(\<And>x. P (f x) = P x) \<Longrightarrow> (\<And>x. x \<in> set xs \<Longrightarrow> P x \<Longrightarrow> f x = x) \<Longrightarrow> filter P (map f xs) = filter P xs"
  by (induction xs) auto

end
