(* ===== verification/Svc.thy ===== *)
theory Svc
  imports Prelude
begin

text \<open>
  Programs of the API as state transformers with exceptions: an asynchronous method that reads
  and writes the world, and returns or throws, is a function from the world to a result and the
  new world. The sum's left side is the thrown value. The combinators are JavaScript's:
  sequencing of awaited calls, \<open>throw\<close>, \<open>try/catch\<close> and \<open>try/finally\<close>. The theory also holds
  the reasoning principles every component uses: the relation a program keeps between the
  worlds before and after (a locale over any preorder), and outcome triples.
\<close>

section \<open>Errors\<close>

text \<open>
  What PostgreSQL reports, by SQLSTATE class, and what the code throws. A message that comes
  from the database driver is left out.
\<close>

datatype pg_error =
    UniqueViolation | NotNullViolation | ForeignKeyViolation | StringTruncation
  | InvalidTextRepresentation | NumericOutOfRange | SequenceExhausted | ParameterMismatch
  | InFailedTransaction | ConnectionLost

datatype js_error =
    HttpException nat string
  | PlainError string
  | WsException string
  | DbError pg_error
  | TypeError

text \<open>The HTTP status of an error that leaves a handler: Nest's filter gives 500 to a plain one.\<close>

fun error_status :: "js_error \<Rightarrow> nat" where
  "error_status (HttpException n _) = n"
| "error_status _ = 500"

definition EntityNotFoundError :: "string \<Rightarrow> js_error" where
  "EntityNotFoundError entityName = HttpException 404 (''Entity '' @ entityName @ '' not found.'')"

definition UnauthorizedException :: js_error where
  "UnauthorizedException = HttpException 401 ''Unauthorized''"

definition InvalidCredentialsError :: js_error where
  "InvalidCredentialsError = HttpException 401 ''Invalid credentials.''"

definition ConflictException :: "string \<Rightarrow> js_error" where
  "ConflictException m = HttpException 409 m"

section \<open>Programs\<close>

type_synonym ('s, 'a) svc = "'s \<Rightarrow> (js_error + 'a) \<times> 's"

definition ret :: "'a \<Rightarrow> ('s, 'a) svc" where
  "ret a = (\<lambda>s. (Inr a, s))"

definition raise :: "js_error \<Rightarrow> ('s, 'a) svc" where
  "raise e = (\<lambda>s. (Inl e, s))"

definition bnd :: "('s, 'a) svc \<Rightarrow> ('a \<Rightarrow> ('s, 'b) svc) \<Rightarrow> ('s, 'b) svc" where
  "bnd m f = (\<lambda>s. case m s of (Inl e, s') \<Rightarrow> (Inl e, s') | (Inr a, s') \<Rightarrow> f a s')"

definition sq :: "('s, 'a) svc \<Rightarrow> ('s, 'b) svc \<Rightarrow> ('s, 'b) svc" where
  "sq m k = bnd m (\<lambda>_. k)"

definition try_catch :: "('s, 'a) svc \<Rightarrow> (js_error \<Rightarrow> ('s, 'a) svc) \<Rightarrow> ('s, 'a) svc" where
  "try_catch m h = (\<lambda>s. case m s of (Inl e, s') \<Rightarrow> h e s' | (Inr a, s') \<Rightarrow> (Inr a, s'))"

definition try_finally :: "('s, 'a) svc \<Rightarrow> ('s, unit) svc \<Rightarrow> ('s, 'a) svc" where
  "try_finally m f = (\<lambda>s. case m s of (r, s') \<Rightarrow>
     (case f s' of (Inl e, s'') \<Rightarrow> (Inl e, s'') | (Inr _, s'') \<Rightarrow> (r, s'')))"

definition gets :: "('s \<Rightarrow> 'a) \<Rightarrow> ('s, 'a) svc" where
  "gets f = (\<lambda>s. (Inr (f s), s))"

definition modify :: "('s \<Rightarrow> 's) \<Rightarrow> ('s, unit) svc" where
  "modify f = (\<lambda>s. (Inr (), f s))"

definition guard_js :: "bool \<Rightarrow> js_error \<Rightarrow> ('s, unit) svc" where
  "guard_js b e = (if b then ret () else raise e)"

definition map_svc :: "('a \<Rightarrow> 'b) \<Rightarrow> ('s, 'a) svc \<Rightarrow> ('s, 'b) svc" where
  "map_svc f m = bnd m (\<lambda>a. ret (f a))"

text \<open>Two promises joined: both run, and the first rejection, if any, is the result's.\<close>

definition fork_join :: "('s, 'a) svc \<Rightarrow> ('s, 'b) svc \<Rightarrow> ('s, 'a \<times> 'b) svc" where
  "fork_join m k = (\<lambda>s.
     case m s of (r, s') \<Rightarrow>
       (case k s' of (q, s'') \<Rightarrow>
          (case r of
             Inl e \<Rightarrow> Inl e
           | Inr a \<Rightarrow> (case q of Inl e \<Rightarrow> Inl e | Inr b \<Rightarrow> Inr (a, b)), s'')))"

lemma ret_run [simp]: "ret a s = (Inr a, s)"
  by (simp add: ret_def)

lemma raise_run [simp]: "raise e s = (Inl e, s)"
  by (simp add: raise_def)

lemma gets_run [simp]: "gets f s = (Inr (f s), s)"
  by (simp add: gets_def)

lemma modify_run [simp]: "modify f s = (Inr (), f s)"
  by (simp add: modify_def)

lemma bnd_run: "bnd m f s = (case m s of (Inl e, s') \<Rightarrow> (Inl e, s') | (Inr a, s') \<Rightarrow> f a s')"
  by (simp add: bnd_def)

lemma sq_run: "sq m k s = (case m s of (Inl e, s') \<Rightarrow> (Inl e, s') | (Inr a, s') \<Rightarrow> k s')"
  by (simp add: sq_def bnd_def)

lemma bnd_Inr [simp]: "m s = (Inr a, s') \<Longrightarrow> bnd m f s = f a s'"
  by (simp add: bnd_def)

lemma bnd_Inl [simp]: "m s = (Inl e, s') \<Longrightarrow> bnd m f s = (Inl e, s')"
  by (simp add: bnd_def)

lemma sq_Inr [simp]: "m s = (Inr a, s') \<Longrightarrow> sq m k s = k s'"
  by (simp add: sq_def)

lemma sq_Inl [simp]: "m s = (Inl e, s') \<Longrightarrow> sq m k s = (Inl e, s')"
  by (simp add: sq_def)

lemma guard_js_simps [simp]: "guard_js True e = ret ()" "guard_js False e = raise e"
  by (simp_all add: guard_js_def)

lemmas svc_run = bnd_run sq_run try_catch_def try_finally_def map_svc_def guard_js_def

section \<open>What a program keeps\<close>

text \<open>
  \<open>keeps R m\<close>: whatever the program does, also when it throws, the world it leaves is related
  to the world it started in.
\<close>

definition keeps :: "('s \<Rightarrow> 's \<Rightarrow> bool) \<Rightarrow> ('s, 'a) svc \<Rightarrow> bool" where
  "keeps R m \<longleftrightarrow> (\<forall>s. R s (snd (m s)))"

lemma keepsI: "(\<And>s. R s (snd (m s))) \<Longrightarrow> keeps R m"
  by (simp add: keeps_def)

lemma keepsD: "keeps R m \<Longrightarrow> R s (snd (m s))"
  by (simp add: keeps_def)

lemma keeps_result: "keeps R m \<Longrightarrow> m s = (r, s') \<Longrightarrow> R s s'"
  by (metis keepsD snd_conv)

lemma keeps_mono: "keeps R m \<Longrightarrow> (\<And>s s'. R s s' \<Longrightarrow> R' s s') \<Longrightarrow> keeps R' m"
  by (simp add: keeps_def)

text \<open>
  The interface between a property of worlds and the programs that keep it: a preorder is kept
  by a program as soon as its basic steps keep it, because the combinators only compose runs.
\<close>

locale world_order =
  fixes R :: "'s \<Rightarrow> 's \<Rightarrow> bool"
  assumes reflR: "R s s"
    and transR: "R s t \<Longrightarrow> R t u \<Longrightarrow> R s u"
begin

lemma keeps_ret: "keeps R (ret a)"
  by (simp add: keeps_def reflR)

lemma keeps_raise: "keeps R (raise e)"
  by (simp add: keeps_def reflR)

lemma keeps_gets: "keeps R (gets f)"
  by (simp add: keeps_def reflR)

lemma keeps_bnd: "keeps R m \<Longrightarrow> (\<And>a. keeps R (f a)) \<Longrightarrow> keeps R (bnd m f)"
  by (auto simp: keeps_def bnd_run split: prod.splits sum.splits)
     (metis snd_conv transR)+

lemma keeps_sq: "keeps R m \<Longrightarrow> keeps R k \<Longrightarrow> keeps R (sq m k)"
  by (simp add: sq_def keeps_bnd)

lemma keeps_try_catch: "keeps R m \<Longrightarrow> (\<And>e. keeps R (h e)) \<Longrightarrow> keeps R (try_catch m h)"
  by (auto simp: keeps_def try_catch_def split: prod.splits sum.splits)
     (metis snd_conv transR)+

lemma keeps_try_finally: "keeps R m \<Longrightarrow> keeps R f \<Longrightarrow> keeps R (try_finally m f)"
  by (auto simp: keeps_def try_finally_def split: prod.splits sum.splits)
     (metis snd_conv transR)+

lemma keeps_guard_js: "keeps R (guard_js b e)"
  by (cases b) (simp_all add: keeps_ret keeps_raise)

lemma keeps_map_svc: "keeps R m \<Longrightarrow> keeps R (map_svc f m)"
  by (simp add: map_svc_def keeps_bnd keeps_ret)

lemma keeps_fork_join: "keeps R m \<Longrightarrow> keeps R k \<Longrightarrow> keeps R (fork_join m k)"
  by (auto simp: keeps_def fork_join_def split: prod.splits) (metis snd_conv transR)

lemma keeps_case_sum:
  "(\<And>e. keeps R (f e)) \<Longrightarrow> (\<And>a. keeps R (g a)) \<Longrightarrow> keeps R (case v of Inl e \<Rightarrow> f e | Inr a \<Rightarrow> g a)"
  by (cases v) simp_all

lemma keeps_if: "(b \<Longrightarrow> keeps R m) \<Longrightarrow> (\<not> b \<Longrightarrow> keeps R k) \<Longrightarrow> keeps R (if b then m else k)"
  by simp

lemma keeps_case_option:
  "keeps R m \<Longrightarrow> (\<And>x. keeps R (k x)) \<Longrightarrow> keeps R (case v of None \<Rightarrow> m | Some x \<Rightarrow> k x)"
  by (cases v) simp_all

lemma keeps_modify: "(\<And>s. R s (f s)) \<Longrightarrow> keeps R (modify f)"
  by (simp add: keeps_def)

lemmas keeps_intros =
  keeps_ret keeps_raise keeps_gets keeps_bnd keeps_sq keeps_try_catch keeps_try_finally
  keeps_guard_js keeps_map_svc keeps_fork_join keeps_if keeps_case_option keeps_case_sum
  keeps_modify

end

section \<open>Outcome triples\<close>

text \<open>
  \<open>outcome P m Q E\<close>: from a world with \<open>P\<close> the program either returns a value and a world
  with \<open>Q\<close>, or throws and leaves a world with \<open>E\<close>.
\<close>

definition outcome ::
  "('s \<Rightarrow> bool) \<Rightarrow> ('s, 'a) svc \<Rightarrow> ('a \<Rightarrow> 's \<Rightarrow> bool) \<Rightarrow> (js_error \<Rightarrow> 's \<Rightarrow> bool) \<Rightarrow> bool" where
  "outcome P m Q E \<longleftrightarrow>
     (\<forall>s. P s \<longrightarrow> (case m s of (Inr a, s') \<Rightarrow> Q a s' | (Inl e, s') \<Rightarrow> E e s'))"

lemma outcome_Inr: "outcome P m Q E \<Longrightarrow> P s \<Longrightarrow> m s = (Inr a, s') \<Longrightarrow> Q a s'"
  by (force simp: outcome_def)

lemma outcome_Inl: "outcome P m Q E \<Longrightarrow> P s \<Longrightarrow> m s = (Inl e, s') \<Longrightarrow> E e s'"
  by (force simp: outcome_def)

lemma outcome_ret: "(\<And>s. P s \<Longrightarrow> Q a s) \<Longrightarrow> outcome P (ret a) Q E"
  by (simp add: outcome_def)

lemma outcome_raise: "(\<And>s. P s \<Longrightarrow> E e s) \<Longrightarrow> outcome P (raise e) Q E"
  by (simp add: outcome_def)

lemma outcome_bnd:
  assumes "outcome P m M E" and "\<And>a. outcome (M a) (f a) Q E"
  shows "outcome P (bnd m f) Q E"
  unfolding outcome_def
proof (intro allI impI)
  fix s assume P: "P s"
  obtain r s1 where m: "m s = (r, s1)" by (cases "m s")
  show "case bnd m f s of (Inr a, s') \<Rightarrow> Q a s' | (Inl e, s') \<Rightarrow> E e s'"
  proof (cases r)
    case (Inl e)
    with m P assms(1) show ?thesis by (auto dest: outcome_Inl)
  next
    case (Inr a)
    with m P assms(1) have "M a s1" by (auto dest: outcome_Inr)
    with m Inr assms(2)[of a] show ?thesis by (simp add: outcome_def)
  qed
qed

lemma outcome_sq:
  "outcome P m (\<lambda>_. M) E \<Longrightarrow> outcome M k Q E \<Longrightarrow> outcome P (sq m k) Q E"
  unfolding sq_def by (rule outcome_bnd)

lemma outcome_weaken:
  assumes "outcome P' m Q' E'" and "\<And>s. P s \<Longrightarrow> P' s"
    and "\<And>a s. Q' a s \<Longrightarrow> Q a s" and "\<And>e s. E' e s \<Longrightarrow> E e s"
  shows "outcome P m Q E"
  using assms unfolding outcome_def by (fastforce split: prod.splits sum.splits)

lemma outcome_if:
  "(b \<Longrightarrow> outcome P m Q E) \<Longrightarrow> (\<not> b \<Longrightarrow> outcome P k Q E) \<Longrightarrow>
   outcome P (if b then m else k) Q E"
  by simp

end
