(* ===== verification/Schema.thy ===== *)
theory Schema
  imports Prelude Svc
begin

text \<open>
  The relational schema of \<open>packages/db/migrations/20261015000000_init.ts\<close>: the enumerations with
  their labels, a record per table, the tables, the serial sequences and the database. Nullable
  columns that the program leaves null are options; a column with a default that no statement of
  the program sets to null is a plain value. The tables suggestion, user_debate_subscription,
  ticket_tag and assoc_ticket_tag are not used by the program and are left out. The theory also
  holds the coercion of the parameters that the driver sends, the row checks of the schema, and
  the integrity predicate they maintain.
\<close>

section \<open>Enumerations\<close>

datatype user_role = USER | MODERATOR | ADMIN

datatype notification_event = EV_ARGUMENT | EV_DEBATE | EV_SUGGESTION

datatype board_list = PENDING | IN_REVIEW | CANCELED | ACCEPTED

datatype argument_type = PRO | CON

fun board_list_name :: "board_list \<Rightarrow> string" where
  "board_list_name PENDING = ''PENDING''"
| "board_list_name IN_REVIEW = ''IN REVIEW''"
| "board_list_name CANCELED = ''CANCELED''"
| "board_list_name ACCEPTED = ''ACCEPTED''"

text \<open>\<open>enum_range(NULL::board_list_type)\<close>: the labels in the order of the declaration.\<close>

definition board_list_range :: "board_list list" where
  "board_list_range = [PENDING, IN_REVIEW, CANCELED, ACCEPTED]"

definition parse_board_list :: "string \<Rightarrow> board_list option" where
  "parse_board_list s = find (\<lambda>b. board_list_name b = s) board_list_range"

fun argument_type_name :: "argument_type \<Rightarrow> string" where
  "argument_type_name PRO = ''PRO''"
| "argument_type_name CON = ''CON''"

definition parse_argument_type :: "string \<Rightarrow> argument_type option" where
  "parse_argument_type s = find (\<lambda>b. argument_type_name b = s) [PRO, CON]"

lemma set_board_list_range [simp]: "set board_list_range = UNIV"
proof -
  have "b \<in> set board_list_range" for b by (cases b) (simp_all add: board_list_range_def)
  then show ?thesis by auto
qed

lemma distinct_board_list_range [simp]: "distinct board_list_range"
  by (simp add: board_list_range_def)

text \<open>The server compares the values of an enumeration by the order of its declaration.\<close>

fun board_list_position :: "board_list \<Rightarrow> nat" where
  "board_list_position PENDING = 0"
| "board_list_position IN_REVIEW = 1"
| "board_list_position CANCELED = 2"
| "board_list_position ACCEPTED = 3"

instantiation board_list :: linorder
begin

definition less_eq_board_list :: "board_list \<Rightarrow> board_list \<Rightarrow> bool" where
  "a \<le> b \<longleftrightarrow> board_list_position a \<le> board_list_position b"

definition less_board_list :: "board_list \<Rightarrow> board_list \<Rightarrow> bool" where
  "a < b \<longleftrightarrow> board_list_position a < board_list_position b"

instance
proof
  show "a = b" if "a \<le> b" "b \<le> a" for a b :: board_list
    using that by (cases a; cases b) (simp_all add: less_eq_board_list_def)
qed (auto simp: less_eq_board_list_def less_board_list_def)

end

lemma board_list_range_sorted: "board_list_range = sorted_list_of_set UNIV"
proof -
  have "sorted board_list_range"
    by (simp add: board_list_range_def less_eq_board_list_def)
  then show ?thesis
    by (metis distinct_board_list_range set_board_list_range sorted_list_of_set.idem_if_sorted_distinct)
qed

lemma parse_board_list_name [simp]: "parse_board_list (board_list_name b) = Some b"
  by (cases b) (simp_all add: parse_board_list_def board_list_range_def)

lemma parse_board_list_Some: "parse_board_list s = Some b \<longleftrightarrow> s = board_list_name b"
proof
  assume "parse_board_list s = Some b"
  then show "s = board_list_name b" by (auto simp: parse_board_list_def find_Some_iff)
qed simp

lemma parse_argument_type_name [simp]: "parse_argument_type (argument_type_name b) = Some b"
  by (cases b) (simp_all add: parse_argument_type_def)

section \<open>Rows and tables\<close>

record user_row =
  u_id :: int
  u_username :: string
  u_password :: string
  u_email :: string
  u_created_at :: nat
  u_role :: "user_role option"

record notification_row =
  n_id :: int
  n_title :: string
  n_content :: string
  n_recipient_id :: int
  n_event :: notification_event
  n_is_read :: bool

record ticket_row =
  t_id :: int
  t_created_by :: int
  t_assigned_to :: "int option"
  t_board_list :: "board_list option"

record debate_row =
  d_id :: int
  d_ticket_id :: int
  d_title :: string
  d_created_at :: nat
  d_modified_at :: nat
  d_created_by :: int

record debate_tag_row =
  dt_id :: int
  dt_name :: string

record assoc_row =
  adt_debate_id :: int
  adt_tag_id :: int

record argument_row =
  a_id :: int
  a_debate_id :: int
  a_ticket_id :: "int option"
  a_title :: string
  a_content :: string
  a_counterargument_to :: "int option"
  a_created_by :: int
  a_created_at :: nat
  a_type :: "argument_type option"
  a_is_draft :: bool

record comment_row =
  tc_id :: int
  tc_ticket_id :: int
  tc_content :: string
  tc_commenter_id :: int
  tc_created_at :: nat
  tc_modified_at :: nat

record tables =
  users :: "user_row list"
  notifications :: "notification_row list"
  tickets :: "ticket_row list"
  debates :: "debate_row list"
  debate_tags :: "debate_tag_row list"
  assoc_debate_tags :: "assoc_row list"
  arguments :: "argument_row list"
  ticket_comments :: "comment_row list"

text \<open>The last value each serial sequence has given.\<close>

record seqs =
  user_seq :: int
  notification_seq :: int
  ticket_seq :: int
  debate_seq :: int
  debate_tag_seq :: int
  argument_seq :: int
  ticket_comment_seq :: int

record database =
  tabs :: tables
  sqs :: seqs
  now :: nat

definition empty_tables :: tables where
  "empty_tables = \<lparr>users = [], notifications = [], tickets = [], debates = [], debate_tags = [],
     assoc_debate_tags = [], arguments = [], ticket_comments = []\<rparr>"

definition empty_database :: database where
  "empty_database = \<lparr>tabs = empty_tables,
     sqs = \<lparr>user_seq = 0, notification_seq = 0, ticket_seq = 0, debate_seq = 0,
             debate_tag_seq = 0, argument_seq = 0, ticket_comment_seq = 0\<rparr>, now = 0\<rparr>"

section \<open>Parameters\<close>

text \<open>
  A JavaScript value handed to the driver. Undefined and null become SQL null, a number and a
  string become text that the server reads at the parameter's type. \<open>JFrac\<close> is a number that is
  not an integer, by its text.
\<close>

datatype jsval = JUndefined | JNull | JNum int | JFrac string | JNaN | JStr string

definition int4 :: "int \<Rightarrow> bool" where
  "int4 i \<longleftrightarrow> - 2147483648 \<le> i \<and> i \<le> 2147483647"

definition is_digit :: "char \<Rightarrow> bool" where
  "is_digit c = (48 \<le> (of_char c :: nat) \<and> (of_char c :: nat) \<le> 57)"

text \<open>Decimal integers, with an optional sign and surrounding blanks.\<close>

fun parse_unsigned :: "string \<Rightarrow> int option" where
  "parse_unsigned s = (if s \<noteq> [] \<and> list_all is_digit s then Some (int (string_to_nat s)) else None)"

fun parse_signed :: "string \<Rightarrow> int option" where
  "parse_signed [] = None"
| "parse_signed (c # s) =
     (if c = CHR ''-'' then map_option uminus (parse_unsigned s)
      else if c = CHR ''+'' then parse_unsigned s
      else parse_unsigned (c # s))"

definition parse_int :: "string \<Rightarrow> int option" where
  "parse_int s = parse_signed (trim_both s)"

fun int_param :: "jsval \<Rightarrow> pg_error + int option" where
  "int_param JUndefined = Inr None"
| "int_param JNull = Inr None"
| "int_param (JNum i) = (if int4 i then Inr (Some i) else Inl NumericOutOfRange)"
| "int_param (JFrac s) = Inl InvalidTextRepresentation"
| "int_param JNaN = Inl InvalidTextRepresentation"
| "int_param (JStr s) =
     (case parse_int s of None \<Rightarrow> Inl InvalidTextRepresentation
      | Some i \<Rightarrow> (if int4 i then Inr (Some i) else Inl NumericOutOfRange))"

text \<open>
  The unary plus of JavaScript on a string: blanks are trimmed, the empty string is zero, an
  integer or a decimal fraction is its number and other text is \<open>NaN\<close>. Numerals with an exponent or
  a radix prefix and \<open>Infinity\<close> are not covered.
\<close>

fun decimal_fraction :: "string \<Rightarrow> bool" where
  "decimal_fraction s =
     (case split_on CHR ''.'' s of
        [a, b] \<Rightarrow> list_all is_digit (a @ b) \<and> a @ b \<noteq> []
      | _ \<Rightarrow> False)"

definition to_number :: "string \<Rightarrow> jsval" where
  "to_number str =
     (let s = trim_both str;
          unsigned = (case s of [] \<Rightarrow> s | c # cs \<Rightarrow>
             if c = CHR ''-'' \<or> c = CHR ''+'' then cs else s)
      in case s of [] \<Rightarrow> JNum 0
         | _ \<Rightarrow>
           (case parse_signed s of
              Some i \<Rightarrow> JNum i
            | None \<Rightarrow> if decimal_fraction unsigned then JFrac s else JNaN))"

text \<open>The unary plus on any value.\<close>

fun unary_plus :: "jsval \<Rightarrow> jsval" where
  "unary_plus JUndefined = JNaN"
| "unary_plus JNull = JNum 0"
| "unary_plus (JStr s) = to_number s"
| "unary_plus v = v"

text \<open>\<open>isNumber\<close> of \<open>utils\<close>, on a path parameter.\<close>

definition isNumber :: "string \<Rightarrow> bool" where
  "isNumber arg = (if arg = [] then False else to_number arg \<noteq> JNaN)"

text \<open>\<open>ParseIntPipe\<close>: an optional minus and digits, anything else is a bad request.\<close>

fun parse_int_pipe :: "string \<Rightarrow> js_error + int" where
  "parse_int_pipe [] = Inl (HttpException 400 ''Validation failed (numeric string is expected)'')"
| "parse_int_pipe (c # s) =
     (case (if c = CHR ''-'' then map_option uminus (parse_unsigned s)
            else parse_unsigned (c # s)) of
        None \<Rightarrow> Inl (HttpException 400 ''Validation failed (numeric string is expected)'')
      | Some i \<Rightarrow> Inr i)"

text \<open>A value assigned to a not-null column.\<close>

definition not_null :: "pg_error + 'a option \<Rightarrow> pg_error + 'a" where
  "not_null p = (case p of Inl e \<Rightarrow> Inl e | Inr None \<Rightarrow> Inl NotNullViolation | Inr (Some x) \<Rightarrow> Inr x)"

text \<open>Assignment to \<open>varchar(n)\<close>: excess blanks are cut, any other excess is an error.\<close>

definition varchar :: "nat \<Rightarrow> string \<Rightarrow> pg_error + string" where
  "varchar n s =
     (if length s \<le> n then Inr s
      else if list_all (\<lambda>c. c = CHR '' '') (drop n s) then Inr (take n s)
      else Inl StringTruncation)"

definition enum_param :: "'a option \<Rightarrow> pg_error + 'a" where
  "enum_param p = (case p of None \<Rightarrow> Inl InvalidTextRepresentation | Some x \<Rightarrow> Inr x)"

definition nextval :: "int \<Rightarrow> pg_error + int" where
  "nextval v = (if v < 2147483647 then Inr (v + 1) else Inl SequenceExhausted)"

text \<open>The decimal rendering of an integer reads back as the integer.\<close>

lemma nat_to_string_is_digit: "list_all is_digit (nat_to_string n)"
  using nat_to_string_digits[of _ n] by (auto simp: list_all_iff is_digit_def)

lemma parse_unsigned_nat [simp]: "parse_unsigned (nat_to_string n) = Some (int n)"
  by (simp add: nat_to_string_is_digit)

lemma nat_to_string_head:
  assumes "nat_to_string n = c # cs"
  shows "c \<noteq> CHR ''-''" and "c \<noteq> CHR ''+''" and "c \<noteq> CHR '' ''"
proof -
  have "48 \<le> (of_char c :: nat)" using nat_to_string_digits[of c n] assms by simp
  then show "c \<noteq> CHR ''-''" "c \<noteq> CHR ''+''" "c \<noteq> CHR '' ''" by auto
qed

lemma parse_signed_int [simp]: "parse_signed (int_to_string i) = Some i"
proof (cases "i < 0")
  case False
  obtain c cs where n: "nat_to_string (nat i) = c # cs"
    by (metis list.exhaust nat_to_string_not_Nil)
  have "parse_unsigned (c # cs) = Some (int (nat i))"
    using parse_unsigned_nat[of "nat i"] n by simp
  with False n nat_to_string_head[OF n] show ?thesis
    by (simp add: int_to_string_def del: parse_unsigned.simps)
qed (simp add: int_to_string_def del: parse_unsigned.simps)

lemma parse_int_pipe_int [simp]: "parse_int_pipe (int_to_string i) = Inr i"
proof (cases "i < 0")
  case False
  obtain c cs where n: "nat_to_string (nat i) = c # cs"
    by (metis list.exhaust nat_to_string_not_Nil)
  have "parse_unsigned (c # cs) = Some (int (nat i))"
    using parse_unsigned_nat[of "nat i"] n by simp
  with False n nat_to_string_head[OF n] show ?thesis
    by (simp add: int_to_string_def del: parse_unsigned.simps)
qed (simp add: int_to_string_def del: parse_unsigned.simps)

lemma int_to_string_no_blank: "CHR '' '' \<notin> set (int_to_string i)"
  using nat_to_string_digits[of "CHR '' ''"] by (auto simp: int_to_string_def)

lemma trim_both_no_blank: "CHR '' '' \<notin> set s \<Longrightarrow> trim_both s = s"
proof -
  assume a: "CHR '' '' \<notin> set s"
  have "dropWhile ((=) CHR '' '') t = t" if "CHR '' '' \<notin> set t" for t
    using that by (cases t) auto
  with a show ?thesis by (simp add: trim_both_def)
qed

lemma to_number_int [simp]: "to_number (int_to_string i) = JNum i"
proof -
  obtain c cs where i: "int_to_string i = c # cs" by (cases "int_to_string i") simp_all
  have "trim_both (int_to_string i) = c # cs"
    using i int_to_string_no_blank[of i] by (metis trim_both_no_blank)
  moreover have "parse_signed (c # cs) = Some i" using parse_signed_int[of i] i by simp
  ultimately show ?thesis by (simp add: to_number_def Let_def del: parse_signed.simps)
qed

lemma isNumber_int [simp]: "isNumber (int_to_string i)"
  by (simp add: isNumber_def)

lemma varchar_length: "varchar n s = Inr s' \<Longrightarrow> length s' \<le> n"
  by (auto simp: varchar_def split: if_splits)

lemma varchar_short: "length s \<le> n \<Longrightarrow> varchar n s = Inr s"
  by (simp add: varchar_def)

lemma int_param_JNum_Inr [simp]: "int_param (JNum i) = Inr p \<longleftrightarrow> int4 i \<and> p = Some i"
  by auto

declare int_param.simps(3) [simp del]

lemma not_null_Inr [simp]: "not_null p = Inr x \<longleftrightarrow> p = Inr (Some x)"
  by (auto simp: not_null_def split: sum.splits option.splits)

lemma enum_param_Inr [simp]: "enum_param p = Inr x \<longleftrightarrow> p = Some x"
  by (simp add: enum_param_def split: option.splits)

lemma nextval_Inr: "nextval v = Inr i \<longleftrightarrow> i = v + 1 \<and> v < 2147483647"
  by (auto simp: nextval_def)

section \<open>Statements\<close>

text \<open>
  A statement maps the database to a result or an error and the new database. An error leaves
  the tables as they were (a statement is atomic); a sequence that has advanced stays advanced.
\<close>

type_synonym 'a stmt = "database \<Rightarrow> (pg_error + 'a) \<times> database"

definition with_param :: "pg_error + 'p \<Rightarrow> ('p \<Rightarrow> 'a stmt) \<Rightarrow> 'a stmt" where
  "with_param p k = (\<lambda>db. case p of Inl e \<Rightarrow> (Inl e, db) | Inr x \<Rightarrow> k x db)"

definition select_stmt :: "(tables \<Rightarrow> 'a) \<Rightarrow> 'a stmt" where
  "select_stmt f = (\<lambda>db. (Inr (f (tabs db)), db))"

text \<open>An update of the tables that the schema's constraints allow, with its row count.\<close>

definition update_stmt :: "(tables \<Rightarrow> tables) \<Rightarrow> (tables \<Rightarrow> 'a) \<Rightarrow> 'a stmt" where
  "update_stmt f r = (\<lambda>db. (Inr (r (tabs db)), db\<lparr>tabs := f (tabs db)\<rparr>))"

definition user_ids :: "tables \<Rightarrow> int list" where
  "user_ids ts = map u_id (users ts)"

definition ticket_ids :: "tables \<Rightarrow> int list" where
  "ticket_ids ts = map t_id (tickets ts)"

definition debate_ids :: "tables \<Rightarrow> int list" where
  "debate_ids ts = map d_id (debates ts)"

section \<open>Inserting rows\<close>

text \<open>
  An insert into a table with a serial key: the next value of the sequence, the primary key and
  the other constraints of the table, then the row. The sequence stays advanced when a constraint fails.
\<close>

definition serial_insert ::
  "(seqs \<Rightarrow> int) \<Rightarrow> (int \<Rightarrow> seqs \<Rightarrow> seqs) \<Rightarrow> (tables \<Rightarrow> int list) \<Rightarrow>
   (tables \<Rightarrow> pg_error option) \<Rightarrow> (int \<Rightarrow> nat \<Rightarrow> 'r) \<Rightarrow> ('r \<Rightarrow> tables \<Rightarrow> tables) \<Rightarrow> 'r stmt" where
  "serial_insert latest bump keys violated row add = (\<lambda>db.
     case nextval (latest (sqs db)) of
       Inl e \<Rightarrow> (Inl e, db)
     | Inr i \<Rightarrow>
         (let db1 = db\<lparr>sqs := bump i (sqs db)\<rparr>
          in case (if i \<in> set (keys (tabs db)) then Some UniqueViolation
                   else violated (tabs db)) of
               Some e \<Rightarrow> (Inl e, db1)
             | None \<Rightarrow> (Inr (row i (now db)), db1\<lparr>tabs := add (row i (now db)) (tabs db)\<rparr>)))"

definition references :: "int \<Rightarrow> int list \<Rightarrow> pg_error option" where
  "references i keys = (if i \<in> set keys then None else Some ForeignKeyViolation)"

definition insert_user :: "string \<Rightarrow> string \<Rightarrow> string \<Rightarrow> user_role option \<Rightarrow> user_row stmt" where
  "insert_user username password email role =
     with_param (varchar 80 username) (\<lambda>un.
     with_param (varchar 65 password) (\<lambda>pw.
     with_param (varchar 255 email) (\<lambda>em.
       serial_insert user_seq (\<lambda>i q. q\<lparr>user_seq := i\<rparr>) user_ids
         (\<lambda>ts. if un \<in> set (map u_username (users ts)) \<or> em \<in> set (map u_email (users ts))
               then Some UniqueViolation else None)
         (\<lambda>i t. \<lparr>u_id = i, u_username = un, u_password = pw, u_email = em,
                 u_created_at = t, u_role = role\<rparr>)
         (\<lambda>r ts. ts\<lparr>users := users ts @ [r]\<rparr>))))"

definition insert_ticket ::
  "jsval \<Rightarrow> int option \<Rightarrow> board_list option \<Rightarrow> ticket_row stmt" where
  "insert_ticket createdBy assignedTo boardList =
     with_param (not_null (int_param createdBy)) (\<lambda>cb.
       serial_insert ticket_seq (\<lambda>i q. q\<lparr>ticket_seq := i\<rparr>) ticket_ids (\<lambda>ts. references cb (user_ids ts))
         (\<lambda>i t. \<lparr>t_id = i, t_created_by = cb, t_assigned_to = assignedTo,
                 t_board_list = boardList\<rparr>)
         (\<lambda>r ts. ts\<lparr>tickets := tickets ts @ [r]\<rparr>))"

definition insert_debate :: "int \<Rightarrow> string \<Rightarrow> jsval \<Rightarrow> debate_row stmt" where
  "insert_debate ticketId title createdBy =
     with_param (varchar 80 title) (\<lambda>ttl.
     with_param (not_null (int_param createdBy)) (\<lambda>cb.
       serial_insert debate_seq (\<lambda>i q. q\<lparr>debate_seq := i\<rparr>) debate_ids (\<lambda>_. None)
         (\<lambda>i t. \<lparr>d_id = i, d_ticket_id = ticketId, d_title = ttl, d_created_at = t,
                 d_modified_at = t, d_created_by = cb\<rparr>)
         (\<lambda>r ts. ts\<lparr>debates := debates ts @ [r]\<rparr>)))"

definition insert_debate_tag :: "string \<Rightarrow> debate_tag_row stmt" where
  "insert_debate_tag name =
     with_param (varchar 30 name) (\<lambda>nm.
       serial_insert debate_tag_seq (\<lambda>i q. q\<lparr>debate_tag_seq := i\<rparr>) (\<lambda>ts. map dt_id (debate_tags ts)) (\<lambda>_. None)
         (\<lambda>i t. \<lparr>dt_id = i, dt_name = nm\<rparr>)
         (\<lambda>r ts. ts\<lparr>debate_tags := debate_tags ts @ [r]\<rparr>))"

text \<open>The associative table has a composite primary key and no sequence.\<close>

definition insert_assoc_debate_tag :: "int \<times> jsval \<Rightarrow> assoc_row stmt" where
  "insert_assoc_debate_tag = (\<lambda>(debateId, tagId).
     with_param (not_null (int_param tagId)) (\<lambda>tg db.
       let row = \<lparr>adt_debate_id = debateId, adt_tag_id = tg\<rparr>
       in if row \<in> set (assoc_debate_tags (tabs db)) then (Inl UniqueViolation, db)
          else if debateId \<notin> set (debate_ids (tabs db)) then (Inl ForeignKeyViolation, db)
          else (Inr row, db\<lparr>tabs := (tabs db)\<lparr>assoc_debate_tags :=
                  assoc_debate_tags (tabs db) @ [row]\<rparr>\<rparr>)))"

record argument_values =
  av_debate_id :: jsval
  av_ticket_id :: "int option"
  av_title :: string
  av_content :: string
  av_counterargument_to :: jsval
  av_created_by :: jsval
  av_type :: string
  av_is_draft :: bool

definition insert_argument :: "argument_values \<Rightarrow> argument_row stmt" where
  "insert_argument v =
     with_param (not_null (int_param (av_debate_id v))) (\<lambda>did.
     with_param (varchar 80 (av_title v)) (\<lambda>ttl.
     with_param (int_param (av_counterargument_to v)) (\<lambda>ct.
     with_param (not_null (int_param (av_created_by v))) (\<lambda>cb.
     with_param (enum_param (parse_argument_type (av_type v))) (\<lambda>ty.
       serial_insert argument_seq (\<lambda>i q. q\<lparr>argument_seq := i\<rparr>) (\<lambda>ts. map a_id (arguments ts))
         (\<lambda>ts. case references did (debate_ids ts) of
                 Some e \<Rightarrow> Some e | None \<Rightarrow> references cb (user_ids ts))
         (\<lambda>i t. \<lparr>a_id = i, a_debate_id = did, a_ticket_id = av_ticket_id v, a_title = ttl,
                 a_content = av_content v, a_counterargument_to = ct, a_created_by = cb,
                 a_created_at = t, a_type = Some ty, a_is_draft = av_is_draft v\<rparr>)
         (\<lambda>r ts. ts\<lparr>arguments := arguments ts @ [r]\<rparr>))))))"

definition insert_ticket_comment :: "int \<Rightarrow> string \<Rightarrow> int \<Rightarrow> comment_row stmt" where
  "insert_ticket_comment ticketId content commenterId =
     serial_insert ticket_comment_seq (\<lambda>i q. q\<lparr>ticket_comment_seq := i\<rparr>) (\<lambda>ts. map tc_id (ticket_comments ts))
       (\<lambda>ts. case references ticketId (ticket_ids ts) of
               Some e \<Rightarrow> Some e | None \<Rightarrow> references commenterId (user_ids ts))
       (\<lambda>i t. \<lparr>tc_id = i, tc_ticket_id = ticketId, tc_content = content,
               tc_commenter_id = commenterId, tc_created_at = t, tc_modified_at = t\<rparr>)
       (\<lambda>r ts. ts\<lparr>ticket_comments := ticket_comments ts @ [r]\<rparr>)"

definition insert_notification ::
  "string \<Rightarrow> string \<Rightarrow> notification_event \<Rightarrow> jsval \<Rightarrow> notification_row stmt" where
  "insert_notification title content event recipientId =
     with_param (varchar 40 title) (\<lambda>ttl.
     with_param (not_null (int_param recipientId)) (\<lambda>rcp.
       serial_insert notification_seq (\<lambda>i q. q\<lparr>notification_seq := i\<rparr>) (\<lambda>ts. map n_id (notifications ts))
         (\<lambda>ts. references rcp (user_ids ts))
         (\<lambda>i t. \<lparr>n_id = i, n_title = ttl, n_content = content, n_recipient_id = rcp,
                 n_event = event, n_is_read = False\<rparr>)
         (\<lambda>r ts. ts\<lparr>notifications := notifications ts @ [r]\<rparr>)))"

text \<open>A statement that inserts several rows: all of them or, after an error, none.\<close>

fun insert_rows :: "('v \<Rightarrow> 'a stmt) \<Rightarrow> 'v list \<Rightarrow> 'a list stmt" where
  "insert_rows ins [] db = (Inr [], db)"
| "insert_rows ins (v # vs) db =
     (case ins v db of
        (Inl e, db') \<Rightarrow> (Inl e, db')
      | (Inr a, db') \<Rightarrow>
          (case insert_rows ins vs db' of
             (Inl e, db'') \<Rightarrow> (Inl e, db''\<lparr>tabs := tabs db\<rparr>)
           | (Inr as, db'') \<Rightarrow> (Inr (a # as), db'')))"

section \<open>Integrity\<close>

text \<open>A serial key: the values are distinct, positive and at most the last one given.\<close>

definition serial_key :: "('r \<Rightarrow> int) \<Rightarrow> 'r list \<Rightarrow> int \<Rightarrow> bool" where
  "serial_key k rs s \<longleftrightarrow> 0 \<le> s \<and> distinct (map k rs) \<and> list_all (\<lambda>r. 0 < k r \<and> k r \<le> s) rs"

lemma serial_key_mono: "serial_key k rs s \<Longrightarrow> s \<le> s' \<Longrightarrow> serial_key k rs s'"
  by (auto simp: serial_key_def list_all_iff)

lemma serial_key_snoc:
  "serial_key k rs s \<Longrightarrow> k r = s + 1 \<Longrightarrow> serial_key k (rs @ [r]) (s + 1)"
  by (auto simp: serial_key_def list_all_iff)

lemma serial_key_map:
  "(\<And>r. k (f r) = k r) \<Longrightarrow> serial_key k (map f rs) s = serial_key k rs s"
  by (simp add: serial_key_def comp_def list_all_iff)

definition seq_le :: "seqs \<Rightarrow> seqs \<Rightarrow> bool" where
  "seq_le p q \<longleftrightarrow> user_seq p \<le> user_seq q \<and> notification_seq p \<le> notification_seq q
     \<and> ticket_seq p \<le> ticket_seq q \<and> debate_seq p \<le> debate_seq q
     \<and> debate_tag_seq p \<le> debate_tag_seq q \<and> argument_seq p \<le> argument_seq q
     \<and> ticket_comment_seq p \<le> ticket_comment_seq q"

lemma seq_le_refl [simp]: "seq_le p p"
  by (simp add: seq_le_def)

lemma seq_le_trans [trans]: "seq_le p q \<Longrightarrow> seq_le q r \<Longrightarrow> seq_le p r"
  by (auto simp: seq_le_def)

definition keys_ok :: "tables \<Rightarrow> seqs \<Rightarrow> bool" where
  "keys_ok ts q \<longleftrightarrow> serial_key u_id (users ts) (user_seq q)
     \<and> serial_key n_id (notifications ts) (notification_seq q)
     \<and> serial_key t_id (tickets ts) (ticket_seq q)
     \<and> serial_key d_id (debates ts) (debate_seq q)
     \<and> serial_key dt_id (debate_tags ts) (debate_tag_seq q)
     \<and> serial_key a_id (arguments ts) (argument_seq q)
     \<and> serial_key tc_id (ticket_comments ts) (ticket_comment_seq q)"

definition unique_ok :: "tables \<Rightarrow> bool" where
  "unique_ok ts \<longleftrightarrow> distinct (map u_username (users ts)) \<and> distinct (map u_email (users ts))
     \<and> distinct (assoc_debate_tags ts)"

definition refs_ok :: "tables \<Rightarrow> bool" where
  "refs_ok ts \<longleftrightarrow> list_all (\<lambda>t. t_created_by t \<in> set (user_ids ts)) (tickets ts)
     \<and> list_all (\<lambda>r. adt_debate_id r \<in> set (debate_ids ts)) (assoc_debate_tags ts)
     \<and> list_all (\<lambda>a. a_debate_id a \<in> set (debate_ids ts) \<and> a_created_by a \<in> set (user_ids ts))
         (arguments ts)
     \<and> list_all (\<lambda>c. tc_ticket_id c \<in> set (ticket_ids ts) \<and> tc_commenter_id c \<in> set (user_ids ts))
         (ticket_comments ts)
     \<and> list_all (\<lambda>n. n_recipient_id n \<in> set (user_ids ts)) (notifications ts)"

definition widths_ok :: "tables \<Rightarrow> bool" where
  "widths_ok ts \<longleftrightarrow> list_all (\<lambda>u. length (u_username u) \<le> 80 \<and> length (u_email u) \<le> 255) (users ts)
     \<and> list_all (\<lambda>n. length (n_title n) \<le> 40) (notifications ts)
     \<and> list_all (\<lambda>d. length (d_title d) \<le> 80) (debates ts)
     \<and> list_all (\<lambda>g. length (dt_name g) \<le> 30) (debate_tags ts)
     \<and> list_all (\<lambda>a. length (a_title a) \<le> 80) (arguments ts)"

definition schema_ok :: "database \<Rightarrow> bool" where
  "schema_ok db \<longleftrightarrow> keys_ok (tabs db) (sqs db) \<and> unique_ok (tabs db) \<and> refs_ok (tabs db)
     \<and> widths_ok (tabs db)"

lemma schema_ok_seq_mono:
  assumes "schema_ok db" and "seq_le (sqs db) q"
  shows "schema_ok (db\<lparr>sqs := q\<rparr>)"
  using assms by (auto simp: schema_ok_def keys_ok_def seq_le_def elim: serial_key_mono)

lemma schema_ok_now [simp]: "schema_ok (db\<lparr>now := n\<rparr>) = schema_ok db"
  by (simp add: schema_ok_def)

lemma schema_ok_empty [simp]: "schema_ok empty_database"
  by (simp add: schema_ok_def empty_database_def empty_tables_def keys_ok_def unique_ok_def
      refs_ok_def widths_ok_def serial_key_def)

text \<open>
  What every statement of the program promises: the sequences only grow, the clock stays, an
  error leaves the tables alone, and the integrity of the schema is kept.
\<close>

definition stmt_ok :: "'a stmt \<Rightarrow> bool" where
  "stmt_ok st \<longleftrightarrow> (\<forall>db. seq_le (sqs db) (sqs (snd (st db))) \<and> now (snd (st db)) = now db
     \<and> (isl (fst (st db)) \<longrightarrow> tabs (snd (st db)) = tabs db)
     \<and> (schema_ok db \<longrightarrow> schema_ok (snd (st db))))"

lemma stmt_okI:
  assumes "\<And>db. seq_le (sqs db) (sqs (snd (st db)))" and "\<And>db. now (snd (st db)) = now db"
    and "\<And>db. isl (fst (st db)) \<Longrightarrow> tabs (snd (st db)) = tabs db"
    and "\<And>db. schema_ok db \<Longrightarrow> schema_ok (snd (st db))"
  shows "stmt_ok st"
  using assms by (simp add: stmt_ok_def)

lemma stmt_ok_seq: "stmt_ok st \<Longrightarrow> st db = (r, db') \<Longrightarrow> seq_le (sqs db) (sqs db')"
  by (metis stmt_ok_def snd_conv)

lemma stmt_ok_now: "stmt_ok st \<Longrightarrow> st db = (r, db') \<Longrightarrow> now db' = now db"
  by (metis stmt_ok_def snd_conv)

lemma stmt_ok_error: "stmt_ok st \<Longrightarrow> st db = (Inl e, db') \<Longrightarrow> tabs db' = tabs db"
  by (metis stmt_ok_def fst_conv snd_conv sum.disc(1))

lemma stmt_ok_schema: "stmt_ok st \<Longrightarrow> st db = (r, db') \<Longrightarrow> schema_ok db \<Longrightarrow> schema_ok db'"
  by (metis stmt_ok_def snd_conv)

lemma stmt_ok_with_param: "(\<And>x. p = Inr x \<Longrightarrow> stmt_ok (k x)) \<Longrightarrow> stmt_ok (with_param p k)"
  by (cases p) (auto simp: stmt_ok_def with_param_def)

lemma stmt_ok_select [simp]: "stmt_ok (select_stmt f)"
  by (simp add: stmt_ok_def select_stmt_def)

lemma stmt_ok_update:
  assumes "\<And>db. schema_ok db \<Longrightarrow> schema_ok (db\<lparr>tabs := f (tabs db)\<rparr>)"
  shows "stmt_ok (update_stmt f r)"
  using assms by (simp add: stmt_ok_def update_stmt_def)

lemma stmt_ok_insert_rows:
  assumes ok: "\<And>v. stmt_ok (ins v)"
  shows "stmt_ok (insert_rows ins vs)"
proof (induction vs)
  case Nil
  then show ?case by (simp add: stmt_ok_def)
next
  case (Cons v vs)
  show ?case
  proof (rule stmt_okI)
    fix db
    obtain r db1 where 1: "ins v db = (r, db1)" by (cases "ins v db")
    obtain r' db2 where 2: "insert_rows ins vs db1 = (r', db2)" by (cases "insert_rows ins vs db1")
    note step = 1 2
    note ok1 = stmt_ok_seq[OF ok 1] stmt_ok_now[OF ok 1]
    note ok2 = stmt_ok_seq[OF Cons.IH 2] stmt_ok_now[OF Cons.IH 2]
    show "seq_le (sqs db) (sqs (snd (insert_rows ins (v # vs) db)))"
      using step ok1 ok2 by (auto split: sum.splits intro: seq_le_trans)
    show "now (snd (insert_rows ins (v # vs) db)) = now db"
      using step ok1 ok2 by (auto split: sum.splits)
    show "tabs (snd (insert_rows ins (v # vs) db)) = tabs db"
      if "isl (fst (insert_rows ins (v # vs) db))"
      using that step stmt_ok_error[OF ok, of v db] by (auto split: sum.splits)
    show "schema_ok (snd (insert_rows ins (v # vs) db))" if "schema_ok db"
    proof -
      have s1: "schema_ok db1" using stmt_ok_schema[OF ok 1 that] .
      have "schema_ok db2" using stmt_ok_schema[OF Cons.IH 2 s1] .
      moreover have "schema_ok (db2\<lparr>tabs := tabs db\<rparr>)"
      proof -
        have "schema_ok (db\<lparr>sqs := sqs db2\<rparr>)"
          using that seq_le_trans[OF ok1(1) ok2(1)] by (rule schema_ok_seq_mono)
        then show ?thesis by (simp add: schema_ok_def)
      qed
      ultimately show ?thesis using step s1 by (auto split: sum.splits)
    qed
  qed
qed

section \<open>The inserts keep the integrity\<close>

lemmas table_defs = schema_ok_def keys_ok_def unique_ok_def refs_ok_def widths_ok_def
  user_ids_def ticket_ids_def debate_ids_def list_all_iff

lemma keys_ok_seq:
  "keys_ok ts q \<Longrightarrow> seq_le q q' \<Longrightarrow> keys_ok ts q'"
  by (auto simp: keys_ok_def seq_le_def elim: serial_key_mono)

lemma seq_le_step:
  "i = user_seq q + 1 \<Longrightarrow> seq_le q (q\<lparr>user_seq := i\<rparr>)"
  "i = notification_seq q + 1 \<Longrightarrow> seq_le q (q\<lparr>notification_seq := i\<rparr>)"
  "i = ticket_seq q + 1 \<Longrightarrow> seq_le q (q\<lparr>ticket_seq := i\<rparr>)"
  "i = debate_seq q + 1 \<Longrightarrow> seq_le q (q\<lparr>debate_seq := i\<rparr>)"
  "i = debate_tag_seq q + 1 \<Longrightarrow> seq_le q (q\<lparr>debate_tag_seq := i\<rparr>)"
  "i = argument_seq q + 1 \<Longrightarrow> seq_le q (q\<lparr>argument_seq := i\<rparr>)"
  "i = ticket_comment_seq q + 1 \<Longrightarrow> seq_le q (q\<lparr>ticket_comment_seq := i\<rparr>)"
  by (simp_all add: seq_le_def)

text \<open>An insert with a serial key keeps the integrity when its row does.\<close>

lemma stmt_ok_serial_insert:
  assumes "\<And>i q. i = latest q + 1 \<Longrightarrow> seq_le q (bump i q)"
    and "\<And>db i r. schema_ok db \<Longrightarrow> i = latest (sqs db) + 1 \<Longrightarrow> violated (tabs db) = None \<Longrightarrow>
      schema_ok (db\<lparr>sqs := bump i (sqs db), tabs := add (row i (now db)) (tabs db)\<rparr>)"
  shows "stmt_ok (serial_insert latest bump keys violated row add)"
proof (rule stmt_okI)
  fix db :: database
  assume ok: "schema_ok db"
  show "schema_ok (snd (serial_insert latest bump keys violated row add db))"
  proof (cases "nextval (latest (sqs db))")
    case (Inr i)
    then have i: "i = latest (sqs db) + 1" by (simp add: nextval_Inr)
    have "schema_ok (db\<lparr>sqs := bump i (sqs db)\<rparr>)"
      using ok assms(1)[OF i] by (rule schema_ok_seq_mono)
    with Inr assms(2)[OF ok i] show ?thesis
      by (auto simp: serial_insert_def Let_def split: option.splits)
  qed (simp add: serial_insert_def ok)
qed (use assms(1) in
  \<open>auto simp: serial_insert_def Let_def nextval_def split: sum.splits option.splits\<close>)

lemma references_None [simp]: "references i ks = None \<longleftrightarrow> i \<in> set ks"
  by (simp add: references_def)

lemmas insert_ok = nextval_Inr seq_le_step table_defs serial_key_snoc

lemma stmt_ok_insert_user [simp]: "stmt_ok (insert_user un pw em role)"
  unfolding insert_user_def
  by (intro stmt_ok_with_param stmt_ok_serial_insert)
     (auto simp: insert_ok dest!: varchar_length split: if_splits)

lemma stmt_ok_insert_ticket [simp]: "stmt_ok (insert_ticket cb asg bl)"
  unfolding insert_ticket_def
  by (intro stmt_ok_with_param stmt_ok_serial_insert) (auto simp: insert_ok)

lemma stmt_ok_insert_debate [simp]: "stmt_ok (insert_debate tid ttl cb)"
  unfolding insert_debate_def
  by (intro stmt_ok_with_param stmt_ok_serial_insert) (auto simp: insert_ok dest!: varchar_length)

lemma stmt_ok_insert_debate_tag [simp]: "stmt_ok (insert_debate_tag nm)"
  unfolding insert_debate_tag_def
  by (intro stmt_ok_with_param stmt_ok_serial_insert) (auto simp: insert_ok dest!: varchar_length)

lemma stmt_ok_insert_assoc [simp]: "stmt_ok (insert_assoc_debate_tag p)"
proof (cases p)
  case (Pair a b)
  have "stmt_ok (\<lambda>db. if r \<in> set (assoc_debate_tags (tabs db)) then (Inl UniqueViolation, db)
      else if a \<notin> set (debate_ids (tabs db)) then (Inl ForeignKeyViolation, db)
      else (Inr r, db\<lparr>tabs := (tabs db)\<lparr>assoc_debate_tags :=
              assoc_debate_tags (tabs db) @ [r]\<rparr>\<rparr>))" if "adt_debate_id r = a" for r
    by (rule stmt_okI) (use that in \<open>auto simp: table_defs\<close>)
  from this[of "\<lparr>adt_debate_id = a, adt_tag_id = tg\<rparr>" for tg]
  show ?thesis unfolding Pair insert_assoc_debate_tag_def prod.case Let_def
    by (intro stmt_ok_with_param) simp
qed

lemma stmt_ok_insert_argument [simp]: "stmt_ok (insert_argument v)"
  unfolding insert_argument_def
  by (intro stmt_ok_with_param stmt_ok_serial_insert)
     (auto simp: insert_ok dest!: varchar_length split: option.splits)

lemma stmt_ok_insert_comment [simp]: "stmt_ok (insert_ticket_comment tid c u)"
  unfolding insert_ticket_comment_def
  by (intro stmt_ok_serial_insert) (auto simp: insert_ok split: option.splits)

lemma stmt_ok_insert_notification [simp]: "stmt_ok (insert_notification ttl c ev rcp)"
  unfolding insert_notification_def
  by (intro stmt_ok_with_param stmt_ok_serial_insert) (auto simp: insert_ok dest!: varchar_length)

section \<open>What an insert returns\<close>

lemma with_param_Inr:
  "with_param p k db = (Inr a, db') \<longleftrightarrow> (\<exists>x. p = Inr x \<and> k x db = (Inr a, db'))"
  by (cases p) (auto simp: with_param_def)

lemma serial_insert_Inr:
  "serial_insert latest bump keys violated row add db = (Inr r, db') \<longleftrightarrow>
     latest (sqs db) < 2147483647 \<and> latest (sqs db) + 1 \<notin> set (keys (tabs db))
     \<and> violated (tabs db) = None
     \<and> r = row (latest (sqs db) + 1) (now db)
     \<and> db' = db\<lparr>sqs := bump (latest (sqs db) + 1) (sqs db), tabs := add r (tabs db)\<rparr>"
  by (auto simp: serial_insert_def nextval_def Let_def split: option.splits)

lemma insert_ticket_Inr:
  assumes "insert_ticket cb asg bl db = (Inr t, db')"
  shows "tabs db' = (tabs db)\<lparr>tickets := tickets (tabs db) @ [t]\<rparr>"
    and "t_id t = ticket_seq (sqs db) + 1" and "int_param cb = Inr (Some (t_created_by t))"
    and "t_created_by t \<in> set (user_ids (tabs db))"
    and "t_assigned_to t = asg" and "t_board_list t = bl"
    and "t_id t \<notin> set (ticket_ids (tabs db))"
  using assms by (auto simp: insert_ticket_def with_param_Inr serial_insert_Inr)

lemma insert_debate_Inr:
  assumes "insert_debate tid title cb db = (Inr d, db')"
  shows "tabs db' = (tabs db)\<lparr>debates := debates (tabs db) @ [d]\<rparr>"
    and "d_id d = debate_seq (sqs db) + 1" and "d_ticket_id d = tid"
    and "varchar 80 title = Inr (d_title d)" and "int_param cb = Inr (Some (d_created_by d))"
    and "d_id d \<notin> set (debate_ids (tabs db))"
  using assms by (auto simp: insert_debate_def with_param_Inr serial_insert_Inr)

lemma insert_argument_Inr:
  assumes "insert_argument v db = (Inr a, db')"
  shows "tabs db' = (tabs db)\<lparr>arguments := arguments (tabs db) @ [a]\<rparr>"
    and "a_id a = argument_seq (sqs db) + 1"
    and "int_param (av_debate_id v) = Inr (Some (a_debate_id a))"
    and "a_debate_id a \<in> set (debate_ids (tabs db))"
    and "a_ticket_id a = av_ticket_id v" and "varchar 80 (av_title v) = Inr (a_title a)"
    and "a_content a = av_content v"
    and "int_param (av_counterargument_to v) = Inr (a_counterargument_to a)"
    and "int_param (av_created_by v) = Inr (Some (a_created_by a))"
    and "a_created_by a \<in> set (user_ids (tabs db))"
    and "parse_argument_type (av_type v) = a_type a" and "a_type a \<noteq> None"
    and "a_is_draft a = av_is_draft v"
    and "a_id a \<notin> set (map a_id (arguments (tabs db)))"
  using assms
  by (auto simp: insert_argument_def with_param_Inr serial_insert_Inr split: option.splits)

lemma insert_ticket_comment_Inr:
  assumes "insert_ticket_comment tid c u db = (Inr r, db')"
  shows "tabs db' = (tabs db)\<lparr>ticket_comments := ticket_comments (tabs db) @ [r]\<rparr>"
    and "tc_id r = ticket_comment_seq (sqs db) + 1" and "tc_ticket_id r = tid"
    and "tc_content r = c" and "tc_commenter_id r = u"
    and "tc_created_at r = now db" and "tc_modified_at r = now db"
    and "u \<in> set (user_ids (tabs db))"
  using assms by (auto simp: insert_ticket_comment_def serial_insert_Inr split: option.splits)

lemma insert_notification_Inr:
  assumes "insert_notification title c ev rcp db = (Inr r, db')"
  shows "tabs db' = (tabs db)\<lparr>notifications := notifications (tabs db) @ [r]\<rparr>"
    and "n_id r = notification_seq (sqs db) + 1" and "varchar 40 title = Inr (n_title r)"
    and "n_content r = c" and "n_event r = ev" and "\<not> n_is_read r"
    and "int_param rcp = Inr (Some (n_recipient_id r))"
    and "n_recipient_id r \<in> set (user_ids (tabs db))"
  using assms by (auto simp: insert_notification_def with_param_Inr serial_insert_Inr)

lemma insert_user_Inr:
  assumes "insert_user un pw em role db = (Inr r, db')"
  shows "tabs db' = (tabs db)\<lparr>users := users (tabs db) @ [r]\<rparr>"
    and "u_id r = user_seq (sqs db) + 1" and "varchar 80 un = Inr (u_username r)"
    and "varchar 65 pw = Inr (u_password r)" and "varchar 255 em = Inr (u_email r)"
    and "u_role r = role"
  using assms by (auto simp: insert_user_def with_param_Inr serial_insert_Inr split: if_splits)

lemma insert_rows_tags:
  "insert_rows insert_debate_tag names db = (Inr rows, db') \<Longrightarrow>
     tabs db' = (tabs db)\<lparr>debate_tags := debate_tags (tabs db) @ rows\<rparr>
     \<and> map (Inr \<circ> dt_name) rows = map (varchar 30) names"
proof (induction names arbitrary: db rows)
  case (Cons n names)
  from Cons.prems obtain g db1 gs where 1: "insert_debate_tag n db = (Inr g, db1)"
      and 2: "insert_rows insert_debate_tag names db1 = (Inr gs, db')" and rows: "rows = g # gs"
    by (auto split: prod.splits sum.splits)
  from 1 have "tabs db1 = (tabs db)\<lparr>debate_tags := debate_tags (tabs db) @ [g]\<rparr>"
      "varchar 30 n = Inr (dt_name g)"
    by (auto simp: insert_debate_tag_def with_param_Inr serial_insert_Inr)
  with Cons.IH[OF 2] rows show ?case by simp
qed simp

lemma insert_rows_assoc:
  "insert_rows insert_assoc_debate_tag (map (Pair d) ids) db = (Inr rows, db') \<Longrightarrow>
     tabs db' = (tabs db)\<lparr>assoc_debate_tags := assoc_debate_tags (tabs db) @ rows\<rparr>
     \<and> (\<exists>is. map int_param ids = map (Inr \<circ> Some) is
            \<and> rows = map (\<lambda>i. \<lparr>adt_debate_id = d, adt_tag_id = i\<rparr>) is)"
proof (induction ids arbitrary: db rows)
  case (Cons n ids)
  from Cons.prems obtain g db1 gs where 1: "insert_assoc_debate_tag (d, n) db = (Inr g, db1)"
      and 2: "insert_rows insert_assoc_debate_tag (map (Pair d) ids) db1 = (Inr gs, db')"
      and rows: "rows = g # gs"
    by (auto split: prod.splits sum.splits)
  from 1 obtain i where
      "tabs db1 = (tabs db)\<lparr>assoc_debate_tags := assoc_debate_tags (tabs db) @ [g]\<rparr>"
      and i: "int_param n = Inr (Some i)" "g = \<lparr>adt_debate_id = d, adt_tag_id = i\<rparr>"
    by (auto simp: insert_assoc_debate_tag_def with_param_Inr Let_def split: if_splits)
  moreover from Cons.IH[OF 2] obtain "is" where "map int_param ids = map (Inr \<circ> Some) is"
      "gs = map (\<lambda>i. \<lparr>adt_debate_id = d, adt_tag_id = i\<rparr>) is"
      "tabs db' = (tabs db1)\<lparr>assoc_debate_tags := assoc_debate_tags (tabs db1) @ gs\<rparr>" by blast
  ultimately show ?case using rows by (intro conjI exI[of _ "i # is"]) simp_all
qed simp

end
