(* ===== verification/Backend.thy ===== *)
theory Backend
  imports Schema
begin

text \<open>
  The services the API and the worker talk to, as one world: PostgreSQL (the database, the
  transaction of the checked-out client, the number of clients out of the pool), the Redis cache,
  the job queue, the published messages and the websocket side. Every exchange with a service
  consumes the next entry of a fault list, so that a theorem over all worlds covers a connection
  that fails before or after any exchange. A request runs to its end before the next one starts;
  interleavings of requests are those of their runs.
\<close>

section \<open>Shared data\<close>

record user_cookie =
  uc_id :: int
  uc_role :: "user_role option"
  uc_username :: string

text \<open>
  An argument as the queries return it (\<open>DebateArgument\<close>). A column that a query does not select
  is absent, which is \<open>None\<close> as null is.
\<close>

record arg_data =
  ag_argument_id :: "int option"
  ag_ticket_id :: "int option"
  ag_title :: "string option"
  ag_content :: "string option"
  ag_created_by_id :: "int option"
  ag_argument_type :: "argument_type option"
  ag_created_at :: "nat option"
  ag_username :: "string option"
  ag_counterargument_to :: "int option"

record debate_argument = arg_data +
  ag_debate_id :: int
  ag_debate_title :: "string option"

record debate_metadata =
  md_debate_id :: int
  md_debate_title :: string

record debate_view =
  dv_metadata :: "debate_metadata option"
  dv_args :: "arg_data list"

text \<open>The jobs of the notification queue and the messages the worker publishes.\<close>

datatype job_payload =
    GenericModerator string string notification_event
  | TicketParticipant string string notification_event jsval

record job =
  job_payload :: job_payload
  job_request_id :: "string option"

datatype notification_message = GenericModeratorMsg | TicketParticipantMsg jsval

text \<open>What the review gateway sends to a socket.\<close>

record sent_comment =
  sc_comment_id :: int
  sc_content :: string
  sc_commenter_id :: int
  sc_created_at :: nat
  sc_modified_at :: nat
  sc_commenter_username :: string

datatype ws_message =
    CommentCreated string sent_comment
  | CommentUpdated string jsval string
  | ArgumentUpdatedMsg jsval string string
  | DebateUpdatedMsg jsval string
  | ErrorMsg string

record socket =
  sk_id :: nat
  sk_ticket_id :: "string option"
  sk_user :: "user_cookie option"
  sk_rooms :: "string list"
  sk_open :: bool

section \<open>The world\<close>

datatype txn_state = NoTxn | OpenTxn tables | AbortedTxn tables

datatype fault = NoFault | FailBefore | FailAfter

record world =
  pg :: database
  txn :: txn_state
  lost :: bool
  checked_out :: nat
  faults :: "fault list"
  jobs :: "job list"
  cache :: "string \<Rightarrow> (debate_view \<times> nat) option"
  published :: "notification_message list"
  sockets :: "socket list"
  wire :: "(nat \<times> ws_message) list"
  request_id :: "string option"

definition empty_world :: world where
  "empty_world = \<lparr>pg = empty_database, txn = NoTxn, lost = False, checked_out = 0, faults = [],
     jobs = [], cache = (\<lambda>_. None), published = [], sockets = [], wire = [], request_id = None\<rparr>"

abbreviation wtabs :: "world \<Rightarrow> tables" where
  "wtabs w \<equiv> tabs (pg w)"

definition set_tabs :: "tables \<Rightarrow> world \<Rightarrow> world" where
  "set_tabs ts w = w\<lparr>pg := (pg w)\<lparr>tabs := ts\<rparr>\<rparr>"

lemma set_tabs_simps [simp]:
  "pg (set_tabs ts w) = (pg w)\<lparr>tabs := ts\<rparr>" "txn (set_tabs ts w) = txn w"
  "lost (set_tabs ts w) = lost w" "checked_out (set_tabs ts w) = checked_out w"
  "faults (set_tabs ts w) = faults w" "jobs (set_tabs ts w) = jobs w"
  "cache (set_tabs ts w) = cache w" "published (set_tabs ts w) = published w"
  "sockets (set_tabs ts w) = sockets w" "wire (set_tabs ts w) = wire w"
  "request_id (set_tabs ts w) = request_id w"
  by (simp_all add: set_tabs_def)

section \<open>Exchanges that may fail\<close>

text \<open>The server's side of a lost connection: an open transaction is rolled back.\<close>

definition drop_connection :: "world \<Rightarrow> world" where
  "drop_connection w =
     (case txn w of
        NoTxn \<Rightarrow> w\<lparr>lost := True\<rparr>
      | OpenTxn ts \<Rightarrow> (set_tabs ts w)\<lparr>txn := NoTxn, lost := True\<rparr>
      | AbortedTxn ts \<Rightarrow> (set_tabs ts w)\<lparr>txn := NoTxn, lost := True\<rparr>)"

definition next_fault :: "world \<Rightarrow> fault \<times> world" where
  "next_fault w = (case faults w of [] \<Rightarrow> (NoFault, w) | f # fs \<Rightarrow> (f, w\<lparr>faults := fs\<rparr>))"

text \<open>An exchange with PostgreSQL on the checked-out client.\<close>

definition exchange :: "(world, 'a) svc \<Rightarrow> (world, 'a) svc" where
  "exchange act = (\<lambda>w.
     if lost w then (Inl (DbError ConnectionLost), w)
     else (case next_fault w of
             (NoFault, w1) \<Rightarrow> act w1
           | (FailBefore, w1) \<Rightarrow> (Inl (DbError ConnectionLost), drop_connection w1)
           | (FailAfter, w1) \<Rightarrow>
               (Inl (DbError ConnectionLost), drop_connection (snd (act w1)))))"

fun abort_txn :: "txn_state \<Rightarrow> txn_state" where
  "abort_txn NoTxn = NoTxn"
| "abort_txn (OpenTxn ts) = AbortedTxn ts"
| "abort_txn (AbortedTxn ts) = AbortedTxn ts"

definition run_stmt :: "'a stmt \<Rightarrow> (world, 'a) svc" where
  "run_stmt st = (\<lambda>w.
     case txn w of
       AbortedTxn ts \<Rightarrow> (Inl (DbError InFailedTransaction), w)
     | t \<Rightarrow> (case st (pg w) of
               (Inl e, d) \<Rightarrow> (Inl (DbError e), w\<lparr>pg := d, txn := abort_txn t\<rparr>)
             | (Inr a, d) \<Rightarrow> (Inr a, w\<lparr>pg := d\<rparr>)))"

definition query :: "'a stmt \<Rightarrow> (world, 'a) svc" where
  "query st = exchange (run_stmt st)"

definition begin_txn :: "(world, unit) svc" where
  "begin_txn = exchange (\<lambda>w.
     case txn w of
       NoTxn \<Rightarrow> (Inr (), w\<lparr>txn := OpenTxn (wtabs w)\<rparr>)
     | OpenTxn ts \<Rightarrow> (Inr (), w)
     | AbortedTxn ts \<Rightarrow> (Inl (DbError InFailedTransaction), w))"

text \<open>A commit of a failed transaction rolls it back, without an error.\<close>

definition commit_txn :: "(world, unit) svc" where
  "commit_txn = exchange (\<lambda>w.
     case txn w of
       AbortedTxn ts \<Rightarrow> (Inr (), (set_tabs ts w)\<lparr>txn := NoTxn\<rparr>)
     | _ \<Rightarrow> (Inr (), w\<lparr>txn := NoTxn\<rparr>))"

definition rollback_txn :: "(world, unit) svc" where
  "rollback_txn = exchange (\<lambda>w.
     case txn w of
       NoTxn \<Rightarrow> (Inr (), w)
     | OpenTxn ts \<Rightarrow> (Inr (), (set_tabs ts w)\<lparr>txn := NoTxn\<rparr>)
     | AbortedTxn ts \<Rightarrow> (Inr (), (set_tabs ts w)\<lparr>txn := NoTxn\<rparr>))"

text \<open>The pool: a client is taken, used and given back.\<close>

definition pool_connect :: "(world, unit) svc" where
  "pool_connect = (\<lambda>w.
     case next_fault w of
       (NoFault, w1) \<Rightarrow> (Inr (), w1\<lparr>checked_out := checked_out w1 + 1, lost := False\<rparr>)
     | (_, w1) \<Rightarrow> (Inl (DbError ConnectionLost), w1))"

definition release :: "(world, unit) svc" where
  "release = modify (\<lambda>w. w\<lparr>checked_out := checked_out w - 1\<rparr>)"

definition with_client :: "(world, 'a) svc \<Rightarrow> (world, 'a) svc" where
  "with_client m = sq pool_connect (try_finally m release)"

text \<open>
  The transaction pattern of the services: begin, the statements, commit, what follows the
  commit inside the same try block; on an error a rollback, and then the error that is thrown.
\<close>

definition transaction ::
  "(world, 'a) svc \<Rightarrow> ('a \<Rightarrow> (world, 'b) svc) \<Rightarrow> (js_error \<Rightarrow> js_error) \<Rightarrow> (world, 'b) svc" where
  "transaction body after onerr =
     with_client
       (try_catch
          (sq begin_txn (bnd body (\<lambda>a. sq commit_txn (after a))))
          (\<lambda>err. sq rollback_txn (raise (onerr err))))"

text \<open>An exchange with Redis: it fails without effect, or has its effect, maybe unacknowledged.\<close>

definition redis :: "(world, 'a) svc \<Rightarrow> (world, 'a) svc" where
  "redis act = (\<lambda>w.
     case next_fault w of
       (NoFault, w1) \<Rightarrow> act w1
     | (FailBefore, w1) \<Rightarrow> (Inl (PlainError ''redis''), w1)
     | (FailAfter, w1) \<Rightarrow> (Inl (PlainError ''redis''), snd (act w1)))"

text \<open>A promise that is not awaited and whose rejection is caught and dropped.\<close>

definition fire_and_forget :: "(world, 'a) svc \<Rightarrow> (world, unit) svc" where
  "fire_and_forget m = try_catch (sq m (ret ())) (\<lambda>_. ret ())"

text \<open>
  \<open>enqueueNotification\<close>: the payload with the request's identifier. The queue stores JSON, which
  turns the number \<open>NaN\<close> into null.
\<close>

fun json_number :: "jsval \<Rightarrow> jsval" where
  "json_number JNaN = JNull"
| "json_number v = v"

fun json_payload :: "job_payload \<Rightarrow> job_payload" where
  "json_payload (GenericModerator t c e) = GenericModerator t c e"
| "json_payload (TicketParticipant t c e r) = TicketParticipant t c e (json_number r)"

definition enqueueNotification :: "job_payload \<Rightarrow> (world, unit) svc" where
  "enqueueNotification payload = redis (\<lambda>w. (Inr (), w\<lparr>jobs := jobs w @
     [\<lparr>job_payload = json_payload payload, job_request_id = request_id w\<rparr>]\<rparr>))"

text \<open>
  The cache of debate views: an entry expires at a time of the clock, in seconds. \<open>JSON.stringify\<close>
  and \<open>JSON.parse\<close> give the view back as it was.
\<close>

definition cache_lookup :: "string \<Rightarrow> world \<Rightarrow> debate_view option" where
  "cache_lookup key w =
     (case cache w key of
        None \<Rightarrow> None
      | Some (v, expires) \<Rightarrow> if now (pg w) < expires then Some v else None)"

definition cache_get :: "string \<Rightarrow> (world, debate_view option) svc" where
  "cache_get key = redis (gets (cache_lookup key))"

definition cache_set :: "string \<Rightarrow> debate_view \<Rightarrow> nat \<Rightarrow> (world, unit) svc" where
  "cache_set key v ex = redis (modify (\<lambda>w. w\<lparr>cache := (cache w)(key \<mapsto> (v, now (pg w) + ex))\<rparr>))"

definition cache_del :: "string \<Rightarrow> (world, unit) svc" where
  "cache_del key = redis (modify (\<lambda>w. w\<lparr>cache := (cache w)(key := None)\<rparr>))"

section \<open>What the exchanges keep\<close>

text \<open>
  The interface for a relation between worlds that the client of the database respects: consuming
  a fault, the flags of the connection and of the pool, and the bookkeeping of transactions.
\<close>

locale backend_order = world_order R for R :: "world \<Rightarrow> world \<Rightarrow> bool" +
  assumes R_fault: "faults w = f # fs \<Longrightarrow> R w (w\<lparr>faults := fs\<rparr>)"
    and R_lost: "R w (w\<lparr>lost := b\<rparr>)"
    and R_pool: "R w (w\<lparr>checked_out := n\<rparr>)"
    and R_open: "txn w = NoTxn \<Longrightarrow> R w (w\<lparr>txn := OpenTxn (wtabs w)\<rparr>)"
    and R_close: "R w (w\<lparr>txn := NoTxn\<rparr>)"
    and R_restore: "txn w = OpenTxn ts \<or> txn w = AbortedTxn ts \<Longrightarrow>
      R w ((set_tabs ts w)\<lparr>txn := NoTxn\<rparr>)"
begin

lemma R_next_fault: "R w (snd (next_fault w))"
  by (auto simp: next_fault_def reflR R_fault split: list.splits)

lemma R_drop: "R w (drop_connection w)"
proof (cases "txn w")
  case NoTxn
  then show ?thesis by (simp add: drop_connection_def R_lost)
next
  case (OpenTxn ts)
  then have "R w ((set_tabs ts w)\<lparr>txn := NoTxn\<rparr>)" by (simp add: R_restore)
  from transR[OF this R_lost[of _ True]] OpenTxn show ?thesis
    by (simp add: drop_connection_def)
next
  case (AbortedTxn ts)
  then have "R w ((set_tabs ts w)\<lparr>txn := NoTxn\<rparr>)" by (simp add: R_restore)
  from transR[OF this R_lost[of _ True]] AbortedTxn show ?thesis
    by (simp add: drop_connection_def)
qed

lemma keeps_exchange:
  assumes act: "\<And>w. R w (snd (act w))"
  shows "keeps R (exchange act)"
proof (rule keepsI)
  fix w
  obtain f w1 where nf: "next_fault w = (f, w1)" by (cases "next_fault w")
  then have 1: "R w w1" using R_next_fault[of w] by simp
  have 2: "R w (snd (act w1))" using transR[OF 1 act] .
  show "R w (snd (exchange act w))"
    using nf 2 transR[OF 1 R_drop] transR[OF 2 R_drop] reflR
    by (cases f) (auto simp: exchange_def)
qed

lemma keeps_begin: "keeps R begin_txn"
  unfolding begin_txn_def
  by (rule keeps_exchange) (auto simp: reflR R_open split: txn_state.splits)

lemma keeps_commit: "keeps R commit_txn"
  unfolding commit_txn_def
  by (rule keeps_exchange) (auto simp: R_close R_restore split: txn_state.splits)

lemma keeps_rollback: "keeps R rollback_txn"
  unfolding rollback_txn_def
  by (rule keeps_exchange) (auto simp: reflR R_restore split: txn_state.splits)

lemma keeps_connect: "keeps R pool_connect"
proof (rule keepsI)
  fix w
  obtain f w1 where nf: "next_fault w = (f, w1)" by (cases "next_fault w")
  then have 1: "R w w1" using R_next_fault[of w] by simp
  have "R w (w1\<lparr>checked_out := checked_out w1 + 1, lost := False\<rparr>)"
    by (rule transR[OF transR[OF 1 R_pool] R_lost])
  with nf 1 show "R w (snd (pool_connect w))"
    by (cases f) (simp_all add: pool_connect_def)
qed

lemma keeps_release: "keeps R release"
  unfolding release_def by (rule keeps_modify) (rule R_pool)

lemma keeps_with_client: "keeps R m \<Longrightarrow> keeps R (with_client m)"
  unfolding with_client_def by (intro keeps_sq keeps_try_finally keeps_connect keeps_release)

lemma keeps_transaction:
  "keeps R body \<Longrightarrow> (\<And>a. keeps R (after a)) \<Longrightarrow> keeps R (transaction body after onerr)"
  unfolding transaction_def
  by (intro keeps_with_client keeps_try_catch keeps_sq keeps_bnd keeps_begin keeps_commit
      keeps_rollback keeps_raise)

lemma keeps_redis:
  assumes act: "\<And>w. R w (snd (act w))"
  shows "keeps R (redis act)"
proof (rule keepsI)
  fix w
  obtain f w1 where nf: "next_fault w = (f, w1)" by (cases "next_fault w")
  then have 1: "R w w1" using R_next_fault[of w] by simp
  from transR[OF 1 act] nf 1 show "R w (snd (redis act w))"
    by (cases f) (simp_all add: redis_def)
qed

lemma keeps_fire_and_forget: "keeps R m \<Longrightarrow> keeps R (fire_and_forget m)"
  unfolding fire_and_forget_def by (intro keeps_try_catch keeps_sq keeps_ret)

lemma keeps_query: "(\<And>w. R w (snd (run_stmt st w))) \<Longrightarrow> keeps R (query st)"
  unfolding query_def by (rule keeps_exchange)

lemmas backend_intros = keeps_intros keeps_with_client keeps_transaction keeps_fire_and_forget

end

text \<open>
  A database operation is quiet: the queue, the cache, the messages and the sockets stay, the
  clock stands still, sequences only grow and faults are only consumed.
\<close>

definition quiet :: "world \<Rightarrow> world \<Rightarrow> bool" where
  "quiet w w' \<longleftrightarrow> jobs w' = jobs w \<and> cache w' = cache w \<and> published w' = published w
     \<and> sockets w' = sockets w \<and> wire w' = wire w \<and> request_id w' = request_id w
     \<and> now (pg w') = now (pg w) \<and> seq_le (sqs (pg w)) (sqs (pg w'))
     \<and> set (faults w') \<subseteq> set (faults w)"

interpretation quiet: backend_order quiet
  by unfold_locales (auto simp: quiet_def intro: seq_le_trans)

lemma quiet_query: "stmt_ok st \<Longrightarrow> keeps quiet (query st)"
  by (rule quiet.keeps_query)
     (auto simp: run_stmt_def quiet_def stmt_ok_def split: txn_state.splits prod.splits sum.splits,
      (metis snd_conv)+)

text \<open>The integrity of the schema, in the current tables and in what a rollback would restore.\<close>

definition world_ok :: "world \<Rightarrow> bool" where
  "world_ok w \<longleftrightarrow> schema_ok (pg w) \<and>
     (case txn w of NoTxn \<Rightarrow> True
      | OpenTxn ts \<Rightarrow> schema_ok ((pg w)\<lparr>tabs := ts\<rparr>)
      | AbortedTxn ts \<Rightarrow> schema_ok ((pg w)\<lparr>tabs := ts\<rparr>))"

definition keeps_ok :: "world \<Rightarrow> world \<Rightarrow> bool" where
  "keeps_ok w w' \<longleftrightarrow> (world_ok w \<longrightarrow> world_ok w')"

interpretation integrity: backend_order keeps_ok
  by unfold_locales (auto simp: keeps_ok_def world_ok_def split: txn_state.splits)

lemma schema_ok_tabs_seq:
  "schema_ok (d\<lparr>tabs := ts\<rparr>) \<Longrightarrow> seq_le (sqs d) (sqs d') \<Longrightarrow> schema_ok (d'\<lparr>tabs := ts\<rparr>)"
  by (auto simp: schema_ok_def intro: keys_ok_seq)

lemma integrity_query:
  assumes ok: "stmt_ok st"
  shows "keeps keeps_ok (query st)"
proof (rule integrity.keeps_query)
  fix w :: world
  obtain r d where st: "st (pg w) = (r, d)" by (cases "st (pg w)")
  note d = stmt_ok_schema[OF ok st] stmt_ok_seq[OF ok st]
  show "keeps_ok w (snd (run_stmt st w))"
    using st d by (cases r)
      (auto simp: keeps_ok_def world_ok_def run_stmt_def split: txn_state.splits
        elim: schema_ok_tabs_seq)
qed

text \<open>The pool is balanced: every client that an operation takes is given back.\<close>

definition same_pool :: "world \<Rightarrow> world \<Rightarrow> bool" where
  "same_pool w w' \<longleftrightarrow> checked_out w' = checked_out w"

interpretation pool: world_order same_pool
  by unfold_locales (auto simp: same_pool_def)

lemma pool_next_fault [simp]: "checked_out (snd (next_fault w)) = checked_out w"
  by (simp add: next_fault_def split: list.splits)

lemma pool_drop [simp]: "checked_out (drop_connection w) = checked_out w"
  by (simp add: drop_connection_def split: txn_state.splits)

lemma pool_exchange:
  assumes act: "\<And>w. checked_out (snd (act w)) = checked_out w"
  shows "keeps same_pool (exchange act)"
proof (rule keepsI)
  fix w
  obtain f w1 where nf: "next_fault w = (f, w1)" by (cases "next_fault w")
  then have "checked_out w1 = checked_out w" using pool_next_fault[of w] by simp
  with nf act show "same_pool w (snd (exchange act w))"
    by (cases f) (simp_all add: exchange_def same_pool_def)
qed

lemma pool_query: "keeps same_pool (query st)"
  unfolding query_def
  by (rule pool_exchange) (auto simp: run_stmt_def split: txn_state.splits sum.splits prod.splits)

lemma pool_begin: "keeps same_pool begin_txn"
  unfolding begin_txn_def by (rule pool_exchange) (auto split: txn_state.splits)

lemma pool_commit: "keeps same_pool commit_txn"
  unfolding commit_txn_def by (rule pool_exchange) (auto split: txn_state.splits)

lemma pool_rollback: "keeps same_pool rollback_txn"
  unfolding rollback_txn_def by (rule pool_exchange) (auto split: txn_state.splits)

lemma pool_with_client:
  assumes m: "keeps same_pool m"
  shows "keeps same_pool (with_client m)"
proof (rule keepsI)
  fix w
  obtain f w1 where nf: "next_fault w = (f, w1)" by (cases "next_fault w")
  then have 1: "checked_out w1 = checked_out w" using pool_next_fault[of w] by simp
  show "same_pool w (snd (with_client m w))"
  proof (cases "f = NoFault")
    case True
    let ?w2 = "w1\<lparr>checked_out := checked_out w1 + 1, lost := False\<rparr>"
    obtain r w3 where r: "m ?w2 = (r, w3)" by (cases "m ?w2")
    have "checked_out w3 = checked_out w + 1"
      using keeps_result[OF m r] 1 by (simp add: same_pool_def)
    with True nf r show ?thesis
      by (cases r) (simp_all add: with_client_def pool_connect_def sq_run try_finally_def
          release_def same_pool_def)
  next
    case False
    with nf 1 show ?thesis
      by (cases f) (simp_all add: with_client_def pool_connect_def sq_run same_pool_def)
  qed
qed

lemma pool_redis:
  assumes "\<And>w. checked_out (snd (act w)) = checked_out w"
  shows "keeps same_pool (redis act)"
proof (rule keepsI)
  fix w
  obtain f w1 where nf: "next_fault w = (f, w1)" by (cases "next_fault w")
  then have "checked_out w1 = checked_out w" using pool_next_fault[of w] by simp
  with nf assms show "same_pool w (snd (redis act w))"
    by (cases f) (simp_all add: redis_def same_pool_def)
qed

lemma pool_transaction:
  "keeps same_pool body \<Longrightarrow> (\<And>a. keeps same_pool (after a)) \<Longrightarrow>
   keeps same_pool (transaction body after onerr)"
  unfolding transaction_def
  by (intro pool_with_client pool.keeps_try_catch pool.keeps_sq pool.keeps_bnd pool_begin
      pool_commit pool_rollback pool.keeps_raise)

lemma pool_fire_and_forget: "keeps same_pool m \<Longrightarrow> keeps same_pool (fire_and_forget m)"
  unfolding fire_and_forget_def by (intro pool.keeps_try_catch pool.keeps_sq pool.keeps_ret)

lemma pool_enqueue: "keeps same_pool (enqueueNotification p)"
  unfolding enqueueNotification_def by (rule pool_redis) simp

lemmas pool_intros = pool.keeps_intros pool_with_client pool_transaction pool_fire_and_forget
  pool_query pool_enqueue

lemma integrity_enqueue: "keeps keeps_ok (enqueueNotification p)"
  unfolding enqueueNotification_def
  by (rule integrity.keeps_redis) (simp add: keeps_ok_def world_ok_def split: txn_state.splits)

section \<open>Operations on an idle world\<close>

text \<open>Between operations no transaction is open.\<close>

definition idle :: "world \<Rightarrow> bool" where
  "idle w \<longleftrightarrow> txn w = NoTxn"

lemma idle_next_fault [simp]: "txn (snd (next_fault w)) = txn w" "pg (snd (next_fault w)) = pg w"
    "lost (snd (next_fault w)) = lost w"
  by (simp_all add: next_fault_def split: list.splits)

lemma faults_next_fault: "next_fault w = (f, w1) \<Longrightarrow> f = NoFault \<or> f \<in> set (faults w)"
  by (auto simp: next_fault_def split: list.splits)

text \<open>
  One statement on its own client: it is applied once and answered, or it fails and the tables
  are unchanged, unless the connection failed after the statement.
\<close>

lemma query_idle:
  assumes idle: "txn w = NoTxn" and ok: "stmt_ok st" and run: "query st w = (r, w')"
  shows "txn w' = NoTxn"
    and "case r of
           Inr a \<Rightarrow> \<not> lost w \<and> (\<exists>d. st (pg w) = (Inr a, d) \<and> pg w' = d)
         | Inl e \<Rightarrow> (\<exists>p. e = DbError p) \<and>
             (wtabs w' = wtabs w
              \<or> FailAfter \<in> set (faults w) \<and> (\<exists>a d. st (pg w) = (Inr a, d) \<and> wtabs w' = tabs d))"
proof -
  obtain f w1 where nf: "next_fault w = (f, w1)" by (cases "next_fault w")
  have w1: "txn w1 = txn w" "pg w1 = pg w" "lost w1 = lost w"
    using idle_next_fault[of w] nf by simp_all
  obtain q d where st: "st (pg w) = (q, d)" by (cases "st (pg w)")
  have err: "tabs d = wtabs w" if "q = Inl e" for e
    using st that stmt_ok_error[OF ok] by simp
  have run1: "run_stmt st w1 = (case q of Inl e \<Rightarrow> (Inl (DbError e), w1\<lparr>pg := d, txn := NoTxn\<rparr>)
      | Inr a \<Rightarrow> (Inr a, w1\<lparr>pg := d\<rparr>))"
    using st w1 idle by (simp add: run_stmt_def split: sum.splits)
  show "txn w' = NoTxn"
    using run nf w1 idle run1
    by (cases f; cases q; cases "lost w")
       (auto simp: query_def exchange_def drop_connection_def)
  show "case r of
           Inr a \<Rightarrow> \<not> lost w \<and> (\<exists>d. st (pg w) = (Inr a, d) \<and> pg w' = d)
         | Inl e \<Rightarrow> (\<exists>p. e = DbError p) \<and>
             (wtabs w' = wtabs w
              \<or> FailAfter \<in> set (faults w) \<and> (\<exists>a d. st (pg w) = (Inr a, d) \<and> wtabs w' = tabs d))"
    using run nf w1 idle run1 st err faults_next_fault[OF nf]
    by (cases f; cases q; cases "lost w")
       (auto simp: query_def exchange_def drop_connection_def)
qed

section \<open>Transactions\<close>

definition in_txn :: "tables \<Rightarrow> world \<Rightarrow> bool" where
  "in_txn s w \<longleftrightarrow> txn w = OpenTxn s \<and> \<not> lost w"

text \<open>After an error inside a transaction the tables at its start will be restored.\<close>

definition doomed_txn :: "tables \<Rightarrow> world \<Rightarrow> bool" where
  "doomed_txn s w \<longleftrightarrow> (txn w = OpenTxn s \<or> txn w = AbortedTxn s) \<and> \<not> lost w
     \<or> txn w = NoTxn \<and> lost w \<and> wtabs w = s"

lemma outcome_query:
  assumes "\<And>d d' a. P (tabs d) \<Longrightarrow> st d = (Inr a, d') \<Longrightarrow> Q a (tabs d')"
  shows "outcome (\<lambda>w. in_txn s w \<and> P (wtabs w)) (query st)
           (\<lambda>a w. in_txn s w \<and> Q a (wtabs w)) (\<lambda>_ w. doomed_txn s w)"
  unfolding outcome_def
proof (intro allI impI)
  fix w assume w: "in_txn s w \<and> P (wtabs w)"
  obtain f w1 where nf: "next_fault w = (f, w1)" by (cases "next_fault w")
  have w1: "txn w1 = OpenTxn s" "pg w1 = pg w" "\<not> lost w1" "\<not> lost w"
    using idle_next_fault[of w] nf w by (simp_all add: in_txn_def)
  obtain q d where st: "st (pg w) = (q, d)" by (cases "st (pg w)")
  show "case query st w of (Inr a, w') \<Rightarrow> in_txn s w' \<and> Q a (wtabs w')
          | (Inl e, w') \<Rightarrow> doomed_txn s w'"
    using nf w1 st w assms[of "pg w"]
    by (cases f; cases q)
       (auto simp: query_def exchange_def run_stmt_def drop_connection_def in_txn_def doomed_txn_def)
qed

lemma outcome_query_plain:
  assumes "\<And>d d' a. P (tabs d) \<Longrightarrow> st d = (Inr a, d') \<Longrightarrow> Q a (tabs d')"
    and "\<And>w. P' w \<Longrightarrow> in_txn s w \<and> P (wtabs w)"
  shows "outcome P' (query st) (\<lambda>a w. in_txn s w \<and> Q a (wtabs w)) (\<lambda>_ w. doomed_txn s w)"
  by (rule outcome_weaken[OF outcome_query[of P st Q s]]) (use assms in auto)

text \<open>
  The interface of the body of a transaction: started on an open transaction it either ends on
  it, with a result and tables related to those at the start, or dooms the transaction.
\<close>

locale txn_body =
  fixes body :: "(world, 'a) svc"
    and eff :: "tables \<Rightarrow> 'a \<Rightarrow> tables \<Rightarrow> bool"
  assumes body_outcome: "outcome (\<lambda>w. in_txn s w \<and> wtabs w = s) body
      (\<lambda>a w. in_txn s w \<and> eff s a (wtabs w)) (\<lambda>_ w. doomed_txn s w)"
    and body_quiet: "keeps quiet body"
begin

lemma begin_run:
  assumes "idle w" and "\<not> lost w"
  shows "outcome ((=) w) begin_txn (\<lambda>_ w'. in_txn (wtabs w) w' \<and> wtabs w' = wtabs w)
    (\<lambda>_ w'. idle w' \<and> wtabs w' = wtabs w)"
proof -
  obtain f w1 where nf: "next_fault w = (f, w1)" by (cases "next_fault w")
  have w1: "txn w1 = NoTxn" "pg w1 = pg w" "\<not> lost w1"
    using idle_next_fault[of w] nf assms by (simp_all add: idle_def)
  with nf assms show ?thesis
    by (cases f) (auto simp: outcome_def begin_txn_def exchange_def drop_connection_def in_txn_def
        idle_def)
qed

lemma rollback_run:
  assumes "doomed_txn s w \<or> idle w \<and> wtabs w = s"
  shows "idle (snd (rollback_txn w)) \<and> wtabs (snd (rollback_txn w)) = s"
proof -
  obtain f w1 where nf: "next_fault w = (f, w1)" by (cases "next_fault w")
  have w1: "txn w1 = txn w" "pg w1 = pg w" "lost w1 = lost w"
    using idle_next_fault[of w] nf by simp_all
  show ?thesis
    using assms nf w1
    by (cases f; cases "txn w"; cases "lost w")
       (auto simp: rollback_txn_def exchange_def drop_connection_def doomed_txn_def idle_def)
qed

lemma commit_run:
  assumes "in_txn s w" and "commit_txn w = (r, w')"
  shows "case r of Inr _ \<Rightarrow> idle w' \<and> wtabs w' = wtabs w
     | Inl _ \<Rightarrow> idle w' \<and> (wtabs w' = s \<or> FailAfter \<in> set (faults w) \<and> wtabs w' = wtabs w)"
proof -
  obtain f w1 where nf: "next_fault w = (f, w1)" by (cases "next_fault w")
  have w1: "txn w1 = OpenTxn s" "pg w1 = pg w" "lost w1 = lost w"
    using idle_next_fault[of w] nf assms by (simp_all add: in_txn_def)
  show ?thesis
    using assms nf w1 faults_next_fault[OF nf]
    by (cases f) (auto simp: commit_txn_def exchange_def drop_connection_def in_txn_def idle_def)
qed

lemma core_run:
  assumes idle: "idle w" "\<not> lost w"
    and after: "\<And>a v. \<exists>b v'. after a v = (Inr b, v') \<and> wtabs v' = wtabs v \<and> txn v' = txn v"
    and run: "sq begin_txn (bnd body (\<lambda>a. sq commit_txn (after a))) w = (r, w')"
  shows "case r of Inr _ \<Rightarrow> idle w' \<and> (\<exists>a. eff (wtabs w) a (wtabs w'))
     | Inl _ \<Rightarrow> doomed_txn (wtabs w) w' \<or> idle w' \<and> (wtabs w' = wtabs w
          \<or> FailAfter \<in> set (faults w) \<and> (\<exists>a. eff (wtabs w) a (wtabs w')))"
proof -
  let ?s = "wtabs w"
  obtain r1 w1 where 1: "begin_txn w = (r1, w1)" by (cases "begin_txn w")
  have f1: "set (faults w1) \<subseteq> set (faults w)"
    using keeps_result[OF quiet.keeps_begin 1] by (simp add: quiet_def)
  note started = begin_run[OF idle]
  show ?thesis
  proof (cases r1)
    case (Inl e)
    then have "idle w1" "wtabs w1 = ?s" using outcome_Inl[OF started refl, of e w1] 1 by simp_all
    with Inl 1 run show ?thesis by (auto simp: sq_run)
  next
    case (Inr u)
    then have in1: "in_txn ?s w1 \<and> wtabs w1 = ?s"
      using outcome_Inr[OF started refl, of u w1] 1 by simp
    obtain r2 w2 where 2: "body w1 = (r2, w2)" by (cases "body w1")
    have f2: "set (faults w2) \<subseteq> set (faults w)"
      using keeps_result[OF body_quiet 2] f1 by (auto simp: quiet_def)
    show ?thesis
    proof (cases r2)
      case (Inl e)
      then have "doomed_txn ?s w2" using outcome_Inl[OF body_outcome in1, of e w2] 2 by simp
      with Inl Inr 1 2 run show ?thesis by (auto simp: sq_run bnd_run)
    next
      case r2: (Inr a)
      then have in2: "in_txn ?s w2" and eff: "eff ?s a (wtabs w2)"
        using outcome_Inr[OF body_outcome in1, of a w2] 2 by simp_all
      obtain r3 w3 where 3: "commit_txn w2 = (r3, w3)" by (cases "commit_txn w2")
      obtain b v' where aft: "after a w3 = (Inr b, v')" "wtabs v' = wtabs w3" "txn v' = txn w3"
        using after by blast
      show ?thesis
        using commit_run[OF in2 3] 3 2 1 Inr r2 run aft eff f2
        by (cases r3) (auto simp: sq_run bnd_run idle_def)
    qed
  qed
qed

text \<open>
  A transaction is all or nothing, whatever fails: on success the effect of the body is
  committed; on an error the tables are unchanged, or the commit was done and only its
  acknowledgement was lost. No transaction stays open.
\<close>

lemma transaction_atomic:
  assumes idle: "idle w"
    and after: "\<And>a v. \<exists>b v'. after a v = (Inr b, v') \<and> wtabs v' = wtabs v \<and> txn v' = txn v"
    and run: "transaction body after onerr w = (r, w')"
  shows "idle w' \<and> (case r of Inr _ \<Rightarrow> \<exists>a. eff (wtabs w) a (wtabs w')
     | Inl _ \<Rightarrow> wtabs w' = wtabs w
          \<or> FailAfter \<in> set (faults w) \<and> (\<exists>a. eff (wtabs w) a (wtabs w')))"
proof -
  obtain f w1 where nf: "next_fault w = (f, w1)" by (cases "next_fault w")
  have w1: "txn w1 = NoTxn" "pg w1 = pg w" "set (faults w1) \<subseteq> set (faults w)"
    using idle_next_fault[of w] nf idle quiet.R_next_fault[of w]
    by (simp_all add: idle_def quiet_def)
  let ?w2 = "w1\<lparr>checked_out := checked_out w1 + 1, lost := False\<rparr>"
  let ?core = "sq begin_txn (bnd body (\<lambda>a. sq commit_txn (after a)))"
  show ?thesis
  proof (cases "f = NoFault")
    case False
    with nf w1 run show ?thesis
      by (cases f) (auto simp: transaction_def with_client_def pool_connect_def sq_run idle_def)
  next
    case True
    obtain q w3 where 3: "?core ?w2 = (q, w3)" by (cases "?core ?w2")
    have core: "case q of Inr _ \<Rightarrow> idle w3 \<and> (\<exists>a. eff (wtabs w) a (wtabs w3))
     | Inl _ \<Rightarrow> doomed_txn (wtabs w) w3 \<or> idle w3 \<and> (wtabs w3 = wtabs w
          \<or> FailAfter \<in> set (faults w) \<and> (\<exists>a. eff (wtabs w) a (wtabs w3)))"
      using core_run[OF _ _ after 3] w1 by (auto simp: idle_def split: sum.splits)
    have tr: "transaction body after onerr w =
        try_finally (try_catch ?core (\<lambda>err. sq rollback_txn (raise (onerr err)))) release ?w2"
      using True nf by (simp add: transaction_def with_client_def pool_connect_def sq_run)
    show ?thesis
    proof (cases q)
      case (Inr b)
      with core 3 run show ?thesis
        by (auto simp: tr try_finally_def try_catch_def release_def idle_def)
    next
      case (Inl e)
      obtain q4 w4 where 4: "rollback_txn w3 = (q4, w4)" by (cases "rollback_txn w3")
      obtain e' where "r = Inl e'" and w': "w' = w4\<lparr>checked_out := checked_out w4 - 1\<rparr>"
        using run Inl 3 4
        by (cases q4) (auto simp: tr try_finally_def try_catch_def release_def sq_run)
      moreover have "idle w4" "wtabs w4 = wtabs w \<or>
          FailAfter \<in> set (faults w) \<and> (\<exists>a. eff (wtabs w) a (wtabs w4))"
        using core Inl rollback_run[of "wtabs w" w3] rollback_run[of "wtabs w3" w3] 4 by auto
      ultimately show ?thesis by (auto simp: idle_def)
    qed
  qed
qed

end

lemma fire_and_forget_run: "fire_and_forget m v = (Inr (), snd (m v))"
  by (cases "m v"; cases "fst (m v)") (auto simp: fire_and_forget_def try_catch_def sq_run)

lemma fire_and_forget_returns:
  assumes "\<And>v. wtabs (snd (m v)) = wtabs v \<and> txn (snd (m v)) = txn v"
  shows "\<exists>b v'. fire_and_forget m v = (Inr b, v') \<and> wtabs v' = wtabs v \<and> txn v' = txn v"
  using assms[of v]
  by (cases "m v"; cases "fst (m v)") (auto simp: fire_and_forget_def try_catch_def sq_run)

lemma redis_pg:
  assumes "\<And>v. pg (snd (act v)) = pg v \<and> txn (snd (act v)) = txn v"
  shows "pg (snd (redis act w)) = pg w \<and> txn (snd (redis act w)) = txn w"
proof -
  obtain f w1 where nf: "next_fault w = (f, w1)" by (cases "next_fault w")
  with assms[of w1] idle_next_fault[of w] show ?thesis
    by (cases f) (auto simp: redis_def)
qed

lemma enqueue_pg:
  "pg (snd (enqueueNotification p w)) = pg w \<and> txn (snd (enqueueNotification p w)) = txn w"
  unfolding enqueueNotification_def by (rule redis_pg) simp
section \<open>The single-statement pattern\<close>

text \<open>
  Most service methods take a client, run one statement inside a try block, look at its result
  there, turn any error into the one they throw, and give the client back.
\<close>

definition lift_sum :: "js_error + 'a \<Rightarrow> (world, 'a) svc" where
  "lift_sum r = (case r of Inl e \<Rightarrow> raise e | Inr a \<Rightarrow> ret a)"

definition client_query ::
  "'a stmt \<Rightarrow> ('a \<Rightarrow> js_error + 'b) \<Rightarrow> (js_error \<Rightarrow> js_error) \<Rightarrow> (world, 'b) svc" where
  "client_query st post onerr =
     with_client (try_catch (bnd (query st) (\<lambda>a. lift_sum (post a))) (\<lambda>err. raise (onerr err)))"

lemma lift_sum_run [simp]: "lift_sum r w = (r, w)"
  by (simp add: lift_sum_def split: sum.splits)

lemma client_query_run:
  assumes "txn w = NoTxn" and "faults w = []"
  shows "client_query st post onerr w =
    (let (r, d) = st (pg w)
     in (case r of
           Inl e \<Rightarrow> Inl (onerr (DbError e))
         | Inr a \<Rightarrow> (case post a of Inl e \<Rightarrow> Inl (onerr e) | Inr b \<Rightarrow> Inr b),
         w\<lparr>pg := d, lost := False\<rparr>))"
  using assms
  by (cases "st (pg w)"; cases "fst (st (pg w))")
     (auto simp: client_query_def with_client_def sq_run bnd_run pool_connect_def next_fault_def
       try_finally_def try_catch_def query_def exchange_def run_stmt_def release_def Let_def
       split: sum.splits)

text \<open>
  Under any failure: a result comes from the statement applied once; after an error the tables
  are as before, or the statement was applied and the check of its result threw, or the
  connection failed after it.
\<close>

lemma client_query_cases:
  assumes idle: "idle w" and ok: "stmt_ok st" and run: "client_query st post onerr w = (r, w')"
  shows "idle w'"
    and "case r of
           Inr b \<Rightarrow> \<exists>a d. st (pg w) = (Inr a, d) \<and> post a = Inr b \<and> pg w' = d
         | Inl e \<Rightarrow> wtabs w' = wtabs w
             \<or> (\<exists>a d. st (pg w) = (Inr a, d) \<and> wtabs w' = tabs d
                   \<and> (FailAfter \<in> set (faults w) \<or> (\<exists>e'. post a = Inl e')))"
proof -
  obtain f w1 where nf: "next_fault w = (f, w1)" by (cases "next_fault w")
  have w1: "txn w1 = NoTxn" "pg w1 = pg w" "set (faults w1) \<subseteq> set (faults w)"
    using idle_next_fault[of w] nf idle quiet.R_next_fault[of w]
    by (simp_all add: idle_def quiet_def)
  let ?w2 = "w1\<lparr>checked_out := checked_out w1 + 1, lost := False\<rparr>"
  obtain q w3 where 3: "query st ?w2 = (q, w3)" by (cases "query st ?w2")
  have q: "txn w3 = NoTxn"
    "case q of
       Inr a \<Rightarrow> \<exists>d. st (pg w) = (Inr a, d) \<and> pg w3 = d
     | Inl e \<Rightarrow> wtabs w3 = wtabs w
         \<or> FailAfter \<in> set (faults w) \<and> (\<exists>a d. st (pg w) = (Inr a, d) \<and> wtabs w3 = tabs d)"
    using query_idle[OF _ ok 3] w1 by (auto split: sum.splits)
  have run': "client_query st post onerr w =
      (if f = NoFault then
         (case q of Inl e \<Rightarrow> Inl (onerr e)
          | Inr a \<Rightarrow> (case post a of Inl e \<Rightarrow> Inl (onerr e) | Inr b \<Rightarrow> Inr b),
          w3\<lparr>checked_out := checked_out w3 - 1\<rparr>)
       else (Inl (DbError ConnectionLost), w1))"
    using nf 3
    by (cases f) (auto simp: client_query_def with_client_def sq_run bnd_run pool_connect_def
        try_finally_def try_catch_def release_def split: sum.splits)
  show "idle w'" using run run' q w1 by (auto simp: idle_def split: if_splits)
  show "case r of
           Inr b \<Rightarrow> \<exists>a d. st (pg w) = (Inr a, d) \<and> post a = Inr b \<and> pg w' = d
         | Inl e \<Rightarrow> wtabs w' = wtabs w
             \<or> (\<exists>a d. st (pg w) = (Inr a, d) \<and> wtabs w' = tabs d
                   \<and> (FailAfter \<in> set (faults w) \<or> (\<exists>e'. post a = Inl e')))"
    using run run' q w1 by (auto split: if_splits sum.splits)
qed

lemma pool_lift_sum: "keeps same_pool (lift_sum r)"
  by (simp add: keeps_def same_pool_def)

lemma pool_client_query [intro!, simp]: "keeps same_pool (client_query st post onerr)"
  unfolding client_query_def by (intro pool_intros pool_lift_sum)

lemma quiet_client_query: "stmt_ok st \<Longrightarrow> keeps quiet (client_query st post onerr)"
  unfolding client_query_def lift_sum_def
  by (intro quiet.backend_intros quiet_query) (auto intro: quiet.backend_intros split: sum.splits)

lemma integrity_client_query: "stmt_ok st \<Longrightarrow> keeps keeps_ok (client_query st post onerr)"
  unfolding client_query_def lift_sum_def
  by (intro integrity.backend_intros integrity_query)
     (auto intro: integrity.backend_intros split: sum.splits)

section \<open>Runs without a failure\<close>

lemma query_run:
  "faults w = [] \<Longrightarrow> \<not> lost w \<Longrightarrow> txn w = OpenTxn s \<Longrightarrow> st (pg w) = (Inr a, d) \<Longrightarrow>
   query st w = (Inr a, w\<lparr>pg := d\<rparr>)"
  by (simp add: query_def exchange_def next_fault_def run_stmt_def)

lemma enqueue_run:
  "faults w = [] \<Longrightarrow> enqueueNotification p w =
     (Inr (), w\<lparr>jobs := jobs w @ [\<lparr>job_payload = json_payload p, job_request_id = request_id w\<rparr>]\<rparr>)"
  by (simp add: enqueueNotification_def redis_def next_fault_def)

text \<open>The world in which the body of a transaction starts.\<close>

definition txn_start :: "world \<Rightarrow> world" where
  "txn_start w = w\<lparr>checked_out := checked_out w + 1, lost := False, txn := OpenTxn (wtabs w)\<rparr>"

lemma txn_start_simps [simp]:
  "pg (txn_start w) = pg w" "faults (txn_start w) = faults w" "\<not> lost (txn_start w)"
  "txn (txn_start w) = OpenTxn (wtabs w)" "jobs (txn_start w) = jobs w"
  "request_id (txn_start w) = request_id w" "cache (txn_start w) = cache w"
  "checked_out (txn_start w) = checked_out w + 1"
  by (simp_all add: txn_start_def)

lemma transaction_run:
  assumes "txn w = NoTxn" and "faults w = []"
    and "body (txn_start w) = (Inr a, w2)"
    and "txn w2 = OpenTxn s" "faults w2 = []" "\<not> lost w2"
    and "after a (w2\<lparr>txn := NoTxn\<rparr>) = (Inr b, w3)"
  shows "transaction body after onerr w = (Inr b, w3\<lparr>checked_out := checked_out w3 - 1\<rparr>)"
  using assms
  by (simp add: transaction_def with_client_def pool_connect_def next_fault_def sq_run bnd_run
      try_finally_def try_catch_def begin_txn_def commit_txn_def exchange_def release_def
      txn_start_def)

end
