(* ===== verification/Sample.thy ===== *)
theory Sample
  imports Backend
begin

text \<open>
  A small database on which the theorems with hypotheses are instantiated: a user, a moderator
  and a second user; an accepted debate with two tags and a debate in review; an accepted, a
  pending and a draft argument; a comment and a notification.
\<close>

definition alice :: user_row where
  "alice = \<lparr>u_id = 1, u_username = ''alice'', u_password = ''h1'', u_email = ''a@x'',
     u_created_at = 0, u_role = Some USER\<rparr>"

definition bob :: user_row where
  "bob = \<lparr>u_id = 2, u_username = ''bob'', u_password = ''h2'', u_email = ''b@x'',
     u_created_at = 0, u_role = Some MODERATOR\<rparr>"

definition carol :: user_row where
  "carol = \<lparr>u_id = 3, u_username = ''carol'', u_password = ''h3'', u_email = ''c@x'',
     u_created_at = 0, u_role = Some USER\<rparr>"

definition alice_cookie :: user_cookie where
  "alice_cookie = \<lparr>uc_id = 1, uc_role = Some USER, uc_username = ''alice''\<rparr>"

definition bob_cookie :: user_cookie where
  "bob_cookie = \<lparr>uc_id = 2, uc_role = Some MODERATOR, uc_username = ''bob''\<rparr>"

definition carol_cookie :: user_cookie where
  "carol_cookie = \<lparr>uc_id = 3, uc_role = Some USER, uc_username = ''carol''\<rparr>"

definition sample_ticket :: "int \<Rightarrow> int option \<Rightarrow> board_list \<Rightarrow> ticket_row" where
  "sample_ticket i m b =
     \<lparr>t_id = i, t_created_by = 1, t_assigned_to = m, t_board_list = Some b\<rparr>"

definition sample_argument :: "int \<Rightarrow> int option \<Rightarrow> bool \<Rightarrow> argument_row" where
  "sample_argument i t dr =
     \<lparr>a_id = i, a_debate_id = 1, a_ticket_id = t, a_title = ''arg'', a_content = ''text'',
      a_counterargument_to = None, a_created_by = 1, a_created_at = 5, a_type = Some PRO,
      a_is_draft = dr\<rparr>"

definition sample_tables :: tables where
  "sample_tables =
     \<lparr>users = [alice, bob, carol],
      notifications =
        [\<lparr>n_id = 1, n_title = ''New'', n_content = ''c'', n_recipient_id = 2,
          n_event = EV_DEBATE, n_is_read = False\<rparr>],
      tickets = [sample_ticket 1 (Some 2) ACCEPTED, sample_ticket 2 None PENDING,
        sample_ticket 3 (Some 2) IN_REVIEW, sample_ticket 4 (Some 2) ACCEPTED],
      debates =
        [\<lparr>d_id = 1, d_ticket_id = 1, d_title = ''Chess'', d_created_at = 1, d_modified_at = 1,
          d_created_by = 1\<rparr>,
         \<lparr>d_id = 2, d_ticket_id = 3, d_title = ''Go'', d_created_at = 2, d_modified_at = 2,
          d_created_by = 1\<rparr>],
      debate_tags = [\<lparr>dt_id = 1, dt_name = ''games''\<rparr>, \<lparr>dt_id = 2, dt_name = ''sport''\<rparr>],
      assoc_debate_tags =
        [\<lparr>adt_debate_id = 1, adt_tag_id = 1\<rparr>, \<lparr>adt_debate_id = 1, adt_tag_id = 2\<rparr>,
         \<lparr>adt_debate_id = 2, adt_tag_id = 1\<rparr>],
      arguments = [sample_argument 1 (Some 4) False, sample_argument 2 (Some 2) False,
        sample_argument 3 None True],
      ticket_comments =
        [\<lparr>tc_id = 1, tc_ticket_id = 3, tc_content = ''hi'', tc_commenter_id = 2,
          tc_created_at = 3, tc_modified_at = 3\<rparr>]\<rparr>"

definition sample_db :: database where
  "sample_db =
     \<lparr>tabs = sample_tables,
      sqs = \<lparr>user_seq = 3, notification_seq = 1, ticket_seq = 4, debate_seq = 2,
             debate_tag_seq = 2, argument_seq = 3, ticket_comment_seq = 1\<rparr>,
      now = 9\<rparr>"

definition sample_world :: world where
  "sample_world = empty_world\<lparr>pg := sample_db\<rparr>"

lemmas sample_defs = sample_world_def empty_world_def sample_db_def sample_tables_def
  sample_ticket_def sample_argument_def alice_def bob_def carol_def alice_cookie_def
  bob_cookie_def carol_cookie_def

lemma sample_db_ok [simp]: "schema_ok sample_db"
  by (simp add: table_defs serial_key_def sample_defs)

lemma sample_db_tabs [simp]: "tabs sample_db = sample_tables"
  by (simp add: sample_db_def)

lemma sample_world_simps [simp]:
  "pg sample_world = sample_db" "txn sample_world = NoTxn" "lost sample_world = False"
  "faults sample_world = []" "checked_out sample_world = 0" "jobs sample_world = []"
  "request_id sample_world = None"
  by (simp_all add: sample_world_def empty_world_def)

lemma sample_idle [simp]: "idle sample_world"
  by (simp add: idle_def)

lemma sample_world_ok [simp]: "world_ok sample_world"
  by (simp add: world_ok_def)

end
