(* ===== verification/Tags.thy ===== *)
theory Tags
  imports Sample
begin

text \<open>
  The tags of a debate as five queries and four handlers use them: the common table expression
  \<open>debates_tags\<close> aggregates the names and the identifiers of the tags of each debate into two
  comma-separated strings, and the handlers split both and pair them by position.
\<close>

text \<open>The joined tag rows of a debate; a tag identifier without a row joins nothing.\<close>

definition tags_of :: "tables \<Rightarrow> int \<Rightarrow> debate_tag_row list" where
  "tags_of ts debateId =
     [g. r \<leftarrow> filter (\<lambda>r. adt_debate_id r = debateId) (assoc_debate_tags ts),
         g \<leftarrow> filter (\<lambda>g. dt_id g = adt_tag_id r) (debate_tags ts)]"

definition agg_names :: "debate_tag_row list \<Rightarrow> string" where
  "agg_names gs = join_on CHR '','' (map dt_name gs)"

definition agg_ids :: "debate_tag_row list \<Rightarrow> string" where
  "agg_ids gs = join_on CHR '','' (map (int_to_string \<circ> dt_id) gs)"

text \<open>\<open>debates_tags\<close>: grouping an inner join, so a debate without tags has no row.\<close>

definition debates_tags :: "tables \<Rightarrow> int \<Rightarrow> (string \<times> string) option" where
  "debates_tags ts debateId =
     (case tags_of ts debateId of [] \<Rightarrow> None | gs \<Rightarrow> Some (agg_names gs, agg_ids gs))"

text \<open>A tag as a handler answers it: the identifier is undefined past the end of the split.\<close>

record tag_json =
  tg_id :: "string option"
  tg_name :: string

definition nth_opt :: "'a list \<Rightarrow> nat \<Rightarrow> 'a option" where
  "nth_opt xs i = (if i < length xs then Some (xs ! i) else None)"

text \<open>
  \<open>rawTags.split(",")\<close> and \<open>rawTagsIds.split(",")\<close>, then
  \<open>tags.map((t, i) => ({ id: tagsIds[i], name: t }))\<close>.
\<close>

definition pair_tags :: "string \<Rightarrow> string \<Rightarrow> tag_json list" where
  "pair_tags rawTags rawTagsIds =
     (let tags = split_on CHR '','' rawTags; tagsIds = split_on CHR '','' rawTagsIds
      in map (\<lambda>(i, t). \<lparr>tg_id = nth_opt tagsIds i, tg_name = t\<rparr>) (enumerate 0 tags))"

section \<open>Aggregating and pairing\<close>

definition tag_json_of :: "debate_tag_row \<Rightarrow> tag_json" where
  "tag_json_of g = \<lparr>tg_id = Some (int_to_string (dt_id g)), tg_name = dt_name g\<rparr>"

text \<open>A tag name without a comma.\<close>

definition comma_free :: "debate_tag_row \<Rightarrow> bool" where
  "comma_free g \<longleftrightarrow> CHR '','' \<notin> set (dt_name g)"

lemma split_agg_ids: "gs \<noteq> [] \<Longrightarrow> split_on CHR '','' (agg_ids gs) = map (int_to_string \<circ> dt_id) gs"
  unfolding agg_ids_def by (rule split_on_join_on) auto

lemma split_agg_names:
  "gs \<noteq> [] \<Longrightarrow> list_all comma_free gs \<Longrightarrow> split_on CHR '','' (agg_names gs) = map dt_name gs"
  unfolding agg_names_def by (rule split_on_join_on) (auto simp: comma_free_def list_all_iff)

text \<open>Without commas in the names, the handlers recover exactly the rows that were aggregated.\<close>

lemma pair_tags_agg:
  assumes "gs \<noteq> []" and "list_all comma_free gs"
  shows "pair_tags (agg_names gs) (agg_ids gs) = map tag_json_of gs"
proof (rule nth_equalityI)
  show "length (pair_tags (agg_names gs) (agg_ids gs)) = length (map tag_json_of gs)"
    using assms by (simp add: pair_tags_def split_agg_names split_agg_ids)
  show "pair_tags (agg_names gs) (agg_ids gs) ! i = map tag_json_of gs ! i"
    if "i < length (pair_tags (agg_names gs) (agg_ids gs))" for i
    using that assms
    by (simp add: pair_tags_def split_agg_names split_agg_ids nth_enumerate_eq nth_opt_def
        tag_json_of_def)
qed

text \<open>With a comma in a name there are more names than identifiers: some tag has no identifier.\<close>

lemma length_split_on: "length (split_on c s) = Suc (length (filter (\<lambda>x. x = c) s))"
  by (induction s) (auto split: list.splits)

lemma count_join_on:
  "xs \<noteq> [] \<Longrightarrow> length (filter (\<lambda>x. x = c) (join_on c xs)) + 1
     = length xs + sum_list (map (\<lambda>x. length (filter (\<lambda>y. y = c) x)) xs)"
  by (induction c xs rule: join_on.induct) auto

lemma pair_tags_comma:
  assumes "g \<in> set gs" and "\<not> comma_free g"
  shows "\<exists>t \<in> set (pair_tags (agg_names gs) (agg_ids gs)). tg_id t = None"
proof -
  let ?tags = "split_on CHR '','' (agg_names gs)"
  have ne: "gs \<noteq> []" using assms by auto
  have "0 < length (filter (\<lambda>y. y = CHR '','') (dt_name g))"
    using assms(2) by (auto simp: comma_free_def filter_empty_conv)
  also have "\<dots> \<le> sum_list (map (\<lambda>x. length (filter (\<lambda>y. y = CHR '','') x)) (map dt_name gs))"
    using assms(1) by (intro member_le_sum_list) auto
  finally have "length gs < length ?tags"
    using ne count_join_on[of "map dt_name gs" "CHR '',''"]
    by (simp add: length_split_on agg_names_def)
  then have "(length gs, ?tags ! length gs) \<in> set (enumerate 0 ?tags)"
    by (simp add: in_set_enumerate_eq)
  moreover have "nth_opt (split_on CHR '','' (agg_ids gs)) (length gs) = None"
    using ne by (simp add: nth_opt_def split_agg_ids)
  ultimately show ?thesis by (force simp: pair_tags_def)
qed

lemma debates_tags_Some:
  "debates_tags ts d = Some (names, ids) \<longleftrightarrow>
     tags_of ts d \<noteq> [] \<and> names = agg_names (tags_of ts d) \<and> ids = agg_ids (tags_of ts d)"
  by (auto simp: debates_tags_def split: list.splits)

lemma debates_tags_None [simp]: "debates_tags ts d = None \<longleftrightarrow> tags_of ts d = []"
  by (simp add: debates_tags_def split: list.splits)

lemma set_tags_of:
  "set (tags_of ts d) = {g \<in> set (debate_tags ts).
     \<exists>r \<in> set (assoc_debate_tags ts). adt_debate_id r = d \<and> adt_tag_id r = dt_id g}"
  by (auto simp: tags_of_def)

text \<open>The identifiers of a debate's tags, as SQL's \<open>string_to_array\<close> reads them.\<close>

lemma string_to_array_agg_ids:
  "string_to_array CHR '','' (agg_ids gs) = map (int_to_string \<circ> dt_id) gs"
  unfolding agg_ids_def by (rule string_to_array_join_on) auto

end
