(* ===== verification/Debates_Query.thy ===== *)
theory Debates_Query
  imports Tags
begin

text \<open>
  Listing the accepted debates: the query pipe that decodes the filters, the SQL condition that
  \<open>applyDebateFilters\<close> builds with its parameters, the query itself and the handler. The meaning
  of the filters is stated on the tag sets and titles, apart from the SQL.
\<close>

section \<open>The query pipe\<close>

text \<open>
  The strategy \<open>TM_OTHER\<close> is a value that is neither member of the enumeration: the lookup in the
  object literal also finds the keys every object inherits.
\<close>

datatype tags_matching_strategy = TM_ALL | TM_ANY | TM_OTHER

text \<open>The decoded JSON object; \<open>rf_others\<close> tells whether it has any further key.\<close>

record raw_filters =
  rf_queryStr :: "string option"
  rf_tags :: "string option"
  rf_tags_match :: "string option"
  rf_others :: bool

record filters =
  f_queryStr :: "string option"
  f_tags :: "(string \<times> tags_matching_strategy) option"

definition object_prototype_keys :: "string list" where
  "object_prototype_keys =
     [''constructor'', ''__defineGetter__'', ''__defineSetter__'', ''hasOwnProperty'',
      ''__lookupGetter__'', ''__lookupSetter__'', ''isPrototypeOf'', ''propertyIsEnumerable'',
      ''toString'', ''valueOf'', ''__proto__'', ''toLocaleString'']"

fun tagsMatchingStrategyMap :: "string option \<Rightarrow> tags_matching_strategy option" where
  "tagsMatchingStrategyMap None = None"
| "tagsMatchingStrategyMap (Some k) =
     (if k = ''any'' then Some TM_ANY
      else if k = ''all'' then Some TM_ALL
      else if k \<in> set object_prototype_keys then Some TM_OTHER
      else None)"

text \<open>A string that is present and not empty.\<close>

definition truthy :: "string option \<Rightarrow> string option" where
  "truthy s = (case s of Some (c # cs) \<Rightarrow> s | _ \<Rightarrow> None)"

text \<open>
  \<open>DebatesQueryPipe.transform\<close> with the base64 and JSON decoding as a parameter: \<open>None\<close> where
  \<open>JSON.parse\<close> throws.
\<close>

definition debates_query_transform ::
  "(string \<Rightarrow> raw_filters option) \<Rightarrow> string option \<Rightarrow> js_error + filters option" where
  "debates_query_transform decode encodedQuery =
     (case truthy encodedQuery of
        None \<Rightarrow> Inr None
      | Some q \<Rightarrow>
          (case decode q of
             None \<Rightarrow> Inl (PlainError ''SyntaxError'')
           | Some raw \<Rightarrow>
               (let raw' = raw\<lparr>rf_queryStr := truthy (rf_queryStr raw)\<rparr>
                in if rf_queryStr raw' = None \<and> rf_tags raw' = None \<and> rf_tags_match raw' = None
                      \<and> \<not> rf_others raw'
                   then Inr None
                   else Inr (Some
                     \<lparr>f_queryStr = rf_queryStr raw',
                      f_tags = (case truthy (rf_tags raw') of
                                  None \<Rightarrow> None
                                | Some v \<Rightarrow> Some (v,
                                    case tagsMatchingStrategyMap (rf_tags_match raw') of
                                      Some m \<Rightarrow> m | None \<Rightarrow> TM_ANY))\<rparr>))))"

section \<open>The condition\<close>

text \<open>The fragment of SQL the service writes, over positional parameters.\<close>

datatype sql_cond =
    TitleILike nat
  | TagsOverlap nat
  | TagsContain nat
  | TagsContainedBy nat
  | SqlAnd sql_cond sql_cond

fun getTagFiltersSql :: "(string \<times> tags_matching_strategy) option \<Rightarrow> nat \<Rightarrow> js_error + sql_cond" where
  "getTagFiltersSql None i = Inl TypeError"
| "getTagFiltersSql (Some (v, m)) i =
     (if m = TM_ANY then Inr (TagsOverlap i)
      else Inr (SqlAnd (TagsContain i) (TagsContainedBy (i + 1))))"

definition tag_values :: "string \<times> tags_matching_strategy \<Rightarrow> string list" where
  "tag_values = (\<lambda>(v, m). v # (if m = TM_ALL then [v] else []))"

definition applyDebateFilters :: "filters \<Rightarrow> js_error + (sql_cond \<times> string list)" where
  "applyDebateFilters fl =
     (let queryStrFilter = map_option (\<lambda>q. CHR ''%'' # q @ ''%'') (truthy (f_queryStr fl));
          tagsFilter = f_tags fl
      in case (queryStrFilter, tagsFilter) of
           (Some q, Some tg) \<Rightarrow>
             (case getTagFiltersSql tagsFilter 2 of
                Inl e \<Rightarrow> Inl e
              | Inr c \<Rightarrow> Inr (SqlAnd (TitleILike 1) c, q # tag_values tg))
         | (Some q, None) \<Rightarrow> Inr (TitleILike 1, [q])
         | (None, _) \<Rightarrow>
             (case getTagFiltersSql tagsFilter 1 of
                Inl e \<Rightarrow> Inl e
              | Inr c \<Rightarrow> Inr (c, case tagsFilter of None \<Rightarrow> [] | Some tg \<Rightarrow> tag_values tg)))"

fun cond_params :: "sql_cond \<Rightarrow> nat set" where
  "cond_params (TitleILike i) = {i}"
| "cond_params (TagsOverlap i) = {i}"
| "cond_params (TagsContain i) = {i}"
| "cond_params (TagsContainedBy i) = {i}"
| "cond_params (SqlAnd a b) = cond_params a \<union> cond_params b"

fun max_param :: "sql_cond \<Rightarrow> nat" where
  "max_param (TitleILike i) = i"
| "max_param (TagsOverlap i) = i"
| "max_param (TagsContain i) = i"
| "max_param (TagsContainedBy i) = i"
| "max_param (SqlAnd a b) = max (max_param a) (max_param b)"

text \<open>The value of a condition on a title and the aggregated identifiers of a row.\<close>

fun eval_cond :: "string list \<Rightarrow> string \<Rightarrow> string \<Rightarrow> sql_cond \<Rightarrow> bool" where
  "eval_cond vs title ids (TitleILike i) = sql_ilike title (vs ! (i - 1))"
| "eval_cond vs title ids (TagsOverlap i) =
     list_ex (\<lambda>x. x \<in> set (string_to_array CHR '','' (vs ! (i - 1))))
       (string_to_array CHR '','' ids)"
| "eval_cond vs title ids (TagsContain i) =
     list_all (\<lambda>x. x \<in> set (string_to_array CHR '','' ids))
       (string_to_array CHR '','' (vs ! (i - 1)))"
| "eval_cond vs title ids (TagsContainedBy i) =
     list_all (\<lambda>x. x \<in> set (string_to_array CHR '','' (vs ! (i - 1))))
       (string_to_array CHR '','' ids)"
| "eval_cond vs title ids (SqlAnd a b) = (eval_cond vs title ids a \<and> eval_cond vs title ids b)"

section \<open>The query\<close>

record debate_listing =
  dl_id :: int
  dl_title :: string
  dl_created_at :: nat
  dl_modified_at :: nat
  dl_username :: string
  dl_user_id :: int
  dl_tags :: string
  dl_tags_ids :: string

definition debates_listing :: "tables \<Rightarrow> debate_listing list" where
  "debates_listing ts =
     [\<lparr>dl_id = d_id d, dl_title = d_title d, dl_created_at = d_created_at d,
       dl_modified_at = d_modified_at d, dl_username = u_username u, dl_user_id = u_id u,
       dl_tags = fst g, dl_tags_ids = snd g\<rparr>.
       d \<leftarrow> debates ts,
       t \<leftarrow> filter (\<lambda>t. t_id t = d_ticket_id d) (tickets ts),
       u \<leftarrow> filter (\<lambda>u. u_id u = t_created_by t) (users ts),
       g \<leftarrow> (case debates_tags ts (d_id d) of None \<Rightarrow> [] | Some g \<Rightarrow> [g]),
       t_board_list t = Some ACCEPTED]"

text \<open>The server refuses a statement whose parameters and values differ in number.\<close>

definition select_debates :: "(sql_cond \<times> string list) option \<Rightarrow> debate_listing list stmt" where
  "select_debates c =
     (case c of
        None \<Rightarrow> select_stmt debates_listing
      | Some (cond, vs) \<Rightarrow>
          (if max_param cond \<noteq> length vs then (\<lambda>d. (Inl ParameterMismatch, d))
           else select_stmt (\<lambda>ts.
             filter (\<lambda>r. eval_cond vs (dl_title r) (dl_tags_ids r) cond) (debates_listing ts))))"

text \<open>
  The client is taken before the filters are applied, and only the query is inside the try block.
\<close>

definition getAll :: "filters option \<Rightarrow> (world, debate_listing list) svc" where
  "getAll fl =
     sq pool_connect
       (bnd (case fl of
               None \<Rightarrow> ret None
             | Some f \<Rightarrow> (case applyDebateFilters f of
                            Inl e \<Rightarrow> raise e | Inr c \<Rightarrow> ret (Some c)))
          (\<lambda>c. try_finally
             (try_catch (query (select_debates c))
                (\<lambda>_. raise (PlainError ''An error occurred while fetching the debates.'')))
             release))"

section \<open>The handler\<close>

record debate_json =
  dj_id :: int
  dj_title :: string
  dj_created_at :: nat
  dj_modified_at :: nat
  dj_username :: string
  dj_user_id :: int
  dj_tags :: "tag_json list"

definition debate_to_json :: "debate_listing \<Rightarrow> debate_json" where
  "debate_to_json r =
     \<lparr>dj_id = dl_id r, dj_title = dl_title r, dj_created_at = dl_created_at r,
      dj_modified_at = dl_modified_at r, dj_username = dl_username r, dj_user_id = dl_user_id r,
      dj_tags = pair_tags (dl_tags r) (dl_tags_ids r)\<rparr>"

definition handle_getAll ::
  "(string \<Rightarrow> raw_filters option) \<Rightarrow> string option \<Rightarrow> (world, debate_json list) svc" where
  "handle_getAll decode q =
     (case debates_query_transform decode q of
        Inl e \<Rightarrow> raise e
      | Inr fl \<Rightarrow> map_svc (map debate_to_json) (getAll fl))"

section \<open>The meaning of the filters\<close>

definition title_matches :: "string option \<Rightarrow> string \<Rightarrow> bool" where
  "title_matches q title = (case q of None \<Rightarrow> True | Some s \<Rightarrow> sublist (lower s) (lower title))"

definition tags_match :: "(string \<times> tags_matching_strategy) option \<Rightarrow> string set \<Rightarrow> bool" where
  "tags_match tf ids =
     (case tf of
        None \<Rightarrow> True
      | Some (v, m) \<Rightarrow>
          (if m = TM_ANY then set (string_to_array CHR '','' v) \<inter> ids \<noteq> {}
           else set (string_to_array CHR '','' v) = ids))"

definition matches_filters :: "filters \<Rightarrow> debate_listing \<Rightarrow> bool" where
  "matches_filters f r \<longleftrightarrow> title_matches (truthy (f_queryStr f)) (dl_title r)
     \<and> tags_match (f_tags f) (set (string_to_array CHR '','' (dl_tags_ids r)))"

definition no_other_strategy :: "filters \<Rightarrow> bool" where
  "no_other_strategy f \<longleftrightarrow> (case f_tags f of Some (_, m) \<Rightarrow> m \<noteq> TM_OTHER | None \<Rightarrow> True)"

definition some_filter :: "filters \<Rightarrow> bool" where
  "some_filter f \<longleftrightarrow> truthy (f_queryStr f) \<noteq> None \<or> f_tags f \<noteq> None"

lemma truthy_idem [simp]: "truthy (truthy s) = truthy s"
  by (auto simp: truthy_def split: option.splits list.splits)

lemma applyDebateFilters_Inl: "\<not> some_filter f \<longleftrightarrow> applyDebateFilters f = Inl TypeError"
  by (auto simp: applyDebateFilters_def some_filter_def Let_def split: option.splits)

lemma applyDebateFilters_Inr: "some_filter f \<longleftrightarrow> (\<exists>c. applyDebateFilters f = Inr c)"
  by (auto simp: applyDebateFilters_def some_filter_def Let_def split: option.splits)

lemma strategy_cases: "m \<noteq> TM_OTHER \<Longrightarrow> m \<noteq> TM_ANY \<Longrightarrow> m = TM_ALL"
  by (cases m) simp_all

text \<open>The parameters are numbered from one without a gap, and there is a value for each.\<close>

lemma cond_params_apply:
  "applyDebateFilters f = Inr (c, vs) \<Longrightarrow> cond_params c = {1..max_param c}"
  by (auto simp: applyDebateFilters_def Let_def split: option.splits prod.splits if_splits)

lemma params_match_apply:
  "applyDebateFilters f = Inr (c, vs) \<Longrightarrow> max_param c = length vs \<longleftrightarrow> no_other_strategy f"
  by (auto simp: applyDebateFilters_def no_other_strategy_def tag_values_def Let_def
      split: option.splits prod.splits if_splits dest: strategy_cases)

lemma overlap_iff: "list_ex (\<lambda>x. x \<in> set b) a \<longleftrightarrow> set b \<inter> set a \<noteq> {}"
  by (auto simp: list_ex_iff)

lemma eval_apply:
  assumes "applyDebateFilters f = Inr (c, vs)" and "no_other_strategy f"
    and "\<And>q. f_queryStr f = Some q \<Longrightarrow> plain_pattern q"
  shows "eval_cond vs (dl_title r) (dl_tags_ids r) c = matches_filters f r"
proof -
  have ilike: "sql_ilike title (CHR ''%'' # q @ ''%'') \<longleftrightarrow> sublist (lower q) (lower title)"
    if "truthy (f_queryStr f) = Some q" for q title
  proof -
    from that have "f_queryStr f = Some q"
      by (auto simp: truthy_def split: option.splits list.splits)
    then show ?thesis using assms(3) by (simp add: sql_ilike_def sql_like_contains)
  qed
  show ?thesis
    using assms(1,2) ilike
    by (auto simp: applyDebateFilters_def matches_filters_def title_matches_def tags_match_def
        no_other_strategy_def tag_values_def overlap_iff list_all_iff Let_def
        split: option.splits prod.splits if_splits dest!: strategy_cases)
qed

section \<open>The rows\<close>

definition ticket_of :: "tables \<Rightarrow> int \<Rightarrow> ticket_row option" where
  "ticket_of ts i = find (\<lambda>t. t_id t = i) (tickets ts)"

definition user_of :: "tables \<Rightarrow> int \<Rightarrow> user_row option" where
  "user_of ts i = find (\<lambda>u. u_id u = i) (users ts)"

definition debate_of :: "tables \<Rightarrow> int \<Rightarrow> debate_row option" where
  "debate_of ts i = find (\<lambda>d. d_id d = i) (debates ts)"

text \<open>Keys are distinct and references to users are satisfied.\<close>

definition tables_ok :: "tables \<Rightarrow> bool" where
  "tables_ok ts \<longleftrightarrow> distinct (user_ids ts) \<and> distinct (ticket_ids ts) \<and> distinct (debate_ids ts)
     \<and> distinct (map dt_id (debate_tags ts)) \<and> distinct (map a_id (arguments ts)) \<and> refs_ok ts"

lemma schema_tables_ok: "schema_ok d \<Longrightarrow> tables_ok (tabs d)"
  by (simp add: tables_ok_def schema_ok_def keys_ok_def serial_key_def user_ids_def ticket_ids_def
      debate_ids_def)

lemma tables_ok_filters:
  assumes "tables_ok ts"
  shows "filter (\<lambda>t. t_id t = i) (tickets ts) = list_option (ticket_of ts i)"
    and "filter (\<lambda>u. u_id u = i) (users ts) = list_option (user_of ts i)"
    and "filter (\<lambda>d. d_id d = i) (debates ts) = list_option (debate_of ts i)"
  using assms
  by (simp_all add: tables_ok_def user_ids_def ticket_ids_def debate_ids_def filter_key_find
      ticket_of_def user_of_def debate_of_def)

lemma tables_ok_lookup:
  assumes "tables_ok ts"
  shows "ticket_of ts i = Some t \<longleftrightarrow> t \<in> set (tickets ts) \<and> t_id t = i"
    and "user_of ts i = Some u \<longleftrightarrow> u \<in> set (users ts) \<and> u_id u = i"
    and "debate_of ts i = Some d \<longleftrightarrow> d \<in> set (debates ts) \<and> d_id d = i"
  using assms
  by (simp_all add: tables_ok_def user_ids_def ticket_ids_def debate_ids_def find_key_Some
      ticket_of_def user_of_def debate_of_def)

lemma ticket_creator:
  assumes "tables_ok ts" and "ticket_of ts i = Some t"
  shows "\<exists>u. user_of ts (t_created_by t) = Some u"
proof -
  have "t \<in> set (tickets ts)" using assms tables_ok_lookup by blast
  then have "t_created_by t \<in> set (user_ids ts)"
    using assms(1) by (simp add: tables_ok_def refs_ok_def list_all_iff)
  then show ?thesis
    by (cases "user_of ts (t_created_by t)")
       (auto simp: user_of_def find_key_None user_ids_def)
qed

text \<open>A debate is public when its ticket is in the accepted list.\<close>

definition board_of :: "tables \<Rightarrow> int \<Rightarrow> board_list option" where
  "board_of ts ticketId = (case ticket_of ts ticketId of None \<Rightarrow> None | Some t \<Rightarrow> t_board_list t)"

definition listed :: "tables \<Rightarrow> debate_row \<Rightarrow> bool" where
  "listed ts d \<longleftrightarrow> board_of ts (d_ticket_id d) = Some ACCEPTED \<and> tags_of ts (d_id d) \<noteq> []"

definition listing_row :: "tables \<Rightarrow> debate_row \<Rightarrow> debate_listing" where
  "listing_row ts d =
     (let u = the (user_of ts (t_created_by (the (ticket_of ts (d_ticket_id d)))));
          gs = tags_of ts (d_id d)
      in \<lparr>dl_id = d_id d, dl_title = d_title d, dl_created_at = d_created_at d,
          dl_modified_at = d_modified_at d, dl_username = u_username u, dl_user_id = u_id u,
          dl_tags = agg_names gs, dl_tags_ids = agg_ids gs\<rparr>)"

text \<open>The joins give one row for each accepted debate that has a tag, and no other row.\<close>

lemma debates_listing_eq:
  assumes ok: "tables_ok ts"
  shows "debates_listing ts = map (listing_row ts) (filter (listed ts) (debates ts))"
proof -
  let ?rows = "\<lambda>d. [\<lparr>dl_id = d_id d, dl_title = d_title d, dl_created_at = d_created_at d,
       dl_modified_at = d_modified_at d, dl_username = u_username u, dl_user_id = u_id u,
       dl_tags = fst g, dl_tags_ids = snd g\<rparr>.
       t \<leftarrow> filter (\<lambda>t. t_id t = d_ticket_id d) (tickets ts),
       u \<leftarrow> filter (\<lambda>u. u_id u = t_created_by t) (users ts),
       g \<leftarrow> (case debates_tags ts (d_id d) of None \<Rightarrow> [] | Some g \<Rightarrow> [g]),
       t_board_list t = Some ACCEPTED]"
  have row: "?rows d = (if listed ts d then [listing_row ts d] else [])" for d
  proof (cases "ticket_of ts (d_ticket_id d)")
    case None
    then show ?thesis by (simp add: tables_ok_filters[OF ok] listed_def board_of_def)
  next
    case (Some t)
    then obtain u where "user_of ts (t_created_by t) = Some u" using ticket_creator[OF ok] by blast
    with Some show ?thesis
      by (cases "tags_of ts (d_id d)")
         (auto simp: tables_ok_filters[OF ok] listed_def board_of_def listing_row_def Let_def
           debates_tags_def)
  qed
  have "debates_listing ts = concat (map ?rows (debates ts))"
    unfolding debates_listing_def ..
  also have "\<dots> = concat (map (\<lambda>d. if listed ts d then [listing_row ts d] else []) (debates ts))"
    by (rule arg_cong[where f = concat], rule map_cong[OF refl], rule row)
  finally show ?thesis by (simp add: concat_map_if)
qed

lemma select_debates_apply:
  assumes "applyDebateFilters f = Inr c" and "no_other_strategy f"
    and "\<And>q. f_queryStr f = Some q \<Longrightarrow> plain_pattern q"
  shows "select_debates (Some c) d = (Inr (filter (matches_filters f) (debates_listing (tabs d))), d)"
proof -
  obtain cond vs where c: "c = (cond, vs)" by (cases c)
  have "max_param cond = length vs" using params_match_apply assms(1,2) c by simp
  moreover have "filter (\<lambda>r. eval_cond vs (dl_title r) (dl_tags_ids r) cond) (debates_listing ts)
      = filter (matches_filters f) (debates_listing ts)" for ts
    by (rule filter_cong[OF refl]) (use eval_apply assms c in simp)
  ultimately show ?thesis by (simp add: select_debates_def c select_stmt_def)
qed

lemma select_debates_ok [simp]: "stmt_ok (select_debates c)"
  by (auto simp: select_debates_def stmt_ok_def select_stmt_def split: option.splits prod.splits)

section \<open>Properties\<close>

text \<open>With a filter present and its strategy one of the two the client offers, the SQL that
  the service builds returns exactly the accepted debates with a tag whose title contains the
  query text (ignoring case) and whose tag set overlaps the chosen tags (any) or equals them (all).\<close>

theorem filters_meaning:
  assumes "some_filter f" and "no_other_strategy f"
    and "\<And>q. f_queryStr f = Some q \<Longrightarrow> plain_pattern q" and "schema_ok d"
  shows "\<exists>c. applyDebateFilters f = Inr c \<and> select_debates (Some c) d =
    (Inr (filter (matches_filters f)
       (map (listing_row (tabs d)) (filter (listed (tabs d)) (debates (tabs d))))), d)"
proof -
  obtain c where c: "applyDebateFilters f = Inr c" using assms(1) applyDebateFilters_Inr by blast
  with select_debates_apply[OF c assms(2,3)] debates_listing_eq[OF schema_tables_ok[OF assms(4)]]
  show ?thesis by simp
qed

theorem filters_meaning_witness:
  "\<exists>c. applyDebateFilters \<lparr>f_queryStr = Some ''chE'', f_tags = Some (''1,2'', TM_ALL)\<rparr> = Inr c
     \<and> select_debates (Some c) sample_db =
    (Inr (filter (matches_filters \<lparr>f_queryStr = Some ''chE'', f_tags = Some (''1,2'', TM_ALL)\<rparr>)
       (map (listing_row (tabs sample_db)) (filter (listed (tabs sample_db))
         (debates (tabs sample_db))))), sample_db)"
  by (rule filters_meaning)
     (simp_all add: some_filter_def no_other_strategy_def plain_pattern_def)

text \<open>C34: the condition numbers its parameters from one without a gap, and the values match them
  in number exactly when the strategy is one of the two members; for any other strategy the server
  refuses the statement. The conditions are undefined only when neither filter is present.\<close>

theorem filter_parameters:
  "case applyDebateFilters f of
     Inl e \<Rightarrow> e = TypeError \<and> truthy (f_queryStr f) = None \<and> f_tags f = None
   | Inr (c, vs) \<Rightarrow> cond_params c = {1..max_param c} \<and>
       (if no_other_strategy f then max_param c = length vs
        else select_debates (Some (c, vs)) d = (Inl ParameterMismatch, d))"
proof (cases "applyDebateFilters f")
  case (Inl e)
  then have no: "\<not> some_filter f" using applyDebateFilters_Inr by auto
  then have "applyDebateFilters f = Inl TypeError" using applyDebateFilters_Inl by blast
  with no show ?thesis by (cases "f_tags f") (simp_all add: some_filter_def)
next
  case (Inr p)
  then obtain c vs where "applyDebateFilters f = Inr (c, vs)" by (cases p) auto
  with cond_params_apply params_match_apply show ?thesis by (simp add: select_debates_def)
qed

text \<open>Listing the debates gives its client back, with or without a failure, unless the filter
  object has neither a text nor a tag: then the client that was taken stays out of the pool.\<close>

theorem getAll_pool:
  "checked_out (snd (getAll fl w)) = checked_out w +
     (case fl of None \<Rightarrow> 0
      | Some f \<Rightarrow> if \<not> some_filter f \<and> fst (next_fault w) = NoFault then 1 else 0)"
proof -
  obtain f w1 where nf: "next_fault w = (f, w1)" by (cases "next_fault w")
  then have 1: "checked_out w1 = checked_out w" using pool_next_fault[of w] by simp
  let ?m = "\<lambda>c. try_catch (query (select_debates c))
    (\<lambda>_. raise (PlainError ''An error occurred while fetching the debates.''))"
  have wc: "sq pool_connect (bnd (ret c) (\<lambda>c. try_finally (?m c) release)) = with_client (?m c)"
    for c by (simp add: with_client_def bnd_def ret_def)
  have bal: "checked_out (snd (with_client (?m c) w)) = checked_out w" for c
    using keepsD[OF pool_with_client, of "?m c" w]
    by (simp add: same_pool_def pool.keeps_try_catch pool_query pool.keeps_raise)
  show ?thesis
  proof (cases fl)
    case None
    then show ?thesis by (simp add: getAll_def wc bal)
  next
    case (Some fil)
    show ?thesis
    proof (cases "some_filter fil")
      case True
      then obtain c where "applyDebateFilters fil = Inr c" using applyDebateFilters_Inr by blast
      with Some True show ?thesis by (simp add: getAll_def wc bal)
    next
      case False
      then have "applyDebateFilters fil = Inl TypeError" using applyDebateFilters_Inl by blast
      with Some False nf 1 show ?thesis
        by (cases f) (simp_all add: getAll_def sq_run bnd_run pool_connect_def)
    qed
  qed
qed

text \<open>Without filters and without a failure, the handler answers one object for each accepted
  debate that has a tag, in table order; when no tag name has a comma, the tags of the object are
  exactly the rows of the debate's tags, each name with its own identifier.\<close>

theorem handle_getAll_result:
  assumes "schema_ok (pg w)" and "txn w = NoTxn" and "faults w = []" and "q = None \<or> q = Some []"
    and "list_all comma_free (debate_tags (wtabs w))"
  shows "\<exists>w' js. handle_getAll decode q w = (Inr js, w') \<and> pg w' = pg w
    \<and> map dj_id js = map d_id (filter (listed (wtabs w)) (debates (wtabs w)))
    \<and> map dj_tags js = map (\<lambda>d. map tag_json_of (tags_of (wtabs w) (d_id d)))
        (filter (listed (wtabs w)) (debates (wtabs w)))"
proof -
  let ?ts = "wtabs w"
  have fl: "debates_query_transform decode q = Inr None"
    using assms(4) by (auto simp: debates_query_transform_def truthy_def)
  have listing: "debates_listing ?ts = map (listing_row ?ts) (filter (listed ?ts) (debates ?ts))"
    using debates_listing_eq schema_tables_ok assms(1) by blast
  have run: "handle_getAll decode q w = (Inr (map debate_to_json (debates_listing ?ts)),
      w\<lparr>lost := False, checked_out := checked_out w\<rparr>)"
    using fl assms(2,3)
    by (simp add: handle_getAll_def getAll_def map_svc_def sq_run bnd_run pool_connect_def
        next_fault_def try_finally_def try_catch_def query_def exchange_def run_stmt_def
        select_debates_def select_stmt_def release_def)
  have comma: "list_all comma_free (tags_of ?ts i)" for i
    using assms(5) by (auto simp: list_all_iff set_tags_of)
  have tags: "dj_tags (debate_to_json (listing_row ?ts d)) = map tag_json_of (tags_of ?ts (d_id d))"
    if "listed ?ts d" for d
    using that comma by (simp add: debate_to_json_def listing_row_def Let_def pair_tags_agg listed_def)
  show ?thesis
    using run tags by (simp add: listing) (simp add: debate_to_json_def listing_row_def Let_def)
qed

theorem handle_getAll_result_witness:
  "\<exists>w' js. handle_getAll (\<lambda>_. None) None sample_world = (Inr js, w') \<and> pg w' = pg sample_world
    \<and> map dj_id js = map d_id (filter (listed (wtabs sample_world)) (debates (wtabs sample_world)))
    \<and> map dj_tags js = map (\<lambda>d. map tag_json_of (tags_of (wtabs sample_world) (d_id d)))
        (filter (listed (wtabs sample_world)) (debates (wtabs sample_world)))"
  by (rule handle_getAll_result)
     (simp_all add: comma_free_def sample_tables_def)

end
