(* ===== verification/Events.thy ===== *)
theory Events
  imports Backend
begin

text \<open>
  The notification events of \<open>debate.events.ts\<close> and \<open>review.events.ts\<close>: each has a title and a
  document that is built from text, links and a paragraph. The serialisation of a document by the
  editor library is a parameter of the operations that use it.
\<close>

section \<open>Documents\<close>

datatype text_format = Normal | Italic | Bold | Strikethrough

datatype lexical_node =
    TextNode string text_format
  | LinkNode string "lexical_node list"
  | ParagraphNode "lexical_node list"

type_synonym document = "lexical_node list"

text \<open>The text a reader sees.\<close>

fun node_text :: "lexical_node \<Rightarrow> string" where
  "node_text (TextNode s _) = s"
| "node_text (LinkNode _ ns) = concat (map node_text ns)"
| "node_text (ParagraphNode ns) = concat (map node_text ns)"

definition document_text :: "document \<Rightarrow> string" where
  "document_text ns = concat (map node_text ns)"

fun node_links :: "lexical_node \<Rightarrow> string list" where
  "node_links (TextNode _ _) = []"
| "node_links (LinkNode h ns) = h # concat (map node_links ns)"
| "node_links (ParagraphNode ns) = concat (map node_links ns)"

definition document_links :: "document \<Rightarrow> string list" where
  "document_links ns = concat (map node_links ns)"

text \<open>A number in a template literal.\<close>

fun template_number :: "jsval \<Rightarrow> string" where
  "template_number JUndefined = ''undefined''"
| "template_number JNull = ''null''"
| "template_number (JNum i) = int_to_string i"
| "template_number (JFrac s) = s"
| "template_number JNaN = ''NaN''"
| "template_number (JStr s) = s"

section \<open>Events\<close>

datatype notification_event_obj =
    DebateTicketCreated int string
  | ArgumentTicketCreated int string
  | DebateTitleUpdated jsval user_cookie string string jsval
  | ArgumentUpdated jsval user_cookie string string jsval
  | DebateTicketApproved int jsval string int int
  | ArgumentTicketApproved int jsval string jsval string int int
  | DebateReviewNewComment jsval int user_cookie string jsval
  | ArgumentReviewNewComment jsval int user_cookie string string jsval

fun getTitle :: "notification_event_obj \<Rightarrow> string" where
  "getTitle (DebateTicketCreated _ _) = ''New proposed debate!''"
| "getTitle (ArgumentTicketCreated _ _) = ''New argument proposed!''"
| "getTitle (DebateTitleUpdated _ _ _ _ _) = ''Debate updated!''"
| "getTitle (ArgumentUpdated _ _ _ _ _) = ''Argument updated!''"
| "getTitle (DebateTicketApproved _ _ _ _ _) = ''Debate published!''"
| "getTitle (ArgumentTicketApproved _ _ _ _ _ _ _) = ''Argument published!''"
| "getTitle (DebateReviewNewComment _ _ _ _ _) = ''New comment!''"
| "getTitle (ArgumentReviewNewComment _ _ _ _ _ _) = ''New comment!''"

definition ticket_created_document :: "string \<Rightarrow> document" where
  "ticket_created_document title =
     [ParagraphNode
        [TextNode ''Find the ticket of '' Normal,
         TextNode title Italic,
         LinkNode ''/activity'' [TextNode '' here'' Normal]]]"

definition debate_title_updated_document ::
  "jsval \<Rightarrow> user_cookie \<Rightarrow> string \<Rightarrow> string \<Rightarrow> document" where
  "debate_title_updated_document ticketId user oldTitle newTitle =
     [ParagraphNode
        [TextNode (uc_username user) Bold,
         TextNode '' changed the title from '' Normal,
         TextNode oldTitle Strikethrough,
         TextNode '' to '' Normal,
         LinkNode (''/review/debate/'' @ template_number ticketId) [TextNode newTitle Italic],
         TextNode ''.'' Normal]]"

definition argument_updated_document ::
  "jsval \<Rightarrow> user_cookie \<Rightarrow> string \<Rightarrow> string \<Rightarrow> document" where
  "argument_updated_document ticketId user debateTitle argumentTitle =
     [ParagraphNode
        [TextNode (uc_username user) Bold,
         TextNode '' updated '' Normal,
         LinkNode (''/review/argument/'' @ template_number ticketId)
           [TextNode argumentTitle Italic],
         TextNode '' in the debate entitled '' Normal,
         TextNode debateTitle Italic,
         TextNode ''.'' Normal]]"

definition debate_approved_document :: "jsval \<Rightarrow> string \<Rightarrow> document" where
  "debate_approved_document debateId debateTitle =
     [ParagraphNode
        [LinkNode (''/debates/'' @ template_number debateId) [TextNode debateTitle Italic],
         TextNode '' has been published!'' Normal]]"

definition argument_approved_document :: "jsval \<Rightarrow> string \<Rightarrow> string \<Rightarrow> document" where
  "argument_approved_document debateId debateTitle argumentTitle =
     [ParagraphNode
        [TextNode ''The argument '' Normal,
         TextNode argumentTitle Italic,
         TextNode '' has been published in '' Normal,
         LinkNode (''/debates/'' @ template_number debateId) [TextNode debateTitle Italic]]]"

definition debate_comment_document :: "jsval \<Rightarrow> user_cookie \<Rightarrow> string \<Rightarrow> document" where
  "debate_comment_document ticketId user debateTitle =
     [ParagraphNode
        [TextNode (uc_username user) Bold,
         TextNode '' added a comment on '' Normal,
         LinkNode (''/review/debate/'' @ template_number ticketId) [TextNode debateTitle Italic]]]"

definition argument_comment_document ::
  "jsval \<Rightarrow> user_cookie \<Rightarrow> string \<Rightarrow> string \<Rightarrow> document" where
  "argument_comment_document ticketId user debateTitle argumentTitle =
     [ParagraphNode
        [TextNode (uc_username user) Bold,
         TextNode '' commented on '' Normal,
         LinkNode (''/review/argument/'' @ template_number ticketId)
           [TextNode argumentTitle Italic],
         TextNode '' in the debate entitled '' Normal,
         TextNode debateTitle Italic,
         TextNode ''.'' Normal]]"

fun getContent :: "notification_event_obj \<Rightarrow> document" where
  "getContent (DebateTicketCreated _ title) = ticket_created_document title"
| "getContent (ArgumentTicketCreated _ title) = ticket_created_document title"
| "getContent (DebateTitleUpdated tid user oldT newT _) =
     debate_title_updated_document tid user oldT newT"
| "getContent (ArgumentUpdated tid user dt at _) = argument_updated_document tid user dt at"
| "getContent (DebateTicketApproved _ did dt _ _) = debate_approved_document did dt"
| "getContent (ArgumentTicketApproved _ did dt _ at _ _) = argument_approved_document did dt at"
| "getContent (DebateReviewNewComment tid _ user dt _) = debate_comment_document tid user dt"
| "getContent (ArgumentReviewNewComment tid _ user dt at _) =
     argument_comment_document tid user dt at"

text \<open>Every title fits the column \<open>notification.title varchar(40)\<close>.\<close>

lemma getTitle_fits: "length (getTitle ev) \<le> 40"
  by (cases ev) simp_all

lemma varchar_getTitle [simp]: "varchar 40 (getTitle ev) = Inr (getTitle ev)"
  by (simp add: varchar_short getTitle_fits)

text \<open>Where the link of an event leads.\<close>

fun event_link :: "notification_event_obj \<Rightarrow> string" where
  "event_link (DebateTicketCreated _ _) = ''/activity''"
| "event_link (ArgumentTicketCreated _ _) = ''/activity''"
| "event_link (DebateTitleUpdated tid _ _ _ _) = ''/review/debate/'' @ template_number tid"
| "event_link (ArgumentUpdated tid _ _ _ _) = ''/review/argument/'' @ template_number tid"
| "event_link (DebateTicketApproved _ did _ _ _) = ''/debates/'' @ template_number did"
| "event_link (ArgumentTicketApproved _ did _ _ _ _ _) = ''/debates/'' @ template_number did"
| "event_link (DebateReviewNewComment tid _ _ _ _) = ''/review/debate/'' @ template_number tid"
| "event_link (ArgumentReviewNewComment tid _ _ _ _ _) =
     ''/review/argument/'' @ template_number tid"

lemmas document_defs = ticket_created_document_def debate_title_updated_document_def
  argument_updated_document_def debate_approved_document_def argument_approved_document_def
  debate_comment_document_def argument_comment_document_def document_links_def document_text_def

text \<open>The content of every notification event is one paragraph with exactly one link, to the
  page the event is about: the board for a new ticket, the review page of the ticket for a change or
  a comment, the public debate for an approval; and its title fits the title column.\<close>

theorem event_content_link:
  "document_links (getContent ev) = [event_link ev] \<and> length (getContent ev) = 1
     \<and> varchar 40 (getTitle ev) = Inr (getTitle ev)"
  by (cases ev) (simp_all add: document_defs varchar_short)

end
