(* ===== verification/App_State.thy ===== *)
theory App_State
  imports Debates_Query Events
begin

text \<open>
  What the application keeps of its tables beyond the constraints of the schema, as one predicate
  on the tables, and the rules that carry it through the operations of the services: a single
  statement, or a transaction, whatever fails.
\<close>

section \<open>The application's invariant\<close>

text \<open>The tickets that debates and arguments refer to, in table order.\<close>

definition ticket_refs :: "tables \<Rightarrow> int list" where
  "ticket_refs ts = map d_ticket_id (debates ts)
     @ map (the \<circ> a_ticket_id) (filter (\<lambda>a. a_ticket_id a \<noteq> None) (arguments ts))"

definition debate_ok :: "tables \<Rightarrow> debate_row \<Rightarrow> bool" where
  "debate_ok ts d \<longleftrightarrow>
     list_ex (\<lambda>t. t_id t = d_ticket_id d \<and> t_created_by t = d_created_by d) (tickets ts)"

definition argument_ok :: "tables \<Rightarrow> argument_row \<Rightarrow> bool" where
  "argument_ok ts a \<longleftrightarrow> (a_is_draft a \<longleftrightarrow> a_ticket_id a = None) \<and>
     (case a_ticket_id a of None \<Rightarrow> True
      | Some i \<Rightarrow> list_ex (\<lambda>t. t_id t = i \<and> t_created_by t = a_created_by a) (tickets ts))"

definition ticket_ok :: "tables \<Rightarrow> ticket_row \<Rightarrow> bool" where
  "ticket_ok ts t \<longleftrightarrow>
     (case t_board_list t of None \<Rightarrow> False
      | Some b \<Rightarrow> b = PENDING \<or> t_assigned_to t \<noteq> None)
     \<and> (case t_assigned_to t of None \<Rightarrow> True
        | Some m \<Rightarrow> list_ex (\<lambda>u. u_id u = m \<and> u_role u = Some MODERATOR) (users ts))"

definition app_ok :: "tables \<Rightarrow> bool" where
  "app_ok ts \<longleftrightarrow> list_all (debate_ok ts) (debates ts) \<and> list_all (argument_ok ts) (arguments ts)
     \<and> list_all (ticket_ok ts) (tickets ts) \<and> distinct (ticket_refs ts)"

lemmas app_defs = app_ok_def debate_ok_def argument_ok_def ticket_ok_def ticket_refs_def
  list_all_iff list_ex_iff

text \<open>Which tables the parts depend on.\<close>

lemma app_ok_frame [simp]:
  "debate_ok (ts\<lparr>users := us\<rparr>) = debate_ok ts" "debate_ok (ts\<lparr>debates := ds\<rparr>) = debate_ok ts"
  "debate_ok (ts\<lparr>arguments := as\<rparr>) = debate_ok ts"
  "debate_ok (ts\<lparr>ticket_comments := cs\<rparr>) = debate_ok ts"
  "debate_ok (ts\<lparr>notifications := ns\<rparr>) = debate_ok ts"
  "argument_ok (ts\<lparr>users := us\<rparr>) = argument_ok ts"
  "argument_ok (ts\<lparr>debates := ds\<rparr>) = argument_ok ts"
  "argument_ok (ts\<lparr>arguments := as\<rparr>) = argument_ok ts"
  "argument_ok (ts\<lparr>ticket_comments := cs\<rparr>) = argument_ok ts"
  "argument_ok (ts\<lparr>notifications := ns\<rparr>) = argument_ok ts"
  "ticket_ok (ts\<lparr>tickets := tks\<rparr>) = ticket_ok ts" "ticket_ok (ts\<lparr>debates := ds\<rparr>) = ticket_ok ts"
  "ticket_ok (ts\<lparr>arguments := as\<rparr>) = ticket_ok ts"
  "ticket_ok (ts\<lparr>ticket_comments := cs\<rparr>) = ticket_ok ts"
  "ticket_ok (ts\<lparr>notifications := ns\<rparr>) = ticket_ok ts"
  by (simp_all add: fun_eq_iff debate_ok_def argument_ok_def ticket_ok_def
      split: option.splits)

lemma ticket_refs_frame [simp]:
  "ticket_refs (ts\<lparr>users := us\<rparr>) = ticket_refs ts"
  "ticket_refs (ts\<lparr>tickets := tks\<rparr>) = ticket_refs ts"
  "ticket_refs (ts\<lparr>ticket_comments := cs\<rparr>) = ticket_refs ts"
  "ticket_refs (ts\<lparr>notifications := ns\<rparr>) = ticket_refs ts"
  by (simp_all add: ticket_refs_def)

lemma app_ok_irrelevant [simp]:
  "app_ok (ts\<lparr>ticket_comments := cs\<rparr>) = app_ok ts"
  "app_ok (ts\<lparr>notifications := ns\<rparr>) = app_ok ts"
  by (simp_all add: app_ok_def)

lemma app_ok_empty [simp]: "app_ok empty_tables"
  by (simp add: app_defs empty_tables_def)

lemma ticket_refs_in:
  assumes "app_ok ts" and "i \<in> set (ticket_refs ts)"
  shows "i \<in> set (ticket_ids ts)"
proof -
  have d: "d_ticket_id d \<in> set (ticket_ids ts)" if "d \<in> set (debates ts)" for d
    using assms(1) that by (force simp: app_ok_def debate_ok_def list_all_iff list_ex_iff ticket_ids_def)
  have a: "j \<in> set (ticket_ids ts)" if "a \<in> set (arguments ts)" "a_ticket_id a = Some j" for a j
    using assms(1) that
    by (force simp: app_ok_def argument_ok_def list_all_iff list_ex_iff ticket_ids_def)
  show ?thesis using assms(2) d a by (auto simp: ticket_refs_def)
qed

section \<open>Safe worlds\<close>

definition safe :: "world \<Rightarrow> bool" where
  "safe w \<longleftrightarrow> idle w \<and> world_ok w \<and> app_ok (wtabs w)"

lemma safe_empty [simp]: "safe empty_world"
  by (simp add: safe_def idle_def empty_world_def world_ok_def) (simp add: empty_database_def)

lemma safeD: "safe w \<Longrightarrow> idle w" "safe w \<Longrightarrow> app_ok (wtabs w)" "safe w \<Longrightarrow> schema_ok (pg w)"
  by (simp_all add: safe_def world_ok_def)

text \<open>A single statement that keeps the invariant when it succeeds.\<close>

definition stmt_app_ok :: "'a stmt \<Rightarrow> bool" where
  "stmt_app_ok st \<longleftrightarrow> stmt_ok st \<and> (\<forall>d a d'. schema_ok d \<longrightarrow> app_ok (tabs d) \<longrightarrow>
     st d = (Inr a, d') \<longrightarrow> app_ok (tabs d'))"

lemma stmt_app_okI:
  assumes "stmt_ok st"
    and "\<And>d a d'. schema_ok d \<Longrightarrow> app_ok (tabs d) \<Longrightarrow> st d = (Inr a, d') \<Longrightarrow> app_ok (tabs d')"
  shows "stmt_app_ok st"
  using assms by (auto simp: stmt_app_ok_def)

text \<open>A statement that only reads.\<close>

definition read_only :: "'a stmt \<Rightarrow> bool" where
  "read_only st \<longleftrightarrow> (\<forall>d. snd (st d) = d)"

lemma read_only_select [intro!, simp]: "read_only (select_stmt f)"
  by (simp add: read_only_def select_stmt_def)

lemma read_only_with_param: "(\<And>x. read_only (k x)) \<Longrightarrow> read_only (with_param p k)"
  by (cases p) (simp_all add: read_only_def with_param_def)

lemma read_only_stmt_ok: "read_only st \<Longrightarrow> stmt_ok st"
  by (simp add: read_only_def stmt_ok_def)

lemma read_only_app_ok: "read_only st \<Longrightarrow> stmt_app_ok st"
  by (rule stmt_app_okI) (auto simp: read_only_stmt_ok read_only_def, metis snd_conv)

text \<open>An operation keeps the worlds safe, whatever fails in it.\<close>

definition keeps_safe :: "world \<Rightarrow> world \<Rightarrow> bool" where
  "keeps_safe w w' \<longleftrightarrow> (safe w \<longrightarrow> safe w')"

interpretation safety: world_order keeps_safe
  by unfold_locales (auto simp: keeps_safe_def)

lemma safe_client_query:
  assumes st: "stmt_app_ok st"
  shows "keeps keeps_safe (client_query st post onerr)"
proof (rule keepsI)
  fix w :: world
  have ok: "stmt_ok st" using st by (simp add: stmt_app_ok_def)
  obtain r w' where run: "client_query st post onerr w = (r, w')"
    by (cases "client_query st post onerr w")
  have "safe w'" if safe: "safe w"
  proof -
    note cq = client_query_cases[OF safeD(1)[OF safe] ok run]
    have "world_ok w'"
      using keeps_result[OF integrity_client_query[OF ok] run] safe
      by (simp add: keeps_ok_def safe_def)
    moreover have "app_ok (wtabs w')"
      using cq(2) st safeD[OF safe] by (cases r) (auto simp: stmt_app_ok_def)
    ultimately show ?thesis using cq(1) by (simp add: safe_def)
  qed
  then show "keeps_safe w (snd (client_query st post onerr w))"
    using run by (simp add: keeps_safe_def)
qed

text \<open>A transaction whose effect keeps the invariant.\<close>

lemma safe_transaction:
  assumes body: "txn_body body eff"
    and integ: "keeps keeps_ok body"
    and after: "\<And>a v. \<exists>b v'. after a v = (Inr b, v') \<and> wtabs v' = wtabs v \<and> txn v' = txn v"
    and integ_after: "\<And>a. keeps keeps_ok (after a)"
    and eff: "\<And>ts a ts'. tables_ok ts \<Longrightarrow> app_ok ts \<Longrightarrow> eff ts a ts' \<Longrightarrow> app_ok ts'"
  shows "keeps keeps_safe (transaction body after onerr)"
proof (rule keepsI)
  fix w :: world
  obtain r w' where run: "transaction body after onerr w = (r, w')"
    by (cases "transaction body after onerr w")
  have "safe w'" if safe: "safe w"
  proof -
    note tr = txn_body.transaction_atomic[OF body safeD(1)[OF safe] after run]
    have "world_ok w'"
      using keeps_result[OF integrity.keeps_transaction[OF integ integ_after] run] safe
      by (simp add: keeps_ok_def safe_def)
    moreover have "app_ok (wtabs w')"
      using tr eff[OF schema_tables_ok[OF safeD(3)[OF safe]] safeD(2)[OF safe]] safeD(2)[OF safe]
      by (cases r) auto
    ultimately show ?thesis using tr by (simp add: safe_def)
  qed
  then show "keeps_safe w (snd (transaction body after onerr w))"
    using run by (simp add: keeps_safe_def)
qed

lemma sample_safe [simp]: "safe sample_world"
  by (simp add: safe_def) (simp add: app_defs sample_defs)

end
