(* ===== verification/Debates_Service.thy ===== *)
theory Debates_Service
  imports App_State
begin

text \<open>
  \<open>DebatesService\<close> apart from the listing and the drafts: proposing a debate and an argument in a
  transaction, the queries for the arguments of a debate, and the owner's updates of an argument
  or a debate under review.
\<close>

section \<open>Proposing a debate\<close>

record create_debate_dto =
  cd_title :: string
  cd_tagsIds :: "jsval list"
  cd_createdTags :: "string list option"

text \<open>
  The names that no existing tag has: the left join compares in lower case, after trimming the new
  name only, and inserts the name as it was given.
\<close>

definition is_new_tag :: "tables \<Rightarrow> string \<Rightarrow> bool" where
  "is_new_tag ts name \<longleftrightarrow>
     lower (trim_both name) \<notin> set (map (lower \<circ> dt_name) (debate_tags ts))"

definition insert_tags :: "string list \<Rightarrow> debate_tag_row list stmt" where
  "insert_tags createdTags =
     (\<lambda>db. insert_rows insert_debate_tag (filter (is_new_tag (tabs db)) createdTags) db)"

definition create_pending_ticket :: "user_cookie \<Rightarrow> ticket_row stmt" where
  "create_pending_ticket user = insert_ticket (JNum (uc_id user)) None (Some PENDING)"

definition insert_debate_tags_assoc :: "int \<Rightarrow> jsval list \<Rightarrow> assoc_row list stmt" where
  "insert_debate_tags_assoc debateId tagsIds =
     insert_rows insert_assoc_debate_tag (map (Pair debateId) tagsIds)"

definition createDebate_body :: "user_cookie \<Rightarrow> create_debate_dto \<Rightarrow> (world, int) svc" where
  "createDebate_body user dto =
     bnd (case cd_createdTags dto of
            None \<Rightarrow> ret (cd_tagsIds dto)
          | Some createdTags \<Rightarrow>
              map_svc (\<lambda>rows. cd_tagsIds dto @ map (JNum \<circ> dt_id) rows)
                (query (insert_tags createdTags)))
       (\<lambda>tagsIdsArr.
     bnd (query (create_pending_ticket user)) (\<lambda>ticket.
     bnd (query (insert_debate (t_id ticket) (cd_title dto) (JNum (uc_id user)))) (\<lambda>debate.
     sq (query (insert_debate_tags_assoc (d_id debate) tagsIdsArr))
       (ret (t_id ticket)))))"

text \<open>The notification that the moderators get, sent without waiting.\<close>

definition notify_moderators ::
  "(document \<Rightarrow> string) \<Rightarrow> notification_event_obj \<Rightarrow> notification_event \<Rightarrow> (world, unit) svc" where
  "notify_moderators render ev kind =
     fire_and_forget (enqueueNotification
       (GenericModerator (getTitle ev) (render (getContent ev)) kind))"

definition createDebate ::
  "(document \<Rightarrow> string) \<Rightarrow> user_cookie \<Rightarrow> create_debate_dto \<Rightarrow> (world, unit) svc" where
  "createDebate render user dto =
     transaction (createDebate_body user dto)
       (\<lambda>ticketId. notify_moderators render (DebateTicketCreated ticketId (cd_title dto)) EV_DEBATE)
       (\<lambda>err. err)"

section \<open>Proposing an argument\<close>

record argument_dto =
  ca_title :: string
  ca_content :: string
  ca_argumentType :: string
  ca_counterargumentId :: jsval

record create_argument_data =
  cg_user :: user_cookie
  cg_debateId :: jsval
  cg_details :: argument_dto

definition createArgument_body :: "create_argument_data \<Rightarrow> (world, int) svc" where
  "createArgument_body data =
     bnd (query (create_pending_ticket (cg_user data))) (\<lambda>ticket.
     sq (query (insert_argument
           \<lparr>av_debate_id = cg_debateId data,
            av_ticket_id = Some (t_id ticket),
            av_title = ca_title (cg_details data),
            av_content = ca_content (cg_details data),
            av_counterargument_to = ca_counterargumentId (cg_details data),
            av_created_by = JNum (uc_id (cg_user data)),
            av_type = ca_argumentType (cg_details data),
            av_is_draft = False\<rparr>))
       (ret (t_id ticket)))"

definition createArgument ::
  "(document \<Rightarrow> string) \<Rightarrow> create_argument_data \<Rightarrow> (world, unit) svc" where
  "createArgument render data =
     transaction (createArgument_body data)
       (\<lambda>ticketId. notify_moderators render
          (ArgumentTicketCreated ticketId (ca_title (cg_details data))) EV_ARGUMENT)
       (\<lambda>err. PlainError ''An error occurred while adding the argument to the debate.'')"

section \<open>The arguments of a debate\<close>

text \<open>
  The row of an argument joined with its debate and its author, for the queries that select the
  ticket's list as well and for the one that does not.
\<close>

definition argument_columns ::
  "bool \<Rightarrow> argument_row \<Rightarrow> debate_row \<Rightarrow> user_row \<Rightarrow> debate_argument" where
  "argument_columns withContent a d u =
     \<lparr>ag_argument_id = Some (a_id a), ag_ticket_id = a_ticket_id a, ag_title = Some (a_title a),
      ag_content = (if withContent then Some (a_content a) else None),
      ag_created_by_id = Some (a_created_by a), ag_argument_type = a_type a,
      ag_created_at = Some (a_created_at a), ag_username = Some (u_username u),
      ag_counterargument_to = a_counterargument_to a,
      ag_debate_id = a_debate_id a, ag_debate_title = Some (d_title d)\<rparr>"

definition arguments_join ::
  "bool \<Rightarrow> (argument_row \<Rightarrow> ticket_row \<Rightarrow> bool) \<Rightarrow> tables \<Rightarrow> debate_argument list" where
  "arguments_join withContent P ts =
     [argument_columns withContent a d u.
       a \<leftarrow> arguments ts,
       t \<leftarrow> filter (\<lambda>t. a_ticket_id a = Some (t_id t)) (tickets ts),
       d \<leftarrow> filter (\<lambda>d. d_id d = a_debate_id a) (debates ts),
       u \<leftarrow> filter (\<lambda>u. u_id u = a_created_by a) (users ts),
       P a t]"

text \<open>The row that the union adds: the title of the debate, null when there is none.\<close>

definition debate_title_row :: "int \<Rightarrow> tables \<Rightarrow> debate_argument" where
  "debate_title_row debateId ts =
     \<lparr>ag_argument_id = None, ag_ticket_id = None, ag_title = None, ag_content = None,
      ag_created_by_id = None, ag_argument_type = None, ag_created_at = None,
      ag_username = None, ag_counterargument_to = None, ag_debate_id = debateId,
      ag_debate_title = map_option d_title (debate_of ts debateId)\<rparr>"

definition select_debate_arguments :: "int \<Rightarrow> debate_argument list stmt" where
  "select_debate_arguments debateId =
     with_param (not_null (int_param (JNum debateId))) (\<lambda>i. select_stmt (\<lambda>ts.
       arguments_join False (\<lambda>a t. a_debate_id a = i \<and> t_board_list t = Some ACCEPTED) ts
       @ [debate_title_row i ts]))"

definition getDebateArguments :: "int \<Rightarrow> (world, debate_argument list) svc" where
  "getDebateArguments debateId =
     client_query (select_debate_arguments debateId) Inr
       (\<lambda>_. PlainError ''An error occurred while fetching the debate's information.'')"

definition select_debate_argument ::
  "(ticket_row \<Rightarrow> bool) \<Rightarrow> int \<Rightarrow> int \<Rightarrow> debate_argument list stmt" where
  "select_debate_argument P debateId argumentId =
     with_param (not_null (int_param (JNum debateId))) (\<lambda>did.
     with_param (not_null (int_param (JNum argumentId))) (\<lambda>aid. select_stmt (
       arguments_join True (\<lambda>a t. a_debate_id a = did \<and> P t \<and> a_id a = aid))))"

definition getDebateArgument :: "int \<Rightarrow> int \<Rightarrow> (world, debate_argument list) svc" where
  "getDebateArgument debateId argumentId =
     client_query
       (select_debate_argument (\<lambda>t. t_board_list t = Some ACCEPTED) debateId argumentId) Inr
       (\<lambda>_. PlainError ''An error occurred while fetching the debate's information.'')"

definition getDebateArgumentAsModerator :: "int \<Rightarrow> int \<Rightarrow> (world, debate_argument list) svc" where
  "getDebateArgumentAsModerator debateId argumentId =
     client_query (select_debate_argument (\<lambda>_. True) debateId argumentId) Inr
       (\<lambda>_. PlainError ''An error occurred while fetching the debate's information.'')"

section \<open>A debate by its ticket\<close>

record debate_by_ticket =
  bt_id :: int
  bt_title :: string
  bt_ticket_id :: int
  bt_created_at :: nat
  bt_modified_at :: nat
  bt_username :: string
  bt_user_id :: int
  bt_debate_tags :: string
  bt_board_list :: "board_list option"

definition select_debate_by_ticket :: "int \<Rightarrow> debate_by_ticket list stmt" where
  "select_debate_by_ticket ticketId =
     with_param (not_null (int_param (JNum ticketId))) (\<lambda>tid. select_stmt (\<lambda>ts.
       [\<lparr>bt_id = d_id d, bt_title = d_title d, bt_ticket_id = t_id t,
         bt_created_at = d_created_at d, bt_modified_at = d_modified_at d,
         bt_username = u_username u, bt_user_id = u_id u, bt_debate_tags = fst g,
         bt_board_list = t_board_list t\<rparr>.
         d \<leftarrow> debates ts,
         u \<leftarrow> filter (\<lambda>u. u_id u = d_created_by d) (users ts),
         g \<leftarrow> (case debates_tags ts (d_id d) of None \<Rightarrow> [] | Some g \<Rightarrow> [g]),
         t \<leftarrow> filter (\<lambda>t. t_id t = d_ticket_id d) (tickets ts),
         d_ticket_id d = tid]))"

text \<open>\<open>rows[0]\<close>: undefined when there is no row.\<close>

definition first_row :: "'a list \<Rightarrow> 'a option" where
  "first_row rows = (case rows of [] \<Rightarrow> None | r # _ \<Rightarrow> Some r)"

lemma first_row_in: "first_row rows = Some r \<Longrightarrow> r \<in> set rows"
  by (auto simp: first_row_def split: list.splits)

definition getDebateByTicketId :: "int \<Rightarrow> (world, debate_by_ticket option) svc" where
  "getDebateByTicketId ticketId =
     client_query (select_debate_by_ticket ticketId) (Inr \<circ> first_row)
       (\<lambda>_. PlainError ''An error occurred while fetching the debate metadata.'')"

section \<open>The owner's updates\<close>

text \<open>An update that joins the ticket touches a row once, when some ticket satisfies the condition.\<close>

definition not_accepted_ticket :: "tables \<Rightarrow> int \<Rightarrow> bool" where
  "not_accepted_ticket ts i \<longleftrightarrow>
     list_ex (\<lambda>t. t_id t = i \<and> t_board_list t \<noteq> None \<and> t_board_list t \<noteq> Some ACCEPTED) (tickets ts)"

record update_argument_data =
  ua_user :: user_cookie
  ua_argumentId :: string
  ua_title :: string
  ua_content :: string

definition owns_open_argument :: "tables \<Rightarrow> int option \<Rightarrow> int \<Rightarrow> argument_row \<Rightarrow> bool" where
  "owns_open_argument ts argumentId userId a \<longleftrightarrow>
     Some (a_id a) = argumentId \<and> a_created_by a = userId
     \<and> (case a_ticket_id a of None \<Rightarrow> False | Some i \<Rightarrow> not_accepted_ticket ts i)"

definition update_argument_stmt :: "update_argument_data \<Rightarrow> nat stmt" where
  "update_argument_stmt data =
     with_param (varchar 80 (ua_title data)) (\<lambda>ttl.
     with_param (int_param (JStr (ua_argumentId data))) (\<lambda>aid.
       update_stmt
         (\<lambda>ts. ts\<lparr>arguments := map (\<lambda>a. if owns_open_argument ts aid (uc_id (ua_user data)) a
              then a\<lparr>a_title := ttl, a_content := ua_content data\<rparr> else a) (arguments ts)\<rparr>)
         (\<lambda>ts. length (filter (owns_open_argument ts aid (uc_id (ua_user data))) (arguments ts)))))"

definition updateArgument :: "update_argument_data \<Rightarrow> (world, nat) svc" where
  "updateArgument data =
     client_query (update_argument_stmt data) Inr
       (\<lambda>_. PlainError ''An error occurred while updating the argument.'')"

record update_debate_data =
  ud_user :: user_cookie
  ud_debateId :: string
  ud_title :: string

definition owns_open_debate :: "tables \<Rightarrow> int option \<Rightarrow> int \<Rightarrow> debate_row \<Rightarrow> bool" where
  "owns_open_debate ts debateId userId d \<longleftrightarrow>
     Some (d_id d) = debateId \<and> d_created_by d = userId \<and> not_accepted_ticket ts (d_ticket_id d)"

definition update_debate_stmt :: "update_debate_data \<Rightarrow> nat stmt" where
  "update_debate_stmt data =
     with_param (varchar 80 (ud_title data)) (\<lambda>ttl.
     with_param (int_param (JStr (ud_debateId data))) (\<lambda>did.
       update_stmt
         (\<lambda>ts. ts\<lparr>debates := map (\<lambda>d. if owns_open_debate ts did (uc_id (ud_user data)) d
              then d\<lparr>d_title := ttl\<rparr> else d) (debates ts)\<rparr>)
         (\<lambda>ts. length (filter (owns_open_debate ts did (uc_id (ud_user data))) (debates ts)))))"

definition updateDebate :: "update_debate_data \<Rightarrow> (world, nat) svc" where
  "updateDebate data =
     client_query (update_debate_stmt data) Inr
       (\<lambda>_. PlainError ''An error occurred while updating the debate.'')"

end
