(* ===== verification/Debates_Correct.thy ===== *)
theory Debates_Correct
  imports Debates_Service
begin

text \<open>
  What \<open>DebatesService\<close> promises: the transactions are all or nothing and keep the application's
  invariant, the queries return exactly the accepted arguments, and the owner's updates touch only
  their own open rows.
\<close>

section \<open>Pending tickets\<close>

definition new_pending_ticket :: "tables \<Rightarrow> user_cookie \<Rightarrow> ticket_row \<Rightarrow> bool" where
  "new_pending_ticket ts user t \<longleftrightarrow> t_created_by t = uc_id user \<and> t_assigned_to t = None
     \<and> t_board_list t = Some PENDING \<and> t_id t \<notin> set (ticket_ids ts)
     \<and> uc_id user \<in> set (user_ids ts)"

lemma create_pending_ticket_Inr:
  assumes "create_pending_ticket user d = (Inr t, d')"
  shows "tabs d' = (tabs d)\<lparr>tickets := tickets (tabs d) @ [t]\<rparr> \<and> new_pending_ticket (tabs d) user t"
  using insert_ticket_Inr[OF assms[unfolded create_pending_ticket_def]]
  by (auto simp: new_pending_ticket_def)

lemma stmt_ok_create_pending_ticket [simp]: "stmt_ok (create_pending_ticket user)"
  by (simp add: create_pending_ticket_def)

lemma new_pending_ticket_ids [simp]:
  "new_pending_ticket (ts\<lparr>debate_tags := g\<rparr>) user t = new_pending_ticket ts user t"
  by (simp add: new_pending_ticket_def ticket_ids_def user_ids_def)

section \<open>Proposing a debate\<close>

text \<open>The effect of a committed proposal on the tables.\<close>

definition debate_created ::
  "user_cookie \<Rightarrow> create_debate_dto \<Rightarrow> tables \<Rightarrow> int \<Rightarrow> tables \<Rightarrow> bool" where
  "debate_created user dto ts ticketId ts' \<longleftrightarrow>
     (\<exists>new t d is.
        map (Inr \<circ> dt_name) new =
          map (varchar 30) (filter (is_new_tag ts)
            (case cd_createdTags dto of None \<Rightarrow> [] | Some names \<Rightarrow> names))
      \<and> new_pending_ticket ts user t \<and> t_id t = ticketId
      \<and> d_ticket_id d = ticketId \<and> d_created_by d = uc_id user
      \<and> varchar 80 (cd_title dto) = Inr (d_title d) \<and> d_id d \<notin> set (debate_ids ts)
      \<and> map int_param (cd_tagsIds dto @ map (JNum \<circ> dt_id) new) = map (Inr \<circ> Some) is
      \<and> ts' = ts\<lparr>debate_tags := debate_tags ts @ new, tickets := tickets ts @ [t],
                debates := debates ts @ [d],
                assoc_debate_tags := assoc_debate_tags ts
                  @ map (\<lambda>i. \<lparr>adt_debate_id = d_id d, adt_tag_id = i\<rparr>) is\<rparr>)"

definition tags_step :: "create_debate_dto \<Rightarrow> tables \<Rightarrow> jsval list \<Rightarrow> tables \<Rightarrow> bool" where
  "tags_step dto s ids ts \<longleftrightarrow>
     (\<exists>new. ts = s\<lparr>debate_tags := debate_tags s @ new\<rparr>
        \<and> ids = cd_tagsIds dto @ map (JNum \<circ> dt_id) new
        \<and> map (Inr \<circ> dt_name) new = map (varchar 30) (filter (is_new_tag s)
            (case cd_createdTags dto of None \<Rightarrow> [] | Some names \<Rightarrow> names)))"

lemma outcome_tags:
  "outcome (\<lambda>w. in_txn s w \<and> wtabs w = s)
     (case cd_createdTags dto of
        None \<Rightarrow> ret (cd_tagsIds dto)
      | Some names \<Rightarrow> map_svc (\<lambda>rows. cd_tagsIds dto @ map (JNum \<circ> dt_id) rows)
          (query (insert_tags names)))
     (\<lambda>ids w. in_txn s w \<and> tags_step dto s ids (wtabs w)) (\<lambda>_ w. doomed_txn s w)"
proof (cases "cd_createdTags dto")
  case None
  then show ?thesis by (auto intro!: outcome_ret simp: tags_step_def)
next
  case (Some names)
  have "outcome (\<lambda>w. in_txn s w \<and> wtabs w = s) (query (insert_tags names))
      (\<lambda>rows w. in_txn s w \<and> tags_step dto s (cd_tagsIds dto @ map (JNum \<circ> dt_id) rows) (wtabs w))
      (\<lambda>_ w. doomed_txn s w)"
    by (rule outcome_query[where P = "\<lambda>ts. ts = s"])
       (auto simp: insert_tags_def tags_step_def Some dest!: insert_rows_tags)
  then show ?thesis
    unfolding Some option.case map_svc_def by (rule outcome_bnd) (auto intro: outcome_ret)
qed

lemma debate_created_outcome:
  "outcome (\<lambda>w. in_txn s w \<and> wtabs w = s) (createDebate_body user dto)
     (\<lambda>a w. in_txn s w \<and> debate_created user dto s a (wtabs w)) (\<lambda>_ w. doomed_txn s w)"
  unfolding createDebate_body_def
proof (rule outcome_bnd[OF outcome_tags], rule outcome_bnd)
  fix ids
  let ?T2 = "\<lambda>t ts. \<exists>ts1. tags_step dto s ids ts1 \<and> ts = ts1\<lparr>tickets := tickets ts1 @ [t]\<rparr>
      \<and> new_pending_ticket ts1 user t"
  let ?T3 = "\<lambda>t d ts. \<exists>ts2. ?T2 t ts2 \<and> ts = ts2\<lparr>debates := debates ts2 @ [d]\<rparr>
      \<and> d_ticket_id d = t_id t \<and> d_created_by d = uc_id user
      \<and> varchar 80 (cd_title dto) = Inr (d_title d) \<and> d_id d \<notin> set (debate_ids ts2)"
  show "outcome (\<lambda>w. in_txn s w \<and> tags_step dto s ids (wtabs w)) (query (create_pending_ticket user))
      (\<lambda>t w. in_txn s w \<and> ?T2 t (wtabs w)) (\<lambda>_ w. doomed_txn s w)"
    by (rule outcome_query) (auto dest!: create_pending_ticket_Inr)
  fix t
  show "outcome (\<lambda>w. in_txn s w \<and> ?T2 t (wtabs w))
      (bnd (query (insert_debate (t_id t) (cd_title dto) (JNum (uc_id user)))) (\<lambda>d.
         sq (query (insert_debate_tags_assoc (d_id d) ids)) (ret (t_id t))))
      (\<lambda>a w. in_txn s w \<and> debate_created user dto s a (wtabs w)) (\<lambda>_ w. doomed_txn s w)"
  proof (rule outcome_bnd)
    show "outcome (\<lambda>w. in_txn s w \<and> ?T2 t (wtabs w))
        (query (insert_debate (t_id t) (cd_title dto) (JNum (uc_id user))))
        (\<lambda>d w. in_txn s w \<and> ?T3 t d (wtabs w)) (\<lambda>_ w. doomed_txn s w)"
    proof (rule outcome_query)
      fix d0 d' d
      assume T2: "?T2 t (tabs d0)"
        and ins: "insert_debate (t_id t) (cd_title dto) (JNum (uc_id user)) d0 = (Inr d, d')"
      show "?T3 t d (tabs d')"
        using T2 insert_debate_Inr[OF ins] by (intro exI[of _ "tabs d0"]) auto
    qed
    fix d
    show "outcome (\<lambda>w. in_txn s w \<and> ?T3 t d (wtabs w))
        (sq (query (insert_debate_tags_assoc (d_id d) ids)) (ret (t_id t)))
        (\<lambda>a w. in_txn s w \<and> debate_created user dto s a (wtabs w)) (\<lambda>_ w. doomed_txn s w)"
    proof (rule outcome_sq)
      show "outcome (\<lambda>w. in_txn s w \<and> ?T3 t d (wtabs w))
          (query (insert_debate_tags_assoc (d_id d) ids))
          (\<lambda>_ w. in_txn s w \<and> debate_created user dto s (t_id t) (wtabs w)) (\<lambda>_ w. doomed_txn s w)"
      proof (rule outcome_query)
        fix d0 d' rows
        assume T3: "?T3 t d (tabs d0)"
          and ins: "insert_debate_tags_assoc (d_id d) ids d0 = (Inr rows, d')"
        from insert_rows_assoc[OF ins[unfolded insert_debate_tags_assoc_def]]
        obtain "is" where "is": "map int_param ids = map (Inr \<circ> Some) is"
            "rows = map (\<lambda>i. \<lparr>adt_debate_id = d_id d, adt_tag_id = i\<rparr>) is"
            "tabs d' = (tabs d0)\<lparr>assoc_debate_tags := assoc_debate_tags (tabs d0) @ rows\<rparr>"
          by blast
        from T3 obtain ts1 where ts1: "tags_step dto s ids ts1" and t: "new_pending_ticket ts1 user t"
          and d0: "tabs d0 = ts1\<lparr>tickets := tickets ts1 @ [t], debates := debates ts1 @ [d]\<rparr>"
          and d: "d_ticket_id d = t_id t" "d_created_by d = uc_id user"
            "varchar 80 (cd_title dto) = Inr (d_title d)" "d_id d \<notin> set (debate_ids ts1)"
          by (auto simp: debate_ids_def)
        from ts1 obtain new where new: "ts1 = s\<lparr>debate_tags := debate_tags s @ new\<rparr>"
            "ids = cd_tagsIds dto @ map (JNum \<circ> dt_id) new"
            "map (Inr \<circ> dt_name) new = map (varchar 30) (filter (is_new_tag s)
               (case cd_createdTags dto of None \<Rightarrow> [] | Some names \<Rightarrow> names))"
          unfolding tags_step_def by blast
        show "debate_created user dto s (t_id t) (tabs d')"
          unfolding debate_created_def
          by (rule exI[of _ new], rule exI[of _ t], rule exI[of _ d], rule exI[of _ "is"])
             (use t d d0 new "is" in \<open>simp add: debate_ids_def\<close>)
      qed
    qed (auto intro: outcome_ret)
  qed
qed

lemma createDebate_body_keeps:
  "keeps quiet (createDebate_body user dto)" "keeps keeps_ok (createDebate_body user dto)"
proof -
  have tags: "stmt_ok (insert_tags names)" for names
  proof -
    have ok: "stmt_ok (insert_rows insert_debate_tag ns)" for ns
      by (rule stmt_ok_insert_rows) simp
    show ?thesis unfolding stmt_ok_def insert_tags_def
      using ok unfolding stmt_ok_def by blast
  qed
  have assoc: "stmt_ok (insert_debate_tags_assoc i ids)" for i ids
    unfolding insert_debate_tags_assoc_def by (rule stmt_ok_insert_rows) simp
  show "keeps quiet (createDebate_body user dto)" "keeps keeps_ok (createDebate_body user dto)"
    unfolding createDebate_body_def
    by (intro quiet.backend_intros quiet_query tags assoc stmt_ok_create_pending_ticket
        stmt_ok_insert_debate integrity.backend_intros integrity_query)+
qed

interpretation createDebate: txn_body "createDebate_body user dto" "debate_created user dto"
  for user dto
  by unfold_locales (rule debate_created_outcome createDebate_body_keeps)+

lemma notify_moderators_returns:
  "\<exists>b v'. notify_moderators render ev k v = (Inr b, v') \<and> wtabs v' = wtabs v \<and> txn v' = txn v"
  unfolding notify_moderators_def
  by (rule fire_and_forget_returns) (use enqueue_pg in auto)

lemma notify_moderators_keeps:
  "keeps keeps_ok (notify_moderators render ev k)" "keeps same_pool (notify_moderators render ev k)"
  unfolding notify_moderators_def
  by (intro integrity.backend_intros integrity_enqueue pool_intros)+

section \<open>Proposing an argument\<close>

definition argument_created :: "create_argument_data \<Rightarrow> tables \<Rightarrow> int \<Rightarrow> tables \<Rightarrow> bool" where
  "argument_created data ts ticketId ts' \<longleftrightarrow>
     (\<exists>t a. new_pending_ticket ts (cg_user data) t \<and> t_id t = ticketId
      \<and> a_ticket_id a = Some ticketId \<and> \<not> a_is_draft a \<and> a_created_by a = uc_id (cg_user data)
      \<and> int_param (cg_debateId data) = Inr (Some (a_debate_id a))
      \<and> a_debate_id a \<in> set (debate_ids ts)
      \<and> varchar 80 (ca_title (cg_details data)) = Inr (a_title a)
      \<and> a_content a = ca_content (cg_details data)
      \<and> int_param (ca_counterargumentId (cg_details data)) = Inr (a_counterargument_to a)
      \<and> a_type a = parse_argument_type (ca_argumentType (cg_details data)) \<and> a_type a \<noteq> None
      \<and> a_id a \<notin> set (map a_id (arguments ts))
      \<and> ts' = ts\<lparr>tickets := tickets ts @ [t], arguments := arguments ts @ [a]\<rparr>)"

lemma argument_created_outcome:
  "outcome (\<lambda>w. in_txn s w \<and> wtabs w = s) (createArgument_body data)
     (\<lambda>i w. in_txn s w \<and> argument_created data s i (wtabs w)) (\<lambda>_ w. doomed_txn s w)"
  unfolding createArgument_body_def
proof (rule outcome_bnd)
  let ?T1 = "\<lambda>t ts. ts = s\<lparr>tickets := tickets s @ [t]\<rparr> \<and> new_pending_ticket s (cg_user data) t"
  show "outcome (\<lambda>w. in_txn s w \<and> wtabs w = s) (query (create_pending_ticket (cg_user data)))
      (\<lambda>t w. in_txn s w \<and> ?T1 t (wtabs w)) (\<lambda>_ w. doomed_txn s w)"
    by (rule outcome_query[where P = "\<lambda>ts. ts = s"]) (auto dest!: create_pending_ticket_Inr)
  fix t :: ticket_row
  let ?v = "\<lparr>av_debate_id = cg_debateId data, av_ticket_id = Some (t_id t),
            av_title = ca_title (cg_details data), av_content = ca_content (cg_details data),
            av_counterargument_to = ca_counterargumentId (cg_details data),
            av_created_by = JNum (uc_id (cg_user data)),
            av_type = ca_argumentType (cg_details data), av_is_draft = False\<rparr>"
  show "outcome (\<lambda>w. in_txn s w \<and> ?T1 t (wtabs w))
      (sq (query (insert_argument ?v)) (ret (t_id t)))
      (\<lambda>i w. in_txn s w \<and> argument_created data s i (wtabs w)) (\<lambda>_ w. doomed_txn s w)"
  proof (rule outcome_sq)
    show "outcome (\<lambda>w. in_txn s w \<and> ?T1 t (wtabs w)) (query (insert_argument ?v))
        (\<lambda>_ w. in_txn s w \<and> argument_created data s (t_id t) (wtabs w)) (\<lambda>_ w. doomed_txn s w)"
    proof (rule outcome_query)
      fix d d' :: database and a :: argument_row
      assume T1: "?T1 t (tabs d)" and ins: "insert_argument ?v d = (Inr a, d')"
      show "argument_created data s (t_id t) (tabs d')"
        using T1 insert_argument_Inr[OF ins] unfolding argument_created_def
        by (intro exI[of _ t] exI[of _ a]) (auto simp: debate_ids_def)
    qed
  qed (auto intro: outcome_ret)
qed

lemma createArgument_body_keeps:
  "keeps quiet (createArgument_body data)" "keeps keeps_ok (createArgument_body data)"
  unfolding createArgument_body_def
  by (intro quiet.backend_intros quiet_query stmt_ok_create_pending_ticket stmt_ok_insert_argument
      integrity.backend_intros integrity_query)+

interpretation createArgument: txn_body "createArgument_body data" "argument_created data"
  for data
  by unfold_locales (rule argument_created_outcome createArgument_body_keeps)+

section \<open>Both keep the application's invariant\<close>

lemma debate_ok_snoc:
  "debate_ok ts d \<Longrightarrow> debate_ok (ts\<lparr>tickets := tickets ts @ [t]\<rparr>) d"
  "argument_ok ts a \<Longrightarrow> argument_ok (ts\<lparr>tickets := tickets ts @ [t]\<rparr>) a"
  by (auto simp: debate_ok_def argument_ok_def split: option.splits)

lemma debate_created_app_ok:
  assumes "app_ok ts" and "debate_created user dto ts i ts'"
  shows "app_ok ts'"
proof -
  from assms(2) obtain t d ts1 where t: "new_pending_ticket ts user t" and
    d: "d_ticket_id d = t_id t" "d_created_by d = uc_id user" and
    ts': "debates ts' = debates ts @ [d]" "tickets ts' = tickets ts @ [t]"
      "arguments ts' = arguments ts" "users ts' = users ts"
    unfolding debate_created_def by auto
  have "t_id t \<notin> set (ticket_refs ts)"
    using t ticket_refs_in[OF assms(1)] by (auto simp: new_pending_ticket_def)
  with assms(1) t d ts' show ?thesis
    by (auto simp: app_defs new_pending_ticket_def split: option.splits)
qed

lemma argument_created_app_ok:
  assumes "app_ok ts" and "argument_created data ts i ts'"
  shows "app_ok ts'"
proof -
  from assms(2) obtain t a where t: "new_pending_ticket ts (cg_user data) t" and
    a: "a_ticket_id a = Some (t_id t)" "a_created_by a = uc_id (cg_user data)" "\<not> a_is_draft a" and
    ts': "debates ts' = debates ts" "tickets ts' = tickets ts @ [t]"
      "arguments ts' = arguments ts @ [a]" "users ts' = users ts"
    unfolding argument_created_def by auto
  have "t_id t \<notin> set (ticket_refs ts)"
    using t ticket_refs_in[OF assms(1)] by (auto simp: new_pending_ticket_def)
  with assms(1) t a ts' show ?thesis
    by (auto simp: app_defs new_pending_ticket_def split: option.splits)
qed

lemma createDebate_safe: "keeps keeps_safe (createDebate render user dto)"
  unfolding createDebate_def
  by (rule safe_transaction[OF createDebate.txn_body_axioms createDebate_body_keeps(2)
        notify_moderators_returns notify_moderators_keeps(1)])
     (rule debate_created_app_ok)

lemma createArgument_safe: "keeps keeps_safe (createArgument render data)"
  unfolding createArgument_def
  by (rule safe_transaction[OF createArgument.txn_body_axioms createArgument_body_keeps(2)
        notify_moderators_returns notify_moderators_keeps(1)])
     (rule argument_created_app_ok)

section \<open>The arguments of a debate\<close>

definition arg_ticket :: "tables \<Rightarrow> argument_row \<Rightarrow> ticket_row option" where
  "arg_ticket ts a = (case a_ticket_id a of None \<Rightarrow> None | Some i \<Rightarrow> ticket_of ts i)"

text \<open>An argument is public when its ticket is in the accepted list.\<close>

definition is_public :: "tables \<Rightarrow> argument_row \<Rightarrow> bool" where
  "is_public ts a \<longleftrightarrow>
     (case arg_ticket ts a of None \<Rightarrow> False | Some t \<Rightarrow> t_board_list t = Some ACCEPTED)"

definition argument_json :: "bool \<Rightarrow> tables \<Rightarrow> argument_row \<Rightarrow> debate_argument" where
  "argument_json withContent ts a =
     argument_columns withContent a (the (debate_of ts (a_debate_id a)))
       (the (user_of ts (a_created_by a)))"

lemma arg_ticket_filter:
  assumes "tables_ok ts"
  shows "filter (\<lambda>t. a_ticket_id a = Some (t_id t)) (tickets ts) = list_option (arg_ticket ts a)"
proof (cases "a_ticket_id a")
  case (Some i)
  then have "filter (\<lambda>t. a_ticket_id a = Some (t_id t)) (tickets ts)
      = filter (\<lambda>t. t_id t = i) (tickets ts)" by (intro filter_cong) auto
  then show ?thesis by (simp add: tables_ok_filters[OF assms] arg_ticket_def Some)
qed (simp add: arg_ticket_def)

lemma argument_parents:
  assumes "tables_ok ts" and "a \<in> set (arguments ts)"
  shows "\<exists>d. debate_of ts (a_debate_id a) = Some d" and "\<exists>u. user_of ts (a_created_by a) = Some u"
proof -
  have refs: "a_debate_id a \<in> set (debate_ids ts)" "a_created_by a \<in> set (user_ids ts)"
    using assms by (simp_all add: tables_ok_def refs_ok_def list_all_iff)
  then show "\<exists>d. debate_of ts (a_debate_id a) = Some d"
    by (cases "debate_of ts (a_debate_id a)")
       (auto simp: debate_of_def find_key_None debate_ids_def)
  from refs show "\<exists>u. user_of ts (a_created_by a) = Some u"
    by (cases "user_of ts (a_created_by a)") (auto simp: user_of_def find_key_None user_ids_def)
qed

lemma concat_map_filter_cong:
  "(\<And>x. x \<in> set xs \<Longrightarrow> g x = (if P x then [f x] else [])) \<Longrightarrow>
   concat (map g xs) = map f (filter P xs)"
  by (induction xs) auto

text \<open>The joins give one row for each argument whose ticket satisfies the condition.\<close>

lemma arguments_join_eq:
  assumes ok: "tables_ok ts"
  shows "arguments_join c P ts = map (argument_json c ts)
    (filter (\<lambda>a. case arg_ticket ts a of None \<Rightarrow> False | Some t \<Rightarrow> P a t) (arguments ts))"
  unfolding arguments_join_def
proof (rule concat_map_filter_cong)
  fix a assume "a \<in> set (arguments ts)"
  then obtain d u where "debate_of ts (a_debate_id a) = Some d" "user_of ts (a_created_by a) = Some u"
    using argument_parents[OF ok] by blast
  then show "[argument_columns c a d u.
       t \<leftarrow> filter (\<lambda>t. a_ticket_id a = Some (t_id t)) (tickets ts),
       d \<leftarrow> filter (\<lambda>d. d_id d = a_debate_id a) (debates ts),
       u \<leftarrow> filter (\<lambda>u. u_id u = a_created_by a) (users ts), P a t]
     = (if (case arg_ticket ts a of None \<Rightarrow> False | Some t \<Rightarrow> P a t)
        then [argument_json c ts a] else [])"
    by (cases "arg_ticket ts a")
       (simp_all add: arg_ticket_filter[OF ok] tables_ok_filters[OF ok] argument_json_def)
qed

lemma select_debate_arguments_run:
  assumes "tables_ok (tabs d)" and "int4 i"
  shows "select_debate_arguments i d = (Inr (map (argument_json False (tabs d))
      (filter (\<lambda>a. a_debate_id a = i \<and> is_public (tabs d) a) (arguments (tabs d)))
      @ [debate_title_row i (tabs d)]), d)"
proof -
  have p: "(case arg_ticket ts a of None \<Rightarrow> False
      | Some t \<Rightarrow> a_debate_id a = i \<and> t_board_list t = Some ACCEPTED)
      \<longleftrightarrow> a_debate_id a = i \<and> is_public ts a" for ts a
    by (auto simp: is_public_def split: option.splits)
  have nn: "not_null (int_param (JNum i)) = Inr i" using assms(2) by simp
  show ?thesis
    unfolding select_debate_arguments_def with_param_def nn
    by (simp add: select_stmt_def arguments_join_eq[OF assms(1)] p)
qed

lemma read_only_debates [simp]:
  "read_only (select_debate_arguments i)" "read_only (select_debate_argument P i j)"
  "read_only (select_debate_by_ticket k)"
  unfolding select_debate_arguments_def select_debate_argument_def select_debate_by_ticket_def
  by (intro read_only_with_param read_only_select)+

section \<open>The owner's updates\<close>

lemma schema_ok_update_argument:
  assumes "schema_ok d" and "\<And>a. a_id (f a) = a_id a \<and> a_debate_id (f a) = a_debate_id a
      \<and> a_created_by (f a) = a_created_by a \<and> (length (a_title a) \<le> 80 \<longrightarrow> length (a_title (f a)) \<le> 80)"
  shows "schema_ok (d\<lparr>tabs := (tabs d)\<lparr>arguments := map f (arguments (tabs d))\<rparr>\<rparr>)"
  using assms by (auto simp: table_defs serial_key_map)

lemma schema_ok_update_debate:
  assumes "schema_ok d" and "\<And>r. d_id (f r) = d_id r \<and> (length (d_title r) \<le> 80 \<longrightarrow> length (d_title (f r)) \<le> 80)"
  shows "schema_ok (d\<lparr>tabs := (tabs d)\<lparr>debates := map f (debates (tabs d))\<rparr>\<rparr>)"
  using assms by (auto simp: table_defs serial_key_map image_image)

lemma stmt_ok_update_argument [simp]: "stmt_ok (update_argument_stmt data)"
  unfolding update_argument_stmt_def
  by (intro stmt_ok_with_param stmt_ok_update) (simp add: schema_ok_update_argument varchar_length)

lemma stmt_ok_update_debate [simp]: "stmt_ok (update_debate_stmt data)"
  unfolding update_debate_stmt_def
  by (intro stmt_ok_with_param stmt_ok_update) (simp add: schema_ok_update_debate varchar_length)

lemma app_ok_map_arguments:
  assumes ok: "app_ok ts" and f: "\<And>a. a_ticket_id (f a) = a_ticket_id a"
    "\<And>a. a_is_draft (f a) = a_is_draft a" "\<And>a. a_created_by (f a) = a_created_by a"
  shows "app_ok (ts\<lparr>arguments := map f (arguments ts)\<rparr>)"
proof -
  have "argument_ok ts (f a) = argument_ok ts a" for a
    by (cases "a_ticket_id a") (simp_all add: argument_ok_def f)
  moreover have "ticket_refs (ts\<lparr>arguments := map f (arguments ts)\<rparr>) = ticket_refs ts"
    by (simp add: ticket_refs_def filter_map comp_def f)
  ultimately show ?thesis using ok by (simp add: app_ok_def list_all_iff)
qed

lemma app_ok_map_debates:
  assumes ok: "app_ok ts" and f: "\<And>d. d_ticket_id (f d) = d_ticket_id d"
    "\<And>d. d_created_by (f d) = d_created_by d"
  shows "app_ok (ts\<lparr>debates := map f (debates ts)\<rparr>)"
proof -
  have "debate_ok ts (f d) = debate_ok ts d" for d by (simp add: debate_ok_def f)
  moreover have "ticket_refs (ts\<lparr>debates := map f (debates ts)\<rparr>) = ticket_refs ts"
    by (simp add: ticket_refs_def comp_def f)
  ultimately show ?thesis using ok by (simp add: app_ok_def list_all_iff)
qed

lemma update_argument_app_ok [simp]: "stmt_app_ok (update_argument_stmt data)"
proof (rule stmt_app_okI)
  show "app_ok (tabs d')" if "app_ok (tabs d)" "update_argument_stmt data d = (Inr n, d')" for d n d'
    using that by (auto simp: update_argument_stmt_def with_param_Inr update_stmt_def
        intro!: app_ok_map_arguments split: if_splits)
qed simp

lemma update_debate_app_ok [simp]: "stmt_app_ok (update_debate_stmt data)"
proof (rule stmt_app_okI)
  show "app_ok (tabs d')" if "app_ok (tabs d)" "update_debate_stmt data d = (Inr n, d')" for d n d'
    using that by (auto simp: update_debate_stmt_def with_param_Inr update_stmt_def
        intro!: app_ok_map_debates)
qed simp

end
