(* ===== verification/Drafts.thy ===== *)
theory Drafts
  imports Debates_Correct
begin

text \<open>
  The drafts of \<open>DebatesService\<close>: saving, reading, updating and submitting an argument that has no
  ticket yet, and what these operations keep.
\<close>

section \<open>Operations\<close>

definition saveArgumentAsDraft :: "create_argument_data \<Rightarrow> (world, unit) svc" where
  "saveArgumentAsDraft data =
     client_query
       (insert_argument
          \<lparr>av_debate_id = cg_debateId data,
           av_ticket_id = None,
           av_title = ca_title (cg_details data),
           av_content = ca_content (cg_details data),
           av_counterargument_to = ca_counterargumentId (cg_details data),
           av_created_by = JNum (uc_id (cg_user data)),
           av_type = ca_argumentType (cg_details data),
           av_is_draft = True\<rparr>)
       (\<lambda>_. Inr ())
       (\<lambda>_. PlainError ''An error occurred while saving the argument as draft.'')"

record get_draft_data =
  gd_user :: user_cookie
  gd_debateId :: jsval
  gd_argumentId :: jsval

definition select_draft :: "get_draft_data \<Rightarrow> debate_argument list stmt" where
  "select_draft data =
     with_param (int_param (gd_debateId data)) (\<lambda>did.
     with_param (int_param (gd_argumentId data)) (\<lambda>aid. select_stmt (\<lambda>ts.
       [argument_columns True a d u.
         a \<leftarrow> arguments ts,
         d \<leftarrow> filter (\<lambda>d. d_id d = a_debate_id a) (debates ts),
         u \<leftarrow> filter (\<lambda>u. u_id u = a_created_by a) (users ts),
         Some (a_debate_id a) = did \<and> Some (a_id a) = aid
           \<and> a_created_by a = uc_id (gd_user data)])))"

definition getDraft :: "get_draft_data \<Rightarrow> (world, debate_argument option) svc" where
  "getDraft data =
     client_query (select_draft data) (Inr \<circ> first_row)
       (\<lambda>_. PlainError ''An error occurred while saving the argument as draft.'')"

text \<open>\<open>UpdateDraftData\<close> and \<open>SubmitDraftData\<close> have the same fields.\<close>

record draft_info =
  di_user :: user_cookie
  di_debateId :: jsval
  di_draftId :: jsval
  di_data :: argument_dto

definition draft_key :: "draft_info \<Rightarrow> int option \<Rightarrow> int option \<Rightarrow> argument_row \<Rightarrow> bool" where
  "draft_key info did aid a \<longleftrightarrow> Some (a_debate_id a) = did \<and> Some (a_id a) = aid
     \<and> a_created_by a = uc_id (di_user info)"

definition draft_params ::
  "draft_info \<Rightarrow> (string \<Rightarrow> int option \<Rightarrow> argument_type \<Rightarrow> int option \<Rightarrow> int option \<Rightarrow> 'a stmt) \<Rightarrow> 'a stmt"
where
  "draft_params info k =
     with_param (varchar 80 (ca_title (di_data info))) (\<lambda>ttl.
     with_param (int_param (ca_counterargumentId (di_data info))) (\<lambda>ct.
     with_param (enum_param (parse_argument_type (ca_argumentType (di_data info)))) (\<lambda>ty.
     with_param (int_param (di_debateId info)) (\<lambda>did.
     with_param (int_param (di_draftId info)) (\<lambda>aid.
       k ttl ct ty did aid)))))"

definition update_draft_stmt :: "draft_info \<Rightarrow> nat stmt" where
  "update_draft_stmt info = draft_params info (\<lambda>ttl ct ty did aid.
     update_stmt
       (\<lambda>ts. ts\<lparr>arguments := map (\<lambda>a. if draft_key info did aid a \<and> a_is_draft a
          then a\<lparr>a_title := ttl, a_content := ca_content (di_data info),
                 a_counterargument_to := ct, a_type := Some ty\<rparr>
          else a) (arguments ts)\<rparr>)
       (\<lambda>ts. length (filter (\<lambda>a. draft_key info did aid a \<and> a_is_draft a) (arguments ts))))"

definition updateDraft :: "draft_info \<Rightarrow> (world, unit) svc" where
  "updateDraft info =
     client_query (update_draft_stmt info)
       (\<lambda>rowCount. if rowCount = 0
          then Inl (PlainError ''An error occurred while updating the draft.'') else Inr ())
       (\<lambda>_. PlainError ''An error occurred while updating the draft.'')"

definition submit_argument_stmt :: "draft_info \<Rightarrow> int \<Rightarrow> nat stmt" where
  "submit_argument_stmt info ticketId = draft_params info (\<lambda>ttl ct ty did aid.
     update_stmt
       (\<lambda>ts. ts\<lparr>arguments := map (\<lambda>a. if draft_key info did aid a
          then a\<lparr>a_is_draft := False, a_title := ttl, a_content := ca_content (di_data info),
                 a_counterargument_to := ct, a_type := Some ty, a_ticket_id := Some ticketId\<rparr>
          else a) (arguments ts)\<rparr>)
       (\<lambda>ts. length (filter (draft_key info did aid) (arguments ts))))"

definition submitDraft_body :: "draft_info \<Rightarrow> (world, int) svc" where
  "submitDraft_body info =
     bnd (query (create_pending_ticket (di_user info))) (\<lambda>ticket.
     sq (query (submit_argument_stmt info (t_id ticket)))
       (ret (t_id ticket)))"

definition submitDraft :: "draft_info \<Rightarrow> (world, unit) svc" where
  "submitDraft info =
     transaction (submitDraft_body info) (\<lambda>_. ret ())
       (\<lambda>_. PlainError ''An error occurred while submitting the draft.'')"

section \<open>Statements\<close>

lemma draft_params_Inr:
  "draft_params info k db = (Inr a, db') \<longleftrightarrow>
     (\<exists>ttl ct ty did aid. varchar 80 (ca_title (di_data info)) = Inr ttl
        \<and> int_param (ca_counterargumentId (di_data info)) = Inr ct
        \<and> parse_argument_type (ca_argumentType (di_data info)) = Some ty
        \<and> int_param (di_debateId info) = Inr did \<and> int_param (di_draftId info) = Inr aid
        \<and> k ttl ct ty did aid db = (Inr a, db'))"
  by (auto simp: draft_params_def with_param_Inr)

lemma stmt_ok_draft_params:
  "(\<And>ttl ct ty did aid. length ttl \<le> 80 \<Longrightarrow> stmt_ok (k ttl ct ty did aid)) \<Longrightarrow>
   stmt_ok (draft_params info k)"
  unfolding draft_params_def by (intro stmt_ok_with_param) (simp add: varchar_length)

lemma stmt_ok_drafts [simp]:
  "stmt_ok (update_draft_stmt info)" "stmt_ok (submit_argument_stmt info i)"
  unfolding update_draft_stmt_def submit_argument_stmt_def
  by (intro stmt_ok_draft_params stmt_ok_update; simp add: schema_ok_update_argument)+

lemma read_only_select_draft [simp]: "read_only (select_draft data)"
  unfolding select_draft_def by (intro read_only_with_param read_only_select)

section \<open>Invariants\<close>

lemma draft_insert_app_ok:
  assumes "\<not> (av_is_draft v \<longleftrightarrow> av_ticket_id v \<noteq> None)" and "av_ticket_id v = None"
  shows "stmt_app_ok (insert_argument v)"
proof (rule stmt_app_okI)
  fix d d' :: database and a :: argument_row
  assume ok: "app_ok (tabs d)" and ins: "insert_argument v d = (Inr a, d')"
  note i = insert_argument_Inr[OF ins]
  have "argument_ok (tabs d) a" using i assms by (auto simp: argument_ok_def)
  moreover have "ticket_refs (tabs d') = ticket_refs (tabs d)"
    using i assms by (auto simp: ticket_refs_def)
  ultimately show "app_ok (tabs d')" using ok i by (simp add: app_ok_def)
qed simp

lemma update_draft_app_ok [simp]: "stmt_app_ok (update_draft_stmt info)"
proof (rule stmt_app_okI)
  show "app_ok (tabs d')" if "app_ok (tabs d)" "update_draft_stmt info d = (Inr n, d')" for d n d'
    using that by (auto simp: update_draft_stmt_def draft_params_Inr update_stmt_def
        intro!: app_ok_map_arguments split: if_splits)
qed simp

section \<open>Submitting\<close>

definition draft_submitted :: "draft_info \<Rightarrow> tables \<Rightarrow> int \<Rightarrow> tables \<Rightarrow> bool" where
  "draft_submitted info ts ticketId ts' \<longleftrightarrow>
     (\<exists>t ttl ct ty did aid. new_pending_ticket ts (di_user info) t \<and> t_id t = ticketId
        \<and> varchar 80 (ca_title (di_data info)) = Inr ttl
        \<and> int_param (ca_counterargumentId (di_data info)) = Inr ct
        \<and> parse_argument_type (ca_argumentType (di_data info)) = Some ty
        \<and> int_param (di_debateId info) = Inr did \<and> int_param (di_draftId info) = Inr aid
        \<and> ts' = ts\<lparr>tickets := tickets ts @ [t],
            arguments := map (\<lambda>a. if draft_key info did aid a
              then a\<lparr>a_is_draft := False, a_title := ttl, a_content := ca_content (di_data info),
                     a_counterargument_to := ct, a_type := Some ty,
                     a_ticket_id := Some ticketId\<rparr>
              else a) (arguments ts)\<rparr>)"

lemma draft_submitted_outcome:
  "outcome (\<lambda>w. in_txn s w \<and> wtabs w = s) (submitDraft_body info)
     (\<lambda>i w. in_txn s w \<and> draft_submitted info s i (wtabs w)) (\<lambda>_ w. doomed_txn s w)"
  unfolding submitDraft_body_def
proof (rule outcome_bnd)
  let ?T1 = "\<lambda>t ts. ts = s\<lparr>tickets := tickets s @ [t]\<rparr> \<and> new_pending_ticket s (di_user info) t"
  show "outcome (\<lambda>w. in_txn s w \<and> wtabs w = s) (query (create_pending_ticket (di_user info)))
      (\<lambda>t w. in_txn s w \<and> ?T1 t (wtabs w)) (\<lambda>_ w. doomed_txn s w)"
    by (rule outcome_query[where P = "\<lambda>ts. ts = s"]) (auto dest!: create_pending_ticket_Inr)
  fix t :: ticket_row
  show "outcome (\<lambda>w. in_txn s w \<and> ?T1 t (wtabs w))
      (sq (query (submit_argument_stmt info (t_id t))) (ret (t_id t)))
      (\<lambda>i w. in_txn s w \<and> draft_submitted info s i (wtabs w)) (\<lambda>_ w. doomed_txn s w)"
  proof (rule outcome_sq)
    show "outcome (\<lambda>w. in_txn s w \<and> ?T1 t (wtabs w)) (query (submit_argument_stmt info (t_id t)))
        (\<lambda>_ w. in_txn s w \<and> draft_submitted info s (t_id t) (wtabs w)) (\<lambda>_ w. doomed_txn s w)"
      by (rule outcome_query)
         (auto simp: submit_argument_stmt_def draft_params_Inr update_stmt_def draft_submitted_def)
  qed (auto intro: outcome_ret)
qed

lemma submitDraft_body_keeps:
  "keeps quiet (submitDraft_body info)" "keeps keeps_ok (submitDraft_body info)"
  unfolding submitDraft_body_def
  by (intro quiet.backend_intros quiet_query stmt_ok_create_pending_ticket stmt_ok_drafts
      integrity.backend_intros integrity_query)+

interpretation submitDraft: txn_body "submitDraft_body info" "draft_submitted info" for info
  by unfold_locales (rule draft_submitted_outcome submitDraft_body_keeps)+

text \<open>Giving one row of a keyed list a fresh value keeps the values distinct.\<close>

lemma distinct_fresh_update:
  assumes "distinct (map key xs)" and "distinct (map (the \<circ> v) (filter (\<lambda>x. v x \<noteq> None) xs))"
    and "n \<notin> (the \<circ> v) ` {x \<in> set xs. v x \<noteq> None}"
    and "\<And>x. m x \<Longrightarrow> key x = k" and "\<And>x. v (u x) = Some n"
  shows "distinct (map (the \<circ> v) (filter (\<lambda>x. v x \<noteq> None) (map (\<lambda>x. if m x then u x else x) xs)))"
  using assms(1-3)
proof (induction xs)
  case (Cons x xs)
  have tail: "distinct (map (the \<circ> v) (filter (\<lambda>x. v x \<noteq> None)
      (map (\<lambda>x. if m x then u x else x) xs)))"
    by (rule Cons.IH) (use Cons.prems in \<open>auto split: if_splits\<close>)
  show ?case
  proof (cases "m x")
    case True
    then have kx: "key x = k" by (rule assms(4))
    have "\<not> m y" if "y \<in> set xs" for y
    proof
      assume "m y"
      then have "key y = key x" using assms(4) kx by simp
      with that have "key x \<in> key ` set xs" by (metis imageI)
      with Cons.prems(1) show False by simp
    qed
    then have "map (\<lambda>x. if m x then u x else x) xs = xs" by (auto intro: map_idI)
    with True Cons.prems show ?thesis by (auto simp: assms(5) split: if_splits)
  next
    case False
    have nx: "the (v x) \<noteq> n" if "v x \<noteq> None"
      using Cons.prems(3) that
      by (metis (mono_tags, lifting) comp_apply image_eqI list.set_intros(1) mem_Collect_eq)
    have "the (v x) \<notin> (the \<circ> v) ` {y \<in> set (map (\<lambda>x. if m x then u x else x) xs). v y \<noteq> None}"
      if "v x \<noteq> None"
      using Cons.prems that nx by (auto simp: assms(5) split: if_splits)
    with False tail show ?thesis by (auto simp: comp_def)
  qed
qed simp

lemma draft_submitted_app_ok:
  assumes tok: "tables_ok ts" and ok: "app_ok ts" and sub: "draft_submitted info ts i ts'"
  shows "app_ok ts'"
proof -
  from sub obtain t ttl ct ty did aid where t: "new_pending_ticket ts (di_user info) t" "t_id t = i"
    and ts': "ts' = ts\<lparr>tickets := tickets ts @ [t],
            arguments := map (\<lambda>a. if draft_key info did aid a
              then a\<lparr>a_is_draft := False, a_title := ttl, a_content := ca_content (di_data info),
                     a_counterargument_to := ct, a_type := Some ty, a_ticket_id := Some i\<rparr>
              else a) (arguments ts)\<rparr>"
    unfolding draft_submitted_def by blast
  let ?u = "\<lambda>a. a\<lparr>a_is_draft := False, a_title := ttl, a_content := ca_content (di_data info),
                     a_counterargument_to := ct, a_type := Some ty, a_ticket_id := Some i\<rparr>"
  have fresh: "i \<notin> set (ticket_refs ts)"
    using t ticket_refs_in[OF ok] by (auto simp: new_pending_ticket_def)
  define X where "X = map (the \<circ> a_ticket_id) (filter (\<lambda>a. a_ticket_id a \<noteq> None)
      (map (\<lambda>a. if draft_key info did aid a then ?u a else a) (arguments ts)))"
  define Y where "Y = map (the \<circ> a_ticket_id) (filter (\<lambda>a. a_ticket_id a \<noteq> None) (arguments ts))"
  have X: "distinct X" unfolding X_def
    by (rule distinct_fresh_update[where key = a_id and n = i and k = "the aid"])
       (use tok ok fresh in \<open>auto simp: tables_ok_def app_ok_def ticket_refs_def draft_key_def\<close>)
  have XY: "set X \<subseteq> insert i (set Y)" by (auto simp: X_def Y_def split: if_splits)
  have old: "ticket_refs ts = map d_ticket_id (debates ts) @ Y" by (simp add: ticket_refs_def Y_def)
  have new: "ticket_refs ts' = map d_ticket_id (debates ts) @ X"
    by (simp add: ticket_refs_def X_def ts')
  have refs: "distinct (ticket_refs ts')"
    using ok fresh X XY unfolding app_ok_def old new distinct_append by auto
  have "argument_ok (ts\<lparr>tickets := tickets ts @ [t]\<rparr>) (?u a)" if "draft_key info did aid a" for a
    using that t by (simp add: argument_ok_def draft_key_def new_pending_ticket_def)
  then have "list_all (argument_ok ts') (arguments ts')"
    using ok debate_ok_snoc(2) by (auto simp: app_ok_def ts' list_all_iff)
  moreover have "list_all (debate_ok ts') (debates ts')"
    using ok debate_ok_snoc(1) by (auto simp: app_ok_def ts' list_all_iff)
  moreover have "list_all (ticket_ok ts') (tickets ts')"
    using ok t by (auto simp: app_ok_def ts' ticket_ok_def new_pending_ticket_def list_all_iff)
  ultimately show ?thesis using refs by (simp add: app_ok_def)
qed

lemma submitDraft_safe: "keeps keeps_safe (submitDraft info)"
  unfolding submitDraft_def
  by (rule safe_transaction[OF submitDraft.txn_body_axioms submitDraft_body_keeps(2)])
     (auto simp: integrity.keeps_ret intro: draft_submitted_app_ok)

lemma drafts_safe:
  "keeps keeps_safe (saveArgumentAsDraft data)" "keeps keeps_safe (getDraft gdata)"
  "keeps keeps_safe (updateDraft info)"
  unfolding saveArgumentAsDraft_def getDraft_def updateDraft_def
  by (intro safe_client_query; simp add: draft_insert_app_ok read_only_app_ok)+

end
