(* ===== verification/Moderator_Service.thy ===== *)
theory Moderator_Service
  imports Drafts
begin

text \<open>
  \<open>ModeratorService\<close>: the cards of the moderators' board, the review views of a ticket for its
  moderator, and the two operations that move a ticket. A ticket's life is specified as a step
  relation that both operations refine.
\<close>

section \<open>The cards\<close>

record debate_card =
  dc_ticket_id :: "int option"
  dc_board_list :: board_list
  dc_moderator_id :: "int option"
  dc_ticket_title :: "string option"
  dc_moderator_username :: "string option"
  dc_ticket_label :: "string option"
  dc_tags :: "string option"
  dc_tags_ids :: "string option"
  dc_debate_id :: "int option"

record argument_card =
  ac_ticket_id :: "int option"
  ac_board_list :: board_list
  ac_moderator_id :: "int option"
  ac_ticket_title :: "string option"
  ac_argument_type :: "argument_type option"
  ac_debate_id :: "int option"
  ac_moderator_username :: "string option"
  ac_ticket_label :: string
  ac_debate_title :: "string option"
  ac_argument_id :: "int option"

text \<open>A left join on the assigned moderator: one row with no user when there is none.\<close>

definition left_join_user :: "tables \<Rightarrow> int option \<Rightarrow> user_row option list" where
  "left_join_user ts i =
     (case filter (\<lambda>u. Some (u_id u) = i) (users ts) of [] \<Rightarrow> [None] | us \<Rightarrow> map Some us)"

definition debate_cards_in :: "tables \<Rightarrow> board_list \<Rightarrow> debate_card list" where
  "debate_cards_in ts b =
     [\<lparr>dc_ticket_id = Some (t_id t), dc_board_list = b, dc_moderator_id = t_assigned_to t,
       dc_ticket_title = Some (d_title d), dc_moderator_username = map_option u_username u,
       dc_ticket_label = Some ''debate'', dc_tags = Some (fst g), dc_tags_ids = Some (snd g),
       dc_debate_id = Some (d_id d)\<rparr>.
       d \<leftarrow> debates ts,
       t \<leftarrow> filter (\<lambda>t. t_id t = d_ticket_id d) (tickets ts),
       g \<leftarrow> (case debates_tags ts (d_id d) of None \<Rightarrow> [] | Some g \<Rightarrow> [g]),
       u \<leftarrow> left_join_user ts (t_assigned_to t),
       t_board_list t = Some b]"

definition argument_cards_in :: "tables \<Rightarrow> board_list \<Rightarrow> argument_card list" where
  "argument_cards_in ts b =
     [\<lparr>ac_ticket_id = Some (t_id t), ac_board_list = b, ac_moderator_id = t_assigned_to t,
       ac_ticket_title = Some (a_title a), ac_argument_type = a_type a,
       ac_debate_id = Some (a_debate_id a), ac_moderator_username = map_option u_username u,
       ac_ticket_label = ''argument'', ac_debate_title = Some (d_title d),
       ac_argument_id = Some (a_id a)\<rparr>.
       a \<leftarrow> arguments ts,
       t \<leftarrow> filter (\<lambda>t. a_ticket_id a = Some (t_id t)) (tickets ts),
       d \<leftarrow> filter (\<lambda>d. d_id d = a_debate_id a) (debates ts),
       u \<leftarrow> left_join_user ts (t_assigned_to t),
       t_board_list t = Some b]"

definition empty_debate_card :: "board_list \<Rightarrow> debate_card" where
  "empty_debate_card b =
     \<lparr>dc_ticket_id = None, dc_board_list = b, dc_moderator_id = None, dc_ticket_title = None,
      dc_moderator_username = None, dc_ticket_label = None, dc_tags = None, dc_tags_ids = None,
      dc_debate_id = None\<rparr>"

definition empty_argument_card :: "board_list \<Rightarrow> argument_card" where
  "empty_argument_card b =
     \<lparr>ac_ticket_id = None, ac_board_list = b, ac_moderator_id = None, ac_ticket_title = None,
      ac_argument_type = None, ac_debate_id = None, ac_moderator_username = None,
      ac_ticket_label = ''argument'', ac_debate_title = None, ac_argument_id = None\<rparr>"

text \<open>The right join on the labels of the enumeration: an empty list still has a row.\<close>

definition right_join_boards ::
  "(board_list \<Rightarrow> 'c list) \<Rightarrow> (board_list \<Rightarrow> 'c) \<Rightarrow> 'c list" where
  "right_join_boards rows empty_row =
     concat (map (\<lambda>b. case rows b of [] \<Rightarrow> [empty_row b] | rs \<Rightarrow> rs) board_list_range)"

definition getDebateCards :: "(world, debate_card list) svc" where
  "getDebateCards =
     client_query
       (select_stmt (\<lambda>ts. right_join_boards (debate_cards_in ts) empty_debate_card)) Inr
       (\<lambda>_. PlainError ''An error occurred while fetching the moderator's activity(debates).'')"

definition getArgumentCards :: "(world, argument_card list) svc" where
  "getArgumentCards =
     client_query
       (select_stmt (\<lambda>ts. right_join_boards (argument_cards_in ts) empty_argument_card)) Inr
       (\<lambda>_. PlainError ''An error occurred while fetching the moderator's activity(arguments).'')"

section \<open>The review views\<close>

record argument_as_moderator =
  am_ticket_id :: int
  am_user_id :: int
  am_debate_id :: int
  am_argument_title :: string
  am_argument_content :: string
  am_counterargument_to_id :: "int option"
  am_argument_type :: "argument_type option"
  am_debate_title :: string
  am_board_list :: "board_list option"
  am_counterargument_to_title :: "string option"
  am_username :: string
  am_assigned_to_id :: "int option"

text \<open>A left join on the argument that is countered.\<close>

definition left_join_counterargument :: "tables \<Rightarrow> int option \<Rightarrow> argument_row option list" where
  "left_join_counterargument ts i =
     (case filter (\<lambda>c. Some (a_id c) = i) (arguments ts) of [] \<Rightarrow> [None] | cs \<Rightarrow> map Some cs)"

definition select_argument_as_moderator ::
  "user_cookie \<Rightarrow> int \<Rightarrow> argument_as_moderator list stmt" where
  "select_argument_as_moderator user ticketId =
     with_param (not_null (int_param (JNum ticketId))) (\<lambda>tid. select_stmt (\<lambda>ts.
       [\<lparr>am_ticket_id = t_id t, am_user_id = t_created_by t, am_debate_id = a_debate_id a,
         am_argument_title = a_title a, am_argument_content = a_content a,
         am_counterargument_to_id = a_counterargument_to a, am_argument_type = a_type a,
         am_debate_title = d_title d, am_board_list = t_board_list t,
         am_counterargument_to_title = map_option a_title c, am_username = u_username u,
         am_assigned_to_id = t_assigned_to t\<rparr>.
         t \<leftarrow> tickets ts,
         a \<leftarrow> filter (\<lambda>a. a_ticket_id a = Some (t_id t)) (arguments ts),
         d \<leftarrow> filter (\<lambda>d. d_id d = a_debate_id a) (debates ts),
         u \<leftarrow> filter (\<lambda>u. u_id u = t_created_by t) (users ts),
         c \<leftarrow> left_join_counterargument ts (a_counterargument_to a),
         t_id t = tid \<and> \<not> a_is_draft a \<and> t_assigned_to t = Some (uc_id user)]))"

definition getArgumentAsModerator ::
  "user_cookie \<Rightarrow> int \<Rightarrow> (world, argument_as_moderator option) svc" where
  "getArgumentAsModerator user ticketId =
     client_query (select_argument_as_moderator user ticketId) (Inr \<circ> first_row) (\<lambda>err. err)"

record debate_as_moderator =
  dm_id :: int
  dm_title :: string
  dm_ticket_id :: int
  dm_created_at :: nat
  dm_modified_at :: nat
  dm_username :: string
  dm_user_id :: int
  dm_tags :: string
  dm_board_list :: "board_list option"
  dm_tags_ids :: string
  dm_assigned_to_id :: "int option"

definition select_debate_as_moderator ::
  "user_cookie \<Rightarrow> int \<Rightarrow> debate_as_moderator list stmt" where
  "select_debate_as_moderator user ticketId =
     with_param (not_null (int_param (JNum ticketId))) (\<lambda>tid. select_stmt (\<lambda>ts.
       [\<lparr>dm_id = d_id d, dm_title = d_title d, dm_ticket_id = t_id t,
         dm_created_at = d_created_at d, dm_modified_at = d_modified_at d,
         dm_username = u_username u, dm_user_id = u_id u, dm_tags = fst g,
         dm_board_list = t_board_list t, dm_tags_ids = snd g,
         dm_assigned_to_id = t_assigned_to t\<rparr>.
         d \<leftarrow> debates ts,
         u \<leftarrow> filter (\<lambda>u. u_id u = d_created_by d) (users ts),
         g \<leftarrow> (case debates_tags ts (d_id d) of None \<Rightarrow> [] | Some g \<Rightarrow> [g]),
         t \<leftarrow> filter (\<lambda>t. t_id t = d_ticket_id d) (tickets ts),
         d_ticket_id d = tid \<and> t_assigned_to t = Some (uc_id user)]))"

definition getDebateAsModerator ::
  "user_cookie \<Rightarrow> int \<Rightarrow> (world, debate_as_moderator option) svc" where
  "getDebateAsModerator user ticketId =
     client_query (select_debate_as_moderator user ticketId) (Inr \<circ> first_row)
       (\<lambda>_. PlainError ''An error occurred while fetching the debate.'')"

section \<open>Moving a ticket\<close>

record update_ticket_data =
  ut_userId :: int
  ut_ticketId :: int
  ut_boardList :: string

definition can_move :: "int \<Rightarrow> int \<Rightarrow> ticket_row \<Rightarrow> bool" where
  "can_move ticketId userId t \<longleftrightarrow> t_id t = ticketId \<and>
     (t_board_list t = Some PENDING
      \<or> t_board_list t \<noteq> None \<and> t_board_list t \<noteq> Some PENDING \<and> t_assigned_to t = Some userId)"

definition moved :: "board_list \<Rightarrow> int \<Rightarrow> ticket_row \<Rightarrow> ticket_row" where
  "moved b userId t =
     t\<lparr>t_board_list := Some b,
       t_assigned_to :=
         (if t_board_list t = Some PENDING then Some userId
          else if b = PENDING then None
          else t_assigned_to t)\<rparr>"

definition update_ticket_stmt :: "update_ticket_data \<Rightarrow> nat stmt" where
  "update_ticket_stmt data =
     with_param (enum_param (parse_board_list (ut_boardList data))) (\<lambda>b.
     with_param (not_null (int_param (JNum (ut_userId data)))) (\<lambda>uid.
     with_param (not_null (int_param (JNum (ut_ticketId data)))) (\<lambda>tid.
       update_stmt
         (\<lambda>ts. ts\<lparr>tickets := map (\<lambda>t. if can_move tid uid t then moved b uid t else t)
                               (tickets ts)\<rparr>)
         (\<lambda>ts. length (filter (can_move tid uid) (tickets ts))))))"

definition updateTicket :: "update_ticket_data \<Rightarrow> (world, unit) svc" where
  "updateTicket data =
     bnd (client_query (update_ticket_stmt data) Inr
            (\<lambda>_. PlainError ''An error occurred while updated the ticket.''))
       (\<lambda>rowCount. if rowCount = 0 then raise (EntityNotFoundError ''ticket'') else ret ())"

definition can_approve :: "int \<Rightarrow> int \<Rightarrow> ticket_row \<Rightarrow> bool" where
  "can_approve ticketId userId t \<longleftrightarrow> t_id t = ticketId \<and> t_assigned_to t = Some userId"

text \<open>The rows returned are the creators of the updated tickets.\<close>

definition approve_ticket_stmt :: "user_cookie \<Rightarrow> int \<Rightarrow> int list stmt" where
  "approve_ticket_stmt user ticketId =
     with_param (not_null (int_param (JNum ticketId))) (\<lambda>tid.
       update_stmt
         (\<lambda>ts. ts\<lparr>tickets := map (\<lambda>t. if can_approve tid (uc_id user) t
              then t\<lparr>t_board_list := Some ACCEPTED\<rparr> else t) (tickets ts)\<rparr>)
         (\<lambda>ts. map t_created_by (filter (can_approve tid (uc_id user)) (tickets ts))))"

definition approveTicket :: "user_cookie \<Rightarrow> int \<Rightarrow> (world, int list) svc" where
  "approveTicket user ticketId =
     client_query (approve_ticket_stmt user ticketId) Inr
       (\<lambda>_. PlainError ''An error occurred while updated the ticket.'')"

section \<open>The life of a ticket\<close>

text \<open>
  What a moderator may do to a ticket. A pending ticket is open to every moderator and whoever
  moves it becomes its moderator; afterwards only the assigned moderator moves, returns or approves
  it, and returning it clears the assignment.
\<close>

inductive ticket_step :: "int \<Rightarrow> ticket_row \<Rightarrow> ticket_row \<Rightarrow> bool" for m where
  claim: "t_board_list t = Some PENDING \<Longrightarrow>
    ticket_step m t (t\<lparr>t_board_list := Some b, t_assigned_to := Some m\<rparr>)"
| move: "t_board_list t = Some b \<Longrightarrow> b \<noteq> PENDING \<Longrightarrow> t_assigned_to t = Some m \<Longrightarrow> b' \<noteq> PENDING \<Longrightarrow>
    ticket_step m t (t\<lparr>t_board_list := Some b'\<rparr>)"
| giveback: "t_board_list t = Some b \<Longrightarrow> b \<noteq> PENDING \<Longrightarrow> t_assigned_to t = Some m \<Longrightarrow>
    ticket_step m t (t\<lparr>t_board_list := Some PENDING, t_assigned_to := None\<rparr>)"
| approve: "t_assigned_to t = Some m \<Longrightarrow>
    ticket_step m t (t\<lparr>t_board_list := Some ACCEPTED\<rparr>)"

inductive_cases ticket_stepE: "ticket_step m t t'"

lemma ticket_step_fixed:
  "ticket_step m t t' \<Longrightarrow> t_id t' = t_id t \<and> t_created_by t' = t_created_by t"
  by (erule ticket_stepE) simp_all

lemma ticket_step_assigned:
  assumes "ticket_step m t t'"
  shows "t_board_list t' \<noteq> None"
    and "t_board_list t' = Some PENDING \<or> t_assigned_to t' = Some m"
    and "t_assigned_to t' = None \<or> t_assigned_to t' = Some m"
  using assms by (auto elim!: ticket_stepE)

lemma moved_step: "can_move i m t \<Longrightarrow> ticket_step m t (moved b m t)"
proof -
  assume can: "can_move i m t"
  show ?thesis
  proof (cases "t_board_list t = Some PENDING")
    case True
    then show ?thesis using ticket_step.claim[of t m b] by (simp add: moved_def)
  next
    case False
    with can obtain c where c: "t_board_list t = Some c" "c \<noteq> PENDING" "t_assigned_to t = Some m"
      by (auto simp: can_move_def)
    show ?thesis
    proof (cases "b = PENDING")
      case True
      with c ticket_step.giveback[of t c m] show ?thesis by (simp add: moved_def)
    next
      case b: False
      have eq: "moved b m t = t\<lparr>t_board_list := Some b\<rparr>"
        using c b by (cases t) (simp add: moved_def)
      show ?thesis unfolding eq using c b by (intro ticket_step.move) auto
    qed
  qed
qed

text \<open>Several moves by several moderators.\<close>

inductive ticket_reach :: "ticket_row \<Rightarrow> ticket_row \<Rightarrow> bool" for t where
  start: "ticket_reach t t"
| step: "ticket_reach t u \<Longrightarrow> ticket_step m u v \<Longrightarrow> ticket_reach t v"

lemma ticket_reach_inv:
  assumes "ticket_reach t u" and "t_board_list t = Some PENDING" and "t_assigned_to t = None"
  shows "t_id u = t_id t \<and> t_created_by u = t_created_by t \<and> t_board_list u \<noteq> None
    \<and> (t_board_list u = Some PENDING \<or> t_assigned_to u \<noteq> None)"
  using assms(1)
proof (induction rule: ticket_reach.induct)
  case (step u m v)
  then show ?case
    using ticket_step_fixed[OF step.hyps(2)] ticket_step_assigned[OF step.hyps(2)] by auto
qed (use assms in simp)

end
