(* ===== verification/User_Service.thy ===== *)
theory User_Service
  imports Moderator_Correct
begin

text \<open>
  \<open>UserService\<close> and \<open>AuthService\<close>: registering and finding a user, a user's activity and the review
  views of a ticket for its creator, and the authentication handlers. The password hash and its
  comparison (bcrypt) are parameters.
\<close>

section \<open>Accounts\<close>

record register_user_dto =
  ru_email :: string
  ru_username :: string
  ru_password :: string

record login_user_dto =
  lu_emailOrUsername :: string
  lu_password :: string

definition insertOne :: "register_user_dto \<Rightarrow> (world, user_row) svc" where
  "insertOne dto =
     client_query
       (insert_user (ru_username dto) (ru_password dto) (ru_email dto) (Some USER))
       Inr (\<lambda>err. err)"

definition select_user :: "string \<Rightarrow> user_row list stmt" where
  "select_user emailOrUsername = select_stmt (\<lambda>ts.
     filter (\<lambda>u. u_username u = emailOrUsername \<or> u_email u = emailOrUsername) (users ts))"

text \<open>The client is released after the query, outside of any try block.\<close>

definition getOneByEmailOrUsername :: "string \<Rightarrow> (world, user_row option) svc" where
  "getOneByEmailOrUsername emailOrUsername =
     sq pool_connect
       (bnd (query (select_user emailOrUsername)) (\<lambda>rows.
        sq release
          (ret (first_row rows))))"

definition register_user ::
  "(string \<Rightarrow> js_error + string) \<Rightarrow> register_user_dto \<Rightarrow> (world, user_row) svc" where
  "register_user hash dto =
     try_catch
       (bnd (lift_sum (hash (ru_password dto))) (\<lambda>h. insertOne (dto\<lparr>ru_password := h\<rparr>)))
       (\<lambda>err. if err = DbError UniqueViolation
              then raise (ConflictException ''The username or email is already taken.'')
              else raise (PlainError ''An error occurred while registering the user.''))"

definition login_user :: "(string \<Rightarrow> string \<Rightarrow> bool) \<Rightarrow> login_user_dto \<Rightarrow> (world, user_row) svc" where
  "login_user compare dto =
     bnd (getOneByEmailOrUsername (lu_emailOrUsername dto)) (\<lambda>user.
       case user of
         None \<Rightarrow> raise InvalidCredentialsError
       | Some u \<Rightarrow>
           (if \<not> compare (lu_password dto) (u_password u) then raise InvalidCredentialsError
            else ret u))"

definition getUserCookieFields :: "user_row \<Rightarrow> user_cookie" where
  "getUserCookieFields u = \<lparr>uc_id = u_id u, uc_role = u_role u, uc_username = u_username u\<rparr>"

record public_user =
  pu_id :: int
  pu_username :: string
  pu_email :: string
  pu_role :: "user_role option"

text \<open>The selected columns without the password.\<close>

definition getPublicUser :: "user_row \<Rightarrow> public_user" where
  "getPublicUser u =
     \<lparr>pu_id = u_id u, pu_username = u_username u, pu_email = u_email u, pu_role = u_role u\<rparr>"

text \<open>The handlers answer the data for the session cookie, and the login the public user.\<close>

definition handle_register ::
  "(string \<Rightarrow> js_error + string) \<Rightarrow> register_user_dto \<Rightarrow> (world, user_cookie) svc" where
  "handle_register hash dto =
     bnd (register_user hash dto) (\<lambda>user. ret (getUserCookieFields user))"

definition handle_login ::
  "(string \<Rightarrow> string \<Rightarrow> bool) \<Rightarrow> login_user_dto \<Rightarrow> (world, user_cookie \<times> public_user) svc" where
  "handle_login compare dto =
     bnd (login_user compare dto) (\<lambda>user. ret (getUserCookieFields user, getPublicUser user))"

section \<open>The activity of a user\<close>

datatype activity_type = SOLVED | ONGOING

record activity_debate =
  ad_ticket_id :: int
  ad_board_list :: "board_list option"
  ad_debate_title :: string
  ad_debate_id :: int
  ad_moderator_username :: "string option"
  ad_activity_list :: activity_type
  ad_tags :: string
  ad_tags_ids :: string

record activity_argument =
  aa_argument_id :: int
  aa_argument_title :: string
  aa_argument_type :: "argument_type option"
  aa_is_draft :: bool
  aa_board_list :: "board_list option"
  aa_activity_list :: activity_type
  aa_debate_title :: string
  aa_debate_id :: int
  aa_moderator_username :: "string option"
  aa_ticket_id :: "int option"

definition activity_list_of :: "board_list option \<Rightarrow> activity_type" where
  "activity_list_of b = (if b = Some ACCEPTED then SOLVED else ONGOING)"

text \<open>\<open>order by created_at desc\<close>; rows of the same time keep the order of the table.\<close>

definition newest_first :: "('a \<Rightarrow> nat) \<Rightarrow> 'a list \<Rightarrow> 'a list" where
  "newest_first f xs = sort_key (\<lambda>x. - int (f x)) xs"

definition select_activity_debates :: "user_cookie \<Rightarrow> activity_debate list stmt" where
  "select_activity_debates user = select_stmt (\<lambda>ts.
     [\<lparr>ad_ticket_id = t_id t, ad_board_list = t_board_list t, ad_debate_title = d_title d,
       ad_debate_id = d_id d, ad_moderator_username = map_option u_username u,
       ad_activity_list = activity_list_of (t_board_list t), ad_tags = fst g,
       ad_tags_ids = snd g\<rparr>.
       d \<leftarrow> newest_first d_created_at (debates ts),
       t \<leftarrow> filter (\<lambda>t. t_id t = d_ticket_id d) (tickets ts),
       g \<leftarrow> (case debates_tags ts (d_id d) of None \<Rightarrow> [] | Some g \<Rightarrow> [g]),
       u \<leftarrow> left_join_user ts (t_assigned_to t),
       t_created_by t = uc_id user])"

definition getActivityDebates :: "user_cookie \<Rightarrow> (world, activity_debate list) svc" where
  "getActivityDebates user =
     client_query (select_activity_debates user) Inr
       (\<lambda>_. PlainError ''An error occurred while fetching the user's activity(debates).'')"

definition left_join_ticket :: "tables \<Rightarrow> int option \<Rightarrow> ticket_row option list" where
  "left_join_ticket ts i =
     (case filter (\<lambda>t. Some (t_id t) = i) (tickets ts) of [] \<Rightarrow> [None] | tks \<Rightarrow> map Some tks)"

definition select_activity_arguments :: "user_cookie \<Rightarrow> activity_argument list stmt" where
  "select_activity_arguments user = select_stmt (\<lambda>ts.
     [\<lparr>aa_argument_id = a_id a, aa_argument_title = a_title a, aa_argument_type = a_type a,
       aa_is_draft = a_is_draft a, aa_board_list = Option.bind t t_board_list,
       aa_activity_list = activity_list_of (Option.bind t t_board_list),
       aa_debate_title = d_title d, aa_debate_id = d_id d,
       aa_moderator_username = map_option u_username u, aa_ticket_id = map_option t_id t\<rparr>.
       a \<leftarrow> newest_first a_created_at (arguments ts),
       t \<leftarrow> left_join_ticket ts (a_ticket_id a),
       d \<leftarrow> filter (\<lambda>d. d_id d = a_debate_id a) (debates ts),
       u \<leftarrow> left_join_user ts (Option.bind t t_assigned_to),
       a_created_by a = uc_id user])"

definition getActivityArguments :: "user_cookie \<Rightarrow> (world, activity_argument list) svc" where
  "getActivityArguments user =
     client_query (select_activity_arguments user) Inr
       (\<lambda>_. PlainError ''An error occurred while fetching the user's activity(arguments).'')"

section \<open>The review views of the creator\<close>

record debate_as_user =
  du_id :: int
  du_title :: string
  du_ticket_id :: int
  du_created_at :: nat
  du_modified_at :: nat
  du_moderator_username :: "string option"
  du_moderator_id :: "int option"
  du_tags :: string
  du_board_list :: "board_list option"
  du_tags_ids :: string
  du_assigned_to_id :: "int option"
  du_user_id :: int

definition select_debate_as_user :: "user_cookie \<Rightarrow> int \<Rightarrow> debate_as_user list stmt" where
  "select_debate_as_user user ticketId =
     with_param (not_null (int_param (JNum ticketId))) (\<lambda>tid. select_stmt (\<lambda>ts.
       [\<lparr>du_id = d_id d, du_title = d_title d, du_ticket_id = t_id t,
         du_created_at = d_created_at d, du_modified_at = d_modified_at d,
         du_moderator_username = map_option u_username u, du_moderator_id = map_option u_id u,
         du_tags = fst g, du_board_list = t_board_list t, du_tags_ids = snd g,
         du_assigned_to_id = t_assigned_to t, du_user_id = t_created_by t\<rparr>.
         d \<leftarrow> debates ts,
         g \<leftarrow> (case debates_tags ts (d_id d) of None \<Rightarrow> [] | Some g \<Rightarrow> [g]),
         t \<leftarrow> filter (\<lambda>t. t_id t = d_ticket_id d) (tickets ts),
         u \<leftarrow> left_join_user ts (t_assigned_to t),
         d_ticket_id d = tid \<and> t_created_by t = uc_id user]))"

definition getDebateAsUser :: "user_cookie \<Rightarrow> int \<Rightarrow> (world, debate_as_user option) svc" where
  "getDebateAsUser user ticketId =
     client_query (select_debate_as_user user ticketId) (Inr \<circ> first_row)
       (\<lambda>_. PlainError ''An error occurred while fetching the debate.'')"

record argument_as_user =
  au_ticket_id :: int
  au_moderator_id :: "int option"
  au_debate_id :: int
  au_argument_title :: string
  au_argument_content :: string
  au_counterargument_to_id :: "int option"
  au_argument_type :: "argument_type option"
  au_debate_title :: string
  au_board_list :: "board_list option"
  au_counterargument_to_title :: "string option"
  au_moderator_username :: "string option"
  au_argument_id :: int
  au_assigned_to_id :: "int option"
  au_user_id :: int

definition select_argument_as_user :: "user_cookie \<Rightarrow> int \<Rightarrow> argument_as_user list stmt" where
  "select_argument_as_user user ticketId =
     with_param (not_null (int_param (JNum ticketId))) (\<lambda>tid. select_stmt (\<lambda>ts.
       [\<lparr>au_ticket_id = t_id t, au_moderator_id = map_option u_id u,
         au_debate_id = a_debate_id a, au_argument_title = a_title a,
         au_argument_content = a_content a, au_counterargument_to_id = a_counterargument_to a,
         au_argument_type = a_type a, au_debate_title = d_title d,
         au_board_list = t_board_list t, au_counterargument_to_title = map_option a_title c,
         au_moderator_username = map_option u_username u, au_argument_id = a_id a,
         au_assigned_to_id = t_assigned_to t, au_user_id = t_created_by t\<rparr>.
         t \<leftarrow> tickets ts,
         a \<leftarrow> filter (\<lambda>a. a_ticket_id a = Some (t_id t)) (arguments ts),
         d \<leftarrow> filter (\<lambda>d. d_id d = a_debate_id a) (debates ts),
         u \<leftarrow> left_join_user ts (t_assigned_to t),
         c \<leftarrow> left_join_counterargument ts (a_counterargument_to a),
         t_id t = tid \<and> \<not> a_is_draft a \<and> t_created_by t = uc_id user]))"

definition getArgumentAsUser :: "user_cookie \<Rightarrow> int \<Rightarrow> (world, argument_as_user option) svc" where
  "getArgumentAsUser user ticketId =
     client_query (select_argument_as_user user ticketId) (Inr \<circ> first_row) (\<lambda>err. err)"

end
