(* ===== verification/Comments.thy ===== *)
theory Comments
  imports Moderator_Correct "HOL-Library.Multiset"
begin

text \<open>
  \<open>CommentService\<close>: the comments on the ticket of a debate or of an argument. The two inserting
  methods differ in the table that must refer to the ticket, so their contract is one interface
  with two implementations.
\<close>

section \<open>Operations\<close>

record add_comment_data =
  acd_ticketId :: jsval
  acd_content :: string
  acd_commenterId :: int

definition participant :: "tables \<Rightarrow> int \<Rightarrow> int \<Rightarrow> bool" where
  "participant ts ticketId userId \<longleftrightarrow>
     list_ex (\<lambda>t. t_id t = ticketId \<and> (t_created_by t = userId \<or> t_assigned_to t = Some userId))
       (tickets ts)"

definition debate_has_ticket :: "tables \<Rightarrow> int \<Rightarrow> bool" where
  "debate_has_ticket ts ticketId \<longleftrightarrow> list_ex (\<lambda>d. d_ticket_id d = ticketId) (debates ts)"

definition argument_has_ticket :: "tables \<Rightarrow> int \<Rightarrow> bool" where
  "argument_has_ticket ts ticketId \<longleftrightarrow> list_ex (\<lambda>a. a_ticket_id a = Some ticketId) (arguments ts)"

definition comment_columns :: "comment_row \<Rightarrow> user_row \<Rightarrow> sent_comment" where
  "comment_columns c u =
     \<lparr>sc_comment_id = tc_id c, sc_content = tc_content c, sc_commenter_id = tc_commenter_id c,
      sc_created_at = tc_created_at c, sc_modified_at = tc_modified_at c,
      sc_commenter_username = u_username u\<rparr>"

text \<open>The conditional insert and the join of the inserted row with its author.\<close>

definition insert_comment_stmt ::
  "(tables \<Rightarrow> int \<Rightarrow> bool) \<Rightarrow> add_comment_data \<Rightarrow> sent_comment list stmt" where
  "insert_comment_stmt target data =
     with_param (int_param (acd_ticketId data)) (\<lambda>tid.
     with_param (not_null (int_param (JNum (acd_commenterId data)))) (\<lambda>uid db.
       case tid of
         None \<Rightarrow> (Inr [], db)
       | Some i \<Rightarrow>
           (if target (tabs db) i \<and> participant (tabs db) i uid
            then (case insert_ticket_comment i (acd_content data) uid db of
                    (Inl e, db') \<Rightarrow> (Inl e, db')
                  | (Inr c, db') \<Rightarrow>
                      (Inr (map (comment_columns c)
                        (filter (\<lambda>u. u_id u = tc_commenter_id c) (users (tabs db')))), db'))
            else (Inr [], db))))"

definition comment_or_404 :: "sent_comment list \<Rightarrow> js_error + sent_comment" where
  "comment_or_404 rows =
     (case rows of [] \<Rightarrow> Inl (EntityNotFoundError ''ticket'') | c # _ \<Rightarrow> Inr c)"

definition addCommentToDebate :: "add_comment_data \<Rightarrow> (world, sent_comment) svc" where
  "addCommentToDebate data =
     client_query (insert_comment_stmt debate_has_ticket data) comment_or_404 (\<lambda>err. err)"

definition addCommentToArgument :: "add_comment_data \<Rightarrow> (world, sent_comment) svc" where
  "addCommentToArgument data =
     client_query (insert_comment_stmt argument_has_ticket data) comment_or_404 (\<lambda>err. err)"

definition select_comments :: "int \<Rightarrow> user_cookie \<Rightarrow> sent_comment list stmt" where
  "select_comments ticketId user =
     with_param (not_null (int_param (JNum ticketId))) (\<lambda>tid. select_stmt (\<lambda>ts.
       [comment_columns c u.
         c \<leftarrow> sort_key tc_created_at (ticket_comments ts),
         t \<leftarrow> filter (\<lambda>t. t_id t = tc_ticket_id c) (tickets ts),
         u \<leftarrow> filter (\<lambda>u. u_id u = tc_commenter_id c) (users ts),
         t_id t = tid \<and> (t_created_by t = uc_id user \<or> t_assigned_to t = Some (uc_id user))]))"

definition getTicketComments :: "int \<Rightarrow> user_cookie \<Rightarrow> (world, sent_comment list) svc" where
  "getTicketComments ticketId user =
     client_query (select_comments ticketId user) Inr
       (\<lambda>_. PlainError ''An error occurred while fetching the comments.'')"

record update_comment_data =
  ucd_commentId :: jsval
  ucd_content :: string

definition own_comment :: "int option \<Rightarrow> int \<Rightarrow> comment_row \<Rightarrow> bool" where
  "own_comment commentId userId c \<longleftrightarrow> Some (tc_id c) = commentId \<and> tc_commenter_id c = userId"

definition update_comment_stmt :: "user_cookie \<Rightarrow> update_comment_data \<Rightarrow> nat stmt" where
  "update_comment_stmt user data =
     with_param (int_param (ucd_commentId data)) (\<lambda>cid db.
       update_stmt
         (\<lambda>ts. ts\<lparr>ticket_comments := map (\<lambda>c. if own_comment cid (uc_id user) c
              then c\<lparr>tc_content := ucd_content data, tc_modified_at := now db\<rparr> else c)
              (ticket_comments ts)\<rparr>)
         (\<lambda>ts. length (filter (own_comment cid (uc_id user)) (ticket_comments ts))) db)"

definition updateComment :: "user_cookie \<Rightarrow> update_comment_data \<Rightarrow> (world, nat) svc" where
  "updateComment user data =
     client_query (update_comment_stmt user data) Inr
       (\<lambda>_. PlainError ''An error occurred while fetching the comments.'')"

section \<open>Statements\<close>

lemma stmt_ok_insert_comment_stmt [simp]: "stmt_ok (insert_comment_stmt target data)"
proof -
  have ins: "stmt_ok (\<lambda>db. case insert_ticket_comment i c uid db of
      (Inl e, db') \<Rightarrow> (Inl e, db')
    | (Inr r, db') \<Rightarrow> (Inr (f r db'), db'))" for i c uid and f :: "comment_row \<Rightarrow> database \<Rightarrow> sent_comment list"
  proof (rule stmt_okI)
    fix db :: database
    obtain r db' where ins: "insert_ticket_comment i c uid db = (r, db')"
      by (cases "insert_ticket_comment i c uid db")
    note ok = stmt_ok_insert_comment[of i c uid]
    let ?res = "case insert_ticket_comment i c uid db of
      (Inl e, db') \<Rightarrow> (Inl e, db') | (Inr r, db') \<Rightarrow> (Inr (f r db'), db')"
    show "seq_le (sqs db) (sqs (snd ?res))" "now (snd ?res) = now db"
      using ins stmt_ok_seq[OF ok ins] stmt_ok_now[OF ok ins] by (cases r; simp)+
    show "isl (fst ?res) \<Longrightarrow> tabs (snd ?res) = tabs db"
      using ins stmt_ok_error[OF ok, of db] by (cases r) auto
    show "schema_ok db \<Longrightarrow> schema_ok (snd ?res)"
      using ins stmt_ok_schema[OF ok ins] by (cases r) auto
  qed
  show ?thesis
    unfolding insert_comment_stmt_def
  proof (intro stmt_ok_with_param)
    fix tid uid
    show "stmt_ok (\<lambda>db. case tid of
         None \<Rightarrow> (Inr [], db)
       | Some i \<Rightarrow>
           (if target (tabs db) i \<and> participant (tabs db) i uid
            then (case insert_ticket_comment i (acd_content data) uid db of
                    (Inl e, db') \<Rightarrow> (Inl e, db')
                  | (Inr c, db') \<Rightarrow>
                      (Inr (map (comment_columns c)
                        (filter (\<lambda>u. u_id u = tc_commenter_id c) (users (tabs db')))), db'))
            else (Inr [], db)))"
      using ins[where i = "the tid" and c = "acd_content data" and uid = uid and f = "\<lambda>c db'. map (comment_columns c)
          (filter (\<lambda>u. u_id u = tc_commenter_id c) (users (tabs db')))"]
      by (cases tid) (auto simp: stmt_ok_def)
  qed
qed

lemma stmt_ok_update_comment [simp]: "stmt_ok (update_comment_stmt user data)"
  unfolding update_comment_stmt_def
proof (rule stmt_ok_with_param)
  fix cid
  have "stmt_ok (update_stmt
         (\<lambda>ts. ts\<lparr>ticket_comments := map (\<lambda>c. if own_comment cid (uc_id user) c
              then c\<lparr>tc_content := ucd_content data, tc_modified_at := n\<rparr> else c)
              (ticket_comments ts)\<rparr>)
         (\<lambda>ts. length (filter (own_comment cid (uc_id user)) (ticket_comments ts))))" for n
    by (rule stmt_ok_update) (auto simp: table_defs serial_key_map)
  then show "stmt_ok (\<lambda>db. update_stmt
         (\<lambda>ts. ts\<lparr>ticket_comments := map (\<lambda>c. if own_comment cid (uc_id user) c
              then c\<lparr>tc_content := ucd_content data, tc_modified_at := now db\<rparr> else c)
              (ticket_comments ts)\<rparr>)
         (\<lambda>ts. length (filter (own_comment cid (uc_id user)) (ticket_comments ts))) db)"
    by (auto simp: stmt_ok_def)
qed

lemma read_only_comments [simp]: "read_only (select_comments i user)"
  unfolding select_comments_def by (intro read_only_with_param read_only_select)

section \<open>The contract of a comment store\<close>

text \<open>
  What the review gateway needs from the method that adds a comment: a result means that the
  commenter takes part in the ticket, that the ticket is of the right kind and that exactly the
  returned comment was stored; after an error nothing is stored, unless the connection failed
  after the statement.
\<close>

definition comment_added ::
  "(tables \<Rightarrow> int \<Rightarrow> bool) \<Rightarrow> add_comment_data \<Rightarrow> tables \<Rightarrow> sent_comment \<Rightarrow> tables \<Rightarrow> bool" where
  "comment_added target data ts c ts' \<longleftrightarrow>
     (\<exists>tid r u. int_param (acd_ticketId data) = Inr (Some tid) \<and> target ts tid
        \<and> participant ts tid (acd_commenterId data)
        \<and> ts' = ts\<lparr>ticket_comments := ticket_comments ts @ [r]\<rparr>
        \<and> tc_ticket_id r = tid \<and> tc_content r = acd_content data
        \<and> tc_commenter_id r = acd_commenterId data \<and> u \<in> set (users ts)
        \<and> u_id u = acd_commenterId data \<and> c = comment_columns r u)"

locale comment_store =
  fixes target :: "tables \<Rightarrow> int \<Rightarrow> bool"
    and add :: "add_comment_data \<Rightarrow> (world, sent_comment) svc"
  assumes add_result: "idle w \<Longrightarrow> add data w = (Inr c, w') \<Longrightarrow>
      comment_added target data (wtabs w) c (wtabs w')"
    and add_time: "idle w \<Longrightarrow> add data w = (Inr c, w') \<Longrightarrow> sc_created_at c = now (pg w)"
    and add_error: "idle w \<Longrightarrow> add data w = (Inl e, w') \<Longrightarrow>
      wtabs w' = wtabs w \<or> FailAfter \<in> set (faults w)"
    and add_safe: "keeps keeps_safe (add data)"
    and add_quiet: "keeps quiet (add data)"
    and add_pool: "keeps same_pool (add data)"
begin

lemma outsider_rejected:
  assumes "idle w" and "int_param (acd_ticketId data) = Inr (Some tid)"
    and "\<not> participant (wtabs w) tid (acd_commenterId data) \<or> \<not> target (wtabs w) tid"
  shows "isl (fst (add data w))"
proof (cases "add data w")
  case (Pair r w')
  then show ?thesis using assms add_result[OF assms(1), of data _ w']
    by (cases r) (auto simp: comment_added_def)
qed

lemma comments_grow:
  assumes "idle w" and "FailAfter \<notin> set (faults w)" and "add data w = (r, w')"
  shows "ticket_comments (wtabs w') = ticket_comments (wtabs w)
    \<or> (\<exists>x. ticket_comments (wtabs w') = ticket_comments (wtabs w) @ [x]
          \<and> tc_commenter_id x = acd_commenterId data
          \<and> participant (wtabs w) (tc_ticket_id x) (acd_commenterId data))"
proof (cases r)
  case (Inl e)
  then show ?thesis using add_error[OF assms(1), of data e w'] assms(2,3) by auto
next
  case (Inr c)
  then show ?thesis using add_result[OF assms(1), of data c w'] assms(3)
    by (auto simp: comment_added_def)
qed

end

lemma insert_comment_stmt_Inr:
  assumes "insert_comment_stmt target data d = (Inr rows, d')"
  shows "(case rows of [] \<Rightarrow> d' = d
      | c # _ \<Rightarrow> comment_added target data (tabs d) c (tabs d') \<and> sc_created_at c = now d)"
proof -
  from assms obtain tid where tid: "int_param (acd_ticketId data) = Inr tid"
    and run: "(case tid of None \<Rightarrow> (Inr [], d) | Some i \<Rightarrow>
        (if target (tabs d) i \<and> participant (tabs d) i (acd_commenterId data)
         then (case insert_ticket_comment i (acd_content data) (acd_commenterId data) d of
                 (Inl e, db') \<Rightarrow> (Inl e, db')
               | (Inr c, db') \<Rightarrow> (Inr (map (comment_columns c)
                   (filter (\<lambda>u. u_id u = tc_commenter_id c) (users (tabs db')))), db'))
         else (Inr [], d))) = (Inr rows, d')"
    by (auto simp: insert_comment_stmt_def with_param_Inr)
  show ?thesis
  proof (cases tid)
    case None
    with run show ?thesis by simp
  next
    case (Some i)
    show ?thesis
    proof (cases "target (tabs d) i \<and> participant (tabs d) i (acd_commenterId data)")
      case False
      with run Some show ?thesis by (simp split: if_splits)
    next
      case True
      then obtain r where
          ins: "insert_ticket_comment i (acd_content data) (acd_commenterId data) d = (Inr r, d')"
          and rows: "rows = map (comment_columns r)
             (filter (\<lambda>u. u_id u = tc_commenter_id r) (users (tabs d')))"
        using run Some by (auto split: prod.splits sum.splits)
      note i = insert_ticket_comment_Inr[OF ins]
      have "filter (\<lambda>u. u_id u = acd_commenterId data) (users (tabs d)) \<noteq> []"
        using i(8) by (auto simp: user_ids_def filter_empty_conv)
      then obtain u us where us: "filter (\<lambda>u. u_id u = acd_commenterId data) (users (tabs d)) = u # us"
        by (meson neq_Nil_conv)
      have "u \<in> set (filter (\<lambda>u. u_id u = acd_commenterId data) (users (tabs d)))"
        unfolding us by simp
      then have "u \<in> set (users (tabs d)) \<and> u_id u = acd_commenterId data" by simp
      with us i True tid Some rows have "rows = comment_columns r u # map (comment_columns r) us
          \<and> comment_added target data (tabs d) (comment_columns r u) (tabs d')"
        by (auto simp: comment_added_def)
      then show ?thesis using i(6) by (simp add: comment_columns_def)
    qed
  qed
qed

lemma insert_comment_app_ok: "stmt_app_ok (insert_comment_stmt target data)"
proof (rule stmt_app_okI)
  fix d d' :: database and rows :: "sent_comment list"
  assume "app_ok (tabs d)" and "insert_comment_stmt target data d = (Inr rows, d')"
  then show "app_ok (tabs d')" using insert_comment_stmt_Inr[of target data d rows d']
    by (cases rows) (auto simp: comment_added_def)
qed simp

lemma comment_or_404_Inr: "comment_or_404 rows = Inr c \<longleftrightarrow> (\<exists>cs. rows = c # cs)"
  by (auto simp: comment_or_404_def split: list.splits)

lemma comment_or_404_Inl: "comment_or_404 rows = Inl e \<Longrightarrow> rows = []"
  by (auto simp: comment_or_404_def split: list.splits)

text \<open>Both methods meet the contract, for their kind of ticket.\<close>

lemma comment_store_impl:
  "comment_store target
     (\<lambda>data. client_query (insert_comment_stmt target data) comment_or_404 (\<lambda>err. err))"
proof
  fix w w' :: world and data c
  assume idle: "idle w"
    and run: "client_query (insert_comment_stmt target data) comment_or_404 (\<lambda>err. err) w = (Inr c, w')"
  from client_query_cases(2)[OF idle stmt_ok_insert_comment_stmt run]
  obtain a where st: "insert_comment_stmt target data (pg w) = (Inr a, pg w')"
      and c: "comment_or_404 a = Inr c" by auto
  from c obtain cs where "a = c # cs" by (auto simp: comment_or_404_Inr)
  with insert_comment_stmt_Inr[OF st] show "comment_added target data (wtabs w) c (wtabs w')"
      and "sc_created_at c = now (pg w)" by simp_all
next
  fix w w' :: world and data e
  assume idle: "idle w"
    and run: "client_query (insert_comment_stmt target data) comment_or_404 (\<lambda>err. err) w = (Inl e, w')"
  from client_query_cases(2)[OF idle stmt_ok_insert_comment_stmt run]
  consider "wtabs w' = wtabs w" | "FailAfter \<in> set (faults w)"
    | a d e' where "insert_comment_stmt target data (pg w) = (Inr a, d)" "wtabs w' = tabs d"
        "comment_or_404 a = Inl e'" by auto
  then show "wtabs w' = wtabs w \<or> FailAfter \<in> set (faults w)"
  proof cases
    case 3
    with insert_comment_stmt_Inr[OF 3(1)] show ?thesis by (auto dest!: comment_or_404_Inl)
  qed simp_all
qed (auto intro: safe_client_query insert_comment_app_ok quiet_client_query)

interpretation debate_comments: comment_store debate_has_ticket addCommentToDebate
  unfolding addCommentToDebate_def by (rule comment_store_impl)

interpretation argument_comments: comment_store argument_has_ticket addCommentToArgument
  unfolding addCommentToArgument_def by (rule comment_store_impl)

lemma updateComment_keeps:
  "keeps keeps_safe (updateComment user data)" "keeps same_pool (updateComment user data)"
  "keeps quiet (updateComment user data)"
proof -
  have "stmt_app_ok (update_comment_stmt user data)"
  proof (rule stmt_app_okI)
    show "app_ok (tabs d')" if "app_ok (tabs d)" "update_comment_stmt user data d = (Inr n, d')" for d n d'
      using that by (auto simp: update_comment_stmt_def with_param_Inr update_stmt_def)
  qed simp
  then show "keeps keeps_safe (updateComment user data)"
    unfolding updateComment_def by (rule safe_client_query)
qed (auto simp: updateComment_def intro: quiet_client_query)

section \<open>Properties\<close>

text \<open>C16: a comment is added through either method only by the creator or the assigned moderator of
  the ticket, on a ticket of the method's kind, and the stored row is the one that is answered;
  unless the connection fails after a statement, an error leaves every comment as it was.\<close>

theorem comment_add_authorised:
  assumes "idle w" and "FailAfter \<notin> set (faults w)"
    and "(add, target) \<in> {(addCommentToDebate, debate_has_ticket),
                          (addCommentToArgument, argument_has_ticket)}"
    and "add data w = (r, w')"
  shows "case r of
      Inr c \<Rightarrow> comment_added target data (wtabs w) c (wtabs w')
    | Inl e \<Rightarrow> wtabs w' = wtabs w"
proof (cases r)
  case (Inl e)
  with assms(2-4) debate_comments.add_error[OF assms(1), of data e w']
    argument_comments.add_error[OF assms(1), of data e w'] show ?thesis by auto
next
  case (Inr c)
  with assms(2-4) debate_comments.add_result[OF assms(1), of data c w']
    argument_comments.add_result[OF assms(1), of data c w'] show ?thesis by auto
qed

theorem comment_add_authorised_witness:
  "case fst (addCommentToDebate \<lparr>acd_ticketId = JNum 3, acd_content = ''ok'', acd_commenterId = 1\<rparr>
       sample_world) of
      Inr c \<Rightarrow> comment_added debate_has_ticket
        \<lparr>acd_ticketId = JNum 3, acd_content = ''ok'', acd_commenterId = 1\<rparr> (wtabs sample_world) c
        (wtabs (snd (addCommentToDebate
          \<lparr>acd_ticketId = JNum 3, acd_content = ''ok'', acd_commenterId = 1\<rparr> sample_world)))
    | Inl e \<Rightarrow> wtabs (snd (addCommentToDebate
          \<lparr>acd_ticketId = JNum 3, acd_content = ''ok'', acd_commenterId = 1\<rparr> sample_world))
        = wtabs sample_world"
  by (rule comment_add_authorised[OF _ _ _ prod.collapse[symmetric]]) simp_all

text \<open>Without a failure, editing a comment is possible only for its author: exactly the comment
  with that identifier, if the caller wrote it, gets the new content and a new modification time, and
  the row count tells whether there was one; every other comment and table stays.\<close>

theorem updateComment_owner_only:
  assumes "txn w = NoTxn" and "faults w = []" and "int_param (ucd_commentId data) = Inr cid"
  shows "\<exists>w' n. updateComment user data w = (Inr n, w')
    \<and> wtabs w' = (wtabs w)\<lparr>ticket_comments := map (\<lambda>c.
         if Some (tc_id c) = cid \<and> tc_commenter_id c = uc_id user
         then c\<lparr>tc_content := ucd_content data, tc_modified_at := now (pg w)\<rparr> else c)
         (ticket_comments (wtabs w))\<rparr>
    \<and> (n = 0 \<longleftrightarrow> (\<forall>c \<in> set (ticket_comments (wtabs w)).
         \<not> (Some (tc_id c) = cid \<and> tc_commenter_id c = uc_id user)))"
  using assms
  by (simp add: updateComment_def client_query_run update_comment_stmt_def with_param_def
      update_stmt_def own_comment_def filter_empty_conv)

theorem updateComment_owner_only_witness:
  "\<exists>w' n. updateComment bob_cookie \<lparr>ucd_commentId = JNum 1, ucd_content = ''x''\<rparr> sample_world
      = (Inr n, w')
    \<and> wtabs w' = (wtabs sample_world)\<lparr>ticket_comments := map (\<lambda>c.
         if Some (tc_id c) = Some 1 \<and> tc_commenter_id c = uc_id bob_cookie
         then c\<lparr>tc_content := ucd_content \<lparr>ucd_commentId = JNum 1, ucd_content = ''x''\<rparr>,
                tc_modified_at := now (pg sample_world)\<rparr> else c)
         (ticket_comments (wtabs sample_world))\<rparr>
    \<and> (n = 0 \<longleftrightarrow> (\<forall>c \<in> set (ticket_comments (wtabs sample_world)).
         \<not> (Some (tc_id c) = Some 1 \<and> tc_commenter_id c = uc_id bob_cookie)))"
  by (rule updateComment_owner_only) (simp_all add: int4_def)

text \<open>The answer, with its rows in the order of the query.\<close>

definition ticket_thread :: "tables \<Rightarrow> int \<Rightarrow> comment_row list" where
  "ticket_thread ts i =
     filter (\<lambda>c. tc_ticket_id c = i) (sort_key tc_created_at (ticket_comments ts))"

lemma getTicketComments_run:
  assumes "txn w = NoTxn" and "faults w = []" and "schema_ok (pg w)" and "int4 i"
  shows "getTicketComments i user w =
    (Inr (if participant (wtabs w) i (uc_id user)
          then map (\<lambda>c. comment_columns c (the (user_of (wtabs w) (tc_commenter_id c))))
                 (ticket_thread (wtabs w) i)
          else []), w\<lparr>lost := False\<rparr>)"
proof -
  let ?ts = "wtabs w"
  have ok: "tables_ok ?ts" using assms(3) by (rule schema_tables_ok)
  have nn: "not_null (int_param (JNum i)) = Inr i" using assms(4) by simp
  let ?P = "\<lambda>c. tc_ticket_id c = i \<and> participant ?ts i (uc_id user)"
  let ?rows = "\<lambda>c. [comment_columns c u.
         t \<leftarrow> filter (\<lambda>t. t_id t = tc_ticket_id c) (tickets ?ts),
         u \<leftarrow> filter (\<lambda>u. u_id u = tc_commenter_id c) (users ?ts),
         t_id t = i \<and> (t_created_by t = uc_id user \<or> t_assigned_to t = Some (uc_id user))]"
  have rows: "?rows c = (if ?P c then [comment_columns c (the (user_of ?ts (tc_commenter_id c)))] else [])"
    if "c \<in> set (ticket_comments ?ts)" for c
  proof -
    have "tc_ticket_id c \<in> set (ticket_ids ?ts)" "tc_commenter_id c \<in> set (user_ids ?ts)"
      using that ok by (simp_all add: tables_ok_def refs_ok_def list_all_iff)
    then obtain t u where t: "ticket_of ?ts (tc_ticket_id c) = Some t"
        and u: "user_of ?ts (tc_commenter_id c) = Some u"
      by (cases "ticket_of ?ts (tc_ticket_id c)"; cases "user_of ?ts (tc_commenter_id c)")
         (auto simp: ticket_of_def user_of_def find_key_None ticket_ids_def user_ids_def)
    have "participant ?ts (tc_ticket_id c) (uc_id user)
        \<longleftrightarrow> t_created_by t = uc_id user \<or> t_assigned_to t = Some (uc_id user)"
      using t ok unfolding participant_def list_ex_iff
      by (metis option.inject tables_ok_lookup(1))
    moreover have "t_id t = tc_ticket_id c" using t tables_ok_lookup(1)[OF ok] by blast
    ultimately show ?thesis using t u by (auto simp: tables_ok_filters[OF ok])
  qed
  let ?sorted = "sort_key tc_created_at (ticket_comments ?ts)"
  have cs: "concat (map ?rows ?sorted) =
      map (\<lambda>c. comment_columns c (the (user_of ?ts (tc_commenter_id c)))) (filter ?P ?sorted)"
    by (rule concat_map_filter_cong) (simp add: rows)
  have "getTicketComments i user w = (Inr (concat (map ?rows ?sorted)), w\<lparr>lost := False\<rparr>)"
    unfolding getTicketComments_def client_query_run[OF assms(1,2)] select_comments_def
      with_param_def nn by (simp add: select_stmt_def)
  then show ?thesis
    unfolding cs by (simp add: ticket_thread_def)
qed

text \<open>C27: the comments of a ticket are answered in the order they were written, all of them and no
  others, to the creator and the assigned moderator of the ticket; anyone else gets none.\<close>

theorem getTicketComments_participants:
  assumes "txn w = NoTxn" and "faults w = []" and "schema_ok (pg w)" and "int4 i"
  shows "\<exists>w' cs. getTicketComments i user w = (Inr cs, w')
    \<and> sorted (map sc_created_at cs)
    \<and> mset (map sc_comment_id cs) =
        (if participant (wtabs w) i (uc_id user)
         then mset (map tc_id (filter (\<lambda>c. tc_ticket_id c = i) (ticket_comments (wtabs w))))
         else {#})"
proof -
  have "sorted (map tc_created_at (ticket_thread (wtabs w) i))"
    unfolding ticket_thread_def by (rule sorted_filter) simp
  moreover have "mset (map tc_id (ticket_thread (wtabs w) i))
      = mset (map tc_id (filter (\<lambda>c. tc_ticket_id c = i) (ticket_comments (wtabs w))))"
    by (simp add: ticket_thread_def mset_filter)
  ultimately show ?thesis
    by (simp add: getTicketComments_run[OF assms] comment_columns_def comp_def del: mset_map)
qed

theorem getTicketComments_participants_witness:
  "\<exists>w' cs. getTicketComments 3 alice_cookie sample_world = (Inr cs, w')
    \<and> sorted (map sc_created_at cs)
    \<and> mset (map sc_comment_id cs) =
        (if participant (wtabs sample_world) 3 (uc_id alice_cookie)
         then mset (map tc_id (filter (\<lambda>c. tc_ticket_id c = 3) (ticket_comments (wtabs sample_world))))
         else {#})"
  by (rule getTicketComments_participants) (simp_all add: int4_def)

end
