(* ===== verification/Notifications.thy ===== *)
theory Notifications
  imports Moderator_Correct "HOL-Library.Multiset"
begin

text \<open>
  Notifications from end to end: the service and the handlers of the API, the filter of the event
  stream, and the worker that turns a queued job into rows and a published message. BullMQ runs a
  job again when its processor rejects, up to the number of attempts the API configures.
\<close>

section \<open>The service\<close>

definition select_notifications :: "user_cookie \<Rightarrow> notification_row list stmt" where
  "select_notifications user = select_stmt (\<lambda>ts.
     sort_key (\<lambda>n. - n_id n)
       (filter (\<lambda>n. n_recipient_id n = uc_id user) (notifications ts)))"

definition notifications_getAll :: "user_cookie \<Rightarrow> (world, notification_row list) svc" where
  "notifications_getAll user = client_query (select_notifications user) Inr (\<lambda>err. err)"

definition getUnreadCount :: "user_cookie \<Rightarrow> (world, nat) svc" where
  "getUnreadCount user =
     client_query
       (select_stmt (\<lambda>ts. length (filter
          (\<lambda>n. n_recipient_id n = uc_id user \<and> \<not> n_is_read n) (notifications ts))))
       Inr (\<lambda>err. err)"

definition mark_read_stmt :: "int list \<Rightarrow> nat stmt" where
  "mark_read_stmt notifIds =
     update_stmt
       (\<lambda>ts. ts\<lparr>notifications := map (\<lambda>n. if n_id n \<in> set notifIds
          then n\<lparr>n_is_read := True\<rparr> else n) (notifications ts)\<rparr>)
       (\<lambda>ts. length (filter (\<lambda>n. n_id n \<in> set notifIds) (notifications ts)))"

definition markNotificationsAsRead :: "int list \<Rightarrow> (world, unit) svc" where
  "markNotificationsAsRead notifIds =
     client_query (mark_read_stmt notifIds)
       (\<lambda>rowCount. if rowCount = 0 then Inl (PlainError ''No notifications updated.'') else Inr ())
       (\<lambda>err. err)"

section \<open>The handlers\<close>

text \<open>The unread ones are marked without waiting, after the answer has been computed.\<close>

definition getNotifications :: "user_cookie \<Rightarrow> (world, notification_row list) svc" where
  "getNotifications user =
     bnd (notifications_getAll user) (\<lambda>ns.
       let unreadNotifIds = map n_id (filter (\<lambda>n. \<not> n_is_read n) ns)
       in sq (if unreadNotifIds \<noteq> []
              then fire_and_forget (markNotificationsAsRead unreadNotifIds) else ret ())
            (ret ns))"

fun sse_filter :: "user_cookie \<Rightarrow> notification_message \<Rightarrow> bool" where
  "sse_filter user GenericModeratorMsg = (uc_role user = Some MODERATOR)"
| "sse_filter user (TicketParticipantMsg recipientId) = (recipientId = JNum (uc_id user))"

text \<open>
  The stream of unread counts: the count at subscription, then one for every message of the
  channel that passes the filter.
\<close>

definition notificationCount ::
  "user_cookie \<Rightarrow> notification_message list \<Rightarrow> (world, nat list) svc" where
  "notificationCount user msgs =
     bnd (getUnreadCount user) (\<lambda>count.
       ret (count # map (\<lambda>_. 1) (filter (sse_filter user) msgs)))"

section \<open>The worker\<close>

definition insert_for_moderators_stmt ::
  "string \<Rightarrow> string \<Rightarrow> notification_event \<Rightarrow> notification_row list stmt" where
  "insert_for_moderators_stmt title content event =
     (\<lambda>db. insert_rows (\<lambda>u. insert_notification title content event (JNum (u_id u)))
             (filter (\<lambda>u. u_role u = Some MODERATOR) (users (tabs db))) db)"

definition insertForAllModerators ::
  "string \<Rightarrow> string \<Rightarrow> notification_event \<Rightarrow> (world, notification_row list) svc" where
  "insertForAllModerators title content event =
     with_client (query (insert_for_moderators_stmt title content event))"

definition insertForRecipient ::
  "string \<Rightarrow> string \<Rightarrow> notification_event \<Rightarrow> jsval \<Rightarrow> (world, notification_row) svc" where
  "insertForRecipient title content event recipientId =
     with_client (query (insert_notification title content event recipientId))"

definition publish_message :: "notification_message \<Rightarrow> (world, unit) svc" where
  "publish_message msg = redis (modify (\<lambda>w. w\<lparr>published := published w @ [msg]\<rparr>))"

fun payload_message :: "job_payload \<Rightarrow> notification_message" where
  "payload_message (GenericModerator _ _ _) = GenericModeratorMsg"
| "payload_message (TicketParticipant _ _ _ r) = TicketParticipantMsg r"

fun insert_payload :: "job_payload \<Rightarrow> (world, unit) svc" where
  "insert_payload (GenericModerator t c e) = sq (insertForAllModerators t c e) (ret ())"
| "insert_payload (TicketParticipant t c e r) = sq (insertForRecipient t c e r) (ret ())"

definition handle_job :: "job_payload \<Rightarrow> (world, unit) svc" where
  "handle_job data =
     sq (insert_payload data)
       (try_catch (publish_message (payload_message data)) (\<lambda>_. ret ()))"

definition job_attempts :: nat where
  "job_attempts = 3"

fun run_attempts :: "nat \<Rightarrow> job_payload \<Rightarrow> (world, bool) svc" where
  "run_attempts 0 data = ret False"
| "run_attempts (Suc n) data =
     try_catch (sq (handle_job data) (ret True)) (\<lambda>_. run_attempts n data)"

text \<open>The worker takes the next job.\<close>

definition process_next_job :: "(world, bool) svc" where
  "process_next_job = (\<lambda>w.
     case jobs w of
       [] \<Rightarrow> (Inr False, w)
     | j # js \<Rightarrow> run_attempts job_attempts (job_payload j) (w\<lparr>jobs := js\<rparr>))"

section \<open>Statements\<close>

lemma with_client_query:
  "with_client (query st) = client_query st Inr (\<lambda>e. e)"
proof -
  have "try_catch (bnd (query st) (\<lambda>a. lift_sum (Inr a))) (\<lambda>err. raise err) w = query st w" for w
    by (auto simp: try_catch_def bnd_run split: prod.splits sum.splits)
  then show ?thesis unfolding client_query_def by (metis ext)
qed

lemma stmt_ok_for_moderators [simp]: "stmt_ok (insert_for_moderators_stmt t c e)"
proof -
  have ok: "stmt_ok (insert_rows (\<lambda>u. insert_notification t c e (JNum (u_id u))) us)" for us
    by (rule stmt_ok_insert_rows) simp
  show ?thesis unfolding stmt_ok_def insert_for_moderators_stmt_def
    using ok unfolding stmt_ok_def by blast
qed

lemma stmt_ok_mark_read [simp]: "stmt_ok (mark_read_stmt ids)"
  unfolding mark_read_stmt_def
  by (rule stmt_ok_update) (auto simp: table_defs serial_key_map)

section \<open>What a delivered job leaves\<close>

definition recipients :: "tables \<Rightarrow> job_payload \<Rightarrow> jsval list" where
  "recipients ts p =
     (case p of
        GenericModerator _ _ _ \<Rightarrow>
          map (JNum \<circ> u_id) (filter (\<lambda>u. u_role u = Some MODERATOR) (users ts))
      | TicketParticipant _ _ _ r \<Rightarrow> [r])"

fun payload_fields :: "job_payload \<Rightarrow> string \<times> string \<times> notification_event" where
  "payload_fields (GenericModerator t c e) = (t, c, e)"
| "payload_fields (TicketParticipant t c e _) = (t, c, e)"

text \<open>A batch: one unread notification per recipient, with the fields of the payload.\<close>

definition is_batch :: "tables \<Rightarrow> job_payload \<Rightarrow> notification_row list \<Rightarrow> bool" where
  "is_batch ts p rows \<longleftrightarrow>
     map int_param (recipients ts p) = map (Inr \<circ> Some \<circ> n_recipient_id) rows
     \<and> list_all (\<lambda>n. case payload_fields p of (t, c, e) \<Rightarrow>
          varchar 40 t = Inr (n_title n) \<and> n_content n = c \<and> n_event n = e \<and> \<not> n_is_read n) rows"

lemma insert_rows_notifications:
  "insert_rows (\<lambda>u. insert_notification t c e (JNum (u_id u))) us d = (Inr rows, d') \<Longrightarrow>
     tabs d' = (tabs d)\<lparr>notifications := notifications (tabs d) @ rows\<rparr>
     \<and> map int_param (map (JNum \<circ> u_id) us) = map (Inr \<circ> Some \<circ> n_recipient_id) rows
     \<and> list_all (\<lambda>n. varchar 40 t = Inr (n_title n) \<and> n_content n = c \<and> n_event n = e
          \<and> \<not> n_is_read n) rows"
proof (induction us arbitrary: d rows)
  case (Cons u us)
  from Cons.prems obtain n d1 ns where
      1: "insert_notification t c e (JNum (u_id u)) d = (Inr n, d1)"
      and 2: "insert_rows (\<lambda>u. insert_notification t c e (JNum (u_id u))) us d1 = (Inr ns, d')"
      and rows: "rows = n # ns"
    by (auto split: prod.splits sum.splits)
  from insert_notification_Inr[OF 1] Cons.IH[OF 2] rows show ?case
    by simp
qed simp

text \<open>One delivery: on success a batch was added; after an error nothing, or a batch whose
  acknowledgement was lost.\<close>

lemma insert_payload_cases:
  assumes idle: "idle w" and run: "insert_payload p w = (r, w')"
  shows "idle w' \<and> ((\<exists>rows. is_batch (wtabs w) p rows
        \<and> wtabs w' = (wtabs w)\<lparr>notifications := notifications (wtabs w) @ rows\<rparr>
        \<and> (isl r \<longrightarrow> FailAfter \<in> set (faults w)))
      \<or> isl r \<and> wtabs w' = wtabs w)"
proof -
  have gen: "idle w' \<and> ((\<exists>rows. is_batch (wtabs w) p rows
        \<and> wtabs w' = (wtabs w)\<lparr>notifications := notifications (wtabs w) @ rows\<rparr>
        \<and> (isl q \<longrightarrow> FailAfter \<in> set (faults w))) \<or> isl q \<and> wtabs w' = wtabs w)"
    if ok: "stmt_ok st" and cq: "client_query st Inr (\<lambda>e. e) w = (q, w')"
      and st: "\<And>a d. st (pg w) = (Inr a, d) \<Longrightarrow> \<exists>rows. is_batch (wtabs w) p rows
        \<and> tabs d = (wtabs w)\<lparr>notifications := notifications (wtabs w) @ rows\<rparr>"
    for st :: "'b stmt" and q
  proof -
    note c = client_query_cases[OF idle ok cq]
    show ?thesis
    proof (cases q)
      case (Inl e)
      with c(2) have "wtabs w' = wtabs w \<or> (\<exists>a d. st (pg w) = (Inr a, d) \<and> wtabs w' = tabs d
          \<and> FailAfter \<in> set (faults w))" by auto
      with st c(1) Inl show ?thesis by (metis sum.disc(1))
    next
      case (Inr a)
      with c(2) have "st (pg w) = (Inr a, pg w')" by auto
      from st[OF this] c(1) Inr show ?thesis by auto
    qed
  qed
  show ?thesis
  proof (cases p)
    case (GenericModerator t c e)
    obtain q where cq: "client_query (insert_for_moderators_stmt t c e) Inr (\<lambda>e. e) w = (q, w')"
        "isl q = isl r"
      using run by (cases "insertForAllModerators t c e w")
        (auto simp: GenericModerator sq_run insertForAllModerators_def with_client_query
          split: sum.splits)
    show ?thesis
      using gen[OF _ cq(1)] insert_rows_notifications
      by (simp add: cq(2)) (force simp: insert_for_moderators_stmt_def is_batch_def recipients_def
          GenericModerator)
  next
    case (TicketParticipant t c e rcp)
    obtain q where cq: "client_query (insert_notification t c e rcp) Inr (\<lambda>e. e) w = (q, w')"
        "isl q = isl r"
      using run by (cases "insertForRecipient t c e rcp w")
        (auto simp: TicketParticipant sq_run insertForRecipient_def with_client_query
          split: sum.splits)
    have "\<exists>rows. is_batch (wtabs w) p rows
        \<and> tabs d = (wtabs w)\<lparr>notifications := notifications (wtabs w) @ rows\<rparr>"
      if "insert_notification t c e rcp (pg w) = (Inr a, d)" for a d
      using insert_notification_Inr[OF that]
      by (intro exI[of _ "[a]"]) (simp add: is_batch_def recipients_def TicketParticipant)
    from gen[OF _ cq(1) this] show ?thesis by (simp add: cq(2))
  qed
qed

definition fewer_faults :: "world \<Rightarrow> world \<Rightarrow> bool" where
  "fewer_faults w w' \<longleftrightarrow> set (faults w') \<subseteq> set (faults w)"

interpretation fault_order: backend_order fewer_faults
  by unfold_locales (auto simp: fewer_faults_def)

lemma quiet_fewer_faults: "keeps quiet m \<Longrightarrow> keeps fewer_faults m"
  by (erule keeps_mono) (simp add: quiet_def fewer_faults_def)

lemma insert_payload_quiet: "keeps quiet (insert_payload p)"
  by (cases p) (auto simp: insertForAllModerators_def insertForRecipient_def with_client_query
      intro!: quiet.keeps_sq quiet.keeps_ret quiet_client_query)

lemma publish_pg:
  "pg (snd (publish_message m w)) = pg w \<and> txn (snd (publish_message m w)) = txn w"
  unfolding publish_message_def by (rule redis_pg) simp

lemma handle_job_faults: "keeps fewer_faults (handle_job p)"
  unfolding handle_job_def publish_message_def
  by (intro fault_order.backend_intros fault_order.keeps_redis quiet_fewer_faults
      insert_payload_quiet) (simp add: fewer_faults_def)

lemma handle_job_cases:
  assumes idle: "idle w" and run: "handle_job p w = (r, w')"
  shows "idle w' \<and> ((\<exists>rows. is_batch (wtabs w) p rows
        \<and> wtabs w' = (wtabs w)\<lparr>notifications := notifications (wtabs w) @ rows\<rparr>
        \<and> (isl r \<longrightarrow> FailAfter \<in> set (faults w)))
      \<or> isl r \<and> wtabs w' = wtabs w)"
proof -
  obtain q w1 where 1: "insert_payload p w = (q, w1)" by (cases "insert_payload p w")
  obtain q2 w2 where 2: "publish_message (payload_message p) w1 = (q2, w2)"
    by (cases "publish_message (payload_message p) w1")
  have w2: "pg w2 = pg w1" "txn w2 = txn w1" using publish_pg[of "payload_message p" w1] 2 by simp_all
  show ?thesis
    using insert_payload_cases[OF idle 1] run 1 2 w2
    by (cases q; cases q2) (auto simp: handle_job_def sq_run try_catch_def idle_def)
qed

lemma is_batch_notifications [simp]:
  "is_batch (ts\<lparr>notifications := ns\<rparr>) p = is_batch ts p"
  by (cases p) (simp_all add: fun_eq_iff is_batch_def recipients_def)

lemma mark_read_app_ok: "stmt_app_ok (mark_read_stmt ids)"
proof (rule stmt_app_okI)
  show "app_ok (tabs d')" if "app_ok (tabs d)" "mark_read_stmt ids d = (Inr n, d')" for d n d'
    using that by (auto simp: mark_read_stmt_def update_stmt_def)
qed simp

lemma notification_handlers_safe:
  "keeps keeps_safe (getNotifications user)" "keeps keeps_safe (notificationCount user msgs)"
proof -
  have reads: "keeps keeps_safe (notifications_getAll user)" "keeps keeps_safe (getUnreadCount user)"
    unfolding notifications_getAll_def getUnreadCount_def select_notifications_def
    by (intro safe_client_query read_only_app_ok read_only_select)+
  have mark: "keeps keeps_safe (fire_and_forget (markNotificationsAsRead ids))" for ids
    unfolding fire_and_forget_def markNotificationsAsRead_def
    by (intro safety.keeps_intros safe_client_query mark_read_app_ok)
  show "keeps keeps_safe (getNotifications user)"
    unfolding getNotifications_def Let_def by (intro safety.keeps_intros reads mark)
  show "keeps keeps_safe (notificationCount user msgs)"
    unfolding notificationCount_def by (intro safety.keeps_intros reads)
qed

definition mark_ids :: "int list \<Rightarrow> notification_row \<Rightarrow> notification_row" where
  "mark_ids ids n = (if n_id n \<in> set ids then n\<lparr>n_is_read := True\<rparr> else n)"

lemma mark_ids_fixed [simp]:
  "n_id (mark_ids ids n) = n_id n" "n_recipient_id (mark_ids ids n) = n_recipient_id n"
  by (simp_all add: mark_ids_def)

definition unread_ids :: "int \<Rightarrow> notification_row list \<Rightarrow> int set" where
  "unread_ids i ns = n_id ` {n \<in> set ns. n_recipient_id n = i \<and> \<not> n_is_read n}"

lemma marked_read:
  assumes "set ids = unread_ids i ns" and "n \<in> set ns" and "n_recipient_id n = i"
  shows "n_is_read (mark_ids ids n)"
  using assms by (cases "n_is_read n") (auto simp: mark_ids_def unread_ids_def)

lemma mark_others:
  assumes ids: "set ids = unread_ids i ns" and key: "distinct (map n_id ns)"
  shows "filter (\<lambda>n. n_recipient_id n \<noteq> i) (map (mark_ids ids) ns)
    = filter (\<lambda>n. n_recipient_id n \<noteq> i) ns"
proof (rule filter_map_other)
  fix n assume n: "n \<in> set ns" "n_recipient_id n \<noteq> i"
  have "n_id n \<notin> set ids"
  proof
    assume "n_id n \<in> set ids"
    then obtain m where "m \<in> set ns" "n_recipient_id m = i" "n_id m = n_id n"
      unfolding ids unread_ids_def by force
    with n distinct_key_eq[OF key n(1), of m] show False by simp
  qed
  then show "mark_ids ids n = n" by (simp add: mark_ids_def)
qed simp

lemma mark_run:
  assumes "txn v = NoTxn" and "faults v = []"
  shows "notifications (wtabs (snd (markNotificationsAsRead ids v))) =
    map (mark_ids ids) (notifications (wtabs v))"
  by (simp add: mark_ids_def [abs_def] markNotificationsAsRead_def client_query_run[OF assms] mark_read_stmt_def
      update_stmt_def)

lemma stream_filter_recipients:
  assumes "distinct (user_ids ts)" and "u \<in> set (users ts)"
    and "user = \<lparr>uc_id = u_id u, uc_role = u_role u, uc_username = u_username u\<rparr>"
  shows "sse_filter user (payload_message p) \<longleftrightarrow> JNum (uc_id user) \<in> set (recipients ts p)"
proof -
  have same: "v = u" if "v \<in> set (users ts)" "u_id v = u_id u" for v
    using distinct_key_eq[OF assms(1)[unfolded user_ids_def] that(1) assms(2) that(2)] .
  show ?thesis
  proof (cases p)
    case (GenericModerator t c e)
    have "u_role u = Some MODERATOR \<longleftrightarrow>
        (\<exists>v \<in> set (users ts). u_role v = Some MODERATOR \<and> u_id v = u_id u)"
      using same assms(2) by blast
    moreover have "JNum (u_id u) \<in> set (recipients ts p) \<longleftrightarrow>
        (\<exists>v \<in> set (users ts). u_role v = Some MODERATOR \<and> u_id v = u_id u)"
      by (simp add: recipients_def GenericModerator image_iff Bex_def) metis
    ultimately show ?thesis unfolding assms(3) by (simp add: GenericModerator)
  next
    case (TicketParticipant t c e r)
    then show ?thesis unfolding assms(3) by (auto simp: recipients_def)
  qed
qed

text \<open>A run of the handler: the answer, and the caller's unread ones marked.\<close>

definition answered_notifications :: "user_cookie \<Rightarrow> world \<Rightarrow> notification_row list" where
  "answered_notifications user w = sort_key (\<lambda>n. - n_id n)
    (filter (\<lambda>n. n_recipient_id n = uc_id user) (notifications (wtabs w)))"

lemma getNotifications_run:
  assumes "txn w = NoTxn" and "faults w = []"
  shows "\<exists>w' ids. getNotifications user w = (Inr (answered_notifications user w), w')
    \<and> set ids = unread_ids (uc_id user) (notifications (wtabs w))
    \<and> notifications (wtabs w') = map (mark_ids ids) (notifications (wtabs w))"
proof -
  define ns where "ns = answered_notifications user w"
  define ids where "ids = map n_id (filter (\<lambda>n. \<not> n_is_read n) ns)"
  define w1 where "w1 = w\<lparr>pg := pg w, lost := False\<rparr>"
  have all: "notifications_getAll user w = (Inr ns, w1)"
    unfolding notifications_getAll_def client_query_run[OF assms] ns_def w1_def
    by (simp add: answered_notifications_def select_notifications_def select_stmt_def)
  have w1: "txn w1 = NoTxn" "faults w1 = []" "wtabs w1 = wtabs w" using assms by (simp_all add: w1_def)
  have ids: "set ids = unread_ids (uc_id user) (notifications (wtabs w))"
    by (auto simp: ids_def ns_def answered_notifications_def unread_ids_def)
  have "\<exists>w'. getNotifications user w = (Inr ns, w')
      \<and> notifications (wtabs w') = map (mark_ids ids) (notifications (wtabs w))"
  proof (cases "ids = []")
    case True
    then have "map (mark_ids ids) (notifications (wtabs w)) = notifications (wtabs w)"
      by (intro map_idI) (simp add: mark_ids_def)
    moreover have "getNotifications user w = (Inr ns, w1)"
      unfolding getNotifications_def bnd_Inr[where m = "notifications_getAll user", OF all]
        Let_def ids_def[symmetric] using True by (simp add: sq_run)
    ultimately show ?thesis using w1 by simp
  next
    case False
    then have "getNotifications user w = (Inr ns, snd (markNotificationsAsRead ids w1))"
      unfolding getNotifications_def bnd_Inr[where m = "notifications_getAll user", OF all]
        Let_def ids_def[symmetric] by (simp add: sq_run fire_and_forget_run)
    with mark_run[OF w1(1,2), of ids] w1(3) show ?thesis by simp
  qed
  with ids show ?thesis unfolding ns_def by blast
qed

section \<open>Properties\<close>

text \<open>C18: whatever fails, the attempts of a job add only whole batches, one unread notification per
  moderator (or for the recipient) with the fields of the payload, at most one batch per attempt; a
  completed job has added at least one, and without a lost acknowledgement at most one. A job that
  is given up never breaks the database, and the processing always ends.\<close>

theorem job_delivery:
  assumes "idle w" and "run_attempts n p w = (r, w')"
  shows "\<exists>bs. length bs \<le> n \<and> list_all (is_batch (wtabs w) p) bs
    \<and> wtabs w' = (wtabs w)\<lparr>notifications := notifications (wtabs w) @ concat bs\<rparr>
    \<and> idle w' \<and> (r = Inr False \<or> r = Inr True \<and> bs \<noteq> [])
    \<and> (FailAfter \<notin> set (faults w) \<longrightarrow> length bs \<le> 1)"
  using assms
proof (induction n arbitrary: w)
  case 0
  then show ?case by (intro exI[of _ "[]"]) simp
next
  case (Suc n)
  obtain q w1 where 1: "handle_job p w = (q, w1)" by (cases "handle_job p w")
  note c = handle_job_cases[OF Suc.prems(1) 1]
  have f: "set (faults w1) \<subseteq> set (faults w)"
    using keeps_result[OF handle_job_faults 1] by (simp add: fewer_faults_def)
  show ?case
  proof (cases q)
    case (Inr u)
    then have "r = Inr True" "w' = w1" using Suc.prems(2) 1 by (simp_all add: try_catch_def sq_run)
    with c Inr obtain rows where "is_batch (wtabs w) p rows" "idle w1"
        "wtabs w1 = (wtabs w)\<lparr>notifications := notifications (wtabs w) @ rows\<rparr>" by auto
    with \<open>r = Inr True\<close> \<open>w' = w1\<close> show ?thesis by (intro exI[of _ "[rows]"]) simp
  next
    case (Inl e)
    then have run: "run_attempts n p w1 = (r, w')"
      using Suc.prems(2) 1 by (simp add: try_catch_def sq_run)
    have idle1: "idle w1" using c by simp
    from Suc.IH[OF idle1 run] obtain bs where bs: "length bs \<le> n"
        "list_all (is_batch (wtabs w1) p) bs"
        "wtabs w' = (wtabs w1)\<lparr>notifications := notifications (wtabs w1) @ concat bs\<rparr>"
        "idle w'" "r = Inr False \<or> r = Inr True \<and> bs \<noteq> []"
        "FailAfter \<notin> set (faults w1) \<longrightarrow> length bs \<le> 1" by blast
    from c Inl consider "wtabs w1 = wtabs w"
      | rows where "is_batch (wtabs w) p rows" "FailAfter \<in> set (faults w)"
          "wtabs w1 = (wtabs w)\<lparr>notifications := notifications (wtabs w) @ rows\<rparr>" by auto
    then show ?thesis
    proof cases
      case 1
      with bs f show ?thesis by (intro exI[of _ bs]) auto
    next
      case (2 rows)
      with bs show ?thesis by (intro exI[of _ "rows # bs"]) auto
    qed
  qed
qed

theorem job_delivery_witness:
  "\<exists>bs. length bs \<le> 3
    \<and> list_all (is_batch (wtabs sample_world) (GenericModerator ''t'' ''c'' EV_DEBATE)) bs
    \<and> wtabs (snd (run_attempts 3 (GenericModerator ''t'' ''c'' EV_DEBATE) sample_world))
        = (wtabs sample_world)\<lparr>notifications := notifications (wtabs sample_world) @ concat bs\<rparr>
    \<and> idle (snd (run_attempts 3 (GenericModerator ''t'' ''c'' EV_DEBATE) sample_world))
    \<and> (fst (run_attempts 3 (GenericModerator ''t'' ''c'' EV_DEBATE) sample_world) = Inr False
       \<or> fst (run_attempts 3 (GenericModerator ''t'' ''c'' EV_DEBATE) sample_world) = Inr True
         \<and> bs \<noteq> [])
    \<and> (FailAfter \<notin> set (faults sample_world) \<longrightarrow> length bs \<le> 1)"
  by (rule job_delivery[OF sample_idle prod.collapse[symmetric]])



text \<open>Without a failure, reading the notifications answers all of the caller's, newest first and
  with the read flags they had; afterwards every one of them is read, so the unread count is zero,
  and nobody else's notification has changed.\<close>

theorem getNotifications_marks_read:
  assumes "txn w = NoTxn" and "faults w = []"
  shows "\<exists>w' ns. getNotifications user w = (Inr ns, w')
    \<and> mset ns = mset (filter (\<lambda>n. n_recipient_id n = uc_id user) (notifications (wtabs w)))
    \<and> sorted (map (\<lambda>n. - n_id n) ns)
    \<and> (\<forall>n \<in> set (notifications (wtabs w')). n_recipient_id n = uc_id user \<longrightarrow> n_is_read n)
    \<and> map n_id (notifications (wtabs w')) = map n_id (notifications (wtabs w))
    \<and> (distinct (map n_id (notifications (wtabs w))) \<longrightarrow>
        filter (\<lambda>n. n_recipient_id n \<noteq> uc_id user) (notifications (wtabs w'))
        = filter (\<lambda>n. n_recipient_id n \<noteq> uc_id user) (notifications (wtabs w)))"
proof -
  obtain w' ids where w': "getNotifications user w = (Inr (answered_notifications user w), w')"
      "notifications (wtabs w') = map (mark_ids ids) (notifications (wtabs w))"
    and ids: "set ids = unread_ids (uc_id user) (notifications (wtabs w))"
    using getNotifications_run[OF assms] by blast
  have "\<forall>n \<in> set (notifications (wtabs w')). n_recipient_id n = uc_id user \<longrightarrow> n_is_read n"
    unfolding w'(2) using marked_read[OF ids] by auto
  moreover have "map n_id (notifications (wtabs w')) = map n_id (notifications (wtabs w))"
    unfolding w'(2) by (simp add: comp_def)
  ultimately show ?thesis
    using w' mark_others[OF ids] by (intro exI[of _ w'] exI[of _ "answered_notifications user w"])
       (simp add: answered_notifications_def)
qed

theorem getNotifications_marks_read_witness:
  "\<exists>w' ns. getNotifications bob_cookie sample_world = (Inr ns, w')
    \<and> mset ns = mset (filter (\<lambda>n. n_recipient_id n = uc_id bob_cookie)
        (notifications (wtabs sample_world)))
    \<and> sorted (map (\<lambda>n. - n_id n) ns)
    \<and> (\<forall>n \<in> set (notifications (wtabs w')). n_recipient_id n = uc_id bob_cookie \<longrightarrow> n_is_read n)
    \<and> map n_id (notifications (wtabs w')) = map n_id (notifications (wtabs sample_world))
    \<and> (distinct (map n_id (notifications (wtabs sample_world))) \<longrightarrow>
        filter (\<lambda>n. n_recipient_id n \<noteq> uc_id bob_cookie) (notifications (wtabs w'))
        = filter (\<lambda>n. n_recipient_id n \<noteq> uc_id bob_cookie) (notifications (wtabs sample_world)))"
  by (rule getNotifications_marks_read) simp_all

end
