(* ===== verification/Controllers.thy ===== *)
theory Controllers
  imports User_Service Comments Notifications
begin

text \<open>
  The HTTP side of the API: the guards with the metadata of every route, the pipes on path
  parameters, and the handlers of the debates, moderator, review, user and comment controllers.
  A handler is given the user of the session; its result is the data of the answer, and an error
  becomes the status that \<open>error_status\<close> gives.
\<close>

section \<open>Guards\<close>

record route =
  rt_method :: string
  rt_path :: string
  rt_skip_auth_class :: bool
  rt_skip_auth_handler :: bool
  rt_roles_guard :: bool
  rt_class_roles :: "user_role list option"
  rt_handler_roles :: "user_role list option"

definition authenticate_guard :: "route \<Rightarrow> user_cookie option \<Rightarrow> js_error + bool" where
  "authenticate_guard rt session =
     (let shouldSkipAuth = rt_skip_auth_class rt \<or> rt_skip_auth_handler rt
      in if shouldSkipAuth then Inr True
         else case session of None \<Rightarrow> Inl UnauthorizedException | Some _ \<Rightarrow> Inr True)"

text \<open>The roles of the class take precedence; without a session user reading the role throws.\<close>

definition roles_guard :: "route \<Rightarrow> user_cookie option \<Rightarrow> js_error + bool" where
  "roles_guard rt session =
     (case (case rt_class_roles rt of Some rs \<Rightarrow> Some rs | None \<Rightarrow> rt_handler_roles rt) of
        None \<Rightarrow> Inr True
      | Some acceptedRoles \<Rightarrow>
          (case session of
             None \<Rightarrow> Inl TypeError
           | Some user \<Rightarrow> Inr (uc_role user \<in> Some ` set acceptedRoles)))"

text \<open>Nest runs the global guards, then those of the route; a false answer is a 403 error.\<close>

definition ForbiddenException :: js_error where
  "ForbiddenException = HttpException 403 ''Forbidden resource''"

definition run_guard :: "js_error + bool \<Rightarrow> (world, unit) svc" where
  "run_guard g = (case g of Inl e \<Rightarrow> raise e | Inr b \<Rightarrow> guard_js b ForbiddenException)"

definition guarded :: "route \<Rightarrow> user_cookie option \<Rightarrow> (world, 'a) svc \<Rightarrow> (world, 'a) svc" where
  "guarded rt session handler =
     sq (run_guard (authenticate_guard rt session))
       (sq (if rt_roles_guard rt then run_guard (roles_guard rt session) else ret ())
         handler)"

text \<open>The throttler skips safe methods and counts the others by user, or by address.\<close>

definition SAFE_METHODS :: "string list" where
  "SAFE_METHODS = [''GET'', ''HEAD'', ''OPTIONS'']"

definition throttler_should_skip :: "bool \<Rightarrow> string \<Rightarrow> bool" where
  "throttler_should_skip isHttp method = (if \<not> isHttp then True else method \<in> set SAFE_METHODS)"

definition throttler_tracker :: "user_cookie option \<Rightarrow> string \<Rightarrow> string" where
  "throttler_tracker session ip =
     (case session of
        Some u \<Rightarrow> ''user:'' @ int_to_string (uc_id u)
      | None \<Rightarrow> ''ip:'' @ ip)"

section \<open>The routes\<close>

definition open_route :: "string \<Rightarrow> string \<Rightarrow> route" where
  "open_route m p =
     \<lparr>rt_method = m, rt_path = p, rt_skip_auth_class = False, rt_skip_auth_handler = True,
      rt_roles_guard = False, rt_class_roles = None, rt_handler_roles = None\<rparr>"

definition session_route :: "string \<Rightarrow> string \<Rightarrow> route" where
  "session_route m p = (open_route m p)\<lparr>rt_skip_auth_handler := False\<rparr>"

definition debates_routes :: "route list" where
  "debates_routes =
     [open_route ''GET'' ''/debates/'',
      session_route ''POST'' ''/debates/'',
      open_route ''GET'' ''/debates/:id'',
      open_route ''GET'' ''/debates/:debateId/argument/:argumentId'',
      session_route ''POST'' ''/debates/:debateId/argument'',
      session_route ''POST'' ''/debates/:debateId/draft'',
      session_route ''GET'' ''/debates/:debateId/draft/:draftId'',
      session_route ''PATCH'' ''/debates/:debateId/draft/:draftId'',
      session_route ''POST'' ''/debates/:debateId/draft/:draftId/save'']"

definition moderator_route :: "string \<Rightarrow> string \<Rightarrow> route" where
  "moderator_route m p =
     (session_route m p)\<lparr>rt_roles_guard := True, rt_class_roles := Some [MODERATOR]\<rparr>"

definition moderator_routes :: "route list" where
  "moderator_routes =
     [moderator_route ''GET'' ''/moderator/activity'',
      moderator_route ''PATCH'' ''/moderator/activity/ticket/:id'',
      moderator_route ''GET'' ''/moderator/debates/:debateId/argument/:argumentId'',
      moderator_route ''GET'' ''/moderator/debate/:ticketId'',
      moderator_route ''PATCH'' ''/moderator/approve/debate/:ticketId'',
      moderator_route ''PATCH'' ''/moderator/approve/argument/:ticketId'']"

definition review_route :: "user_role \<Rightarrow> string \<Rightarrow> route" where
  "review_route r p =
     (session_route ''GET'' p)\<lparr>rt_roles_guard := True, rt_handler_roles := Some [r]\<rparr>"

definition review_routes :: "route list" where
  "review_routes =
     [review_route MODERATOR ''/review/moderator/argument/:ticketId'',
      review_route MODERATOR ''/review/moderator/debate/:ticketId'',
      review_route USER ''/review/user/debate/:ticketId'',
      review_route USER ''/review/user/argument/:ticketId'']"

definition auth_routes :: "route list" where
  "auth_routes =
     [(open_route ''POST'' ''/auth/register'')\<lparr>rt_skip_auth_class := True,
        rt_skip_auth_handler := False\<rparr>,
      (open_route ''POST'' ''/auth/login'')\<lparr>rt_skip_auth_class := True,
        rt_skip_auth_handler := False\<rparr>]"

definition other_routes :: "route list" where
  "other_routes =
     [session_route ''GET'' ''/user/activity'',
      session_route ''GET'' ''/comment/:ticketId'',
      session_route ''GET'' ''/notification'',
      session_route ''GET'' ''/notification/count'',
      (open_route ''GET'' ''/health'')\<lparr>rt_skip_auth_class := True, rt_skip_auth_handler := False\<rparr>,
      (open_route ''GET'' ''/ready'')\<lparr>rt_skip_auth_class := True, rt_skip_auth_handler := False\<rparr>]"

definition api_routes :: "route list" where
  "api_routes = debates_routes @ moderator_routes @ review_routes @ auth_routes @ other_routes"

section \<open>Pipes\<close>

definition parse_int_param :: "string \<Rightarrow> (int \<Rightarrow> (world, 'a) svc) \<Rightarrow> (world, 'a) svc" where
  "parse_int_param s k = bnd (lift_sum (parse_int_pipe s)) k"

definition debate_draft_pipe :: "string \<Rightarrow> string \<Rightarrow> js_error + unit" where
  "debate_draft_pipe debateId draftId =
     (if \<not> isNumber debateId then
        Inl (HttpException 400 (CHR 0x27 # ''debateId'' @ CHR 0x27 # '' is expected to be a number.''))
      else if \<not> isNumber draftId then
        Inl (HttpException 400 (CHR 0x27 # ''draftId'' @ CHR 0x27 # '' is expected to be a number.''))
      else Inr ())"

section \<open>Debates\<close>

text \<open>
  \<open>getDebates\<close> of \<open>utils/debates.ts\<close>: a fold over the rows that throws at a row without a debate
  title and collects the rows that hold an argument.
\<close>

definition debate_view_step :: "debate_argument \<Rightarrow> debate_view \<Rightarrow> js_error + debate_view" where
  "debate_view_step crt acc =
     (case truthy (ag_debate_title crt) of
        None \<Rightarrow> Inl (EntityNotFoundError ''debate'')
      | Some t \<Rightarrow> Inr
          \<lparr>dv_metadata = Some \<lparr>md_debate_id = ag_debate_id crt, md_debate_title = t\<rparr>,
           dv_args = dv_args acc @
             (case ag_argument_id crt of
                None \<Rightarrow> []
              | Some i \<Rightarrow> if i = 0 then [] else [arg_data.truncate crt])\<rparr>)"

fun debate_view_fold :: "debate_argument list \<Rightarrow> debate_view \<Rightarrow> js_error + debate_view" where
  "debate_view_fold [] acc = Inr acc"
| "debate_view_fold (r # rs) acc =
     (case debate_view_step r acc of Inl e \<Rightarrow> Inl e | Inr acc' \<Rightarrow> debate_view_fold rs acc')"

definition getDebates :: "debate_argument list \<Rightarrow> js_error + debate_view" where
  "getDebates rows = debate_view_fold rows \<lparr>dv_metadata = None, dv_args = []\<rparr>"

definition handle_createDebate ::
  "(document \<Rightarrow> string) \<Rightarrow> user_cookie \<Rightarrow> create_debate_dto \<Rightarrow> (world, string) svc" where
  "handle_createDebate render user body =
     sq (createDebate render user body) (ret ''Debate successfully proposed.'')"

definition debate_cache_key :: "string \<Rightarrow> string" where
  "debate_cache_key debateId = ''cache:debates:'' @ debateId"

definition handle_getDebate :: "string \<Rightarrow> (world, debate_view) svc" where
  "handle_getDebate id_param =
     parse_int_param id_param (\<lambda>debateId.
       let cacheKey = debate_cache_key (int_to_string debateId)
       in bnd (try_catch (cache_get cacheKey) (\<lambda>_. ret None)) (\<lambda>cached.
            case cached of
              Some view \<Rightarrow> ret view
            | None \<Rightarrow>
                bnd (getDebateArguments debateId) (\<lambda>rows.
                bnd (lift_sum (getDebates rows)) (\<lambda>data.
                sq (fire_and_forget (cache_set cacheKey data 60))
                  (ret data)))))"

definition first_or_404 :: "string \<Rightarrow> 'a list \<Rightarrow> (world, 'a) svc" where
  "first_or_404 entity rows =
     (case rows of [] \<Rightarrow> raise (EntityNotFoundError entity) | r # _ \<Rightarrow> ret r)"

definition handle_getDebateArgument :: "string \<Rightarrow> string \<Rightarrow> (world, debate_argument) svc" where
  "handle_getDebateArgument debateId_param argumentId_param =
     parse_int_param debateId_param (\<lambda>debateId.
     parse_int_param argumentId_param (\<lambda>argumentId.
       bnd (getDebateArgument debateId argumentId) (first_or_404 ''argument'')))"

definition handle_createArgument ::
  "(document \<Rightarrow> string) \<Rightarrow> user_cookie \<Rightarrow> string \<Rightarrow> argument_dto \<Rightarrow> (world, string) svc" where
  "handle_createArgument render user debateId body =
     sq (createArgument render
           \<lparr>cg_user = user, cg_debateId = to_number debateId, cg_details = body\<rparr>)
       (ret ''The argument has been successfully created.'')"

definition handle_saveArgumentAsDraft ::
  "user_cookie \<Rightarrow> string \<Rightarrow> argument_dto \<Rightarrow> (world, string) svc" where
  "handle_saveArgumentAsDraft user debateId body =
     (if \<not> isNumber debateId
      then raise (HttpException 400
             (CHR 0x27 # ''debateId'' @ CHR 0x27 # '' is expected to be a number.''))
      else sq (saveArgumentAsDraft
                 \<lparr>cg_user = user, cg_debateId = to_number debateId, cg_details = body\<rparr>)
             (ret ''Draft successfully saved.''))"

text \<open>The second debate query takes the number; the pipe has made sure that it is one.\<close>

definition debate_arguments_of :: "jsval \<Rightarrow> (world, debate_argument list) svc" where
  "debate_arguments_of v =
     (case v of
        JNum i \<Rightarrow> getDebateArguments i
      | _ \<Rightarrow> client_query (\<lambda>d. (Inl InvalidTextRepresentation, d)) Inr
           (\<lambda>_. PlainError ''An error occurred while fetching the debate's information.''))"

definition handle_getDraft ::
  "user_cookie \<Rightarrow> string \<Rightarrow> string \<Rightarrow> string option \<Rightarrow>
   (world, debate_argument \<times> debate_view option) svc" where
  "handle_getDraft user debateId draftId includeDebate =
     bnd (lift_sum (debate_draft_pipe debateId draftId)) (\<lambda>_.
     bnd (fork_join
            (getDraft \<lparr>gd_user = user, gd_debateId = to_number debateId,
                       gd_argumentId = to_number draftId\<rparr>)
            (if includeDebate = Some ''true''
             then bnd (debate_arguments_of (to_number debateId)) (\<lambda>rows.
                    map_svc Some (lift_sum (getDebates rows)))
             else ret None))
       (\<lambda>(draft, debate).
          case draft of
            None \<Rightarrow> raise (EntityNotFoundError ''argument'')
          | Some a \<Rightarrow> ret (a, debate)))"

definition handle_updateDraft ::
  "user_cookie \<Rightarrow> string \<Rightarrow> string \<Rightarrow> argument_dto \<Rightarrow> (world, string) svc" where
  "handle_updateDraft user debateId draftId body =
     bnd (lift_sum (debate_draft_pipe debateId draftId)) (\<lambda>_.
     sq (updateDraft \<lparr>di_user = user, di_debateId = to_number debateId,
                      di_draftId = to_number draftId, di_data = body\<rparr>)
       (ret ''Draft successfully updated.''))"

definition handle_submitDraft ::
  "user_cookie \<Rightarrow> string \<Rightarrow> string \<Rightarrow> argument_dto \<Rightarrow> (world, string) svc" where
  "handle_submitDraft user debateId draftId body =
     bnd (lift_sum (debate_draft_pipe debateId draftId)) (\<lambda>_.
     sq (submitDraft \<lparr>di_user = user, di_debateId = to_number debateId,
                      di_draftId = to_number draftId, di_data = body\<rparr>)
       (ret ''The draft has been submitted successfully.''))"

end
