(* ===== verification/Board.thy ===== *)
theory Board
  imports Controllers
begin

text \<open>
  The moderator, review, user and comment controllers: the board of tickets grouped by list, the
  approvals with their notification and cache invalidation, and the review views with their tags
  paired.
\<close>

section \<open>The moderators' board\<close>

record debate_card_json =
  dcj_ticket_id :: int
  dcj_moderator_id :: "int option"
  dcj_ticket_title :: "string option"
  dcj_moderator_username :: "string option"
  dcj_ticket_label :: "string option"
  dcj_debate_id :: "int option"
  dcj_tags :: "tag_json list"

text \<open>A card of the stream; one of a list without tickets keeps its raw row.\<close>

datatype activity_card =
    DebateCardJson board_list debate_card_json
  | EmptyDebateCard debate_card
  | ArgumentCardJson argument_card

fun card_board :: "activity_card \<Rightarrow> board_list" where
  "card_board (DebateCardJson b _) = b"
| "card_board (EmptyDebateCard c) = dc_board_list c"
| "card_board (ArgumentCardJson c) = ac_board_list c"

fun card_ticket :: "activity_card \<Rightarrow> int option" where
  "card_ticket (DebateCardJson _ c) = Some (dcj_ticket_id c)"
| "card_ticket (EmptyDebateCard c) = dc_ticket_id c"
| "card_ticket (ArgumentCardJson c) = ac_ticket_id c"

definition debate_card_to_json :: "debate_card \<Rightarrow> activity_card" where
  "debate_card_to_json rawDebate =
     (case dc_ticket_id rawDebate of
        None \<Rightarrow> EmptyDebateCard rawDebate
      | Some i \<Rightarrow>
          if i = 0 then EmptyDebateCard rawDebate
          else DebateCardJson (dc_board_list rawDebate)
            \<lparr>dcj_ticket_id = i,
             dcj_moderator_id = dc_moderator_id rawDebate,
             dcj_ticket_title = dc_ticket_title rawDebate,
             dcj_moderator_username = dc_moderator_username rawDebate,
             dcj_ticket_label = dc_ticket_label rawDebate,
             dcj_debate_id = dc_debate_id rawDebate,
             dcj_tags = pair_tags (the (dc_tags rawDebate)) (the (dc_tags_ids rawDebate))\<rparr>)"

text \<open>\<open>groupBy\<close>: the groups in the order in which their keys first occur.\<close>

definition group_by :: "('a \<Rightarrow> 'k) \<Rightarrow> 'a list \<Rightarrow> ('k \<times> 'a list) list" where
  "group_by key xs =
     map (\<lambda>k. (k, filter (\<lambda>x. key x = k) xs)) (rev (remdups (rev (map key xs))))"

definition board_groups :: "activity_card list \<Rightarrow> (board_list \<times> activity_card list) list" where
  "board_groups cards =
     map (\<lambda>(b, grp). (b, filter (\<lambda>c. card_ticket c \<noteq> None) grp)) (group_by card_board cards)"

definition handle_getActivity :: "(world, (board_list \<times> activity_card list) list) svc" where
  "handle_getActivity =
     map_svc (\<lambda>(debateCards, argumentCards).
         board_groups (map debate_card_to_json debateCards @ map ArgumentCardJson argumentCards))
       (fork_join getDebateCards getArgumentCards)"

definition handle_updateTicket :: "user_cookie \<Rightarrow> string \<Rightarrow> string \<Rightarrow> (world, unit) svc" where
  "handle_updateTicket user id_param boardList =
     parse_int_param id_param (\<lambda>i.
       updateTicket \<lparr>ut_userId = uc_id user, ut_ticketId = i, ut_boardList = boardList\<rparr>)"

definition handle_getDebateArgumentAsModerator ::
  "string \<Rightarrow> string \<Rightarrow> (world, debate_argument) svc" where
  "handle_getDebateArgumentAsModerator debateId_param argumentId_param =
     parse_int_param debateId_param (\<lambda>debateId.
     parse_int_param argumentId_param (\<lambda>argumentId.
       bnd (getDebateArgumentAsModerator debateId argumentId) (first_or_404 ''argument'')))"

definition handle_getDebateByTicketId :: "string \<Rightarrow> (world, debate_by_ticket option) svc" where
  "handle_getDebateByTicketId ticketId_param =
     parse_int_param ticketId_param getDebateByTicketId"

text \<open>The notification that a participant of a ticket gets, sent without waiting.\<close>

definition notify_participant ::
  "(document \<Rightarrow> string) \<Rightarrow> notification_event_obj \<Rightarrow> notification_event \<Rightarrow> jsval \<Rightarrow>
   (world, unit) svc" where
  "notify_participant render ev kind recipientId =
     fire_and_forget (enqueueNotification
       (TicketParticipant (getTitle ev) (render (getContent ev)) kind recipientId))"

record approve_debate_dto =
  apd_debateId :: jsval
  apd_debateTitle :: string

record approve_argument_dto =
  apa_debateId :: jsval
  apa_debateTitle :: string
  apa_argumentId :: jsval
  apa_argumentTitle :: string

definition handle_approveDebate ::
  "(document \<Rightarrow> string) \<Rightarrow> user_cookie \<Rightarrow> string \<Rightarrow> approve_debate_dto \<Rightarrow> (world, string) svc" where
  "handle_approveDebate render user ticketId_param body =
     parse_int_param ticketId_param (\<lambda>ticketId.
       bnd (approveTicket user ticketId) (\<lambda>rows.
         case rows of
           [] \<Rightarrow> raise (EntityNotFoundError ''ticket'')
         | recipientId # _ \<Rightarrow>
             sq (notify_participant render
                   (DebateTicketApproved ticketId (apd_debateId body) (apd_debateTitle body)
                      recipientId (uc_id user))
                   EV_DEBATE (JNum recipientId))
               (ret ''The debate has been approved.'')))"

definition handle_approveArgument ::
  "(document \<Rightarrow> string) \<Rightarrow> user_cookie \<Rightarrow> string \<Rightarrow> approve_argument_dto \<Rightarrow> (world, string) svc" where
  "handle_approveArgument render user ticketId_param body =
     parse_int_param ticketId_param (\<lambda>ticketId.
       bnd (approveTicket user ticketId) (\<lambda>rows.
         case rows of
           [] \<Rightarrow> raise (EntityNotFoundError ''ticket'')
         | recipientId # _ \<Rightarrow>
             sq (fire_and_forget (cache_del
                   (debate_cache_key (template_number (apa_debateId body)))))
             (sq (notify_participant render
                   (ArgumentTicketApproved ticketId (apa_debateId body) (apa_debateTitle body)
                      (apa_argumentId body) (apa_argumentTitle body) recipientId (uc_id user))
                   EV_ARGUMENT (JNum recipientId))
               (ret ''The argument has been approved.''))))"

section \<open>Review views\<close>

definition some_or_404 :: "string \<Rightarrow> 'a option \<Rightarrow> (world, 'a) svc" where
  "some_or_404 entity v =
     (case v of None \<Rightarrow> raise (EntityNotFoundError entity) | Some x \<Rightarrow> ret x)"

definition handle_getArgumentAsModerator ::
  "user_cookie \<Rightarrow> string \<Rightarrow> (world, argument_as_moderator) svc" where
  "handle_getArgumentAsModerator user ticketId_param =
     parse_int_param ticketId_param (\<lambda>ticketId.
       bnd (getArgumentAsModerator user ticketId) (some_or_404 ''ticket''))"

text \<open>The answers for debates: the row and its tags, paired.\<close>

definition handle_getDebateAsModerator ::
  "user_cookie \<Rightarrow> string \<Rightarrow> (world, debate_as_moderator \<times> tag_json list) svc" where
  "handle_getDebateAsModerator user ticketId_param =
     parse_int_param ticketId_param (\<lambda>ticketId.
       bnd (getDebateAsModerator user ticketId) (\<lambda>data.
       bnd (some_or_404 ''ticket'' data) (\<lambda>rawDebate.
         ret (rawDebate, pair_tags (dm_tags rawDebate) (dm_tags_ids rawDebate)))))"

definition handle_getDebateAsUser ::
  "user_cookie \<Rightarrow> string \<Rightarrow> (world, debate_as_user \<times> tag_json list) svc" where
  "handle_getDebateAsUser user ticketId_param =
     parse_int_param ticketId_param (\<lambda>ticketId.
       bnd (getDebateAsUser user ticketId) (\<lambda>data.
       bnd (some_or_404 ''ticket'' data) (\<lambda>rawDebate.
         ret (rawDebate, pair_tags (du_tags rawDebate) (du_tags_ids rawDebate)))))"

definition handle_getArgumentAsUser ::
  "user_cookie \<Rightarrow> string \<Rightarrow> (world, argument_as_user) svc" where
  "handle_getArgumentAsUser user ticketId_param =
     parse_int_param ticketId_param (\<lambda>ticketId.
       bnd (getArgumentAsUser user ticketId) (some_or_404 ''ticket''))"

section \<open>The activity of a user and the comments of a ticket\<close>

datatype user_activity =
    ActivityArgument activity_argument
  | ActivityDebate activity_debate "tag_json list"

definition handle_getUserActivity :: "user_cookie \<Rightarrow> (world, user_activity list) svc" where
  "handle_getUserActivity user =
     map_svc (\<lambda>(args, ds).
         map ActivityArgument args
         @ map (\<lambda>d. ActivityDebate d (pair_tags (ad_tags d) (ad_tags_ids d))) ds)
       (fork_join (getActivityArguments user) (getActivityDebates user))"

definition handle_getTicketComments ::
  "user_cookie \<Rightarrow> string \<Rightarrow> (world, sent_comment list) svc" where
  "handle_getTicketComments user ticketId_param =
     parse_int_param ticketId_param (\<lambda>ticketId. getTicketComments ticketId user)"

section \<open>Grouping\<close>

lemma group_by_keys: "map fst (group_by key xs) = rev (remdups (rev (map key xs)))"
  by (simp add: group_by_def comp_def)

lemma in_group_by: "(k, g) \<in> set (group_by key xs) \<longleftrightarrow>
    k \<in> key ` set xs \<and> g = filter (\<lambda>x. key x = k) xs"
  by (auto simp: group_by_def)

text \<open>The first occurrences of a list that lists the blocks of a distinct list in order.\<close>

lemma remdups_rev_append_replicate:
  "set ys \<subseteq> set xs \<Longrightarrow> rev (remdups (rev (xs @ ys))) = rev (remdups (rev xs))"
  by (induction ys rule: rev_induct) auto

lemma first_occurrences_append:
  "rev (remdups (rev (xs @ ys))) =
     rev (remdups (rev xs)) @ filter (\<lambda>y. y \<notin> set xs) (rev (remdups (rev ys)))"
proof (induction ys rule: rev_induct)
  case (snoc y ys)
  then show ?case by (auto simp: rev_filter)
qed simp

lemma first_occurrences_const: "set ys = {k} \<Longrightarrow> rev (remdups (rev ys)) = [k]"
proof (induction ys rule: rev_induct)
  case (snoc y ys)
  show ?case
  proof (cases "ys = []")
    case False
    with snoc.prems have "set ys = {k}" by (cases ys) auto
    with snoc show ?thesis by simp
  qed (use snoc.prems in simp)
qed simp

lemma first_occurrences_blocks:
  assumes "distinct ks" and "\<And>k. k \<in> set ks \<Longrightarrow> set (f k) = {k}"
  shows "rev (remdups (rev (concat (map f ks)))) = ks"
  using assms
proof (induction ks)
  case (Cons k ks)
  have ih: "rev (remdups (rev (concat (map f ks)))) = ks" by (rule Cons.IH) (use Cons.prems in auto)
  have k: "set (f k) = {k}" using Cons.prems(2) by simp
  then have "filter (\<lambda>y. y \<notin> set (f k)) ks = ks" using Cons.prems(1) by (auto simp: filter_id_conv)
  with ih first_occurrences_const[OF k] show ?case
    by (simp add: first_occurrences_append del: rev_append)
qed simp

end
