(* ===== verification/Proposals.thy ===== *)
theory Proposals
  imports Moderator_Correct
begin

text \<open>
  The properties of proposing debates and arguments and of drafts: the transactions are all or
  nothing under every failure, complete without one, and a proposal is the caller's, pending and
  on a ticket of its own.
\<close>

section \<open>All or nothing\<close>

lemma proposals_same_pool:
  "keeps same_pool (createDebate render user dto)"
  "keeps same_pool (createArgument render data)"
  "keeps same_pool (submitDraft info)"
  unfolding createDebate_def createArgument_def submitDraft_def createDebate_body_def
    createArgument_body_def submitDraft_body_def
  by (intro pool_intros notify_moderators_keeps)+

lemmas proposal_pool = proposals_same_pool[THEN keeps_result, unfolded same_pool_def]

text \<open>C3: proposing a debate is all or nothing, whatever fails: on success the new tags, the
  pending ticket of the proposer, the debate and its tag associations are all stored; on an error
  nothing is, unless only the acknowledgement of the commit was lost. No transaction stays open and
  the client is back in the pool.\<close>

theorem createDebate_atomic:
  assumes "idle w" and "createDebate render user dto w = (r, w')"
  shows "idle w' \<and> checked_out w' = checked_out w \<and>
    (case r of
       Inr _ \<Rightarrow> (\<exists>i. debate_created user dto (wtabs w) i (wtabs w'))
     | Inl _ \<Rightarrow> wtabs w' = wtabs w
         \<or> FailAfter \<in> set (faults w) \<and> (\<exists>i. debate_created user dto (wtabs w) i (wtabs w')))"
  using createDebate.transaction_atomic[OF assms(1) notify_moderators_returns
      assms(2)[unfolded createDebate_def]] proposal_pool(1)[OF assms(2)]
  by simp

definition sample_debate :: create_debate_dto where
  "sample_debate = \<lparr>cd_title = ''Draughts'', cd_tagsIds = [JNum 1], cd_createdTags = Some [''board'']\<rparr>"

theorem createDebate_atomic_witness:
  "\<exists>r w'. createDebate (\<lambda>_. ''doc'') alice_cookie sample_debate sample_world = (r, w')
    \<and> idle w' \<and> checked_out w' = checked_out sample_world \<and>
    (case r of
       Inr _ \<Rightarrow> (\<exists>i. debate_created alice_cookie sample_debate (wtabs sample_world) i (wtabs w'))
     | Inl _ \<Rightarrow> wtabs w' = wtabs sample_world
         \<or> FailAfter \<in> set (faults sample_world)
           \<and> (\<exists>i. debate_created alice_cookie sample_debate (wtabs sample_world) i (wtabs w')))"
proof -
  obtain r w' where
    run: "createDebate (\<lambda>_. ''doc'') alice_cookie sample_debate sample_world = (r, w')"
    by (cases "createDebate (\<lambda>_. ''doc'') alice_cookie sample_debate sample_world")
  from createDebate_atomic[OF sample_idle run] run show ?thesis by blast
qed

section \<open>Completion\<close>

lemma not_null_JNum: "int4 i \<Longrightarrow> not_null (int_param (JNum i)) = Inr i"
  by simp

lemma create_pending_ticket_run:
  assumes "uc_id user \<in> set (user_ids (tabs d))" and "int4 (uc_id user)"
    and "ticket_seq (sqs d) < 2147483647" and "schema_ok d"
  shows "\<exists>t d'. create_pending_ticket user d = (Inr t, d')
    \<and> argument_seq (sqs d') = argument_seq (sqs d)
    \<and> tabs d' = (tabs d)\<lparr>tickets := tickets (tabs d) @ [t]\<rparr>"
proof -
  have "ticket_seq (sqs d) + 1 \<notin> set (ticket_ids (tabs d))"
    using assms(4) by (auto simp: table_defs serial_key_def)
  with assms show ?thesis
    by (simp add: create_pending_ticket_def insert_ticket_def with_param_def serial_insert_def
        nextval_def references_def Let_def not_null_JNum)
qed

lemma insert_argument_run:
  assumes "int_param (av_debate_id v) = Inr (Some did)" and "did \<in> set (debate_ids (tabs d))"
    and "length (av_title v) \<le> 80" and "int_param (av_counterargument_to v) = Inr ct"
    and "int_param (av_created_by v) = Inr (Some u)" and "u \<in> set (user_ids (tabs d))"
    and "parse_argument_type (av_type v) = Some ty"
    and "argument_seq (sqs d) < 2147483647"
    and "argument_seq (sqs d) + 1 \<notin> set (map a_id (arguments (tabs d)))"
  shows "\<exists>a d'. insert_argument v d = (Inr a, d')"
  using assms
  by (simp add: insert_argument_def with_param_def serial_insert_def nextval_def references_def
      varchar_def not_null_def enum_param_def Let_def)

lemma createArgument_body_run:
  assumes w: "faults w = []" "\<not> lost w" "txn w = OpenTxn s" and ok: "schema_ok (pg w)"
    and user: "uc_id (cg_user data) \<in> set (user_ids (wtabs w))" "int4 (uc_id (cg_user data))"
    and seqs: "ticket_seq (sqs (pg w)) < 2147483647" "argument_seq (sqs (pg w)) < 2147483647"
    and args: "int_param (cg_debateId data) = Inr (Some did)" "did \<in> set (debate_ids (wtabs w))"
      "length (ca_title (cg_details data)) \<le> 80"
      "int_param (ca_counterargumentId (cg_details data)) = Inr ct"
      "parse_argument_type (ca_argumentType (cg_details data)) = Some ty"
  shows "\<exists>i d. createArgument_body data w = (Inr i, w\<lparr>pg := d\<rparr>)"
proof -
  obtain t d1 where 1: "create_pending_ticket (cg_user data) (pg w) = (Inr t, d1)"
      "argument_seq (sqs d1) = argument_seq (sqs (pg w))"
      "tabs d1 = (wtabs w)\<lparr>tickets := tickets (wtabs w) @ [t]\<rparr>"
    using create_pending_ticket_run[OF user seqs(1) ok] by blast
  let ?v = "\<lparr>av_debate_id = cg_debateId data, av_ticket_id = Some (t_id t),
            av_title = ca_title (cg_details data), av_content = ca_content (cg_details data),
            av_counterargument_to = ca_counterargumentId (cg_details data),
            av_created_by = JNum (uc_id (cg_user data)),
            av_type = ca_argumentType (cg_details data), av_is_draft = False\<rparr>"
  have fresh: "argument_seq (sqs (pg w)) + 1 \<notin> set (map a_id (arguments (wtabs w)))"
    using ok by (auto simp: table_defs serial_key_def)
  obtain a d2 where 2: "insert_argument ?v d1 = (Inr a, d2)"
    using insert_argument_run[of ?v did d1 ct "uc_id (cg_user data)" ty] args user seqs fresh 1
    by (auto simp: debate_ids_def user_ids_def)
  have "query (create_pending_ticket (cg_user data)) w = (Inr t, w\<lparr>pg := d1\<rparr>)"
    using w 1 by (simp add: query_run)
  moreover have "query (insert_argument ?v) (w\<lparr>pg := d1\<rparr>) = (Inr a, w\<lparr>pg := d2\<rparr>)"
    using query_run[of "w\<lparr>pg := d1\<rparr>" s "insert_argument ?v"] w 2 by simp
  ultimately show ?thesis
    by (simp add: createArgument_body_def bnd_run sq_run) blast
qed

text \<open>C36: without a failure, proposing a well-formed argument to an existing debate completes: the
  argument is stored on a fresh pending ticket of the proposer, and exactly one job is enqueued,
  whose content tells the moderators about that ticket.\<close>

theorem createArgument_completes:
  assumes "txn w = NoTxn" and "faults w = []" and "schema_ok (pg w)"
    and "uc_id (cg_user data) \<in> set (user_ids (wtabs w))" "int4 (uc_id (cg_user data))"
    and "ticket_seq (sqs (pg w)) < 2147483647" "argument_seq (sqs (pg w)) < 2147483647"
    and "int_param (cg_debateId data) = Inr (Some did)" "did \<in> set (debate_ids (wtabs w))"
    and "length (ca_title (cg_details data)) \<le> 80"
    and "int_param (ca_counterargumentId (cg_details data)) = Inr ct"
    and "parse_argument_type (ca_argumentType (cg_details data)) = Some ty"
  shows "\<exists>i w'. createArgument render data w = (Inr (), w')
    \<and> argument_created data (wtabs w) i (wtabs w')
    \<and> jobs w' = jobs w @ [\<lparr>job_payload = GenericModerator ''New argument proposed!''
         (render (getContent (ArgumentTicketCreated i (ca_title (cg_details data))))) EV_ARGUMENT,
         job_request_id = request_id w\<rparr>]"
proof -
  obtain i d where body: "createArgument_body data (txn_start w) = (Inr i, (txn_start w)\<lparr>pg := d\<rparr>)"
    using createArgument_body_run[of "txn_start w" "wtabs w" data did ct ty] assms by auto
  have eff: "argument_created data (wtabs w) i (tabs d)"
    using outcome_Inr[OF argument_created_outcome[of "wtabs w" data] _ body] by (simp add: in_txn_def)
  let ?after = "\<lambda>ticketId. notify_moderators render
      (ArgumentTicketCreated ticketId (ca_title (cg_details data))) EV_ARGUMENT"
  let ?w2 = "(txn_start w)\<lparr>pg := d, txn := NoTxn\<rparr>"
  have after: "?after i ?w2 = (Inr (), snd (?after i ?w2))"
    by (simp add: notify_moderators_def fire_and_forget_run)
  have run: "createArgument render data w =
      (Inr (), (snd (?after i ?w2))\<lparr>checked_out := checked_out (snd (?after i ?w2)) - 1\<rparr>)"
    unfolding createArgument_def
    by (rule transaction_run[where body = "createArgument_body data" and a = i and s = "wtabs w"
          and ?w2.0 = "(txn_start w)\<lparr>pg := d\<rparr>"]) (use assms after body in simp_all)
  have sent: "snd (?after i ?w2) = ?w2\<lparr>jobs := jobs w @ [\<lparr>job_payload =
      GenericModerator ''New argument proposed!''
         (render (getContent (ArgumentTicketCreated i (ca_title (cg_details data))))) EV_ARGUMENT,
         job_request_id = request_id w\<rparr>]\<rparr>"
    using assms(2) by (simp add: notify_moderators_def fire_and_forget_run enqueue_run txn_start_def)
  show ?thesis
    using run eff unfolding sent by simp blast
qed

definition sample_proposal :: create_argument_data where
  "sample_proposal = \<lparr>cg_user = carol_cookie, cg_debateId = JNum 1,
     cg_details = \<lparr>ca_title = ''Because'', ca_content = ''text'', ca_argumentType = ''PRO'',
                   ca_counterargumentId = JNull\<rparr>\<rparr>"

theorem createArgument_completes_witness:
  "\<exists>i w'. createArgument (\<lambda>_. ''doc'') sample_proposal sample_world = (Inr (), w')
    \<and> argument_created sample_proposal (wtabs sample_world) i (wtabs w')
    \<and> jobs w' = jobs sample_world @ [\<lparr>job_payload = GenericModerator ''New argument proposed!''
         ((\<lambda>_. ''doc'') (getContent (ArgumentTicketCreated i (ca_title (cg_details sample_proposal)))))
         EV_ARGUMENT, job_request_id = request_id sample_world\<rparr>]"
  by (rule createArgument_completes[where did = 1 and ct = None and ty = PRO], simp, simp, simp,
      simp_all add: sample_proposal_def sample_defs user_ids_def debate_ids_def int4_def
        parse_argument_type_def)

section \<open>Drafts\<close>

lemma client_query_tabs:
  assumes "idle w" and "stmt_ok st" and "client_query st post onerr w = (r, w')"
  shows "wtabs w' = wtabs w \<or> (\<exists>a d. st (pg w) = (Inr a, d) \<and> wtabs w' = tabs d)"
  using client_query_cases(2)[OF assms] by (auto split: sum.splits)

lemma find_snoc: "find P (xs @ [x]) =
    (case find P xs of None \<Rightarrow> if P x then Some x else None | Some y \<Rightarrow> Some y)"
  by (induction xs) auto

lemma submitDraft_Inr:
  assumes "idle w" and "submitDraft info w = (Inr u, w')"
  shows "\<exists>i. draft_submitted info (wtabs w) i (wtabs w')"
  using submitDraft.transaction_atomic[OF assms(1) _ assms(2)[unfolded submitDraft_def]] by simp

text \<open>Submitting never asks whether the argument still is a draft: after a success every argument
  of the caller with these identifiers, even one that was accepted, is on the one new pending ticket
  and is no longer public, every other argument is as it was, and all the old tickets stay.\<close>

theorem submitDraft_moves_to_new_ticket:
  assumes "safe w" and "submitDraft info w = (Inr u, w')"
  shows "\<exists>t did aid. new_pending_ticket (wtabs w) (di_user info) t
    \<and> int_param (di_debateId info) = Inr did \<and> int_param (di_draftId info) = Inr aid
    \<and> tickets (wtabs w') = tickets (wtabs w) @ [t]
    \<and> map a_id (arguments (wtabs w')) = map a_id (arguments (wtabs w))
    \<and> (\<forall>a \<in> set (arguments (wtabs w')). if draft_key info did aid a
         then a_ticket_id a = Some (t_id t) \<and> \<not> a_is_draft a \<and> \<not> is_public (wtabs w') a
         else a \<in> set (arguments (wtabs w)))"
proof -
  from submitDraft_Inr[OF safeD(1)[OF assms(1)] assms(2)]
  obtain t ttl ct ty did aid where t: "new_pending_ticket (wtabs w) (di_user info) t"
    and ids: "int_param (di_debateId info) = Inr did" "int_param (di_draftId info) = Inr aid"
    and ts': "wtabs w' = (wtabs w)\<lparr>tickets := tickets (wtabs w) @ [t],
            arguments := map (\<lambda>a. if draft_key info did aid a
              then a\<lparr>a_is_draft := False, a_title := ttl, a_content := ca_content (di_data info),
                     a_counterargument_to := ct, a_type := Some ty,
                     a_ticket_id := Some (t_id t)\<rparr>
              else a) (arguments (wtabs w))\<rparr>"
    unfolding draft_submitted_def by blast
  have tof: "ticket_of (wtabs w') (t_id t) = Some t"
  proof -
    have "find (\<lambda>x. t_id x = t_id t) (tickets (wtabs w)) = None"
      using t by (simp add: find_key_None new_pending_ticket_def ticket_ids_def)
    then show ?thesis by (simp add: ts' ticket_of_def find_snoc)
  qed
  have pub: "\<not> is_public (wtabs w') a" if "a_ticket_id a = Some (t_id t)" for a
    using that tof t by (simp add: is_public_def arg_ticket_def new_pending_ticket_def)
  have "\<forall>a \<in> set (arguments (wtabs w')). if draft_key info did aid a
         then a_ticket_id a = Some (t_id t) \<and> \<not> a_is_draft a \<and> \<not> is_public (wtabs w') a
         else a \<in> set (arguments (wtabs w))"
  proof
    fix a assume "a \<in> set (arguments (wtabs w'))"
    then show "if draft_key info did aid a
         then a_ticket_id a = Some (t_id t) \<and> \<not> a_is_draft a \<and> \<not> is_public (wtabs w') a
         else a \<in> set (arguments (wtabs w))"
      using pub by (auto simp: ts' draft_key_def)
  qed
  moreover have "tickets (wtabs w') = tickets (wtabs w) @ [t]" by (simp add: ts')
  moreover have "map a_id (arguments (wtabs w')) = map a_id (arguments (wtabs w))"
    by (simp add: ts' comp_def if_distrib[of a_id] cong: if_cong)
  ultimately show ?thesis using t ids by blast
qed

definition sample_submit :: draft_info where
  "sample_submit = \<lparr>di_user = alice_cookie, di_debateId = JNum 1, di_draftId = JNum 1,
     di_data = \<lparr>ca_title = ''Again'', ca_content = ''new'', ca_argumentType = ''CON'',
               ca_counterargumentId = JNull\<rparr>\<rparr>"

lemma sample_submit_run: "fst (submitDraft sample_submit sample_world) = Inr ()"
  by code_simp

theorem submitDraft_moves_to_new_ticket_witness:
  "\<exists>w' t did aid. submitDraft sample_submit sample_world = (Inr (), w')
    \<and> list_ex (\<lambda>a. draft_key sample_submit did aid a \<and> is_public (wtabs sample_world) a)
        (arguments (wtabs sample_world))
    \<and> new_pending_ticket (wtabs sample_world) (di_user sample_submit) t
    \<and> int_param (di_debateId sample_submit) = Inr did
    \<and> int_param (di_draftId sample_submit) = Inr aid
    \<and> tickets (wtabs w') = tickets (wtabs sample_world) @ [t]
    \<and> map a_id (arguments (wtabs w')) = map a_id (arguments (wtabs sample_world))
    \<and> (\<forall>a \<in> set (arguments (wtabs w')). if draft_key sample_submit did aid a
         then a_ticket_id a = Some (t_id t) \<and> \<not> a_is_draft a \<and> \<not> is_public (wtabs w') a
         else a \<in> set (arguments (wtabs sample_world)))"
proof -
  obtain w' where run: "submitDraft sample_submit sample_world = (Inr (), w')"
    using sample_submit_run by (cases "submitDraft sample_submit sample_world") auto
  from submitDraft_moves_to_new_ticket[OF sample_safe run]
  obtain t did aid where *: "new_pending_ticket (wtabs sample_world) (di_user sample_submit) t"
    "int_param (di_debateId sample_submit) = Inr did"
    "int_param (di_draftId sample_submit) = Inr aid"
    "tickets (wtabs w') = tickets (wtabs sample_world) @ [t]"
    "map a_id (arguments (wtabs w')) = map a_id (arguments (wtabs sample_world))"
    "\<forall>a \<in> set (arguments (wtabs w')). if draft_key sample_submit did aid a
         then a_ticket_id a = Some (t_id t) \<and> \<not> a_is_draft a \<and> \<not> is_public (wtabs w') a
         else a \<in> set (arguments (wtabs sample_world))" by blast
  have "did = Some 1" "aid = Some 1"
    using *(2,3) by (simp_all add: sample_submit_def int_param_JNum_Inr)
  then have "list_ex (\<lambda>a. draft_key sample_submit did aid a \<and> is_public (wtabs sample_world) a)
        (arguments (wtabs sample_world))"
    by (simp add: sample_submit_def draft_key_def is_public_def arg_ticket_def ticket_of_def
        sample_defs)
  with run * show ?thesis by blast
qed

lemma update_draft_stmt_Inr:
  assumes "update_draft_stmt info db = (Inr n, d)"
  obtains ttl ct ty did aid where "varchar 80 (ca_title (di_data info)) = Inr ttl"
    and "int_param (di_debateId info) = Inr did" and "int_param (di_draftId info) = Inr aid"
    and "n = length (filter (\<lambda>a. draft_key info did aid a \<and> a_is_draft a) (arguments (tabs db)))"
    and "tabs d = (tabs db)\<lparr>arguments := map (\<lambda>a. if draft_key info did aid a \<and> a_is_draft a
          then a\<lparr>a_title := ttl, a_content := ca_content (di_data info),
                 a_counterargument_to := ct, a_type := Some ty\<rparr>
          else a) (arguments (tabs db))\<rparr>"
proof -
  obtain ttl ct ty did aid where st: "varchar 80 (ca_title (di_data info)) = Inr ttl"
      "int_param (di_debateId info) = Inr did" "int_param (di_draftId info) = Inr aid"
      "update_stmt
     (\<lambda>ts. ts\<lparr>arguments := map (\<lambda>a. if draft_key info did aid a \<and> a_is_draft a
        then a\<lparr>a_title := ttl, a_content := ca_content (di_data info),
               a_counterargument_to := ct, a_type := Some ty\<rparr>
        else a) (arguments ts)\<rparr>)
     (\<lambda>ts. length (filter (\<lambda>a. draft_key info did aid a \<and> a_is_draft a) (arguments ts)))
     db = (Inr n, d)"
    using assms unfolding update_draft_stmt_def draft_params_Inr by blast
  show thesis
    by (rule that[OF st(1-3)]) (use st(4) in \<open>auto simp: update_stmt_def\<close>)
qed

text \<open>C40: whatever fails, editing a draft touches at most the caller's own argument with these
  identifiers and only while it is a draft, and changes its text, type and counterargument only; a
  success means that there was one, and the call is an error when there is none.\<close>

theorem updateDraft_only_drafts:
  assumes "idle w" and "updateDraft info w = (r, w')"
  shows "\<exists>hit ttl ct ty. wtabs w' = (wtabs w)\<lparr>arguments := map (\<lambda>a. if hit a
         then a\<lparr>a_title := ttl, a_content := ca_content (di_data info),
                a_counterargument_to := ct, a_type := Some ty\<rparr>
         else a) (arguments (wtabs w))\<rparr>
    \<and> (\<forall>a. hit a \<longrightarrow> a_is_draft a \<and> a_created_by a = uc_id (di_user info)
         \<and> int_param (di_draftId info) = Inr (Some (a_id a))
         \<and> int_param (di_debateId info) = Inr (Some (a_debate_id a)))
    \<and> (r = Inr () \<longrightarrow> (\<exists>a \<in> set (arguments (wtabs w)). hit a
         \<and> varchar 80 (ca_title (di_data info)) = Inr ttl))"
    (is "\<exists>hit ttl ct ty. ?goal hit ttl ct ty")
proof -
  note cq = client_query_cases(2)[OF assms(1) stmt_ok_drafts(1) assms(2)[unfolded updateDraft_def]]
  show ?thesis
  proof (cases "\<exists>n d. update_draft_stmt info (pg w) = (Inr n, d) \<and> wtabs w' = tabs d
      \<and> (r = Inr () \<longrightarrow> n \<noteq> 0)")
    case True
    then obtain n d where nd: "update_draft_stmt info (pg w) = (Inr n, d)" "wtabs w' = tabs d"
      "r = Inr () \<longrightarrow> n \<noteq> 0" by blast
    obtain ttl ct ty did aid where ids: "int_param (di_debateId info) = Inr did"
        "int_param (di_draftId info) = Inr aid" "varchar 80 (ca_title (di_data info)) = Inr ttl"
      and n: "n = length (filter (\<lambda>a. draft_key info did aid a \<and> a_is_draft a) (arguments (wtabs w)))"
      and d: "tabs d = (wtabs w)\<lparr>arguments := map (\<lambda>a. if draft_key info did aid a \<and> a_is_draft a
          then a\<lparr>a_title := ttl, a_content := ca_content (di_data info),
                 a_counterargument_to := ct, a_type := Some ty\<rparr>
          else a) (arguments (wtabs w))\<rparr>"
      by (rule update_draft_stmt_Inr[OF nd(1)])
    have "?goal (\<lambda>a. draft_key info did aid a \<and> a_is_draft a) ttl ct ty"
    proof (intro conjI)
      show "\<forall>a. draft_key info did aid a \<and> a_is_draft a \<longrightarrow>
          a_is_draft a \<and> a_created_by a = uc_id (di_user info)
           \<and> int_param (di_draftId info) = Inr (Some (a_id a))
           \<and> int_param (di_debateId info) = Inr (Some (a_debate_id a))"
        using ids(1,2) by (simp add: draft_key_def)
      have "n \<noteq> 0 \<Longrightarrow> \<exists>a \<in> set (arguments (wtabs w)). draft_key info did aid a \<and> a_is_draft a"
        using n by (auto simp: filter_empty_conv)
      then show "r = Inr () \<longrightarrow> (\<exists>a \<in> set (arguments (wtabs w)).
          (draft_key info did aid a \<and> a_is_draft a) \<and> varchar 80 (ca_title (di_data info)) = Inr ttl)"
        using nd(3) ids(3) by blast
    qed (use d nd(2) in simp)
    then show ?thesis by (intro exI)
  next
    case False
    have "wtabs w' = wtabs w \<and> r \<noteq> Inr ()"
    proof (cases r)
      case (Inl e)
      with cq False show ?thesis by fastforce
    next
      case (Inr u)
      with cq False show ?thesis by (fastforce split: if_splits)
    qed
    then have "?goal (\<lambda>_. False) [] None PRO" by simp
    then show ?thesis by (intro exI)
  qed
qed

definition sample_edit :: draft_info where
  "sample_edit = sample_submit\<lparr>di_draftId := JNum 3\<rparr>"

theorem updateDraft_only_drafts_witness:
  "\<exists>r w'. updateDraft sample_edit sample_world = (r, w') \<and>
   (\<exists>hit ttl ct ty. wtabs w' = (wtabs sample_world)\<lparr>arguments := map (\<lambda>a. if hit a
         then a\<lparr>a_title := ttl, a_content := ca_content (di_data sample_edit),
                a_counterargument_to := ct, a_type := Some ty\<rparr>
         else a) (arguments (wtabs sample_world))\<rparr>
    \<and> (\<forall>a. hit a \<longrightarrow> a_is_draft a \<and> a_created_by a = uc_id (di_user sample_edit)
         \<and> int_param (di_draftId sample_edit) = Inr (Some (a_id a))
         \<and> int_param (di_debateId sample_edit) = Inr (Some (a_debate_id a)))
    \<and> (r = Inr () \<longrightarrow> (\<exists>a \<in> set (arguments (wtabs sample_world)). hit a
         \<and> varchar 80 (ca_title (di_data sample_edit)) = Inr ttl)))"
proof -
  obtain r w' where run: "updateDraft sample_edit sample_world = (r, w')"
    by (cases "updateDraft sample_edit sample_world")
  show ?thesis by (rule exI[of _ r], rule exI[of _ w'], rule conjI[OF run])
    (rule updateDraft_only_drafts[OF sample_idle run])
qed

section \<open>What is published does not change under an edit\<close>

lemma filter_map_fixed:
  assumes "\<And>x. x \<in> set xs \<Longrightarrow> P x \<or> P (f x) \<Longrightarrow> f x = x"
  shows "filter P (map f xs) = filter P xs"
  using assms
proof (induction xs)
  case (Cons x xs)
  have "P x \<or> P (f x) \<Longrightarrow> f x = x" by (rule Cons.prems) simp_all
  moreover have "filter P (map f xs) = filter P xs" by (rule Cons.IH) (rule Cons.prems, simp_all)
  ultimately show ?case by auto
qed simp

lemma accepted_not_open:
  assumes "tables_ok ts" and "ticket_of ts i = Some t" and "t_board_list t = Some ACCEPTED"
  shows "\<not> not_accepted_ticket ts i"
proof
  assume "not_accepted_ticket ts i"
  then obtain t' where t': "t' \<in> set (tickets ts)" "t_id t' = i" "t_board_list t' \<noteq> Some ACCEPTED"
    by (auto simp: not_accepted_ticket_def list_ex_iff)
  with tables_ok_lookup(1)[OF assms(1)] have "ticket_of ts i = Some t'" by simp
  with assms(2,3) t' show False by simp
qed

lemma is_public_arguments [simp]:
  "is_public (ts\<lparr>arguments := as\<rparr>) = is_public ts" "is_public (ts\<lparr>debates := ds\<rparr>) = is_public ts"
  by (simp_all add: fun_eq_iff is_public_def arg_ticket_def ticket_of_def split: option.splits)

lemma listed_frame [simp]:
  "listed (ts\<lparr>arguments := as\<rparr>) = listed ts" "listed (ts\<lparr>debates := ds\<rparr>) = listed ts"
  by (simp_all add: fun_eq_iff listed_def board_of_def ticket_of_def tags_of_def)

lemma public_argument:
  assumes "tables_ok ts" and "app_ok ts" and "is_public ts a" and "a \<in> set (arguments ts)"
  shows "\<not> owns_open_argument ts i u a" and "\<not> a_is_draft a"
proof -
  obtain i t where t: "a_ticket_id a = Some i" "ticket_of ts i = Some t" "t_board_list t = Some ACCEPTED"
    using assms(3) by (auto simp: is_public_def arg_ticket_def split: option.splits)
  with accepted_not_open[OF assms(1)] show "\<not> owns_open_argument ts i' u a" for i'
    by (simp add: owns_open_argument_def)
  show "\<not> a_is_draft a" using assms(2,4) t(1) by (auto simp: app_ok_def argument_ok_def list_all_iff)
qed

lemma is_public_cong: "a_ticket_id a = a_ticket_id b \<Longrightarrow> is_public ts a = is_public ts b"
  by (simp add: is_public_def arg_ticket_def)

definition same_published :: "tables \<Rightarrow> tables \<Rightarrow> bool" where
  "same_published ts ts' \<longleftrightarrow>
     filter (is_public ts') (arguments ts') = filter (is_public ts) (arguments ts)
     \<and> filter (listed ts') (debates ts') = filter (listed ts) (debates ts)"

lemma edit_statements_published:
  assumes tok: "tables_ok (tabs d)" and ok: "app_ok (tabs d)"
  shows "update_argument_stmt ua d = (Inr n, d') \<Longrightarrow>
      same_published (tabs d) (tabs d')"
    and "update_draft_stmt info d = (Inr n, d') \<Longrightarrow>
      same_published (tabs d) (tabs d')"
    and "update_debate_stmt ud d = (Inr n, d') \<Longrightarrow>
      same_published (tabs d) (tabs d')"
proof -
  assume "update_argument_stmt ua d = (Inr n, d')"
  then obtain ttl aid where "tabs d' = (tabs d)\<lparr>arguments :=
      map (\<lambda>a. if owns_open_argument (tabs d) aid (uc_id (ua_user ua)) a
              then a\<lparr>a_title := ttl, a_content := ua_content ua\<rparr> else a) (arguments (tabs d))\<rparr>"
    by (auto simp: update_argument_stmt_def with_param_Inr update_stmt_def)
  moreover have "filter (is_public (tabs d))
      (map (\<lambda>a. if owns_open_argument (tabs d) aid (uc_id (ua_user ua)) a
              then a\<lparr>a_title := ttl, a_content := ua_content ua\<rparr> else a) (arguments (tabs d)))
    = filter (is_public (tabs d)) (arguments (tabs d))"
    by (rule filter_map_fixed)
       (auto dest: public_argument(1)[OF tok ok]
         is_public_cong[of _ "_\<lparr>a_title := ttl, a_content := ua_content ua\<rparr>", THEN iffD2, rotated]
         split: if_splits)
  ultimately show "same_published (tabs d) (tabs d')"
    by (simp add: same_published_def)
next
  assume "update_draft_stmt info d = (Inr n, d')"
  then obtain ttl ct ty did aid where "tabs d' = (tabs d)\<lparr>arguments :=
      map (\<lambda>a. if draft_key info did aid a \<and> a_is_draft a
          then a\<lparr>a_title := ttl, a_content := ca_content (di_data info),
                 a_counterargument_to := ct, a_type := Some ty\<rparr>
          else a) (arguments (tabs d))\<rparr>"
    by (auto simp: update_draft_stmt_def draft_params_Inr update_stmt_def)
  moreover have "filter (is_public (tabs d)) (map (\<lambda>a. if draft_key info did aid a \<and> a_is_draft a
          then a\<lparr>a_title := ttl, a_content := ca_content (di_data info),
                 a_counterargument_to := ct, a_type := Some ty\<rparr>
          else a) (arguments (tabs d))) = filter (is_public (tabs d)) (arguments (tabs d))"
  proof (rule filter_map_fixed)
    fix a :: argument_row
    let ?b = "a\<lparr>a_title := ttl, a_content := ca_content (di_data info),
                 a_counterargument_to := ct, a_type := Some ty\<rparr>"
    assume a: "a \<in> set (arguments (tabs d))"
      and "is_public (tabs d) a \<or> is_public (tabs d)
        (if draft_key info did aid a \<and> a_is_draft a then ?b else a)"
    then have "is_public (tabs d) a" using is_public_cong[of ?b a "tabs d"] by (auto split: if_splits)
    with public_argument(2)[OF tok ok _ a]
    show "(if draft_key info did aid a \<and> a_is_draft a then ?b else a) = a" by simp
  qed
  ultimately show "same_published (tabs d) (tabs d')"
    by (simp add: same_published_def)
next
  assume "update_debate_stmt ud d = (Inr n, d')"
  then obtain ttl did where "tabs d' = (tabs d)\<lparr>debates :=
      map (\<lambda>r. if owns_open_debate (tabs d) did (uc_id (ud_user ud)) r
              then r\<lparr>d_title := ttl\<rparr> else r) (debates (tabs d))\<rparr>"
    by (auto simp: update_debate_stmt_def with_param_Inr update_stmt_def)
  moreover have "filter (listed (tabs d))
      (map (\<lambda>r. if owns_open_debate (tabs d) did (uc_id (ud_user ud)) r
              then r\<lparr>d_title := ttl\<rparr> else r) (debates (tabs d)))
    = filter (listed (tabs d)) (debates (tabs d))"
    by (rule filter_map_fixed)
       (auto simp: listed_def board_of_def owns_open_debate_def dest!: accepted_not_open[OF tok]
         split: option.splits if_splits)
  ultimately show "same_published (tabs d) (tabs d')"
    by (simp add: same_published_def)
qed

text \<open>C39: whatever fails, no edit by an author, of an argument, a draft or a debate title, changes
  what is published: the public arguments and the listed debates are the same rows before and after.\<close>

theorem edits_keep_published:
  assumes "safe w"
    and "w' \<in> {snd (updateArgument ua w), snd (updateDraft info w), snd (updateDebate ud w)}"
  shows "filter (is_public (wtabs w')) (arguments (wtabs w'))
      = filter (is_public (wtabs w)) (arguments (wtabs w))
    \<and> filter (listed (wtabs w')) (debates (wtabs w')) = filter (listed (wtabs w)) (debates (wtabs w))"
proof -
  note tok = schema_tables_ok[OF safeD(3)[OF assms(1)]] and ok = safeD(2)[OF assms(1)]
  note pub = edit_statements_published[OF tok ok]
  have refl: "same_published (wtabs w) (wtabs w)" by (simp add: same_published_def)
  have run: "same_published (wtabs w) (wtabs (snd (client_query st post onerr w)))"
    if "stmt_ok st" "\<And>a d'. st (pg w) = (Inr a, d') \<Longrightarrow> same_published (wtabs w) (tabs d')"
    for st :: "nat stmt" and post :: "nat \<Rightarrow> js_error + 'b" and onerr
    using client_query_tabs[OF safeD(1)[OF assms(1)] that(1), of post onerr] that(2) refl
    by (metis prod.collapse)
  have "same_published (wtabs w) (wtabs (snd (updateArgument ua w)))"
    "same_published (wtabs w) (wtabs (snd (updateDebate ud w)))"
    unfolding updateArgument_def updateDebate_def by (rule run, simp, erule pub)+
  moreover have "same_published (wtabs w) (wtabs (snd (updateDraft info w)))"
    unfolding updateDraft_def
    by (metis client_query_tabs[OF safeD(1)[OF assms(1)] stmt_ok_drafts(1)] pub(2) refl prod.collapse)
  ultimately show ?thesis using assms(2) by (auto simp: same_published_def)
qed

definition sample_retitle :: update_debate_data where
  "sample_retitle = \<lparr>ud_user = alice_cookie, ud_debateId = ''1'', ud_title = ''Chess 2''\<rparr>"

theorem edits_keep_published_witness:
  "\<exists>w'. w' = snd (updateDebate sample_retitle sample_world)
    \<and> filter (is_public (wtabs w')) (arguments (wtabs w'))
      = filter (is_public (wtabs sample_world)) (arguments (wtabs sample_world))
    \<and> filter (listed (wtabs w')) (debates (wtabs w'))
      = filter (listed (wtabs sample_world)) (debates (wtabs sample_world))"
  using edits_keep_published[OF sample_safe, of _ undefined sample_edit sample_retitle] by blast

end
