(* ===== verification/Access.thy ===== *)
theory Access
  imports Public_View
begin

text \<open>
  Who may call what: the metadata of the routes enforces one policy on method and path, and the
  accounts behind the sessions: registering, and logging in with what was registered.
\<close>

section \<open>The access policy\<close>

datatype access = Anyone | SignedIn | OnlyRole user_role

definition access_policy :: "string \<Rightarrow> string \<Rightarrow> access" where
  "access_policy m p =
     (if prefix ''/moderator/'' p \<or> prefix ''/review/moderator/'' p then OnlyRole MODERATOR
      else if prefix ''/review/user/'' p then OnlyRole USER
      else if prefix ''/auth/'' p \<or> p = ''/health'' \<or> p = ''/ready'' then Anyone
      else if m = ''GET'' \<and> (p = ''/debates/'' \<or> p = ''/debates/:id''
             \<or> p = ''/debates/:debateId/argument/:argumentId'') then Anyone
      else SignedIn)"

fun denied :: "access \<Rightarrow> user_cookie option \<Rightarrow> js_error option" where
  "denied Anyone _ = None"
| "denied SignedIn None = Some UnauthorizedException"
| "denied SignedIn (Some _) = None"
| "denied (OnlyRole r) None = Some UnauthorizedException"
| "denied (OnlyRole r) (Some u) = (if uc_role u = Some r then None else Some ForbiddenException)"

text \<open>What the metadata of one route means.\<close>

definition route_access :: "route \<Rightarrow> access" where
  "route_access rt =
     (if rt_skip_auth_class rt \<or> rt_skip_auth_handler rt then Anyone
      else if rt_roles_guard rt then
        (case rt_class_roles rt of
           Some [r] \<Rightarrow> OnlyRole r
         | _ \<Rightarrow> (case rt_handler_roles rt of Some [r] \<Rightarrow> OnlyRole r | _ \<Rightarrow> SignedIn))
      else SignedIn)"

lemma routes_policy: "list_all (\<lambda>rt. route_access rt = access_policy (rt_method rt) (rt_path rt)) api_routes"
  by code_simp

definition single_roles :: "route \<Rightarrow> bool" where
  "single_roles rt \<longleftrightarrow>
     (rt_roles_guard rt \<longrightarrow> \<not> rt_skip_auth_class rt \<and> \<not> rt_skip_auth_handler rt \<and>
        (case rt_class_roles rt of Some rs \<Rightarrow> length rs = 1
         | None \<Rightarrow> (case rt_handler_roles rt of Some rs \<Rightarrow> length rs = 1 | None \<Rightarrow> False)))"

lemma routes_single_roles: "list_all single_roles api_routes"
  by code_simp

lemma guarded_access:
  assumes "single_roles rt"
  shows "guarded rt session h w =
    (case denied (route_access rt) session of Some e \<Rightarrow> (Inl e, w) | None \<Rightarrow> h w)"
proof (cases "rt_roles_guard rt")
  case False
  then show ?thesis
    by (cases session) (auto simp: guarded_def authenticate_guard_def route_access_def run_guard_def
        sq_run guard_js_def)
next
  case True
  then have noskip: "\<not> rt_skip_auth_class rt" "\<not> rt_skip_auth_handler rt"
    using assms by (simp_all add: single_roles_def)
  obtain r where r: "(case rt_class_roles rt of Some rs \<Rightarrow> Some rs | None \<Rightarrow> rt_handler_roles rt) = Some [r]"
    using assms True by (auto simp: single_roles_def length_Suc_conv split: option.splits)
  then have "route_access rt = OnlyRole r"
    using True noskip by (auto simp: route_access_def split: option.splits)
  with True noskip r show ?thesis
    by (cases session) (auto simp: guarded_def authenticate_guard_def roles_guard_def run_guard_def
        sq_run guard_js_def)
qed

text \<open>C5: the guards and the metadata of the routes let a request through exactly when the policy
  allows it: the board and the moderators' reviews to moderators only, the authors' reviews to plain
  users only, reading debates, signing in and the probes to anyone, everything else to a signed-in
  user; otherwise the handler does not run and the answer is 401 without a session and 403 with the
  wrong role.\<close>

theorem routes_enforce_policy:
  assumes "rt \<in> set api_routes"
  shows "guarded rt session h w =
    (case denied (access_policy (rt_method rt) (rt_path rt)) session of
       Some e \<Rightarrow> (Inl e, w)
     | None \<Rightarrow> h w)"
  using guarded_access[of rt session h w] assms routes_policy routes_single_roles
  by (simp add: list_all_iff)

theorem routes_enforce_policy_witness:
  "guarded (moderator_route ''GET'' ''/moderator/activity'') (Some alice_cookie)
     handle_getActivity sample_world = (Inl ForbiddenException, sample_world)"
  using routes_enforce_policy[of "moderator_route ''GET'' ''/moderator/activity''"
      "Some alice_cookie" handle_getActivity sample_world]
  by (simp add: api_routes_def moderator_routes_def moderator_route_def session_route_def
      open_route_def access_policy_def alice_cookie_def)

section \<open>Accounts\<close>

lemma insert_user_run:
  assumes "schema_ok d" and "length un \<le> 80" "length pw \<le> 65" "length em \<le> 255"
    and "user_seq (sqs d) < 2147483647"
  shows "insert_user un pw em role d =
    (if un \<in> set (map u_username (users (tabs d))) \<or> em \<in> set (map u_email (users (tabs d)))
     then (Inl UniqueViolation, d\<lparr>sqs := (sqs d)\<lparr>user_seq := user_seq (sqs d) + 1\<rparr>\<rparr>)
     else (let u = \<lparr>u_id = user_seq (sqs d) + 1, u_username = un, u_password = pw, u_email = em,
                    u_created_at = now d, u_role = role\<rparr>
           in (Inr u, d\<lparr>sqs := (sqs d)\<lparr>user_seq := user_seq (sqs d) + 1\<rparr>,
                 tabs := (tabs d)\<lparr>users := users (tabs d) @ [u]\<rparr>\<rparr>)))"
proof -
  have "user_seq (sqs d) + 1 \<notin> set (user_ids (tabs d))"
    using assms(1) by (auto simp: table_defs serial_key_def)
  with assms show ?thesis
    by (simp add: insert_user_def with_param_def varchar_def serial_insert_def nextval_def Let_def)
qed

lemma getOne_run:
  assumes "txn w = NoTxn" and "faults w = []"
  shows "getOneByEmailOrUsername x w = (Inr (find (\<lambda>u. u_username u = x \<or> u_email u = x)
      (users (wtabs w))), w\<lparr>lost := False\<rparr>)"
proof -
  have "first_row (filter P xs) = find P xs" for P and xs :: "user_row list"
    by (induction xs) (auto simp: first_row_def)
  with assms show ?thesis
    by (simp add: getOneByEmailOrUsername_def sq_run bnd_run pool_connect_def next_fault_def
        query_def exchange_def run_stmt_def select_user_def select_stmt_def release_def modify_def)
qed

text \<open>The user who was inserted last logs in with either name, unless another one has it.\<close>

lemma login_new_user:
  assumes "txn w = NoTxn" "faults w = []" "users (wtabs w) = us @ [u]"
    and "\<forall>v \<in> set us. u_username v \<noteq> x \<and> u_email v \<noteq> x" "u_username u = x \<or> u_email u = x"
    and "compare p (u_password u)"
  shows "\<exists>w'. handle_login compare \<lparr>lu_emailOrUsername = x, lu_password = p\<rparr> w =
    (Inr (getUserCookieFields u, getPublicUser u), w')"
proof -
  have "find (\<lambda>v. u_username v = x \<or> u_email v = x) us = None"
    using assms(4) by (auto simp: find_None_iff)
  then have "find (\<lambda>v. u_username v = x \<or> u_email v = x) (users (wtabs w)) = Some u"
    using assms(5) by (simp add: assms(3) find_snoc)
  then show ?thesis
    using assms(6) by (simp add: handle_login_def login_user_def bnd_run getOne_run[OF assms(1,2)])
qed


definition sample_registration :: register_user_dto where
  "sample_registration = \<lparr>ru_email = ''d@x'', ru_username = ''dave'', ru_password = ''pw''\<rparr>"


text \<open>Looking a user up by name or address takes a client and gives it back on success only: when
  the query fails the client stays out of the pool for good.\<close>

theorem login_lookup_pool:
  "checked_out (snd (getOneByEmailOrUsername x w)) = checked_out w +
     (case fst (getOneByEmailOrUsername x w) of
        Inr _ \<Rightarrow> 0
      | Inl _ \<Rightarrow> if fst (next_fault w) = NoFault then 1 else 0)"
proof -
  obtain f w1 where nf: "next_fault w = (f, w1)" by (cases "next_fault w")
  then have 1: "checked_out w1 = checked_out w" using pool_next_fault[of w] by simp
  let ?w2 = "w1\<lparr>checked_out := checked_out w1 + 1, lost := False\<rparr>"
  obtain r w3 where q: "query (select_user x) ?w2 = (r, w3)" by (cases "query (select_user x) ?w2")
  then have 3: "checked_out w3 = checked_out w + 1"
    using keeps_result[OF pool_query q] 1 by (simp add: same_pool_def)
  show ?thesis
    using nf q 1 3 by (cases f; cases r)
      (simp_all add: getOneByEmailOrUsername_def sq_run bnd_run pool_connect_def release_def modify_def)
qed

end
