(* ===== verification/Activity.thy ===== *)
theory Activity
  imports Access
begin

text \<open>
  The moderators' board as it is answered: four lists in the order of the enumeration, each with
  the cards of its debates and then of its arguments, and none of the rows that the right join
  adds for an empty list.
\<close>

section \<open>Cards by list\<close>

lemma filter_concat_blocks:
  assumes "distinct ks" and "k \<in> set ks" and "\<And>j x. j \<in> set ks \<Longrightarrow> x \<in> set (f j) \<Longrightarrow> key x = j"
  shows "filter (\<lambda>x. key x = k) (concat (map f ks)) = f k"
  using assms
proof (induction ks)
  case (Cons j ks)
  have j: "\<forall>x \<in> set (f j). key x = j" using Cons.prems(3) by simp
  show ?case
  proof (cases "k = j")
    case True
    have "key x \<noteq> k" if "x \<in> set (concat (map f ks))" for x
    proof -
      from that obtain i where i: "i \<in> set ks" "x \<in> set (f i)" by auto
      then have "key x = i" using Cons.prems(3) by simp
      with i True Cons.prems(1) show ?thesis by auto
    qed
    then have "filter (\<lambda>x. key x = k) (concat (map f ks)) = []" by (simp add: filter_empty_conv)
    with True j show ?thesis by (simp add: filter_id_conv)
  next
    case False
    with j have "filter (\<lambda>x. key x = k) (f j) = []" by (auto simp: filter_empty_conv)
    moreover have "filter (\<lambda>x. key x = k) (concat (map f ks)) = f k"
      by (rule Cons.IH) (use Cons.prems False in auto)
    ultimately show ?thesis by simp
  qed
qed simp

definition board_rows :: "('c list) \<Rightarrow> 'c \<Rightarrow> 'c list" where
  "board_rows rs e = (case rs of [] \<Rightarrow> [e] | _ \<Rightarrow> rs)"

lemma board_rows_in: "x \<in> set (board_rows rs e) \<Longrightarrow> x \<in> set rs \<or> x = e"
  by (cases rs) (auto simp: board_rows_def)

lemma board_rows_nonempty: "board_rows rs e \<noteq> []"
  by (simp add: board_rows_def split: list.splits)

lemma right_join_boards_rows:
  "right_join_boards rows e = concat (map (\<lambda>b. board_rows (rows b) (e b)) board_list_range)"
  unfolding right_join_boards_def board_rows_def
  by (intro arg_cong[of _ _ concat] map_cong refl) (simp split: list.splits)

lemma debate_cards_board: "c \<in> set (debate_cards_in ts b) \<Longrightarrow> dc_board_list c = b"
  by (auto simp: debate_cards_in_def)

lemma argument_cards_board: "c \<in> set (argument_cards_in ts b) \<Longrightarrow> ac_board_list c = b"
  by (auto simp: argument_cards_in_def)

lemma card_board_json [simp]: "card_board (debate_card_to_json c) = dc_board_list c"
  by (simp add: debate_card_to_json_def split: option.splits)

lemma card_ticket_json: "card_ticket (debate_card_to_json c) = dc_ticket_id c"
  by (auto simp: debate_card_to_json_def split: option.splits)

lemma board_list_range_all: "distinct board_list_range" "b \<in> set board_list_range"
  by simp_all

definition debate_block :: "tables \<Rightarrow> board_list \<Rightarrow> activity_card list" where
  "debate_block ts b =
     map debate_card_to_json (board_rows (debate_cards_in ts b) (empty_debate_card b))"

definition argument_block :: "tables \<Rightarrow> board_list \<Rightarrow> activity_card list" where
  "argument_block ts b =
     map ArgumentCardJson (board_rows (argument_cards_in ts b) (empty_argument_card b))"

lemma blocks_board:
  "c \<in> set (debate_block ts b) \<Longrightarrow> card_board c = b" "debate_block ts b \<noteq> []"
  "c \<in> set (argument_block ts b) \<Longrightarrow> card_board c = b"
  by (auto simp: debate_block_def argument_block_def board_rows_nonempty empty_debate_card_def
      empty_argument_card_def dest!: board_rows_in dest: debate_cards_board argument_cards_board)

lemma blocks_tickets:
  "filter (\<lambda>c. card_ticket c \<noteq> None) (debate_block ts b) = map debate_card_to_json (debate_cards_in ts b)"
  "filter (\<lambda>c. card_ticket c \<noteq> None) (argument_block ts b) = map ArgumentCardJson (argument_cards_in ts b)"
proof -
  have "\<forall>c \<in> set (debate_cards_in ts b). dc_ticket_id c \<noteq> None"
    "\<forall>c \<in> set (argument_cards_in ts b). ac_ticket_id c \<noteq> None"
    by (auto simp: debate_cards_in_def argument_cards_in_def)
  then show
    "filter (\<lambda>c. card_ticket c \<noteq> None) (debate_block ts b) = map debate_card_to_json (debate_cards_in ts b)"
    "filter (\<lambda>c. card_ticket c \<noteq> None) (argument_block ts b) = map ArgumentCardJson (argument_cards_in ts b)"
    by (auto simp: debate_block_def argument_block_def board_rows_def card_ticket_json filter_map comp_def
        empty_debate_card_def empty_argument_card_def filter_id_conv split: list.splits)
qed

lemma board_groups_blocks:
  "board_groups (concat (map (debate_block ts) board_list_range)
       @ concat (map (argument_block ts) board_list_range))
   = map (\<lambda>b. (b, map debate_card_to_json (debate_cards_in ts b)
                 @ map ArgumentCardJson (argument_cards_in ts b))) board_list_range"
proof -
  let ?D = "concat (map (debate_block ts) board_list_range)"
  let ?A = "concat (map (argument_block ts) board_list_range)"
  have "rev (remdups (rev (map card_board ?D))) = board_list_range"
    unfolding map_concat map_map
    by (rule first_occurrences_blocks[OF board_list_range_all(1)])
       (use blocks_board(1,2) in \<open>auto simp: image_iff, metis list.set_intros(1) list.exhaust\<close>)
  moreover have "set (map card_board ?A) \<subseteq> set (map card_board ?D)"
  proof -
    have "b \<in> set (map card_board ?D)" for b
      using calculation board_list_range_all(2)[of b] by (metis set_remdups set_rev)
    then show ?thesis by blast
  qed
  ultimately have keys: "rev (remdups (rev (map card_board (?D @ ?A)))) = board_list_range"
    unfolding map_append by (metis remdups_rev_append_replicate)
  have grp: "filter (\<lambda>x. card_board x = b) (?D @ ?A) = debate_block ts b @ argument_block ts b" for b
    unfolding filter_append
    by (simp add: filter_concat_blocks[OF board_list_range_all] blocks_board)
  show ?thesis
    unfolding board_groups_def group_by_def keys map_map
    by (intro map_cong refl)
       (simp only: comp_def case_prod_conv grp filter_append[of _ "debate_block _ _"] blocks_tickets)
qed

lemma handle_getActivity_run:
  assumes "txn w = NoTxn" and "faults w = []"
  shows "\<exists>w'. handle_getActivity w = (Inr (map (\<lambda>b.
      (b, map debate_card_to_json (debate_cards_in (wtabs w) b)
          @ map ArgumentCardJson (argument_cards_in (wtabs w) b)))
        [PENDING, IN_REVIEW, CANCELED, ACCEPTED]), w') \<and> wtabs w' = wtabs w"
proof -
  let ?w1 = "w\<lparr>lost := False\<rparr>"
  have d: "getDebateCards w = (Inr (right_join_boards (debate_cards_in (wtabs w)) empty_debate_card), ?w1)"
    by (simp add: getDebateCards_def client_query_run[OF assms] select_stmt_def)
  have "txn ?w1 = NoTxn" "faults ?w1 = []" using assms by simp_all
  then have a: "getArgumentCards ?w1 =
      (Inr (right_join_boards (argument_cards_in (wtabs w)) empty_argument_card), ?w1)"
    by (simp add: getArgumentCards_def client_query_run select_stmt_def)
  have blocks: "map debate_card_to_json (right_join_boards (debate_cards_in (wtabs w)) empty_debate_card)
        @ map ArgumentCardJson (right_join_boards (argument_cards_in (wtabs w)) empty_argument_card)
      = concat (map (debate_block (wtabs w)) board_list_range)
        @ concat (map (argument_block (wtabs w)) board_list_range)"
    by (simp add: right_join_boards_rows map_concat comp_def debate_block_def[abs_def]
        argument_block_def[abs_def])
  have "handle_getActivity w = (Inr (board_groups (concat (map (debate_block (wtabs w)) board_list_range)
        @ concat (map (argument_block (wtabs w)) board_list_range))), ?w1)"
    using d a by (simp add: handle_getActivity_def map_svc_def bnd_run fork_join_def blocks)
  then show ?thesis unfolding board_groups_blocks by (simp add: board_list_range_def)
qed



end
