(* ===== verification/Review_Gateway.thy ===== *)
theory Review_Gateway
  imports Board
begin

text \<open>
  The websocket gateway of the review pages: finding the user of a connection, the rooms, and the
  handlers of the comment and update events. The cookie library and the session store are
  parameters; the rooms and what is sent to each socket are part of the world. The handlers of the
  two kinds of comments share one body over the interface of a comment store, and those of the two
  kinds of updates one body over the update they perform.
\<close>

section \<open>The user of a connection\<close>

record handshake =
  hs_cookie :: "string option"
  hs_connection :: "string option"

definition UNAUTHENTICATED_ERR :: js_error where
  "UNAUTHENTICATED_ERR = WsException ''Unauthenticated''"

text \<open>
  \<open>getUserFromSocket\<close>: the parameters give the value of the session cookie in a header, the
  identifier of a signed value when the signature is right, and the user of a stored session. The
  first component tells whether the socket was disconnected instead.
\<close>

definition getUserFromSocket ::
  "(string \<Rightarrow> string option) \<Rightarrow> (string \<Rightarrow> string option) \<Rightarrow> (string \<Rightarrow> user_cookie option) \<Rightarrow>
   handshake \<Rightarrow> js_error + user_cookie option" where
  "getUserFromSocket session_cookie unsign store hs =
     (if hs_connection hs = Some ''close'' then Inr None
      else case truthy (hs_cookie hs) of
             None \<Rightarrow> Inl UNAUTHENTICATED_ERR
           | Some cookieHeaderValue \<Rightarrow>
               (case truthy (session_cookie cookieHeaderValue) of
                  None \<Rightarrow> Inl UNAUTHENTICATED_ERR
                | Some signedSessionId \<Rightarrow>
                    (case truthy (unsign (drop 2 signedSessionId)) of
                       None \<Rightarrow> Inl UNAUTHENTICATED_ERR
                     | Some sessionId \<Rightarrow>
                         (case store sessionId of
                            None \<Rightarrow> Inl UNAUTHENTICATED_ERR
                          | Some user \<Rightarrow> Inr (Some user)))))"

section \<open>Rooms\<close>

definition getTicketIdFromSocket :: "socket \<Rightarrow> js_error + string" where
  "getTicketIdFromSocket sk =
     (case truthy (sk_ticket_id sk) of
        None \<Rightarrow> Inl (WsException (CHR 0x27 # ''ticketId'' @ CHR 0x27 # '' is missing.''))
      | Some ticketId \<Rightarrow>
          if ticketId = ''undefined''
          then Inl (WsException (CHR 0x27 # ''ticketId'' @ CHR 0x27 # '' is missing.''))
          else Inr ticketId)"

definition getRoomIdentifier :: "socket \<Rightarrow> js_error + string" where
  "getRoomIdentifier sk =
     (case getTicketIdFromSocket sk of Inl e \<Rightarrow> Inl e | Inr t \<Rightarrow> Inr (''review:'' @ t))"

definition update_socket :: "nat \<Rightarrow> (socket \<Rightarrow> socket) \<Rightarrow> world \<Rightarrow> world" where
  "update_socket i f w =
     w\<lparr>sockets := map (\<lambda>s. if sk_id s = i then f s else s) (sockets w)\<rparr>"

definition socket_join :: "nat \<Rightarrow> string \<Rightarrow> world \<Rightarrow> world" where
  "socket_join i room = update_socket i (\<lambda>s. s\<lparr>sk_rooms := List.insert room (sk_rooms s)\<rparr>)"

definition socket_leave :: "nat \<Rightarrow> string \<Rightarrow> world \<Rightarrow> world" where
  "socket_leave i room = update_socket i (\<lambda>s. s\<lparr>sk_rooms := removeAll room (sk_rooms s)\<rparr>)"

text \<open>A disconnected socket leaves all its rooms.\<close>

definition socket_disconnect :: "nat \<Rightarrow> world \<Rightarrow> world" where
  "socket_disconnect i = update_socket i (\<lambda>s. s\<lparr>sk_rooms := [], sk_open := False\<rparr>)"

definition socket_emit :: "nat \<Rightarrow> ws_message \<Rightarrow> world \<Rightarrow> world" where
  "socket_emit i m w = w\<lparr>wire := wire w @ [(i, m)]\<rparr>"

text \<open>\<open>socket.to(room).emit\<close>: every other socket in the room.\<close>

definition room_members :: "world \<Rightarrow> nat \<Rightarrow> string \<Rightarrow> nat list" where
  "room_members w i room =
     map sk_id (filter (\<lambda>s. sk_id s \<noteq> i \<and> room \<in> set (sk_rooms s)) (sockets w))"

definition broadcast :: "nat \<Rightarrow> string \<Rightarrow> ws_message \<Rightarrow> world \<Rightarrow> world" where
  "broadcast i room m w = w\<lparr>wire := wire w @ map (\<lambda>j. (j, m)) (room_members w i room)\<rparr>"

text \<open>The message of an error; the driver's texts are not modelled.\<close>

fun error_message :: "js_error \<Rightarrow> string" where
  "error_message (HttpException _ m) = m"
| "error_message (PlainError m) = m"
| "error_message (WsException m) = m"
| "error_message (DbError _) = ''database error''"
| "error_message TypeError = ''type error''"

definition addUserToRoom :: "socket \<Rightarrow> user_cookie option \<Rightarrow> (world, unit) svc" where
  "addUserToRoom sk user =
     sq (modify (update_socket (sk_id sk) (\<lambda>s. s\<lparr>sk_user := user\<rparr>)))
       (bnd (lift_sum (getRoomIdentifier sk)) (\<lambda>room.
          modify (socket_join (sk_id sk) room)))"

definition removeUserFromRoom :: "socket \<Rightarrow> string option \<Rightarrow> (world, unit) svc" where
  "removeUserFromRoom sk errorMessage =
     bnd (lift_sum (getRoomIdentifier sk)) (\<lambda>room.
     sq (modify (socket_leave (sk_id sk) room))
       (case truthy errorMessage of
          None \<Rightarrow> ret ()
        | Some m \<Rightarrow> modify (socket_emit (sk_id sk) (ErrorMsg m))))"

definition handleConnection ::
  "(string \<Rightarrow> string option) \<Rightarrow> (string \<Rightarrow> string option) \<Rightarrow> (string \<Rightarrow> user_cookie option) \<Rightarrow>
   handshake \<Rightarrow> socket \<Rightarrow> (world, unit) svc" where
  "handleConnection session_cookie unsign store hs sk =
     try_catch
       (bnd (lift_sum (getUserFromSocket session_cookie unsign store hs)) (\<lambda>user.
        sq (if user = None then modify (socket_disconnect (sk_id sk)) else ret ())
          (addUserToRoom sk user)))
       (\<lambda>err. sq (modify (socket_emit (sk_id sk) (ErrorMsg (error_message err))))
                 (modify (socket_disconnect (sk_id sk))))"

definition handleDisconnect :: "socket \<Rightarrow> (world, unit) svc" where
  "handleDisconnect sk = try_catch (removeUserFromRoom sk None) (\<lambda>_. ret ())"

section \<open>Comments\<close>

record comment_payload =
  cp_comment :: "string option"
  cp_userId :: jsval
  cp_assignedToId :: jsval
  cp_debateTitle :: string
  cp_argumentTitle :: string

text \<open>\<open>socket.data.user\<close>: reading a field of it throws when it is not set.\<close>

definition user_or_throw :: "socket \<Rightarrow> (world, user_cookie) svc" where
  "user_or_throw sk = (case sk_user sk of None \<Rightarrow> raise TypeError | Some u \<Rightarrow> ret u)"

text \<open>\<open>user.id === +userId ? +assignedToId : +userId\<close>: the other participant.\<close>

definition other_participant :: "user_cookie \<Rightarrow> jsval \<Rightarrow> jsval \<Rightarrow> jsval" where
  "other_participant user userId assignedToId =
     (if JNum (uc_id user) = unary_plus userId then unary_plus assignedToId
      else unary_plus userId)"

definition nonempty_or_throw :: "string option \<Rightarrow> (world, string) svc" where
  "nonempty_or_throw v =
     (case truthy v of
        None \<Rightarrow> raise (WsException (''Comment'' @ CHR 0x27 # ''s content can'' @ CHR 0x27 # ''t be empty.''))
      | Some s \<Rightarrow> ret s)"

text \<open>
  The body of both handlers that create a comment, over the event's name, the store, the
  notification event and its kind.
\<close>

definition comment_create ::
  "string \<Rightarrow> (add_comment_data \<Rightarrow> (world, sent_comment) svc) \<Rightarrow>
   (jsval \<Rightarrow> int \<Rightarrow> user_cookie \<Rightarrow> jsval \<Rightarrow> notification_event_obj) \<Rightarrow> notification_event \<Rightarrow>
   (document \<Rightarrow> string) \<Rightarrow> socket \<Rightarrow> comment_payload \<Rightarrow> (world, sent_comment option) svc" where
  "comment_create event add mk_event kind render sk payload =
     try_catch
       (bnd (nonempty_or_throw (cp_comment payload)) (\<lambda>content.
        bnd (lift_sum (getTicketIdFromSocket sk)) (\<lambda>ticket.
        bnd (user_or_throw sk) (\<lambda>user.
        bnd (add \<lparr>acd_ticketId = to_number ticket, acd_content = content,
                   acd_commenterId = uc_id user\<rparr>) (\<lambda>insertedComment.
        bnd (lift_sum (getRoomIdentifier sk)) (\<lambda>room.
        sq (modify (broadcast (sk_id sk) room (CommentCreated event insertedComment)))
        (let recipientId = other_participant user (cp_userId payload) (cp_assignedToId payload)
         in sq (notify_participant render
                  (mk_event (to_number ticket) (sc_comment_id insertedComment) user recipientId)
                  kind recipientId)
              (ret (Some insertedComment)))))))))
       (\<lambda>err. sq (removeUserFromRoom sk (Some (error_message err))) (ret None))"

definition handleDebateCommentCreate ::
  "(document \<Rightarrow> string) \<Rightarrow> socket \<Rightarrow> comment_payload \<Rightarrow> (world, sent_comment option) svc" where
  "handleDebateCommentCreate render sk payload =
     comment_create ''comment/debate:create'' addCommentToDebate
       (\<lambda>ticketId commentId user recipientId.
          DebateReviewNewComment ticketId commentId user (cp_debateTitle payload) recipientId)
       EV_DEBATE render sk payload"

definition handleArgumentCommentCreate ::
  "(document \<Rightarrow> string) \<Rightarrow> socket \<Rightarrow> comment_payload \<Rightarrow> (world, sent_comment option) svc" where
  "handleArgumentCommentCreate render sk payload =
     comment_create ''comment/argument:create'' addCommentToArgument
       (\<lambda>ticketId commentId user recipientId.
          ArgumentReviewNewComment ticketId commentId user (cp_debateTitle payload)
            (cp_argumentTitle payload) recipientId)
       EV_ARGUMENT render sk payload"

text \<open>The handlers answer \<open>OK\<close>, or nothing after an error.\<close>

definition comment_update ::
  "string \<Rightarrow> socket \<Rightarrow> jsval \<Rightarrow> string option \<Rightarrow> (world, string option) svc" where
  "comment_update event sk commentId content0 =
     try_catch
       (bnd (nonempty_or_throw content0) (\<lambda>content.
        bnd (user_or_throw sk) (\<lambda>user.
        bnd (updateComment user \<lparr>ucd_commentId = commentId, ucd_content = content\<rparr>) (\<lambda>rowCount.
        sq (guard_js (rowCount \<noteq> 0) (WsException ''No updates occurred''))
        (bnd (lift_sum (getRoomIdentifier sk)) (\<lambda>room.
        sq (modify (broadcast (sk_id sk) room (CommentUpdated event commentId content)))
          (ret (Some ''OK'')))))))) 
       (\<lambda>err. sq (removeUserFromRoom sk (Some (error_message err))) (ret None))"

definition handleDebateCommentUpdate ::
  "socket \<Rightarrow> jsval \<Rightarrow> string option \<Rightarrow> (world, string option) svc" where
  "handleDebateCommentUpdate = comment_update ''comment/debate:update''"

definition handleArgumentCommentUpdate ::
  "socket \<Rightarrow> jsval \<Rightarrow> string option \<Rightarrow> (world, string option) svc" where
  "handleArgumentCommentUpdate = comment_update ''comment/argument:update''"

section \<open>Updates by the owner\<close>

text \<open>\<open>toString()\<close> of an identifier of the payload; undefined and null have no methods.\<close>

definition js_to_string :: "jsval \<Rightarrow> (world, string) svc" where
  "js_to_string v =
     (case v of JUndefined \<Rightarrow> raise TypeError | JNull \<Rightarrow> raise TypeError
      | _ \<Rightarrow> ret (template_number v))"

record argument_review_updated =
  aru_data :: "(jsval \<times> string \<times> string) option"
  aru_ticketId :: jsval
  aru_debateTitle :: string
  aru_argumentTitle :: string
  aru_userId :: jsval
  aru_assignedToId :: jsval

record debate_review_updated =
  dru_data :: "(jsval \<times> string) option"
  dru_oldTitle :: string
  dru_ticketId :: jsval
  dru_userId :: jsval
  dru_assignedToId :: jsval

text \<open>
  The body of both handlers: the user's role, the update, the message to the room and the
  notification.
\<close>

definition owner_update ::
  "string \<Rightarrow> (user_cookie \<Rightarrow> (world, nat) svc) \<Rightarrow> ws_message \<Rightarrow>
   (user_cookie \<Rightarrow> jsval \<Rightarrow> notification_event_obj) \<Rightarrow> notification_event \<Rightarrow> jsval \<Rightarrow> jsval \<Rightarrow>
   (document \<Rightarrow> string) \<Rightarrow> socket \<Rightarrow> (world, string option) svc" where
  "owner_update role_msg update msg mk_event kind userId assignedToId render sk =
     bnd (user_or_throw sk) (\<lambda>user.
     sq (guard_js (uc_role user = Some USER) (WsException role_msg))
     (bnd (update user) (\<lambda>rowCount.
     sq (guard_js (rowCount \<noteq> 0) (WsException ''No updates occurred''))
     (bnd (lift_sum (getRoomIdentifier sk)) (\<lambda>room.
     sq (modify (broadcast (sk_id sk) room msg))
     (let recipientId = other_participant user userId assignedToId
      in sq (notify_participant render (mk_event user recipientId) kind recipientId)
           (ret (Some ''OK'')))))))) "

definition handleArgumentUpdate ::
  "(document \<Rightarrow> string) \<Rightarrow> socket \<Rightarrow> argument_review_updated \<Rightarrow> (world, string option) svc" where
  "handleArgumentUpdate render sk payload =
     try_catch
       (case aru_data payload of
          None \<Rightarrow> raise (WsException ''Argument data is missing.'')
        | Some (argumentId, title, content) \<Rightarrow>
            owner_update ''Only users can updated their own comment.''
              (\<lambda>user. bnd (js_to_string argumentId) (\<lambda>i. updateArgument
                 \<lparr>ua_user = user, ua_argumentId = i, ua_title = title, ua_content = content\<rparr>))
              (ArgumentUpdatedMsg argumentId title content)
              (\<lambda>user recipientId. ArgumentUpdated (aru_ticketId payload) user
                 (aru_debateTitle payload) (aru_argumentTitle payload) recipientId)
              EV_ARGUMENT (aru_userId payload) (aru_assignedToId payload) render sk)
       (\<lambda>err. sq (removeUserFromRoom sk (Some (error_message err))) (ret None))"

definition handleDebateUpdate ::
  "(document \<Rightarrow> string) \<Rightarrow> socket \<Rightarrow> debate_review_updated \<Rightarrow> (world, string option) svc" where
  "handleDebateUpdate render sk payload =
     try_catch
       (case dru_data payload of
          None \<Rightarrow> raise (WsException ''Debate data is missing.'')
        | Some (debateId, title) \<Rightarrow>
            owner_update ''Only users can updated their own debate.''
              (\<lambda>user. bnd (js_to_string debateId) (\<lambda>i. updateDebate
                 \<lparr>ud_user = user, ud_debateId = i, ud_title = title\<rparr>))
              (DebateUpdatedMsg debateId title)
              (\<lambda>user recipientId. DebateTitleUpdated (dru_ticketId payload) user
                 (dru_oldTitle payload) title recipientId)
              EV_DEBATE (dru_userId payload) (dru_assignedToId payload) render sk)
       (\<lambda>err. sq (removeUserFromRoom sk (Some (error_message err))) (ret None))"

end
