(* ===== verification/System.thy ===== *)
theory System
  imports Activity Review_Gateway
begin

text \<open>
  The running system: requests of the HTTP API behind their guards, events of the websocket gateway,
  jobs of the worker, and an environment that lets exchanges fail, time pass and sockets open, as
  one step relation on the world and the sessions that have been issued; and the invariant of every
  reachable state.
\<close>

section \<open>What every operation keeps\<close>

text \<open>Safe worlds stay safe, and no user disappears.\<close>

definition grows :: "world \<Rightarrow> world \<Rightarrow> bool" where
  "grows w w' \<longleftrightarrow> (safe w \<longrightarrow> safe w' \<and> set (users (wtabs w)) \<subseteq> set (users (wtabs w')))"

interpretation growth: world_order grows
  by unfold_locales (auto simp: grows_def)

lemma grows_pg: "pg w' = pg w \<Longrightarrow> txn w' = txn w \<Longrightarrow> grows w w'"
  by (simp add: grows_def safe_def idle_def world_ok_def split: txn_state.splits)

lemma grows_modify: "(\<And>w. pg (f w) = pg w \<and> txn (f w) = txn w) \<Longrightarrow> keeps grows (modify f)"
  by (intro growth.keeps_modify grows_pg) simp_all

lemma grows_redis: "(\<And>v. pg (snd (act v)) = pg v \<and> txn (snd (act v)) = txn v) \<Longrightarrow> keeps grows (redis act)"
  by (rule keepsI) (rule grows_pg; simp add: redis_pg)

lemma grows_fire_and_forget: "keeps grows m \<Longrightarrow> keeps grows (fire_and_forget m)"
  unfolding fire_and_forget_def by (intro growth.keeps_intros)

lemma grows_enqueue: "keeps grows (enqueueNotification p)"
  unfolding enqueueNotification_def by (rule grows_redis) simp

lemma grows_cache: "keeps grows (cache_get key)" "keeps grows (cache_set key v ex)"
    "keeps grows (cache_del key)"
  unfolding cache_get_def cache_set_def cache_del_def modify_def
  by (rule grows_redis; simp)+

lemma grows_lift_sum: "keeps grows (lift_sum r)"
  by (rule keepsI) (simp add: grows_def)

lemma grows_parse_int_param: "(\<And>i. keeps grows (k i)) \<Longrightarrow> keeps grows (parse_int_param s k)"
  unfolding parse_int_param_def by (intro growth.keeps_intros grows_lift_sum)

definition stmt_users :: "'a stmt \<Rightarrow> bool" where
  "stmt_users st \<longleftrightarrow>
     (\<forall>d a d'. st d = (Inr a, d') \<longrightarrow> set (users (tabs d)) \<subseteq> set (users (tabs d')))"

lemma stmt_usersD:
  "stmt_users st \<Longrightarrow> st d = (Inr a, d') \<Longrightarrow> set (users (tabs d)) \<subseteq> set (users (tabs d'))"
  by (auto simp: stmt_users_def)

lemma stmt_usersI:
  "(\<And>d a d'. st d = (Inr a, d') \<Longrightarrow> users (tabs d') = users (tabs d)) \<Longrightarrow> stmt_users st"
  by (simp add: stmt_users_def)

lemma read_only_users: "read_only st \<Longrightarrow> stmt_users st"
  by (rule stmt_usersI) (metis read_only_def snd_conv)

lemma grows_client_query:
  assumes "stmt_app_ok st" and "stmt_users st"
  shows "keeps grows (client_query st post onerr)"
proof (rule keepsI)
  fix w :: world
  obtain r w' where run: "client_query st post onerr w = (r, w')"
    by (cases "client_query st post onerr w")
  have "set (users (wtabs w)) \<subseteq> set (users (wtabs w'))" if "safe w"
    using client_query_tabs[OF safeD(1)[OF that] _ run] assms(1) stmt_usersD[OF assms(2)]
    by (metis order_refl stmt_app_ok_def)
  then show "grows w (snd (client_query st post onerr w))"
    using keeps_result[OF safe_client_query[OF assms(1)] run] run
    by (simp add: grows_def keeps_safe_def)
qed

lemma grows_read: "read_only st \<Longrightarrow> keeps grows (client_query st post onerr)"
  by (intro grows_client_query read_only_app_ok read_only_users)

lemma grows_query:
  assumes "stmt_app_ok st" and "stmt_users st"
  shows "keeps grows (query st)"
proof (rule keepsI)
  fix w :: world
  obtain r w' where run: "query st w = (r, w')" by (cases "query st w")
  have ok: "stmt_ok st" using assms(1) by (simp add: stmt_app_ok_def)
  have "safe w' \<and> set (users (wtabs w)) \<subseteq> set (users (wtabs w'))" if safe: "safe w"
  proof -
    note q = query_idle[OF safeD(1)[OF safe, unfolded idle_def] ok run]
    then have "wtabs w' = wtabs w \<or> (\<exists>a d. st (pg w) = (Inr a, d) \<and> wtabs w' = tabs d)"
      by (auto split: sum.splits)
    then have "set (users (wtabs w)) \<subseteq> set (users (wtabs w')) \<and> app_ok (wtabs w')"
      using stmt_usersD[OF assms(2)] assms(1) safeD(2,3)[OF safe] unfolding stmt_app_ok_def
      by (metis order_refl)
    moreover have "world_ok w'"
      using keeps_result[OF integrity_query[OF ok] run] safe by (simp add: keeps_ok_def safe_def)
    ultimately show ?thesis
      using q(1) by (simp add: safe_def idle_def)
  qed
  with run show "grows w (snd (query st w))" by (simp add: grows_def)
qed

lemma grows_transaction:
  assumes body: "txn_body body eff"
    and after: "\<And>a v. \<exists>b v'. after a v = (Inr b, v') \<and> wtabs v' = wtabs v \<and> txn v' = txn v"
    and safe: "keeps keeps_safe (transaction body after onerr)"
    and eff: "\<And>ts a ts'. eff ts a ts' \<Longrightarrow> users ts' = users ts"
  shows "keeps grows (transaction body after onerr)"
proof (rule keepsI)
  fix w :: world
  obtain r w' where run: "transaction body after onerr w = (r, w')"
    by (cases "transaction body after onerr w")
  have "users (wtabs w') = users (wtabs w)" if "safe w"
    using txn_body.transaction_atomic[OF body safeD(1)[OF that] after run] eff
    by (auto split: sum.splits)
  with keeps_result[OF safe run] run show "grows w (snd (transaction body after onerr w))"
    by (simp add: grows_def keeps_safe_def)
qed

lemma grows_bnd_at: "grows w (snd (m w)) \<Longrightarrow> (\<And>a. keeps grows (f a)) \<Longrightarrow> grows w (snd (bnd m f w))"
  by (cases "m w"; cases "fst (m w)")
     (auto simp: bnd_run dest: keepsD intro: growth.transR)

lemmas grows_intros = growth.keeps_intros grows_fire_and_forget grows_enqueue grows_cache
  grows_lift_sum grows_parse_int_param

section \<open>The services\<close>

named_theorems grows_ops

lemma stmt_users_updates:
  "stmt_users (update_argument_stmt ua)" "stmt_users (update_debate_stmt ud)"
  "stmt_users (update_draft_stmt info)" "stmt_users (update_comment_stmt user data)"
  "stmt_users (mark_read_stmt ids)" "stmt_users (insert_argument v)"
  by (auto intro!: stmt_usersI simp: update_argument_stmt_def update_debate_stmt_def
      update_draft_stmt_def draft_params_Inr update_comment_stmt_def mark_read_stmt_def
      update_stmt_def with_param_Inr dest: insert_argument_Inr(1))

lemma stmt_users_comment: "stmt_users (insert_comment_stmt target data)"
proof (rule stmt_usersI)
  fix d a d' assume "insert_comment_stmt target data d = (Inr a, d')"
  from insert_comment_stmt_Inr[OF this] show "users (tabs d') = users (tabs d)"
    by (cases a) (auto simp: comment_added_def)
qed

lemma grows_updates [grows_ops]:
  "keeps grows (updateArgument ua)" "keeps grows (updateDebate ud)" "keeps grows (updateDraft info)"
  "keeps grows (saveArgumentAsDraft data)" "keeps grows (addCommentToDebate cdata)"
  "keeps grows (addCommentToArgument cdata)"
  unfolding updateArgument_def updateDebate_def updateDraft_def saveArgumentAsDraft_def
    addCommentToDebate_def addCommentToArgument_def
  by (intro grows_client_query stmt_users_updates stmt_users_comment insert_comment_app_ok;
      simp add: draft_insert_app_ok)+

lemma updateComment_app_ok: "stmt_app_ok (update_comment_stmt user data)"
proof (rule stmt_app_okI)
  show "app_ok (tabs d')" if "app_ok (tabs d)" "update_comment_stmt user data d = (Inr n, d')" for d n d'
    using that by (auto simp: update_comment_stmt_def with_param_Inr update_stmt_def)
qed simp

lemma grows_updateComment [grows_ops]: "keeps grows (updateComment user data)"
  unfolding updateComment_def by (intro grows_client_query updateComment_app_ok stmt_users_updates)

lemma grows_proposals [grows_ops]:
  "keeps grows (createDebate render user dto)" "keeps grows (createArgument render data)"
  "keeps grows (submitDraft info)"
proof -
  show "keeps grows (createDebate render user dto)"
    using createDebate_safe unfolding createDebate_def
    by (intro grows_transaction[OF createDebate.txn_body_axioms notify_moderators_returns])
       (auto simp: debate_created_def)
  show "keeps grows (createArgument render data)"
    using createArgument_safe unfolding createArgument_def
    by (intro grows_transaction[OF createArgument.txn_body_axioms notify_moderators_returns])
       (auto simp: argument_created_def)
  show "keeps grows (submitDraft info)"
    using submitDraft_safe unfolding submitDraft_def
    by (intro grows_transaction[OF submitDraft.txn_body_axioms]) (auto simp: draft_submitted_def)
qed

lemma read_only_users_service [simp]:
  "read_only (select_activity_debates user)" "read_only (select_activity_arguments user)"
  "read_only (select_debate_as_user user i)" "read_only (select_argument_as_user user i)"
  "read_only (select_debates c)" "read_only (select_user x)" "read_only (select_notifications user)"
  unfolding select_activity_debates_def select_activity_arguments_def select_debate_as_user_def
    select_argument_as_user_def select_user_def select_notifications_def
  by (intro read_only_with_param read_only_select
      | simp add: select_debates_def read_only_def select_stmt_def split: option.splits)+

lemma grows_reads [grows_ops]:
  "keeps grows (getDebateArguments i)" "keeps grows (getDebateArgument i j)"
  "keeps grows (getDebateArgumentAsModerator i j)" "keeps grows (getDraft gdata)"
  "keeps grows (getDebateByTicketId i)" "keeps grows getDebateCards" "keeps grows getArgumentCards"
  "keeps grows (getArgumentAsModerator user i)" "keeps grows (getDebateAsModerator user i)"
  "keeps grows (getActivityDebates user)" "keeps grows (getActivityArguments user)"
  "keeps grows (getDebateAsUser user i)" "keeps grows (getArgumentAsUser user i)"
  "keeps grows (getTicketComments i user)" "keeps grows (notifications_getAll user)"
  "keeps grows (getUnreadCount user)"
  unfolding getDebateArguments_def getDebateArgument_def getDebateArgumentAsModerator_def
    getDraft_def getDebateByTicketId_def getDebateCards_def getArgumentCards_def
    getArgumentAsModerator_def getDebateAsModerator_def getActivityDebates_def
    getActivityArguments_def getDebateAsUser_def getArgumentAsUser_def getTicketComments_def
    notifications_getAll_def getUnreadCount_def
  by (rule grows_read, simp)+

lemma pool_connect_pg:
  "pg (snd (pool_connect w)) = pg w \<and> txn (snd (pool_connect w)) = txn w"
proof -
  obtain f w1 where nf: "next_fault w = (f, w1)" by (cases "next_fault w")
  then have "pg w1 = pg w" "txn w1 = txn w" using idle_next_fault[of w] by simp_all
  with nf show ?thesis by (cases f) (simp_all add: pool_connect_def)
qed

lemma grows_pool: "keeps grows pool_connect" "keeps grows release"
proof -
  show "keeps grows pool_connect"
    by (rule keepsI) (rule grows_pg; simp add: pool_connect_pg)
  show "keeps grows release" unfolding release_def by (rule grows_modify) simp
qed

lemma insert_user_app_ok: "stmt_app_ok (insert_user un pw em (Some USER))"
proof (rule stmt_app_okI)
  fix d d' :: database and u :: user_row
  assume ok: "app_ok (tabs d)" and ins: "insert_user un pw em (Some USER) d = (Inr u, d')"
  then show "app_ok (tabs d')"
    by (auto simp: insert_user_Inr(1)[OF ins] app_ok_def ticket_ok_def list_all_iff
        split: option.splits)
qed simp

lemma for_moderators_app_ok:
  "stmt_app_ok (insert_for_moderators_stmt t c e)" "stmt_app_ok (insert_notification t c e rcp)"
proof -
  show "stmt_app_ok (insert_for_moderators_stmt t c e)"
    by (rule stmt_app_okI, simp)
       (auto simp: insert_for_moderators_stmt_def dest!: insert_rows_notifications)
  show "stmt_app_ok (insert_notification t c e rcp)"
    by (rule stmt_app_okI) (auto dest: insert_notification_Inr(1))
qed

lemma stmt_users_inserts:
  "stmt_users (insert_for_moderators_stmt t c e)" "stmt_users (insert_notification t c e rcp)"
  by (auto intro!: stmt_usersI simp: insert_for_moderators_stmt_def
      dest!: insert_rows_notifications insert_notification_Inr(1))

lemma stmt_users_insert_user: "stmt_users (insert_user un pw em role)"
  unfolding stmt_users_def by (auto dest!: insert_user_Inr(1))

lemma grows_accounts [grows_ops]:
  "keeps grows (handle_register hash dto)" "keeps grows (handle_login compare ldto)"
  "keeps grows (getAll fl)" "keeps grows (markNotificationsAsRead ids)"
proof -
  show "keeps grows (handle_register hash dto)"
    unfolding handle_register_def register_user_def insertOne_def
    by (intro growth.keeps_intros grows_lift_sum grows_client_query insert_user_app_ok
        stmt_users_insert_user)
  show "keeps grows (handle_login compare ldto)"
    unfolding handle_login_def login_user_def getOneByEmailOrUsername_def
    by (intro growth.keeps_intros grows_pool grows_query read_only_app_ok read_only_users) simp_all
  show "keeps grows (getAll fl)"
    unfolding getAll_def
    by (intro growth.keeps_intros grows_pool grows_query read_only_app_ok read_only_users) simp_all
  show "keeps grows (markNotificationsAsRead ids)"
    unfolding markNotificationsAsRead_def
    by (intro grows_client_query mark_read_app_ok stmt_users_updates)
qed

lemma grows_handle_job: "keeps grows (handle_job p)"
proof -
  have "keeps grows (insert_payload p)"
    by (cases p) (auto simp: insertForAllModerators_def insertForRecipient_def with_client_query
        intro!: growth.keeps_intros grows_client_query for_moderators_app_ok stmt_users_inserts)
  moreover have "keeps grows (publish_message m)" for m
    unfolding publish_message_def modify_def by (rule grows_redis) simp
  ultimately show ?thesis
    by (auto simp: handle_job_def intro!: growth.keeps_intros)
qed

lemma grows_worker: "keeps grows (run_attempts n p)"
proof (induction n)
  case (Suc n)
  then show ?case
    using grows_handle_job by (auto intro!: growth.keeps_intros)
qed (simp only: run_attempts.simps growth.keeps_ret)

text \<open>Moving and approving need the caller to be a moderator in the users table.\<close>

lemma grows_moves:
  assumes "is_moderator (wtabs w) (uc_id user)"
  shows "ut_userId data = uc_id user \<Longrightarrow> grows w (snd (updateTicket data w))"
    and "grows w (snd (approveTicket user i w))"
proof -
  have users: "stmt_users (update_ticket_stmt data)" "stmt_users (approve_ticket_stmt user i)"
    by (auto intro!: stmt_usersI simp: update_ticket_stmt_def approve_ticket_stmt_def
        with_param_Inr update_stmt_def)
  show "grows w (snd (approveTicket user i w))"
  proof -
    obtain r w' where run: "approveTicket user i w = (r, w')" by (cases "approveTicket user i w")
    have "set (users (wtabs w)) \<subseteq> set (users (wtabs w'))" if "safe w"
      using client_query_tabs[OF safeD(1)[OF that] stmt_ok_tickets(2) run[unfolded approveTicket_def]]
        stmt_usersD[OF users(2)] by (metis order_refl)
    with approveTicket_safe[OF _ assms, of i] run show ?thesis by (simp add: grows_def)
  qed
  show "grows w (snd (updateTicket data w))" if "ut_userId data = uc_id user"
  proof -
    obtain r w' where run: "updateTicket data w = (r, w')" by (cases "updateTicket data w")
    then obtain r' where cq: "client_query (update_ticket_stmt data) Inr
         (\<lambda>_. PlainError ''An error occurred while updated the ticket.'') w = (r', w')"
      by (elim updateTicket_run)
    have "set (users (wtabs w)) \<subseteq> set (users (wtabs w'))" if "safe w"
      using client_query_tabs[OF safeD(1)[OF that] stmt_ok_tickets(1) cq]
        stmt_usersD[OF users(1)] by (metis order_refl)
    with updateTicket_safe[of w data] assms that run show ?thesis by (simp add: grows_def)
  qed
qed

section \<open>The API\<close>

datatype api_call =
    ListDebates "string option"
  | CreateDebate create_debate_dto
  | GetDebate string
  | GetArgument string string
  | CreateArgument string argument_dto
  | SaveDraft string argument_dto
  | GetDraft string string "string option"
  | UpdateDraft string string argument_dto
  | SubmitDraft string string argument_dto
  | GetBoard
  | MoveTicket string string
  | GetArgumentToCounter string string
  | GetDebateByTicket string
  | ApproveDebate string approve_debate_dto
  | ApproveArgument string approve_argument_dto
  | ReviewArgumentAsModerator string
  | ReviewDebateAsModerator string
  | ReviewDebateAsUser string
  | ReviewArgumentAsUser string
  | GetUserActivity
  | GetTicketComments string
  | GetNotifications

text \<open>The route of a call, by its place in the tables of routes.\<close>

fun call_route :: "api_call \<Rightarrow> route" where
  "call_route (ListDebates _) = debates_routes ! 0"
| "call_route (CreateDebate _) = debates_routes ! 1"
| "call_route (GetDebate _) = debates_routes ! 2"
| "call_route (GetArgument _ _) = debates_routes ! 3"
| "call_route (CreateArgument _ _) = debates_routes ! 4"
| "call_route (SaveDraft _ _) = debates_routes ! 5"
| "call_route (GetDraft _ _ _) = debates_routes ! 6"
| "call_route (UpdateDraft _ _ _) = debates_routes ! 7"
| "call_route (SubmitDraft _ _ _) = debates_routes ! 8"
| "call_route GetBoard = moderator_routes ! 0"
| "call_route (MoveTicket _ _) = moderator_routes ! 1"
| "call_route (GetArgumentToCounter _ _) = moderator_routes ! 2"
| "call_route (GetDebateByTicket _) = moderator_routes ! 3"
| "call_route (ApproveDebate _ _) = moderator_routes ! 4"
| "call_route (ApproveArgument _ _) = moderator_routes ! 5"
| "call_route (ReviewArgumentAsModerator _) = review_routes ! 0"
| "call_route (ReviewDebateAsModerator _) = review_routes ! 1"
| "call_route (ReviewDebateAsUser _) = review_routes ! 2"
| "call_route (ReviewArgumentAsUser _) = review_routes ! 3"
| "call_route GetUserActivity = other_routes ! 0"
| "call_route (GetTicketComments _) = other_routes ! 1"
| "call_route GetNotifications = other_routes ! 2"

text \<open>A handler reads the user of the session; without one reading a field of it throws.\<close>

definition with_user :: "user_cookie option \<Rightarrow> (user_cookie \<Rightarrow> (world, 'a) svc) \<Rightarrow> (world, unit) svc" where
  "with_user session h =
     (case session of None \<Rightarrow> raise TypeError | Some u \<Rightarrow> map_svc (\<lambda>_. ()) (h u))"

fun run_call :: "(document \<Rightarrow> string) \<Rightarrow> (string \<Rightarrow> raw_filters option) \<Rightarrow> user_cookie option \<Rightarrow>
    api_call \<Rightarrow> (world, unit) svc" where
  "run_call render decode s (ListDebates q) = map_svc (\<lambda>_. ()) (handle_getAll decode q)"
| "run_call render decode s (CreateDebate b) = with_user s (\<lambda>u. handle_createDebate render u b)"
| "run_call render decode s (GetDebate i) = map_svc (\<lambda>_. ()) (handle_getDebate i)"
| "run_call render decode s (GetArgument i j) = map_svc (\<lambda>_. ()) (handle_getDebateArgument i j)"
| "run_call render decode s (CreateArgument i b) = with_user s (\<lambda>u. handle_createArgument render u i b)"
| "run_call render decode s (SaveDraft i b) = with_user s (\<lambda>u. handle_saveArgumentAsDraft u i b)"
| "run_call render decode s (GetDraft i j f) = with_user s (\<lambda>u. handle_getDraft u i j f)"
| "run_call render decode s (UpdateDraft i j b) = with_user s (\<lambda>u. handle_updateDraft u i j b)"
| "run_call render decode s (SubmitDraft i j b) = with_user s (\<lambda>u. handle_submitDraft u i j b)"
| "run_call render decode s GetBoard = map_svc (\<lambda>_. ()) handle_getActivity"
| "run_call render decode s (MoveTicket i b) = with_user s (\<lambda>u. handle_updateTicket u i b)"
| "run_call render decode s (GetArgumentToCounter i j) =
     map_svc (\<lambda>_. ()) (handle_getDebateArgumentAsModerator i j)"
| "run_call render decode s (GetDebateByTicket i) = map_svc (\<lambda>_. ()) (handle_getDebateByTicketId i)"
| "run_call render decode s (ApproveDebate i b) = with_user s (\<lambda>u. handle_approveDebate render u i b)"
| "run_call render decode s (ApproveArgument i b) = with_user s (\<lambda>u. handle_approveArgument render u i b)"
| "run_call render decode s (ReviewArgumentAsModerator i) =
     with_user s (\<lambda>u. handle_getArgumentAsModerator u i)"
| "run_call render decode s (ReviewDebateAsModerator i) =
     with_user s (\<lambda>u. handle_getDebateAsModerator u i)"
| "run_call render decode s (ReviewDebateAsUser i) = with_user s (\<lambda>u. handle_getDebateAsUser u i)"
| "run_call render decode s (ReviewArgumentAsUser i) = with_user s (\<lambda>u. handle_getArgumentAsUser u i)"
| "run_call render decode s GetUserActivity = with_user s handle_getUserActivity"
| "run_call render decode s (GetTicketComments i) = with_user s (\<lambda>u. handle_getTicketComments u i)"
| "run_call render decode s GetNotifications = with_user s getNotifications"

definition serve :: "(document \<Rightarrow> string) \<Rightarrow> (string \<Rightarrow> raw_filters option) \<Rightarrow> user_cookie option \<Rightarrow>
    api_call \<Rightarrow> (world, unit) svc" where
  "serve render decode session call = guarded (call_route call) session (run_call render decode session call)"

lemma grows_with_user: "(\<And>u. keeps grows (h u)) \<Longrightarrow> keeps grows (with_user s h)"
  unfolding with_user_def by (intro growth.keeps_intros)

lemmas handler_defs = handle_getAll_def handle_createDebate_def handle_getDebate_def Let_def
  handle_getDebateArgument_def handle_createArgument_def handle_saveArgumentAsDraft_def
  handle_getDraft_def debate_arguments_of_def handle_updateDraft_def handle_submitDraft_def
  handle_getActivity_def handle_getDebateArgumentAsModerator_def handle_getDebateByTicketId_def
  handle_getArgumentAsModerator_def handle_getDebateAsModerator_def handle_getDebateAsUser_def
  handle_getArgumentAsUser_def handle_getUserActivity_def handle_getTicketComments_def
  getNotifications_def first_or_404_def some_or_404_def

definition moves_ticket :: "api_call \<Rightarrow> bool" where
  "moves_ticket c \<longleftrightarrow> (case c of MoveTicket _ _ \<Rightarrow> True | ApproveDebate _ _ \<Rightarrow> True
     | ApproveArgument _ _ \<Rightarrow> True | _ \<Rightarrow> False)"

lemma grows_failing: "keeps grows (client_query (\<lambda>d. (Inl e, d)) Inr f)"
  by (rule grows_read) (simp add: read_only_def)

lemma grows_calls: "\<not> moves_ticket c \<Longrightarrow> keeps grows (run_call render decode s c)"
  by (cases c)
     (auto simp: moves_ticket_def handler_defs intro!: grows_with_user grows_intros grows_ops
        grows_failing split: sum.split option.split prod.split list.split jsval.split)

lemma grows_moving_calls:
  assumes "moves_ticket c" and "is_moderator (wtabs w) (uc_id u)"
  shows "grows w (snd (run_call render decode (Some u) c w))"
proof -
  have notify: "keeps grows (notify_participant render ev k r)" for ev k r
    unfolding notify_participant_def by (intro grows_intros)
  have parsed: "grows w (snd (map_svc f (parse_int_param i k) w))"
    if "\<And>j. grows w (snd (k j w))" for i and k :: "int \<Rightarrow> (world, 'x) svc" and f :: "'x \<Rightarrow> unit"
  proof -
    have "snd (map_svc f m w) = snd (m w)" for m :: "(world, 'x) svc"
      by (cases "m w"; cases "fst (m w)") (auto simp: map_svc_def bnd_run)
    with that show ?thesis
      by (cases "parse_int_pipe i") (simp_all add: parse_int_param_def bnd_run growth.reflR)
  qed
  show ?thesis
  proof (cases c)
    case (MoveTicket i b)
    show ?thesis
      unfolding MoveTicket run_call.simps with_user_def option.case handle_updateTicket_def
      by (rule parsed) (simp add: grows_moves(1)[OF assms(2)])
  next
    case (ApproveDebate i b)
    show ?thesis
      unfolding ApproveDebate run_call.simps with_user_def option.case handle_approveDebate_def
      by (rule parsed, rule grows_bnd_at, rule grows_moves(2)[OF assms(2)])
         (auto intro!: grows_intros notify split: list.split)
  next
    case (ApproveArgument i b)
    show ?thesis
      unfolding ApproveArgument run_call.simps with_user_def option.case handle_approveArgument_def
      by (rule parsed, rule grows_bnd_at, rule grows_moves(2)[OF assms(2)])
         (auto intro!: grows_intros notify split: list.split)
  qed (use assms(1) in \<open>simp_all add: moves_ticket_def\<close>)
qed

text \<open>A session belongs to a stored user: the cookie's fields are the user's.\<close>

definition cookie_ok :: "tables \<Rightarrow> user_cookie \<Rightarrow> bool" where
  "cookie_ok ts c \<longleftrightarrow> c \<in> getUserCookieFields ` set (users ts)"

lemma moves_ticket_routes: "moves_ticket c \<Longrightarrow> call_route c \<in> set moderator_routes"
  by (cases c) (auto simp: moves_ticket_def moderator_routes_def)

lemma moderator_routes_access: "rt \<in> set moderator_routes \<Longrightarrow>
    single_roles rt \<and> route_access rt = OnlyRole MODERATOR"
proof -
  have "list_all (\<lambda>rt. single_roles rt \<and> route_access rt = OnlyRole MODERATOR) moderator_routes"
    by code_simp
  then show "rt \<in> set moderator_routes \<Longrightarrow> single_roles rt \<and> route_access rt = OnlyRole MODERATOR"
    by (simp add: list_all_iff)
qed

text \<open>The guards keep the moderators' operations from everybody else.\<close>

lemma grows_serve:
  assumes "\<And>u. session = Some u \<Longrightarrow> cookie_ok (wtabs w) u"
  shows "grows w (snd (serve render decode session call w))"
proof (cases "moves_ticket call")
  case False
  then have "keeps grows (guarded (call_route call) session (run_call render decode session call))"
    unfolding guarded_def run_guard_def
    by (intro growth.keeps_intros grows_calls)
  then show ?thesis unfolding serve_def by (rule keepsD)
next
  case True
  have acc: "single_roles (call_route call) \<and> route_access (call_route call) = OnlyRole MODERATOR"
    by (rule moderator_routes_access[OF moves_ticket_routes[OF True]])
  show ?thesis
  proof (cases "\<exists>u. session = Some u \<and> uc_role u = Some MODERATOR")
    case False
    then show ?thesis
      using guarded_access[of "call_route call" session "run_call render decode session call" w] acc
      by (cases session) (auto simp: serve_def growth.reflR)
  next
    case mod: True
    then obtain u where u: "session = Some u" "uc_role u = Some MODERATOR" by blast
    then have "is_moderator (wtabs w) (uc_id u)"
      using assms[OF u(1)] by (auto simp: cookie_ok_def is_moderator_def list_ex_iff getUserCookieFields_def)
    from grows_moving_calls[OF True this] show ?thesis
      using guarded_access[of "call_route call" session "run_call render decode session call" w] acc u
      by (simp add: serve_def)
  qed
qed

section \<open>The gateway\<close>

lemma grows_gateway:
  "keeps grows (handleConnection ck un store hs sk)" "keeps grows (handleDisconnect sk)"
  "keeps grows (handleDebateCommentCreate render sk cp)"
  "keeps grows (handleArgumentCommentCreate render sk cp)"
  "keeps grows (handleDebateCommentUpdate sk i c)" "keeps grows (handleArgumentCommentUpdate sk i c)"
  "keeps grows (handleArgumentUpdate render sk au)" "keeps grows (handleDebateUpdate render sk du)"
proof -
  have socket: "keeps grows (modify (update_socket i f))" "keeps grows (modify (socket_join i r))"
    "keeps grows (modify (socket_leave i r))" "keeps grows (modify (socket_disconnect i))"
    "keeps grows (modify (socket_emit i m))" "keeps grows (modify (broadcast i r m))" for i f r m
    by (rule grows_modify; simp add: update_socket_def socket_join_def socket_leave_def
        socket_disconnect_def socket_emit_def broadcast_def)+
  have notify: "keeps grows (notify_participant render ev k r)" for ev k r
    unfolding notify_participant_def by (intro grows_intros)
  have leave: "keeps grows (removeUserFromRoom sk m)" for m
    unfolding removeUserFromRoom_def by (intro grows_intros socket)
  have user: "keeps grows (user_or_throw sk)" "keeps grows (nonempty_or_throw v)"
    "keeps grows (js_to_string x)" for v x
    unfolding user_or_throw_def nonempty_or_throw_def js_to_string_def
    by (auto intro!: grows_intros split: jsval.split)
  show "keeps grows (handleConnection ck un store hs sk)" "keeps grows (handleDisconnect sk)"
    unfolding handleConnection_def handleDisconnect_def addUserToRoom_def
    by (intro grows_intros socket leave)+
  show "keeps grows (handleDebateCommentCreate render sk cp)"
    "keeps grows (handleArgumentCommentCreate render sk cp)"
    unfolding handleDebateCommentCreate_def handleArgumentCommentCreate_def comment_create_def Let_def
    by (intro grows_intros socket leave user grows_ops notify)+
  show "keeps grows (handleDebateCommentUpdate sk i c)" "keeps grows (handleArgumentCommentUpdate sk i c)"
    unfolding handleDebateCommentUpdate_def handleArgumentCommentUpdate_def comment_update_def
    by (intro grows_intros socket leave user grows_ops)+
  have owner: "keeps grows (owner_update rm up m mk k i j render sk)" if "\<And>u. keeps grows (up u)"
    for rm up m mk k i j
    unfolding owner_update_def Let_def by (intro grows_intros socket user that notify)
  show "keeps grows (handleArgumentUpdate render sk au)" "keeps grows (handleDebateUpdate render sk du)"
    unfolding handleArgumentUpdate_def handleDebateUpdate_def
    by (auto intro!: grows_intros leave owner user grows_ops split: option.split prod.split)
qed

section \<open>The system\<close>

record sys =
  sys_world :: world
  sys_sessions :: "user_cookie list"

text \<open>
  The environment may plan failures, let time pass, set the request's identifier, and open sockets;
  the session store answers only sessions that were issued.
\<close>

definition environment :: "world \<Rightarrow> world \<Rightarrow> bool" where
  "environment w w' \<longleftrightarrow> (\<exists>fs rid n new. now (pg w) \<le> n
     \<and> w' = w\<lparr>faults := fs, request_id := rid, pg := (pg w)\<lparr>now := n\<rparr>, sockets := sockets w @ new\<rparr>)"

inductive sys_step ::
  "(document \<Rightarrow> string) \<Rightarrow> (string \<Rightarrow> raw_filters option) \<Rightarrow> (string \<Rightarrow> js_error + string) \<Rightarrow>
   (string \<Rightarrow> string \<Rightarrow> bool) \<Rightarrow> sys \<Rightarrow> sys \<Rightarrow> bool"
  for render decode hash compare where
  request: "(session = None \<or> session \<in> Some ` set (sys_sessions s)) \<Longrightarrow>
    sys_step render decode hash compare s
      (s\<lparr>sys_world := snd (serve render decode session call (sys_world s))\<rparr>)"
| register: "handle_register hash dto (sys_world s) = (r, w') \<Longrightarrow>
    sys_step render decode hash compare s
      (s\<lparr>sys_world := w', sys_sessions := (case r of Inl _ \<Rightarrow> [] | Inr c \<Rightarrow> [c]) @ sys_sessions s\<rparr>)"
| login: "handle_login compare ldto (sys_world s) = (rl, w') \<Longrightarrow>
    sys_step render decode hash compare s
      (s\<lparr>sys_world := w', sys_sessions := (case rl of Inl _ \<Rightarrow> [] | Inr (c, _) \<Rightarrow> [c]) @ sys_sessions s\<rparr>)"
| connect: "(\<And>sid u. store sid = Some u \<Longrightarrow> u \<in> set (sys_sessions s)) \<Longrightarrow>
    sk \<in> set (sockets (sys_world s)) \<Longrightarrow>
    sys_step render decode hash compare s
      (s\<lparr>sys_world := snd (handleConnection ck un store hs sk (sys_world s))\<rparr>)"
| disconnect: "sk \<in> set (sockets (sys_world s)) \<Longrightarrow>
    sys_step render decode hash compare s (s\<lparr>sys_world := snd (handleDisconnect sk (sys_world s))\<rparr>)"
| comment: "sk \<in> set (sockets (sys_world s)) \<Longrightarrow>
    w' \<in> {snd (handleDebateCommentCreate render sk cp (sys_world s)),
          snd (handleArgumentCommentCreate render sk cp (sys_world s)),
          snd (handleDebateCommentUpdate sk cid content (sys_world s)),
          snd (handleArgumentCommentUpdate sk cid content (sys_world s))} \<Longrightarrow>
    sys_step render decode hash compare s (s\<lparr>sys_world := w'\<rparr>)"
| update: "sk \<in> set (sockets (sys_world s)) \<Longrightarrow>
    w' \<in> {snd (handleArgumentUpdate render sk au (sys_world s)),
          snd (handleDebateUpdate render sk du (sys_world s))} \<Longrightarrow>
    sys_step render decode hash compare s (s\<lparr>sys_world := w'\<rparr>)"
| worker: "sys_step render decode hash compare s
    (s\<lparr>sys_world := snd (process_next_job (sys_world s))\<rparr>)"
| env: "environment (sys_world s) w' \<Longrightarrow>
    sys_step render decode hash compare s (s\<lparr>sys_world := w'\<rparr>)"

inductive reachable ::
  "(document \<Rightarrow> string) \<Rightarrow> (string \<Rightarrow> raw_filters option) \<Rightarrow> (string \<Rightarrow> js_error + string) \<Rightarrow>
   (string \<Rightarrow> string \<Rightarrow> bool) \<Rightarrow> sys \<Rightarrow> bool"
  for render decode hash compare where
  start: "safe w \<Longrightarrow> reachable render decode hash compare \<lparr>sys_world = w, sys_sessions = []\<rparr>"
| step: "reachable render decode hash compare s \<Longrightarrow> sys_step render decode hash compare s s' \<Longrightarrow>
    reachable render decode hash compare s'"

definition sys_ok :: "sys \<Rightarrow> bool" where
  "sys_ok s \<longleftrightarrow> safe (sys_world s) \<and> list_all (cookie_ok (wtabs (sys_world s))) (sys_sessions s)"

lemma sys_ok_grows:
  assumes "sys_ok s" and "grows (sys_world s) w'"
  shows "sys_ok (s\<lparr>sys_world := w'\<rparr>)"
  using assms by (auto simp: sys_ok_def grows_def list_all_iff cookie_ok_def)

lemma login_cookie:
  assumes "safe w" and "handle_login compare dto w = (Inr (c, p), w')"
  shows "cookie_ok (wtabs w) c"
proof -
  obtain u w1 where one: "getOneByEmailOrUsername (lu_emailOrUsername dto) w = (Inr (Some u), w1)"
    and c: "c = getUserCookieFields u"
    using assms(2) by (auto simp: handle_login_def login_user_def bnd_run split: prod.splits sum.splits
        option.splits if_splits)
  obtain w2 rows w3 where "pool_connect w = (Inr (), w2)"
    and q: "query (select_user (lu_emailOrUsername dto)) w2 = (Inr rows, w3)" and r: "first_row rows = Some u"
    using one by (auto simp: getOneByEmailOrUsername_def sq_run bnd_run split: prod.splits sum.splits)
  then have w2: "pg w2 = pg w" "txn w2 = txn w" using pool_connect_pg[of w] by simp_all
  have "rows = filter (\<lambda>u. u_username u = lu_emailOrUsername dto \<or> u_email u = lu_emailOrUsername dto)
      (users (wtabs w))"
    using query_idle(2)[OF _ read_only_stmt_ok[OF read_only_users_service(6)] q] w2 safeD(1)[OF assms(1)]
    by (auto simp: idle_def select_user_def select_stmt_def)
  moreover have "u \<in> set rows" using r by (auto simp: first_row_def split: list.splits)
  ultimately have "u \<in> set (users (wtabs w))" by simp
  then show ?thesis by (simp add: cookie_ok_def c)
qed

lemma register_cookie:
  assumes "safe w" and "handle_register hash dto w = (Inr c, w')"
  shows "cookie_ok (wtabs w') c"
proof -
  obtain h u where ins: "insertOne (dto\<lparr>ru_password := h\<rparr>) w = (Inr u, w')"
    and c: "c = getUserCookieFields u"
    using assms(2) by (auto simp: handle_register_def register_user_def bnd_run try_catch_def
        split: prod.splits sum.splits if_splits)
  have "\<exists>d. insert_user (ru_username dto) h (ru_email dto) (Some USER) (pg w) = (Inr u, d) \<and> pg w' = d"
    using client_query_cases(2)[OF safeD(1)[OF assms(1)] _ ins[unfolded insertOne_def]] by simp
  then show ?thesis using insert_user_Inr(1) by (auto simp: cookie_ok_def c)
qed

lemma environment_ok:
  assumes "environment w w'"
  shows "grows w w'"
proof -
  obtain fs rid n new where w': "w' = w\<lparr>faults := fs, request_id := rid, pg := (pg w)\<lparr>now := n\<rparr>,
      sockets := sockets w @ new\<rparr>"
    using assms unfolding environment_def by blast
  have "schema_ok ((pg w)\<lparr>now := n\<rparr>) = schema_ok (pg w)" by (simp add: table_defs)
  then show ?thesis by (simp add: w' grows_def safe_def idle_def world_ok_def split: txn_state.splits)
qed

lemma process_next_job_grows: "grows w (snd (process_next_job w))"
proof (cases "jobs w")
  case (Cons j js)
  have "grows w (w\<lparr>jobs := js\<rparr>)" by (rule grows_pg) simp_all
  from growth.transR[OF this keepsD[OF grows_worker]] Cons show ?thesis
    by (simp add: process_next_job_def)
qed (simp add: process_next_job_def growth.reflR)

lemma sys_step_ok:
  assumes "sys_step render decode hash compare s s'" and "sys_ok s"
  shows "sys_ok s'"
  using assms
proof (cases rule: sys_step.cases)
  case (request session call)
  have "cookie_ok (wtabs (sys_world s)) u" if "session = Some u" for u
    using request(2) that assms(2) by (auto simp: sys_ok_def list_all_iff)
  from sys_ok_grows[OF assms(2) grows_serve[OF this]] show ?thesis by (simp add: request(1))
next
  case (register dto r w')
  have safe: "safe (sys_world s)" using assms(2) by (simp add: sys_ok_def)
  have g: "grows (sys_world s) w'"
    using keeps_result[OF grows_accounts(1) register(2)] .
  from sys_ok_grows[OF assms(2) g] register_cookie[OF safe] register(2) show ?thesis
    by (cases r) (auto simp: register(1) sys_ok_def)
next
  case (login ldto rl w')
  have safe: "safe (sys_world s)" using assms(2) by (simp add: sys_ok_def)
  have g: "grows (sys_world s) w'"
    using keeps_result[OF grows_accounts(2) login(2)] .
  have "cookie_ok (wtabs w') c" if "rl = Inr (c, p)" for c p
    using login_cookie[OF safe login(2)[unfolded that]] g safe
    by (auto simp: grows_def cookie_ok_def)
  with sys_ok_grows[OF assms(2) g] show ?thesis
    by (cases rl) (auto simp: login(1) sys_ok_def)
next
  case (connect store sk ck un hs)
  show ?thesis unfolding connect(1)
    by (rule sys_ok_grows[OF assms(2)]) (rule keepsD[OF grows_gateway(1)])
next
  case (disconnect sk)
  show ?thesis unfolding disconnect(1)
    by (rule sys_ok_grows[OF assms(2)]) (rule keepsD[OF grows_gateway(2)])
next
  case (comment sk w' cp cid content)
  then have "grows (sys_world s) w'"
    using grows_gateway(3-6)[THEN keepsD] by auto
  then show ?thesis unfolding comment(1) by (rule sys_ok_grows[OF assms(2)])
next
  case (update sk w' au du)
  then have "grows (sys_world s) w'"
    using grows_gateway(7,8)[THEN keepsD] by auto
  then show ?thesis unfolding update(1) by (rule sys_ok_grows[OF assms(2)])
next
  case worker
  show ?thesis unfolding worker
    by (rule sys_ok_grows[OF assms(2) process_next_job_grows])
next
  case (env w')
  show ?thesis unfolding env(1)
    by (rule sys_ok_grows[OF assms(2) environment_ok[OF env(2)]])
qed

lemma reachable_ok: "reachable render decode hash compare s \<Longrightarrow> sys_ok s"
  by (induction rule: reachable.induct) (auto simp: sys_ok_def[of "\<lparr>sys_world = _, sys_sessions = []\<rparr>"]
      dest: sys_step_ok)

section \<open>Properties\<close>

text \<open>C1: in every state the system can reach, whatever requests, socket events and jobs came in
  whatever order and whatever failed, no transaction is open, the schema's constraints hold, every
  ticket in use belongs to one debate or argument by the ticket's creator, an argument is a draft
  exactly when it has no ticket, a ticket that has left the pending list is assigned to a moderator,
  and every session is a stored user's.\<close>

theorem system_invariant:
  assumes "reachable render decode hash compare s"
  shows "txn (sys_world s) = NoTxn \<and> schema_ok (pg (sys_world s)) \<and> app_ok (wtabs (sys_world s))
    \<and> (\<forall>c \<in> set (sys_sessions s). \<exists>u \<in> set (users (wtabs (sys_world s))). c = getUserCookieFields u)"
  using reachable_ok[OF assms]
  by (auto simp: sys_ok_def safe_def idle_def world_ok_def list_all_iff cookie_ok_def)

lemma sample_reachable:
  "reachable render decode hash (\<lambda>p h. p = h)
     \<lparr>sys_world = sample_world\<lparr>lost := False\<rparr>, sys_sessions = [bob_cookie]\<rparr>"
proof -
  let ?s = "\<lparr>sys_world = sample_world, sys_sessions = []\<rparr>"
  have "find (\<lambda>u. u_username u = ''bob'' \<or> u_email u = ''bob'') (users (wtabs sample_world)) = Some bob"
    by (simp add: sample_defs)
  then have "handle_login (\<lambda>p h. p = h) \<lparr>lu_emailOrUsername = ''bob'', lu_password = ''h2''\<rparr> (sys_world ?s)
      = (Inr (bob_cookie, getPublicUser bob), sample_world\<lparr>lost := False\<rparr>)"
    by (simp add: handle_login_def login_user_def bnd_run getOne_run getUserCookieFields_def)
       (simp add: bob_def bob_cookie_def)
  from reachable.step[OF reachable.start[OF sample_safe] sys_step.login[OF this]]
  show ?thesis by simp
qed

theorem system_invariant_witness:
  "app_ok sample_tables \<and> (\<exists>u \<in> set (users sample_tables). bob_cookie = getUserCookieFields u)"
  using system_invariant[OF sample_reachable] by simp

text \<open>C2: in every state the system can reach, a public argument and a listed debate are on a ticket
  that their author created and that a stored moderator is assigned to, and a public argument is not
  a draft: nothing is published without a moderator.\<close>

theorem published_only_by_moderators:
  assumes "reachable render decode hash compare s" and "ts = wtabs (sys_world s)"
  shows "(\<forall>a \<in> set (arguments ts). is_public ts a \<longrightarrow> \<not> a_is_draft a
      \<and> (\<exists>t m. arg_ticket ts a = Some t \<and> t_created_by t = a_created_by a
           \<and> m \<in> set (users ts) \<and> t_assigned_to t = Some (u_id m) \<and> u_role m = Some MODERATOR))
    \<and> (\<forall>d \<in> set (debates ts). listed ts d \<longrightarrow>
        (\<exists>t m. ticket_of ts (d_ticket_id d) = Some t \<and> t_created_by t = d_created_by d
           \<and> m \<in> set (users ts) \<and> t_assigned_to t = Some (u_id m) \<and> u_role m = Some MODERATOR))"
proof -
  have safe: "safe (sys_world s)" using reachable_ok[OF assms(1)] by (simp add: sys_ok_def)
  note tok = schema_tables_ok[OF safeD(3)[OF safe], folded assms(2)]
  note ok = safeD(2)[OF safe, folded assms(2)]
  have mod: "\<exists>m. m \<in> set (users ts) \<and> t_assigned_to t = Some (u_id m) \<and> u_role m = Some MODERATOR"
    if "ticket_of ts i = Some t" "t_board_list t = Some ACCEPTED" for i t
  proof -
    have "ticket_ok ts t"
      using ok that(1) tables_ok_lookup(1)[OF tok] by (auto simp: app_ok_def list_all_iff)
    then show ?thesis using that(2)
      by (auto simp: ticket_ok_def list_ex_iff split: option.splits)
  qed
  have own: "t_created_by t = c" if "ticket_of ts i = Some t"
      "list_ex (\<lambda>t. t_id t = i \<and> t_created_by t = c) (tickets ts)" for i t c
    using that unfolding list_ex_iff by (metis tables_ok_lookup(1)[OF tok] option.inject)
  show ?thesis
  proof (intro conjI ballI impI)
    fix a assume a: "a \<in> set (arguments ts)" "is_public ts a"
    then obtain i t where t: "a_ticket_id a = Some i" "ticket_of ts i = Some t"
        "t_board_list t = Some ACCEPTED"
      by (auto simp: is_public_def arg_ticket_def split: option.splits)
    have "argument_ok ts a" using ok a(1) by (simp add: app_ok_def list_all_iff)
    then have "\<not> a_is_draft a" "list_ex (\<lambda>t. t_id t = i \<and> t_created_by t = a_created_by a) (tickets ts)"
      using t(1) by (auto simp: argument_ok_def)
    with mod[OF t(2,3)] own[OF t(2)] t show "\<not> a_is_draft a"
      "\<exists>t m. arg_ticket ts a = Some t \<and> t_created_by t = a_created_by a
           \<and> m \<in> set (users ts) \<and> t_assigned_to t = Some (u_id m) \<and> u_role m = Some MODERATOR"
      by (auto simp: arg_ticket_def)
  next
    fix d assume d: "d \<in> set (debates ts)" "listed ts d"
    then obtain t where t: "ticket_of ts (d_ticket_id d) = Some t" "t_board_list t = Some ACCEPTED"
      by (auto simp: listed_def board_of_def split: option.splits)
    have "debate_ok ts d" using ok d(1) by (simp add: app_ok_def list_all_iff)
    with mod[OF t] own[OF t(1)] t(1) show "\<exists>t m. ticket_of ts (d_ticket_id d) = Some t
        \<and> t_created_by t = d_created_by d
           \<and> m \<in> set (users ts) \<and> t_assigned_to t = Some (u_id m) \<and> u_role m = Some MODERATOR"
      by (auto simp: debate_ok_def)
  qed
qed

theorem published_only_by_moderators_witness:
  "\<exists>t m. arg_ticket sample_tables (sample_argument 1 (Some 4) False) = Some t
     \<and> t_created_by t = a_created_by (sample_argument 1 (Some 4) False)
     \<and> m \<in> set (users sample_tables) \<and> t_assigned_to t = Some (u_id m) \<and> u_role m = Some MODERATOR"
proof -
  have "is_public sample_tables (sample_argument 1 (Some 4) False)" by code_simp
  moreover have "sample_argument 1 (Some 4) False \<in> set (arguments sample_tables)"
    by (simp add: sample_tables_def)
  moreover have "wtabs (sys_world \<lparr>sys_world = sample_world\<lparr>lost := False\<rparr>,
      sys_sessions = [bob_cookie]\<rparr>) = sample_tables" by simp
  ultimately show ?thesis
    using published_only_by_moderators[OF sample_reachable refl] by metis
qed

end
