(* ===== verification/Query_Codec.thy ===== *)
theory Query_Codec
  imports Debates_Query
begin

text \<open>
  How the filters of the debates page travel: the client turns them into a JSON object of strings,
  encodes its text with \<open>btoa\<close> and puts the result into the query string; the API reads the query
  parameter, decodes it with \<open>Buffer.from(q, "base64")\<close> and parses the text. The encodings of the
  standard libraries are defined here as far as the two sides use them: \<open>JSON.stringify\<close> and
  \<open>JSON.parse\<close> on an object whose members are strings, base64 on bytes, the plus sign of a query
  string.
\<close>

section \<open>Base64\<close>

definition b64_alphabet :: string where
  "b64_alphabet =
     ''ABCDEFGHIJKLMNOPQRSTUVWXYZabcdefghijklmnopqrstuvwxyz0123456789+/''"

definition b64_char :: "nat \<Rightarrow> char" where
  "b64_char n = b64_alphabet ! (n mod 64)"

text \<open>\<open>btoa\<close> on a string whose characters are all below 256.\<close>

fun b64_encode :: "nat list \<Rightarrow> string" where
  "b64_encode [] = []"
| "b64_encode [a] = [b64_char (a div 4), b64_char (a mod 4 * 16), CHR ''='', CHR ''='']"
| "b64_encode [a, b] =
     [b64_char (a div 4), b64_char (a mod 4 * 16 + b div 16), b64_char (b mod 16 * 4), CHR ''='']"
| "b64_encode (a # b # c # r) =
     b64_char (a div 4) # b64_char (a mod 4 * 16 + b div 16) # b64_char (b mod 16 * 4 + c div 64)
       # b64_char (c mod 64) # b64_encode r"

definition btoa :: "string \<Rightarrow> string" where
  "btoa s = b64_encode (map of_char s)"

text \<open>
  \<open>Buffer.from(s, "base64")\<close>: it stops at the padding, also reads the alphabet for file names,
  and skips every other character, blanks included.
\<close>

fun index_of :: "'a \<Rightarrow> 'a list \<Rightarrow> nat option" where
  "index_of x [] = None"
| "index_of x (y # ys) = (if x = y then Some 0 else map_option Suc (index_of x ys))"

definition b64_value :: "char \<Rightarrow> nat option" where
  "b64_value c =
     (if c = CHR ''-'' then Some 62 else if c = CHR ''_'' then Some 63
      else index_of c b64_alphabet)"

definition sextets :: "string \<Rightarrow> nat list" where
  "sextets s = List.map_filter b64_value (takeWhile (\<lambda>c. c \<noteq> CHR ''='') s)"

fun sextets_to_bytes :: "nat list \<Rightarrow> nat list" where
  "sextets_to_bytes (p # q # r # s # rest) =
     (p * 4 + q div 16) # (q mod 16 * 16 + r div 4) # (r mod 4 * 64 + s) # sextets_to_bytes rest"
| "sextets_to_bytes [p, q, r] = [p * 4 + q div 16, q mod 16 * 16 + r div 4]"
| "sextets_to_bytes [p, q] = [p * 4 + q div 16]"
| "sextets_to_bytes [p] = []"
| "sextets_to_bytes [] = []"

text \<open>
  \<open>toString()\<close> reads the bytes as UTF-8: ASCII bytes are their characters, and the parameter
  stands for the reading of any other sequence.
\<close>

definition buffer_to_string :: "(nat list \<Rightarrow> string) \<Rightarrow> nat list \<Rightarrow> string" where
  "buffer_to_string other bs = (if list_all (\<lambda>b. b < 128) bs then map char_of bs else other bs)"

text \<open>The query parser reads a plus sign as a blank; no character of base64 is an escape.\<close>

definition query_value :: "string \<Rightarrow> string" where
  "query_value = map (\<lambda>c. if c = CHR ''+'' then CHR '' '' else c)"

definition decode_text :: "(nat list \<Rightarrow> string) \<Rightarrow> string \<Rightarrow> string" where
  "decode_text other encodedQuery = buffer_to_string other (sextets_to_bytes (sextets encodedQuery))"

section \<open>JSON objects of strings\<close>

definition hex_digit :: "nat \<Rightarrow> char" where
  "hex_digit n = ''0123456789abcdef'' ! (n mod 16)"

definition hex_value :: "char \<Rightarrow> nat option" where
  "hex_value c = (case index_of c ''0123456789abcdef'' of
     Some n \<Rightarrow> Some n | None \<Rightarrow> map_option (\<lambda>n. n + 10) (index_of c ''ABCDEF''))"

definition quote_char :: char where
  "quote_char = CHR 0x22"

definition backslash :: char where
  "backslash = CHR 0x5C"

text \<open>The characters that have a short escape, with its letter.\<close>

definition short_escapes :: "(char \<times> char) list" where
  "short_escapes =
     [(CHR 0x08, CHR ''b''), (CHR 0x09, CHR ''t''), (CHR 0x0A, CHR ''n''), (CHR 0x0C, CHR ''f''),
      (CHR 0x0D, CHR ''r''), (CHR 0x22, CHR 0x22), (CHR 0x5C, CHR 0x5C)]"

definition escape_char :: "char \<Rightarrow> string" where
  "escape_char c =
     (case map_of short_escapes c of
        Some e \<Rightarrow> [backslash, e]
      | None \<Rightarrow>
          (if of_char c < (32 :: nat)
           then backslash # ''u00'' @ [hex_digit (of_char c div 16), hex_digit (of_char c mod 16)]
           else [c]))"

definition json_quote :: "string \<Rightarrow> string" where
  "json_quote s = quote_char # concat (map escape_char s) @ [quote_char]"

definition json_member :: "string \<times> string \<Rightarrow> string" where
  "json_member = (\<lambda>(k, v). json_quote k @ CHR '':'' # json_quote v)"

definition json_stringify :: "(string \<times> string) list \<Rightarrow> string" where
  "json_stringify kvs = CHR ''{'' # join_on CHR '','' (map json_member kvs) @ ''}''"

text \<open>Reading a string literal after its opening quote: its value and the rest of the text.\<close>

definition unescape_letter :: "char \<Rightarrow> char option" where
  "unescape_letter e =
     (if e = CHR ''/'' then Some e else map_of (map prod.swap short_escapes) e)"

definition unicode_escape :: "char \<Rightarrow> char \<Rightarrow> char \<Rightarrow> char \<Rightarrow> char option" where
  "unicode_escape h1 h2 h3 h4 =
     (case (hex_value h1, hex_value h2, hex_value h3, hex_value h4) of
        (Some 0, Some 0, Some x, Some y) \<Rightarrow> Some (char_of (16 * x + y))
      | _ \<Rightarrow> None)"

fun json_unquote :: "string \<Rightarrow> (string \<times> string) option" where
  "json_unquote [] = None"
| "json_unquote (c # s) =
     (if c = quote_char then Some ([], s)
      else if c = backslash then
        (case s of
           [] \<Rightarrow> None
         | e # s' \<Rightarrow>
             (if e = CHR ''u'' then
                (case s' of
                   h1 # h2 # h3 # h4 # r \<Rightarrow>
                     (case unicode_escape h1 h2 h3 h4 of
                        Some x \<Rightarrow> map_option (\<lambda>(v, r'). (x # v, r')) (json_unquote r)
                      | None \<Rightarrow> None)
                 | _ \<Rightarrow> None)
              else (case unescape_letter e of
                      Some x \<Rightarrow> map_option (\<lambda>(v, r'). (x # v, r')) (json_unquote s')
                    | None \<Rightarrow> None)))
      else if of_char c < (32 :: nat) then None
      else map_option (\<lambda>(v, r'). (c # v, r')) (json_unquote s))"

lemma json_unquote_shorter: "json_unquote s = Some (v, r) \<Longrightarrow> length r < length s"
  by (induction s arbitrary: v r rule: json_unquote.induct)
    (fastforce split: if_splits list.splits option.splits simp: less_Suc_eq)+

text \<open>The members after the opening brace or a comma.\<close>

function json_members :: "string \<Rightarrow> (string \<times> string) list option" where
  "json_members s =
     (case s of
        [] \<Rightarrow> None
      | q # s1 \<Rightarrow>
          (if q \<noteq> quote_char then None
           else (case json_unquote s1 of
                   Some (k, c # q2 # s2) \<Rightarrow>
                     (if c = CHR '':'' \<and> q2 = quote_char
                      then (case json_unquote s2 of
                              Some (v, e # r) \<Rightarrow>
                                (if e = CHR '','' then map_option (Cons (k, v)) (json_members r)
                                 else if e = CHR ''}'' \<and> r = [] then Some [(k, v)]
                                 else None)
                            | _ \<Rightarrow> None)
                      else None)
                 | _ \<Rightarrow> None)))"
  by auto
termination
  by (relation "measure length") (fastforce dest: json_unquote_shorter)+

declare json_members.simps [simp del]

definition json_parse_object :: "string \<Rightarrow> (string \<times> string) list option" where
  "json_parse_object s =
     (if s = ''{}'' then Some []
      else (case s of c # r \<Rightarrow> if c = CHR ''{'' then json_members r else None | [] \<Rightarrow> None))"

text \<open>
  The object as the pipe reads it: the last member with a key counts, and the members with further
  keys only make the object not empty.
\<close>

definition raw_filters_of :: "(string \<times> string) list \<Rightarrow> raw_filters" where
  "raw_filters_of kvs =
     \<lparr>rf_queryStr = map_of (rev kvs) ''queryStr'', rf_tags = map_of (rev kvs) ''tags'',
      rf_tags_match = map_of (rev kvs) ''tags_match'',
      rf_others = list_ex (\<lambda>(k, _). k \<notin> {''queryStr'', ''tags'', ''tags_match''}) kvs\<rparr>"

text \<open>
  The decoding of the pipe. The parameter \<open>other_json\<close> stands for what \<open>JSON.parse\<close> makes of a text
  that is not an object of strings without blanks, which the client never sends.
\<close>

definition decode_filters ::
  "(nat list \<Rightarrow> string) \<Rightarrow> (string \<Rightarrow> raw_filters option) \<Rightarrow> string \<Rightarrow> raw_filters option" where
  "decode_filters other other_json encodedQuery =
     (let decodedQuery = decode_text other encodedQuery
      in case json_parse_object decodedQuery of
           Some kvs \<Rightarrow> Some (raw_filters_of kvs)
         | None \<Rightarrow> other_json decodedQuery)"

section \<open>The client's side\<close>

text \<open>\<open>AppliedDebateFilters\<close> and \<open>fetchDebatesWithFilters\<close>, up to the address that is requested.\<close>

record applied_debate_filters =
  af_query :: "string option"
  af_tags :: "string list option"
  af_tags_match :: "string option"

definition query_params :: "applied_debate_filters \<Rightarrow> (string \<times> string) list" where
  "query_params filters =
     (case truthy (af_query filters) of Some q \<Rightarrow> [(''queryStr'', q)] | None \<Rightarrow> [])
     @ (case af_tags filters of Some ts \<Rightarrow> [(''tags'', join_on CHR '','' ts)] | None \<Rightarrow> [])
     @ (case truthy (af_tags_match filters) of Some m \<Rightarrow> [(''tags_match'', m)] | None \<Rightarrow> [])"

definition fetchDebatesWithFilters :: "applied_debate_filters \<Rightarrow> string" where
  "fetchDebatesWithFilters filters =
     ''/debates?q='' @ btoa (json_stringify (query_params filters))"

text \<open>The value that the API receives for the parameter \<open>q\<close> of a requested address.\<close>

definition received_q :: "string \<Rightarrow> string" where
  "received_q url = query_value (drop (length ''/debates?q='') url)"

text \<open>\<open>DebateFilters.applyFilters\<close>: the tag filter counts only while its panel is expanded.\<close>

datatype tags_strategy = Strategy_all | Strategy_any

fun strategy_value :: "tags_strategy \<Rightarrow> string" where
  "strategy_value Strategy_all = ''all''"
| "strategy_value Strategy_any = ''any''"

text \<open>\<open>None\<close> for the selected tags stands for a reference that is not mounted.\<close>

definition getFilterTags :: "string list option \<Rightarrow> string list option" where
  "getFilterTags selected = (case selected of None \<Rightarrow> None | Some [] \<Rightarrow> None | Some ts \<Rightarrow> Some ts)"

definition applyFilters ::
  "string option \<Rightarrow> bool \<Rightarrow> string list option \<Rightarrow> tags_strategy \<Rightarrow> applied_debate_filters" where
  "applyFilters inputValue shouldUseTagsFilter selected tagsMatchingStrategy =
     (if shouldUseTagsFilter
      then \<lparr>af_query = inputValue, af_tags = getFilterTags selected,
            af_tags_match = Some (strategy_value tagsMatchingStrategy)\<rparr>
      else \<lparr>af_query = inputValue, af_tags = None, af_tags_match = None\<rparr>)"

section \<open>The encodings are inverse to each other\<close>

lemma index_of_nth: "distinct xs \<Longrightarrow> i < length xs \<Longrightarrow> index_of (xs ! i) xs = Some i"
  by (induction xs arbitrary: i) (auto simp: nth_Cons' split: if_splits)

lemma index_of_None: "x \<notin> set xs \<Longrightarrow> index_of x xs = None"
  by (induction xs) auto

lemma b64_alphabet_facts:
  "distinct b64_alphabet" "length b64_alphabet = 64" "CHR ''='' \<notin> set b64_alphabet"
  "CHR ''-'' \<notin> set b64_alphabet" "CHR ''_'' \<notin> set b64_alphabet" "CHR '' '' \<notin> set b64_alphabet"
  "b64_alphabet ! 62 = CHR ''+''"
  by (simp_all add: b64_alphabet_def)

lemma b64_char_in: "b64_char n \<in> set b64_alphabet"
  by (simp add: b64_char_def b64_alphabet_facts(2))

lemma b64_char_not_special [simp]: "b64_char n \<noteq> CHR ''=''" "CHR ''='' \<noteq> b64_char n"
  using b64_char_in[of n] b64_alphabet_facts(3) by auto

lemma b64_value_char [simp]: "b64_value (b64_char n) = Some (n mod 64)"
proof -
  have "b64_char n \<noteq> CHR ''-''" and "b64_char n \<noteq> CHR ''_''"
    using b64_char_in[of n] b64_alphabet_facts(4,5) by auto
  moreover have "index_of (b64_char n) b64_alphabet = Some (n mod 64)"
    unfolding b64_char_def by (rule index_of_nth) (simp_all add: b64_alphabet_facts)
  ultimately show ?thesis by (simp add: b64_value_def)
qed

lemma b64_char_plus: "b64_char n = CHR ''+'' \<longleftrightarrow> n mod 64 = 62"
proof
  assume "b64_char n = CHR ''+''"
  moreover have "b64_value (CHR ''+'') = Some 62" by (simp add: b64_value_def b64_alphabet_def)
  ultimately show "n mod 64 = 62" using b64_value_char[of n] by simp
qed (simp add: b64_char_def b64_alphabet_facts(7))

lemma plus_b64_char: "CHR ''+'' = b64_char n \<longleftrightarrow> n mod 64 = 62"
  using b64_char_plus[of n] by auto

lemma sextets_simps [simp]:
  "sextets [] = []" "sextets (CHR ''='' # s) = []" "sextets (b64_char n # s) = n mod 64 # sextets s"
  by (simp_all add: sextets_def List.map_filter_simps)

definition bytes :: "nat list \<Rightarrow> bool" where
  "bytes bs \<longleftrightarrow> (\<forall>b \<in> set bs. b < 256)"

lemma bytes_simps [simp]: "bytes []" "bytes (b # bs) \<longleftrightarrow> b < 256 \<and> bytes bs"
  by (auto simp: bytes_def)

lemma bytes_of_string [simp]: "bytes (map of_char s)"
  by (simp add: bytes_def)

text \<open>Two digits of a mixed radix, put together and taken apart.\<close>

lemma pack: "l < k \<Longrightarrow> (h * k + l) div k = h" "l < k \<Longrightarrow> (h * k + l) mod k = (l :: nat)"
  by simp_all

lemma pack_less:
  assumes "h < m" and "l < (k :: nat)"
  shows "h * k + l < m * k"
proof -
  have "h * k + l < Suc h * k" using assms(2) by simp
  also have "\<dots> \<le> m * k" using assms(1) by (intro mult_le_mono1) simp
  finally show ?thesis .
qed

lemma pack64:
  assumes "h < m" and "l < (k :: nat)" and "m * k = 64"
  shows "(h * k + l) mod 64 div k = h" "(h * k + l) mod 64 mod k = l"
  using pack_less[OF assms(1,2)] pack[OF assms(2), of h] assms(3) by (simp_all only: mod_less)

lemma sextet_pieces:
  assumes "b < (256 :: nat)"
  shows "b div 4 < 64" "b div 16 < 16" "b div 64 < 4"
  using assms by auto

lemma mod_pieces: "b mod 4 < (4 :: nat)" "b mod 16 < (16 :: nat)"
  by simp_all

lemma first_byte:
  assumes "a < 256" and "b < 256"
  shows "(a div 4) mod 64 * 4 + (a mod 4 * 16 + b div 16) mod 64 div 16 = (a :: nat)"
  by (simp only: pack64(1)[OF mod_pieces(1) sextet_pieces(2)[OF assms(2)]]
      mod_less[OF sextet_pieces(1)[OF assms(1)]] div_mult_mod_eq)

lemma second_byte:
  assumes "b < 256" and "c < 256"
  shows "(a mod 4 * 16 + b div 16) mod 64 mod 16 * 16 + (b mod 16 * 4 + c div 64) mod 64 div 4
    = (b :: nat)"
  by (simp only: pack64(2)[OF mod_pieces(1) sextet_pieces(2)[OF assms(1)]]
      pack64(1)[OF mod_pieces(2) sextet_pieces(3)[OF assms(2)]] div_mult_mod_eq)

lemma third_byte:
  assumes "c < 256"
  shows "(b mod 16 * 4 + c div 64) mod 64 mod 4 * 64 + c mod 64 = (c :: nat)"
  by (simp only: pack64(2)[OF mod_pieces(2) sextet_pieces(3)[OF assms]] div_mult_mod_eq)

lemmas first_byte_alone = first_byte[of _ 0, simplified]
lemmas second_byte_alone = second_byte[of _ 0, simplified]

lemma b64_round_trip: "bytes bs \<Longrightarrow> sextets_to_bytes (sextets (b64_encode bs)) = bs"
  by (induction bs rule: b64_encode.induct)
    (simp_all add: first_byte first_byte_alone second_byte second_byte_alone third_byte)

text \<open>Where the encoding has a plus sign, and what the query parser then takes away.\<close>

fun third_bytes :: "nat list \<Rightarrow> nat list" where
  "third_bytes (a # b # c # r) = c # third_bytes r"
| "third_bytes _ = []"

lemma ascii_pieces:
  assumes "b < (128 :: nat)"
  shows "b div 4 < 32" "b div 16 < 8" "b div 64 < 2"
  using assms by auto

lemma not_plusI: "n mod 64 < 62 \<Longrightarrow> CHR ''+'' \<noteq> b64_char n"
  by (simp add: plus_b64_char)

text \<open>The first, the second and the third character of a group of ASCII bytes are never plus.\<close>

lemma no_plus_first: "a < 128 \<Longrightarrow> CHR ''+'' \<noteq> b64_char (a div 4)"
  using ascii_pieces(1)[of a] by (intro not_plusI) simp

lemma no_plus_second:
  assumes "b < 128"
  shows "CHR ''+'' \<noteq> b64_char (a mod 4 * 16 + b div 16)"
proof
  assume "CHR ''+'' = b64_char (a mod 4 * 16 + b div 16)"
  then have "(a mod 4 * 16 + b div 16) mod 64 = 62" by (simp only: plus_b64_char)
  moreover have "(a mod 4 * 16 + b div 16) mod 64 mod 16 = b div 16"
    by (rule pack64(2)[OF mod_pieces(1)]) (use ascii_pieces(2)[OF assms] in simp_all)
  ultimately show False using ascii_pieces(2)[OF assms] by simp
qed

lemma no_plus_third:
  assumes "c < 128"
  shows "CHR ''+'' \<noteq> b64_char (b mod 16 * 4 + c div 64)"
proof
  assume "CHR ''+'' = b64_char (b mod 16 * 4 + c div 64)"
  then have "(b mod 16 * 4 + c div 64) mod 64 = 62" by (simp only: plus_b64_char)
  moreover have "(b mod 16 * 4 + c div 64) mod 64 mod 4 = c div 64"
    by (rule pack64(2)[OF mod_pieces(2)]) (use ascii_pieces(3)[OF assms] in simp_all)
  ultimately show False using ascii_pieces(3)[OF assms] by simp
qed

lemmas no_plus_alone = no_plus_second[of 0, simplified] no_plus_third[of 0, simplified]

lemma plus_third_bytes:
  "list_all (\<lambda>b. b < 128) bs \<Longrightarrow>
    CHR ''+'' \<in> set (b64_encode bs) \<longleftrightarrow> (\<exists>b \<in> set (third_bytes bs). b mod 64 = 62)"
proof (induction bs rule: b64_encode.induct)
  case (4 a b c r)
  then have "CHR ''+'' \<noteq> b64_char (a div 4)" "CHR ''+'' \<noteq> b64_char (a mod 4 * 16 + b div 16)"
    "CHR ''+'' \<noteq> b64_char (b mod 16 * 4 + c div 64)"
    by (simp_all add: no_plus_first no_plus_second no_plus_third)
  moreover have "CHR ''+'' = b64_char (c mod 64) \<longleftrightarrow> c mod 64 = 62" by (simp add: plus_b64_char)
  ultimately show ?case using 4 by simp
qed (simp_all add: no_plus_first no_plus_second no_plus_alone)

lemma length_sextets_to_bytes: "length (sextets_to_bytes xs) = length xs * 3 div 4"
  by (induction xs rule: sextets_to_bytes.induct) auto

lemma length_sextets_encode: "length (sextets (b64_encode bs)) = (length bs * 4 + 2) div 3"
  by (induction bs rule: b64_encode.induct) auto

lemma sextets_blank [simp]: "sextets (CHR '' '' # s) = sextets s"
  by (simp add: sextets_def List.map_filter_simps b64_value_def b64_alphabet_def)

lemma query_value_simps [simp]:
  "query_value [] = []" "query_value (CHR ''='' # s) = CHR ''='' # query_value s"
  "query_value (b64_char n # s) = (if n mod 64 = 62 then CHR '' '' else b64_char n) # query_value s"
  by (simp_all add: query_value_def b64_char_plus)

lemma length_sextets_query:
  "length (sextets (query_value (b64_encode bs)))
    + length (filter (\<lambda>c. c = CHR ''+'') (b64_encode bs)) = length (sextets (b64_encode bs))"
  by (induction bs rule: b64_encode.induct) (simp_all add: b64_char_plus)

lemma query_value_id: "CHR ''+'' \<notin> set s \<Longrightarrow> query_value s = s"
  by (induction s) (auto simp: query_value_def)

lemma blank_shortens:
  "CHR ''+'' \<in> set (b64_encode bs) \<Longrightarrow>
    length (sextets_to_bytes (sextets (query_value (b64_encode bs)))) < length bs"
proof -
  assume "CHR ''+'' \<in> set (b64_encode bs)"
  then have "filter (\<lambda>c. c = CHR ''+'') (b64_encode bs) \<noteq> []" by (auto simp: filter_empty_conv)
  then have "0 < length (filter (\<lambda>c. c = CHR ''+'') (b64_encode bs))" by simp
  with length_sextets_query[of bs] length_sextets_encode[of bs]
  have "length (sextets (query_value (b64_encode bs))) < (length bs * 4 + 2) div 3" by linarith
  then show ?thesis by (simp only: length_sextets_to_bytes)
qed

section \<open>Reading the JSON text back\<close>

lemma hex_value_digit [simp]: "hex_value (hex_digit n) = Some (n mod 16)"
proof -
  have "index_of (''0123456789abcdef'' ! (n mod 16)) ''0123456789abcdef'' = Some (n mod 16)"
    by (rule index_of_nth) simp_all
  then show ?thesis by (simp add: hex_value_def hex_digit_def)
qed

lemma escape_simps:
  "escape_char c = (if c = CHR 0x08 then [backslash, CHR ''b''] else if c = CHR 0x09 then [backslash, CHR ''t'']
     else if c = CHR 0x0A then [backslash, CHR ''n''] else if c = CHR 0x0C then [backslash, CHR ''f'']
     else if c = CHR 0x0D then [backslash, CHR ''r''] else if c = quote_char then [backslash, quote_char]
     else if c = backslash then [backslash, backslash]
     else if of_char c < (32 :: nat)
     then backslash # ''u00'' @ [hex_digit (of_char c div 16), hex_digit (of_char c mod 16)]
     else [c])"
  by (simp add: escape_char_def short_escapes_def quote_char_def backslash_def)

lemma unquote_steps:
  "json_unquote (quote_char # s) = Some ([], s)"
  "e \<noteq> CHR ''u'' \<Longrightarrow> unescape_letter e = Some x \<Longrightarrow>
    json_unquote (backslash # e # s) = map_option (\<lambda>(v, r). (x # v, r)) (json_unquote s)"
  "unicode_escape h1 h2 h3 h4 = Some x \<Longrightarrow>
    json_unquote (backslash # CHR ''u'' # h1 # h2 # h3 # h4 # s)
      = map_option (\<lambda>(v, r). (x # v, r)) (json_unquote s)"
  "c \<noteq> quote_char \<Longrightarrow> c \<noteq> backslash \<Longrightarrow> \<not> of_char c < (32 :: nat) \<Longrightarrow>
    json_unquote (c # s) = map_option (\<lambda>(v, r). (c # v, r)) (json_unquote s)"
  by (simp_all add: quote_char_def backslash_def)

declare json_unquote.simps(2) [simp del]

lemma unescape_letters:
  "unescape_letter (CHR ''b'') = Some (CHR 0x08)" "unescape_letter (CHR ''t'') = Some (CHR 0x09)"
  "unescape_letter (CHR ''n'') = Some (CHR 0x0A)" "unescape_letter (CHR ''f'') = Some (CHR 0x0C)"
  "unescape_letter (CHR ''r'') = Some (CHR 0x0D)" "unescape_letter quote_char = Some quote_char"
  "unescape_letter backslash = Some backslash"
  by (simp_all add: unescape_letter_def short_escapes_def quote_char_def backslash_def)

lemma escape_cases:
  "(\<exists>e. escape_char c = [backslash, e] \<and> e \<noteq> CHR ''u'' \<and> unescape_letter e = Some c)
   \<or> of_char c < (32 :: nat) \<and> escape_char c =
       backslash # ''u00'' @ [hex_digit (of_char c div 16), hex_digit (of_char c mod 16)]
   \<or> c \<noteq> quote_char \<and> c \<noteq> backslash \<and> \<not> of_char c < (32 :: nat) \<and> escape_char c = [c]"
  unfolding escape_simps
  by (simp add: unescape_letters, simp add: quote_char_def backslash_def)

lemma unquote_escape:
  "json_unquote (escape_char c @ s) = map_option (\<lambda>(v, r). (c # v, r)) (json_unquote s)"
proof -
  consider (short) e where "escape_char c = [backslash, e]" "e \<noteq> CHR ''u''" "unescape_letter e = Some c"
    | (hex) "of_char c < (32 :: nat)" "escape_char c =
       backslash # ''u00'' @ [hex_digit (of_char c div 16), hex_digit (of_char c mod 16)]"
    | (plain) "c \<noteq> quote_char" "c \<noteq> backslash" "\<not> of_char c < (32 :: nat)" "escape_char c = [c]"
    using escape_cases[of c] by blast
  then show ?thesis
  proof cases
    case hex
    then have "of_char c div 16 < (16 :: nat)" by auto
    then have "unicode_escape (CHR ''0'') (CHR ''0'') (hex_digit (of_char c div 16))
        (hex_digit (of_char c mod 16)) = Some c"
      by (simp add: unicode_escape_def hex_value_def[of "CHR ''0''"])
    with hex show ?thesis by (simp add: unquote_steps)
  qed (simp_all add: unquote_steps)
qed

lemma unquote_quote [simp]:
  "json_unquote (concat (map escape_char s) @ quote_char # r) = Some (s, r)"
  by (induction s) (simp_all add: unquote_escape unquote_steps)

lemma json_quote_append: "json_quote s @ r = quote_char # concat (map escape_char s) @ quote_char # r"
  by (simp add: json_quote_def)

lemma members_last:
  "json_members (json_member (k, v) @ ''}'') = Some [(k, v)]"
  by (subst json_members.simps) (simp add: json_member_def json_quote_append json_quote_def)

lemma members_more:
  "json_members (json_member (k, v) @ CHR '','' # r) = map_option (Cons (k, v)) (json_members r)"
  by (subst json_members.simps) (simp add: json_member_def json_quote_append json_quote_def)

lemma json_round_trip: "json_parse_object (json_stringify kvs) = Some kvs"
proof (cases kvs)
  case Nil
  then show ?thesis by (simp add: json_stringify_def json_parse_object_def)
next
  case (Cons p ps)
  have "json_members (join_on CHR '','' (map json_member (p # ps)) @ ''}'') = Some (p # ps)"
  proof (induction ps arbitrary: p)
    case Nil
    then show ?case by (cases p) (simp add: members_last)
  next
    case (Cons q qs)
    then show ?case by (cases p) (simp add: members_more)
  qed
  moreover have "json_member p \<noteq> ''}'' " by (cases p) (simp add: json_member_def json_quote_def)
  ultimately show ?thesis using Cons
    by (cases ps) (simp_all add: json_stringify_def json_parse_object_def json_member_def json_quote_def
        split: prod.splits)
qed

end
