(* ===== verification/Search.thy ===== *)
theory Search
  imports Query_Codec
begin

text \<open>
  Searching from the debates page, end to end: the filters of the form, their way through the
  address and the query pipe, and the debates the API answers. The text of the form is restricted
  to the characters that arrive unchanged; which ones do not is the first result.
\<close>

section \<open>What arrives of a text\<close>

definition ascii :: "string \<Rightarrow> bool" where
  "ascii s \<longleftrightarrow> list_all (\<lambda>c. of_char c < (128 :: nat)) s"

text \<open>The bytes the API reads for a text the client encodes.\<close>

definition received_bytes :: "string \<Rightarrow> nat list" where
  "received_bytes t = sextets_to_bytes (sextets (query_value (btoa t)))"

lemma received_unchanged_iff:
  "ascii t \<Longrightarrow> received_bytes t = map of_char t \<longleftrightarrow> CHR ''+'' \<notin> set (btoa t)"
  using blank_shortens[of "map of_char t"] b64_round_trip[of "map of_char t"]
  by (auto simp: received_bytes_def btoa_def query_value_id)

lemma set_third_bytes: "set (third_bytes bs) = {bs ! (3 * i + 2) |i. 3 * i + 2 < length bs}"
proof (induction bs rule: third_bytes.induct)
  case (1 a b c r)
  have "{(a # b # c # r) ! (3 * i + 2) |i. 3 * i + 2 < length (a # b # c # r)}
      = insert c {r ! (3 * i + 2) |i. 3 * i + 2 < length r}" (is "?L = ?R")
  proof
    show "?L \<subseteq> ?R"
    proof
      fix x
      assume "x \<in> ?L"
      then obtain i where "x = (a # b # c # r) ! (3 * i + 2)" "3 * i + 2 < length (a # b # c # r)"
        by blast
      then show "x \<in> ?R" by (cases i) auto
    qed
    have "c = (a # b # c # r) ! (3 * 0 + 2)" by simp
    moreover have "r ! (3 * i + 2) = (a # b # c # r) ! (3 * Suc i + 2)" for i by simp
    ultimately show "?R \<subseteq> ?L" by fastforce
  qed
  with 1 show ?case by simp
qed auto

lemma mod_64_ascii: "b < 128 \<Longrightarrow> b mod 64 = 62 \<longleftrightarrow> b = 62 \<or> b = (126 :: nat)"
proof -
  assume "b < 128"
  then have "b mod 64 = (if b < 64 then b else b - 64)" by (simp add: mod_if)
  then show ?thesis by auto
qed

lemma of_char_eq: "of_char c = (62 :: nat) \<longleftrightarrow> c = CHR ''>''" "of_char c = (126 :: nat) \<longleftrightarrow> c = CHR ''~''"
  using inj_of_char[where ?'a = nat, THEN inj_eq, of c "CHR ''>''"]
    inj_of_char[where ?'a = nat, THEN inj_eq, of c "CHR ''~''"] by simp_all

text \<open>The client does not escape the encoded text, so that the API reads each plus sign of it as a
  blank and skips it: an ASCII text arrives unchanged if and only if none of its characters at a
  position 2, 5, 8 and so on is a greater-than sign or a tilde.\<close>

theorem text_arrives_iff:
  assumes "ascii t"
  shows "received_bytes t = map of_char t \<longleftrightarrow>
    (\<forall>i. 3 * i + 2 < length t \<longrightarrow> t ! (3 * i + 2) \<notin> {CHR ''>'', CHR ''~''})"
proof -
  have "list_all (\<lambda>b. b < 128) (map of_char t :: nat list)"
    using assms by (simp add: ascii_def list.pred_map comp_def)
  moreover from this have "b < 128" if "b \<in> set (third_bytes (map of_char t))" for b :: nat
    using that by (auto simp: set_third_bytes list_all_iff)
  ultimately have "CHR ''+'' \<in> set (btoa t) \<longleftrightarrow>
      (\<exists>b \<in> set (third_bytes (map of_char t)). b = 62 \<or> b = (126 :: nat))"
    by (auto simp: btoa_def plus_third_bytes mod_64_ascii)
  also have "\<dots> \<longleftrightarrow> (\<exists>i. 3 * i + 2 < length t \<and> t ! (3 * i + 2) \<in> {CHR ''>'', CHR ''~''})"
    by (auto simp: set_third_bytes of_char_eq)
  finally show ?thesis using received_unchanged_iff[OF assms] by blast
qed

theorem text_arrives_iff_witness:
  "received_bytes ''{\"queryStr\":\"x~\"}'' \<noteq> map of_char ''{\"queryStr\":\"x~\"}''"
proof -
  have "\<not> (\<forall>i. 3 * i + 2 < length ''{\"queryStr\":\"x~\"}'' \<longrightarrow>
      ''{\"queryStr\":\"x~\"}'' ! (3 * i + 2) \<notin> {CHR ''>'', CHR ''~''})"
    by (auto intro: exI[of _ 4])
  moreover have "ascii ''{\"queryStr\":\"x~\"}''" by (simp add: ascii_def)
  ultimately show ?thesis using text_arrives_iff by blast
qed

section \<open>The filters arrive\<close>

text \<open>The characters that arrive unchanged wherever they stand.\<close>

definition plain_char :: "char \<Rightarrow> bool" where
  "plain_char c \<longleftrightarrow> of_char c < (128 :: nat) \<and> c \<noteq> CHR ''>'' \<and> c \<noteq> CHR ''~''"

definition plain_text :: "string \<Rightarrow> bool" where
  "plain_text s \<longleftrightarrow> list_all plain_char s"

lemma plain_text_simps [simp]:
  "plain_text []" "plain_text (c # s) \<longleftrightarrow> plain_char c \<and> plain_text s"
  "plain_text (s @ t) \<longleftrightarrow> plain_text s \<and> plain_text t"
  by (simp_all add: plain_text_def)

lemma plain_text_set: "plain_text s \<longleftrightarrow> (\<forall>c \<in> set s. plain_char c)"
  by (simp add: plain_text_def list_all_iff)

lemma plain_hex_digit: "plain_char (hex_digit n)"
proof -
  have "hex_digit n \<in> set ''0123456789abcdef''"
    unfolding hex_digit_def by (rule nth_mem) simp
  then show ?thesis by (auto simp: plain_char_def)
qed

lemma plain_escape: "plain_char c \<Longrightarrow> plain_text (escape_char c)"
  by (simp add: escape_simps plain_hex_digit, simp add: plain_char_def backslash_def quote_char_def)

lemma plain_quote: "plain_text s \<Longrightarrow> plain_text (json_quote s)"
proof -
  assume "plain_text s"
  then have "plain_text (concat (map escape_char s))" by (induction s) (simp_all add: plain_escape)
  then show ?thesis by (simp add: json_quote_def) (simp add: plain_char_def quote_char_def)
qed

lemma plain_join: "plain_char c \<Longrightarrow> \<forall>x \<in> set xs. plain_text x \<Longrightarrow> plain_text (join_on c xs)"
  by (induction c xs rule: join_on.induct) auto

lemma plain_member: "plain_text k \<Longrightarrow> plain_text v \<Longrightarrow> plain_text (json_member (k, v))"
  by (simp add: json_member_def plain_quote) (simp add: plain_char_def)

lemma plain_stringify:
  assumes "\<forall>(k, v) \<in> set kvs. plain_text k \<and> plain_text v"
  shows "plain_text (json_stringify kvs)"
proof -
  have "\<forall>x \<in> set (map json_member kvs). plain_text x" using assms plain_member by auto
  then have "plain_text (join_on CHR '','' (map json_member kvs))"
    by (intro plain_join) (simp_all add: plain_char_def)
  then show ?thesis by (simp add: json_stringify_def plain_char_def)
qed

lemma plain_received: "plain_text t \<Longrightarrow> decode_text other (query_value (btoa t)) = t"
proof -
  assume plain: "plain_text t"
  then have ascii: "list_all (\<lambda>b. b < 128) (map of_char t :: nat list)"
    by (auto simp: plain_text_set plain_char_def list_all_iff)
  have "b mod 64 \<noteq> 62" if "b \<in> set (third_bytes (map of_char t))" for b :: nat
    using that plain ascii
    by (fastforce simp: set_third_bytes plain_text_set plain_char_def mod_64_ascii of_char_eq list_all_iff)
  then have "query_value (btoa t) = btoa t"
    using plus_third_bytes[OF ascii] by (intro query_value_id) (auto simp: btoa_def)
  with ascii show ?thesis
    by (simp add: decode_text_def btoa_def b64_round_trip buffer_to_string_def comp_def)
qed

lemma plain_int_to_string: "plain_text (int_to_string i)"
proof -
  have "plain_text (nat_to_string n)" for n
    using nat_to_string_digits[of _ n] by (fastforce simp: plain_text_set plain_char_def)
  then show ?thesis by (simp add: int_to_string_def plain_char_def)
qed

lemma btoa_Nil_iff: "btoa t = [] \<longleftrightarrow> t = []"
  by (cases "map of_char t :: nat list" rule: b64_encode.cases) (auto simp: btoa_def)

lemma received_q_fetch:
  "received_q (fetchDebatesWithFilters f) = query_value (btoa (json_stringify (query_params f)))"
  by (simp add: received_q_def fetchDebatesWithFilters_def)

lemma decoded_filters:
  assumes "\<forall>(k, v) \<in> set (query_params f). plain_text k \<and> plain_text v"
  shows "decode_filters other other_json (received_q (fetchDebatesWithFilters f))
    = Some (raw_filters_of (query_params f))"
  using plain_received[OF plain_stringify[OF assms]]
  by (simp add: decode_filters_def received_q_fetch json_round_trip)

text \<open>What the form asks for.\<close>

fun strategy_of :: "tags_strategy \<Rightarrow> tags_matching_strategy" where
  "strategy_of Strategy_all = TM_ALL"
| "strategy_of Strategy_any = TM_ANY"

definition requested_filters ::
  "string option \<Rightarrow> bool \<Rightarrow> string list option \<Rightarrow> tags_strategy \<Rightarrow> filters option" where
  "requested_filters input expanded selected strategy =
     (if truthy input = None \<and> \<not> expanded then None
      else Some \<lparr>f_queryStr = truthy input,
             f_tags = (if expanded
                       then map_option (\<lambda>ts. (join_on CHR '','' ts, strategy_of strategy))
                         (getFilterTags selected)
                       else None)\<rparr>)"

lemma truthy_SomeD: "truthy s = Some t \<Longrightarrow> s = Some t \<and> t \<noteq> []"
  by (auto simp: truthy_def split: option.splits list.splits)

lemma truthy_nonempty: "t \<noteq> [] \<Longrightarrow> truthy (Some t) = Some t"
  by (cases t) (simp_all add: truthy_def)

lemma query_params_cases:
  "(k, v) \<in> set (query_params f) \<Longrightarrow>
    k = ''queryStr'' \<and> truthy (af_query f) = Some v
    \<or> k = ''tags'' \<and> (\<exists>ts. af_tags f = Some ts \<and> v = join_on CHR '','' ts)
    \<or> k = ''tags_match'' \<and> truthy (af_tags_match f) = Some v"
  by (cases "truthy (af_query f)"; cases "af_tags f"; cases "truthy (af_tags_match f)")
    (auto simp: query_params_def)

lemma truthy_None [simp]: "truthy None = None"
  by (simp add: truthy_def)

lemma truthy_again: "truthy s = Some t \<Longrightarrow> truthy (Some t) = Some t"
  using truthy_SomeD truthy_nonempty by blast

lemma truthy_strategy: "truthy (Some (strategy_value m)) = Some (strategy_value m)"
  by (cases m) (simp_all add: truthy_def)

lemma strategy_map: "tagsMatchingStrategyMap (Some (strategy_value m)) = Some (strategy_of m)"
  by (cases m) simp_all

text \<open>The object the pipe reads when it gets what the form asks for.\<close>

lemma raw_filters_applied:
  "raw_filters_of (query_params (applyFilters input expanded selected strategy)) =
     \<lparr>rf_queryStr = truthy input,
      rf_tags = (if expanded then map_option (join_on CHR '','') (getFilterTags selected) else None),
      rf_tags_match = (if expanded then Some (strategy_value strategy) else None),
      rf_others = False\<rparr>"
  by (cases "truthy input"; cases "getFilterTags selected"; cases expanded)
    (simp_all add: raw_filters_of_def query_params_def applyFilters_def truthy_strategy)

lemma params_plain:
  assumes "\<And>s. input = Some s \<Longrightarrow> plain_text s"
    and "\<And>ts. selected = Some ts \<Longrightarrow> \<forall>t \<in> set ts. plain_text t \<and> t \<noteq> []"
  shows "\<forall>(k, v) \<in> set (query_params (applyFilters input expanded selected strategy)).
    plain_text k \<and> plain_text v"
proof -
  have keys: "plain_text ''queryStr''" "plain_text ''tags''" "plain_text ''tags_match''"
    "plain_text (strategy_value strategy)" "plain_char CHR '',''"
    by (cases strategy; simp add: plain_char_def)+
  have input: "plain_text s" if "truthy input = Some s" for s
    using truthy_SomeD[OF that] assms(1) by blast
  have tags: "plain_text (join_on CHR '','' ts)" if "getFilterTags selected = Some ts" for ts
  proof -
    have "selected = Some ts"
      using that by (simp add: getFilterTags_def split: option.splits list.splits)
    then show ?thesis using assms(2) keys plain_join by blast
  qed
  show ?thesis
    by (cases "truthy input"; cases "getFilterTags selected"; cases expanded)
      (simp_all only: query_params_def applyFilters_def applied_debate_filters.simps if_True if_False
        truthy_strategy truthy_idem option.case append.simps list.set ball_simps case_prod_conv keys
        input tags empty_iff simp_thms, simp_all add: keys)
qed

lemma transform_applied:
  assumes "\<And>s. input = Some s \<Longrightarrow> plain_text s"
    and "\<And>ts. selected = Some ts \<Longrightarrow> \<forall>t \<in> set ts. plain_text t \<and> t \<noteq> []"
  shows "debates_query_transform (decode_filters other other_json)
      (Some (received_q (fetchDebatesWithFilters (applyFilters input expanded selected strategy))))
    = Inr (requested_filters input expanded selected strategy)"
proof -
  let ?q = "received_q (fetchDebatesWithFilters (applyFilters input expanded selected strategy))"
  have decoded: "decode_filters other other_json ?q
      = Some (raw_filters_of (query_params (applyFilters input expanded selected strategy)))"
    by (rule decoded_filters, rule params_plain) (use assms in auto)
  have "?q \<noteq> []"
    by (simp add: received_q_fetch query_value_def btoa_Nil_iff json_stringify_def)
  then have q: "truthy (Some ?q) = Some ?q" by (rule truthy_nonempty)
  have tags: "truthy (Some (join_on CHR '','' ts)) = Some (join_on CHR '','' ts)"
    if "getFilterTags selected = Some ts" for ts
    using that assms(2)
    by (intro truthy_nonempty)
      (auto simp: getFilterTags_def join_on_Nil_iff split: option.splits list.splits)
  show ?thesis
    unfolding debates_query_transform_def q option.case decoded raw_filters_applied
    using tags strategy_map[of strategy]
    by (cases "truthy input"; cases "getFilterTags selected"; cases expanded)
      (simp_all add: requested_filters_def Let_def truthy_again)
qed

section \<open>The answer\<close>

text \<open>C21: the filters of the form arrive as they were chosen: a text and a list of tag identifiers of
  plain characters, with the strategy, or no filter when there is neither a text nor an expanded
  panel. An expanded panel without a selected tag and without a text arrives as an object without
  filters.\<close>

theorem filters_round_trip:
  assumes "\<And>s. input = Some s \<Longrightarrow> plain_text s"
    and "\<And>ts. selected = Some ts \<Longrightarrow> \<forall>t \<in> set ts. plain_text t \<and> t \<noteq> []"
  shows "debates_query_transform (decode_filters other other_json)
      (Some (received_q (fetchDebatesWithFilters (applyFilters input expanded selected strategy))))
    = Inr (requested_filters input expanded selected strategy)"
  by (rule transform_applied) (use assms in auto)

theorem filters_round_trip_witness:
  "debates_query_transform (decode_filters (\<lambda>_. []) (\<lambda>_. None))
      (Some (received_q (fetchDebatesWithFilters
        (applyFilters (Some ''a \"b\"'') True (Some [''1'', ''20'']) Strategy_all))))
    = Inr (requested_filters (Some ''a \"b\"'') True (Some [''1'', ''20'']) Strategy_all)"
  by (rule filters_round_trip) (auto simp: plain_char_def)

text \<open>A run of the handler without a failure.\<close>

lemma handle_getAll_run:
  assumes "debates_query_transform decode q = Inr fl" and "txn w = NoTxn" and "faults w = []"
    and "case fl of None \<Rightarrow> c = None | Some f \<Rightarrow> \<exists>p. applyDebateFilters f = Inr p \<and> c = Some p"
    and "select_debates c (pg w) = (Inr rows, pg w)"
  shows "handle_getAll decode q w = (Inr (map debate_to_json rows), w\<lparr>lost := False\<rparr>)"
  using assms
  by (auto simp: handle_getAll_def getAll_def map_svc_def sq_run bnd_run pool_connect_def
      next_fault_def try_finally_def try_catch_def query_def exchange_def run_stmt_def
      release_def ret_def split: option.splits)

text \<open>What the form asks of a debate, on its title and the identifiers of its tags.\<close>

definition asked ::
  "tables \<Rightarrow> string option \<Rightarrow> bool \<Rightarrow> int list \<Rightarrow> tags_strategy \<Rightarrow> debate_row \<Rightarrow> bool" where
  "asked ts input expanded ids strategy d \<longleftrightarrow>
     (case truthy input of None \<Rightarrow> True | Some s \<Rightarrow> sublist (lower s) (lower (d_title d)))
     \<and> (expanded \<and> ids \<noteq> [] \<longrightarrow>
          (case strategy of
             Strategy_any \<Rightarrow> set ids \<inter> dt_id ` set (tags_of ts (d_id d)) \<noteq> {}
           | Strategy_all \<Rightarrow> set ids = dt_id ` set (tags_of ts (d_id d))))"

lemma getFilterTags_map:
  "getFilterTags (Some (map f ids)) = (if ids = [] then None else Some (map f ids))"
  by (cases ids) (simp_all add: getFilterTags_def)

lemma array_ids [simp]:
  "string_to_array CHR '','' (join_on CHR '','' (map int_to_string ids)) = map int_to_string ids"
  by (rule string_to_array_join_on) simp

lemma listing_row_ids:
  "string_to_array CHR '','' (dl_tags_ids (listing_row ts d))
    = map int_to_string (map dt_id (tags_of ts (d_id d)))"
  unfolding listing_row_def Let_def
  using array_ids[of "map dt_id (tags_of ts (d_id d))"] by (simp add: agg_ids_def comp_def)

lemma inj_int_to_string: "inj int_to_string"
  by (rule injI) simp

text \<open>The tags that count: those of an expanded panel with a selection.\<close>

definition chosen_tags :: "bool \<Rightarrow> int list \<Rightarrow> tags_strategy \<Rightarrow> (string \<times> tags_matching_strategy) option" where
  "chosen_tags expanded ids strategy =
     (if expanded \<and> ids \<noteq> []
      then Some (join_on CHR '','' (map int_to_string ids), strategy_of strategy) else None)"

lemma requested_Some:
  "requested_filters input expanded (Some (map int_to_string ids)) strategy = Some f \<Longrightarrow>
    f = \<lparr>f_queryStr = truthy input, f_tags = chosen_tags expanded ids strategy\<rparr>"
  by (auto simp: requested_filters_def getFilterTags_map chosen_tags_def split: if_splits)

lemma chosen_tags_match:
  "tags_match (chosen_tags expanded ids strategy) (int_to_string ` own) \<longleftrightarrow>
     (expanded \<and> ids \<noteq> [] \<longrightarrow>
        (case strategy of Strategy_any \<Rightarrow> set ids \<inter> own \<noteq> {} | Strategy_all \<Rightarrow> set ids = own))"
proof -
  have "int_to_string ` set ids \<inter> int_to_string ` own = {} \<longleftrightarrow> set ids \<inter> own = {}"
    and "int_to_string ` set ids = int_to_string ` own \<longleftrightarrow> set ids = own"
    by (simp_all only: image_Int[OF inj_int_to_string, symmetric] image_is_empty
        inj_image_eq_iff[OF inj_int_to_string])
  then show ?thesis
    by (cases expanded; cases "ids = []"; cases strategy)
      (simp_all add: tags_match_def chosen_tags_def)
qed

lemma requested_matches:
  assumes "requested_filters input expanded (Some (map int_to_string ids)) strategy = Some f"
  shows "matches_filters f (listing_row ts d) \<longleftrightarrow> asked ts input expanded ids strategy d"
proof -
  have own: "set (string_to_array CHR '','' (dl_tags_ids (listing_row ts d)))
      = int_to_string ` dt_id ` set (tags_of ts (d_id d))"
    by (simp add: listing_row_ids image_image)
  have title: "dl_title (listing_row ts d) = d_title d" by (simp add: listing_row_def Let_def)
  show ?thesis
    unfolding matches_filters_def requested_Some[OF assms] filters.simps own title
      chosen_tags_match asked_def truthy_idem title_matches_def by (rule refl)
qed

text \<open>The rows that the filters of the form select, in one condition or without one.\<close>

lemma searched_rows:
  fixes ids input expanded strategy ts
  defines "fl \<equiv> requested_filters input expanded (Some (map int_to_string ids)) strategy"
  assumes "schema_ok db"
    and "\<And>s. input = Some s \<Longrightarrow> plain_text s \<and> plain_pattern s"
    and "truthy input \<noteq> None \<or> ids \<noteq> [] \<or> \<not> expanded"
  obtains c where "case fl of None \<Rightarrow> c = None | Some f \<Rightarrow> \<exists>p. applyDebateFilters f = Inr p \<and> c = Some p"
    and "select_debates c db = (Inr (map (listing_row (tabs db)) (filter (\<lambda>d. listed (tabs db) d
      \<and> asked (tabs db) input expanded ids strategy d) (debates (tabs db)))), db)"
proof -
  have listing: "debates_listing (tabs db) = map (listing_row (tabs db)) (filter (listed (tabs db)) (debates (tabs db)))"
    using debates_listing_eq schema_tables_ok assms(2) by blast
  show thesis
  proof (cases fl)
    case None
    then have "asked (tabs db) input expanded ids strategy d" for d
      by (simp add: fl_def requested_filters_def asked_def split: if_splits)
    then show thesis
      using that[of None] None by (simp add: select_debates_def select_stmt_def listing)
  next
    case (Some f)
    note req = Some[unfolded fl_def]
    note f_eq = requested_Some[OF req]
    have f: "f_queryStr f = truthy input" "no_other_strategy f"
      by (cases strategy; simp add: f_eq no_other_strategy_def chosen_tags_def)+
    have "some_filter f"
      using assms(4) req
      by (auto simp: f_eq some_filter_def chosen_tags_def requested_filters_def split: if_splits)
    then obtain p where p: "applyDebateFilters f = Inr p" using applyDebateFilters_Inr by blast
    have "plain_pattern q" if "f_queryStr f = Some q" for q
      using that f(1) assms(3) truthy_SomeD by metis
    then have "select_debates (Some p) db = (Inr (filter (matches_filters f) (debates_listing (tabs db))), db)"
      using select_debates_apply[OF p f(2)] by simp
    then show thesis
      using that[of "Some p"] p Some
      by (simp add: listing filter_map comp_def requested_matches[OF req] conj_commute filter_filter)
  qed
qed

text \<open>Searching from the page answers, in table order, exactly the accepted debates with a tag
  whose title contains the text, ignoring case, and, while the tag panel is expanded and a tag is
  selected, whose tags meet or equal the selected ones.\<close>

lemma search_debates:
  assumes "schema_ok (pg w)" and "txn w = NoTxn" and "faults w = []"
    and "\<And>s. input = Some s \<Longrightarrow> plain_text s \<and> plain_pattern s"
    and "truthy input \<noteq> None \<or> ids \<noteq> [] \<or> \<not> expanded"
  shows "handle_getAll (decode_filters other other_json)
        (Some (received_q (fetchDebatesWithFilters
          (applyFilters input expanded (Some (map int_to_string ids)) strategy)))) w
      = (Inr (map debate_to_json (map (listing_row (wtabs w)) (filter (\<lambda>d. listed (wtabs w) d
        \<and> asked (wtabs w) input expanded ids strategy d) (debates (wtabs w))))), w\<lparr>lost := False\<rparr>)"
proof -
  let ?ts = "wtabs w"
  let ?fl = "requested_filters input expanded (Some (map int_to_string ids)) strategy"
  have fl: "debates_query_transform (decode_filters other other_json)
      (Some (received_q (fetchDebatesWithFilters
        (applyFilters input expanded (Some (map int_to_string ids)) strategy)))) = Inr ?fl"
    by (rule transform_applied) (use assms(4) in \<open>auto simp: plain_int_to_string\<close>)
  obtain c where c: "case ?fl of None \<Rightarrow> c = None | Some f \<Rightarrow> \<exists>p. applyDebateFilters f = Inr p \<and> c = Some p"
    and rows: "select_debates c (pg w) = (Inr (map (listing_row ?ts)
      (filter (\<lambda>d. listed ?ts d \<and> asked ?ts input expanded ids strategy d) (debates ?ts))), pg w)"
    by (rule searched_rows[OF assms(1,4,5)])
  from handle_getAll_run[OF fl assms(2,3) c rows] show ?thesis .
qed

text \<open>Applying the filters with the tag panel expanded, no tag selected and no text is an object
  without filters: the listing fails with a type error and its client never returns to the pool.\<close>

theorem empty_filter_leak:
  assumes "faults w = []" and "truthy input = None" and "\<And>s. input = Some s \<Longrightarrow> plain_text s"
    and "getFilterTags selected = None"
  shows "\<exists>w'. handle_getAll (decode_filters other other_json)
        (Some (received_q (fetchDebatesWithFilters (applyFilters input True selected strategy)))) w
      = (Inl TypeError, w') \<and> checked_out w' = checked_out w + 1"
proof -
  have "debates_query_transform (decode_filters other other_json)
      (Some (received_q (fetchDebatesWithFilters (applyFilters input True selected strategy))))
    = Inr (requested_filters input True selected strategy)"
    by (rule transform_applied)
      (use assms in \<open>auto simp: getFilterTags_def split: list.splits\<close>)
  then show ?thesis
    using assms(1,2,4)
    by (simp add: handle_getAll_def requested_filters_def getAll_def map_svc_def sq_run bnd_run
        pool_connect_def next_fault_def applyDebateFilters_def raise_def)
qed

theorem empty_filter_leak_witness:
  "\<exists>w'. handle_getAll (decode_filters (\<lambda>_. []) (\<lambda>_. None))
        (Some (received_q (fetchDebatesWithFilters (applyFilters (Some []) True (Some []) Strategy_any))))
        sample_world
      = (Inl TypeError, w') \<and> checked_out w' = checked_out sample_world + 1"
  by (rule empty_filter_leak) (simp_all add: truthy_def getFilterTags_def)

end
