(* ===== verification/Client_Tags.thy ===== *)
theory Client_Tags
  imports Search Events
begin

text \<open>
  The tag picker of the client (\<open>Tags.tsx\<close>): the selected identifiers, the tags it knows and the
  keys of the tags created in it, with the handlers of the multi-select as operations; the tags
  that the debates page offers; and the payload of a new debate. Every reachable state of the
  picker finds each selected tag, so that reading the selection never meets a missing one.
\<close>

section \<open>State and operations\<close>

text \<open>An identifier is the string the API answers or the number \<open>Date.now()\<close> gives a created tag.\<close>

record client_tag =
  ct_id :: jsval
  ct_name :: string

text \<open>The object \<open>createdTagsIds\<close> by its keys: its values are all true.\<close>

record tags_state =
  ts_selected :: "jsval list"
  ts_tags :: "client_tag list"
  ts_created :: "string set"

definition initial_tags :: "client_tag list \<Rightarrow> tags_state" where
  "initial_tags tags = \<lparr>ts_selected = [], ts_tags = tags, ts_created = {}\<rparr>"

definition find_tag :: "client_tag list \<Rightarrow> jsval \<Rightarrow> client_tag option" where
  "find_tag tags i = find (\<lambda>dt. ct_id dt = i) tags"

definition is_created :: "tags_state \<Rightarrow> jsval \<Rightarrow> bool" where
  "is_created s i \<longleftrightarrow> template_number i \<in> ts_created s"

text \<open>
  \<open>getSelectedTags\<close>: a missing existing tag is undefined in the answer, the name of a missing
  created one is a type error.
\<close>

definition getSelectedTags :: "tags_state \<Rightarrow> js_error + client_tag option list \<times> string list" where
  "getSelectedTags s =
     (let existing = map (find_tag (ts_tags s)) (filter (\<lambda>i. \<not> is_created s i) (ts_selected s));
          created = map (find_tag (ts_tags s)) (filter (is_created s) (ts_selected s))
      in if None \<in> set created then Inl TypeError
         else Inr (existing, map (ct_name \<circ> the) created))"

definition handleItemSelect :: "client_tag \<Rightarrow> tags_state \<Rightarrow> tags_state" where
  "handleItemSelect tag s =
     (let doesTagExist = find_tag (ts_tags s) (ct_id tag) \<noteq> None;
          isItemSelected = ct_id tag \<in> set (ts_selected s)
      in \<lparr>ts_selected = (if isItemSelected
                         then filter (\<lambda>tId. tId \<noteq> ct_id tag) (ts_selected s)
                         else ts_selected s @ [ct_id tag]),
          ts_tags = (if doesTagExist then ts_tags s else ts_tags s @ [tag]),
          ts_created = (if doesTagExist then ts_created s
                        else insert (template_number (ct_id tag)) (ts_created s))\<rparr>)"

definition deselectTag :: "nat \<Rightarrow> tags_state \<Rightarrow> tags_state" where
  "deselectTag tagIdx s =
     s\<lparr>ts_selected := map snd (filter (\<lambda>(idx, _). idx \<noteq> tagIdx) (enumerate 0 (ts_selected s)))\<rparr>"

definition handleOnClear :: "client_tag list \<Rightarrow> tags_state \<Rightarrow> tags_state" where
  "handleOnClear tags s = \<lparr>ts_selected = [], ts_tags = tags, ts_created = {}\<rparr>"

definition createTag :: "int \<Rightarrow> string \<Rightarrow> client_tag" where
  "createTag clock typed = \<lparr>ct_id = JNum clock, ct_name = typed\<rparr>"

text \<open>The predicate of the list: a blank query keeps every tag.\<close>

definition filterTag :: "string \<Rightarrow> client_tag \<Rightarrow> bool" where
  "filterTag typed tag = sublist (lower typed) (lower (ct_name tag))"

definition areTagsEqual :: "client_tag \<Rightarrow> client_tag \<Rightarrow> bool" where
  "areTagsEqual tag1 tag2 \<longleftrightarrow> lower (ct_name tag1) = lower (ct_name tag2)"

text \<open>
  The tags that \<open>DebatesClient\<close> offers: those of all debates, each identifier once. The loop keeps
  the set \<open>uniqueTagIds\<close>.
\<close>

fun unique_tags :: "jsval set \<Rightarrow> client_tag list \<Rightarrow> client_tag list" where
  "unique_tags uniqueTagIds [] = []"
| "unique_tags uniqueTagIds (t # ts) =
     (if ct_id t \<in> uniqueTagIds then unique_tags uniqueTagIds ts
      else t # unique_tags (insert (ct_id t) uniqueTagIds) ts)"

definition page_tags :: "client_tag list list \<Rightarrow> client_tag list" where
  "page_tags tagsOfDebates = unique_tags {} (concat tagsOfDebates)"

text \<open>\<open>onNewDebateSubmit\<close>: the payload of the request, a type error for a missing tag.\<close>

record create_debate_data =
  cdd_title :: string
  cdd_tagsIds :: "jsval list"
  cdd_createdTags :: "string list"

definition onNewDebateSubmit :: "string \<Rightarrow> tags_state \<Rightarrow> js_error + create_debate_data" where
  "onNewDebateSubmit title s =
     (case getSelectedTags s of
        Inl e \<Rightarrow> Inl e
      | Inr (tags, createdTags) \<Rightarrow>
          (if None \<in> set tags then Inl TypeError
           else Inr \<lparr>cdd_title = title, cdd_tagsIds = map (ct_id \<circ> the) tags,
                  cdd_createdTags = createdTags\<rparr>))"

section \<open>The reachable states\<close>

text \<open>
  What the multi-select can do: pick one of its items, pick a created one when creating is allowed
  (its number is new), remove a selected one, clear. Clearing reads the
  tags the page offers then, which \<open>base\<close> follows.
\<close>

definition good_tags :: "client_tag list \<Rightarrow> bool" where
  "good_tags tags \<longleftrightarrow> distinct (map (template_number \<circ> ct_id) tags)"

definition fresh_number :: "int \<Rightarrow> tags_state \<Rightarrow> bool" where
  "fresh_number clock s \<longleftrightarrow> int_to_string clock \<notin> template_number ` ct_id ` set (ts_tags s)"

inductive picker :: "bool \<Rightarrow> client_tag list \<Rightarrow> tags_state \<Rightarrow> bool" for canCreate where
  picker_initial: "good_tags tags \<Longrightarrow> picker canCreate tags (initial_tags tags)"
| picker_select: "picker canCreate base s \<Longrightarrow> t \<in> set (ts_tags s) \<Longrightarrow>
    picker canCreate base (handleItemSelect t s)"
| picker_create: "picker canCreate base s \<Longrightarrow> canCreate \<Longrightarrow> fresh_number clock s \<Longrightarrow>
    picker canCreate base (handleItemSelect (createTag clock typed) s)"
| picker_deselect: "picker canCreate base s \<Longrightarrow> picker canCreate base (deselectTag i s)"
| picker_clear: "picker canCreate base s \<Longrightarrow> good_tags tags \<Longrightarrow>
    picker canCreate tags (handleOnClear tags s)"

definition picker_inv :: "bool \<Rightarrow> client_tag list \<Rightarrow> tags_state \<Rightarrow> bool" where
  "picker_inv canCreate base s \<longleftrightarrow>
     distinct (ts_selected s) \<and> set (ts_selected s) \<subseteq> ct_id ` set (ts_tags s)
     \<and> good_tags (ts_tags s)
     \<and> (\<exists>created. ts_tags s = base @ created
          \<and> ts_created s = template_number ` ct_id ` set created
          \<and> (\<not> canCreate \<longrightarrow> created = []))"

lemma find_tag_Some: "i \<in> ct_id ` set tags \<Longrightarrow> \<exists>t \<in> set tags. find_tag tags i = Some t \<and> ct_id t = i"
  by (induction tags) (auto simp: find_tag_def)

lemma find_tag_None: "find_tag tags i = None \<longleftrightarrow> i \<notin> ct_id ` set tags"
  by (auto simp: find_tag_def find_None_iff)

lemma good_tags_inj: "good_tags tags \<Longrightarrow> inj_on (template_number \<circ> ct_id) (set tags)"
  by (simp add: good_tags_def distinct_map)

lemma select_existing_inv:
  assumes "picker_inv canCreate base s" and "t \<in> set (ts_tags s)"
  shows "picker_inv canCreate base (handleItemSelect t s)"
proof -
  have "find_tag (ts_tags s) (ct_id t) \<noteq> None" using assms(2) by (simp add: find_tag_None)
  with assms show ?thesis by (auto simp: picker_inv_def handleItemSelect_def Let_def)
qed

lemma select_created_inv:
  assumes "picker_inv canCreate base s" and "canCreate" and "fresh_number clock s"
  shows "picker_inv canCreate base (handleItemSelect (createTag clock typed) s)"
proof -
  let ?t = "createTag clock typed"
  have id: "ct_id ?t = JNum clock" by (simp add: createTag_def)
  have "JNum clock \<notin> ct_id ` set (ts_tags s)" using assms(3) unfolding fresh_number_def
    by (metis image_eqI template_number.simps(3))
  then have new: "find_tag (ts_tags s) (ct_id ?t) = None" "JNum clock \<notin> set (ts_selected s)"
    using assms(1) by (auto simp: find_tag_None id picker_inv_def)
  obtain created where c: "ts_tags s = base @ created"
      "ts_created s = template_number ` ct_id ` set created"
    using assms(1) by (auto simp: picker_inv_def)
  have "good_tags (ts_tags s @ [?t])"
    using assms(1,3) by (auto simp: picker_inv_def good_tags_def fresh_number_def id image_image)
  moreover have "ts_tags (handleItemSelect ?t s) = base @ created @ [?t]"
    and "ts_created (handleItemSelect ?t s) = template_number ` ct_id ` set (created @ [?t])"
    using new c by (simp_all add: handleItemSelect_def)
  ultimately show ?thesis
    using assms(1,2) new c
    by (auto simp: picker_inv_def handleItemSelect_def Let_def id intro!: exI[of _ "created @ [?t]"])
qed

lemma snd_enumerate_subset: "set (map snd (filter P (enumerate n xs))) \<subseteq> set xs"
proof -
  have "set (map snd (filter P (enumerate n xs))) \<subseteq> set (map snd (enumerate n xs))"
    by (simp only: set_map set_filter) blast
  then show ?thesis by (simp only: map_snd_enumerate)
qed

lemma snd_enumerate_distinct: "distinct xs \<Longrightarrow> distinct (map snd (filter P (enumerate n xs)))"
proof (induction xs arbitrary: n)
  case (Cons x xs)
  then show ?case using snd_enumerate_subset[of P "Suc n" xs] by auto
qed simp

lemma deselect_inv:
  assumes "picker_inv canCreate base s"
  shows "picker_inv canCreate base (deselectTag i s)"
proof -
  have "ts_tags (deselectTag i s) = ts_tags s" "ts_created (deselectTag i s) = ts_created s"
    by (simp_all add: deselectTag_def)
  moreover have "set (ts_selected (deselectTag i s)) \<subseteq> set (ts_selected s)"
    using snd_enumerate_subset[of "\<lambda>(idx, _). idx \<noteq> i" 0 "ts_selected s"]
    by (simp add: deselectTag_def)
  moreover have "distinct (ts_selected s) \<Longrightarrow> distinct (ts_selected (deselectTag i s))"
    using snd_enumerate_distinct[of "ts_selected s" "\<lambda>(idx, _). idx \<noteq> i" 0]
    by (simp add: deselectTag_def)
  ultimately show ?thesis using assms unfolding picker_inv_def by auto
qed

lemma picker_invariant: "picker canCreate base s \<Longrightarrow> picker_inv canCreate base s"
proof (induction rule: picker.induct)
  case (picker_initial tags)
  then show ?case by (simp add: picker_inv_def initial_tags_def)
next
  case (picker_clear base s tags)
  then show ?case by (simp add: picker_inv_def handleOnClear_def)
qed (simp_all add: select_existing_inv select_created_inv deselect_inv)

text \<open>In a state with the invariant the keys of the created tags are exactly those not offered.\<close>

lemma created_iff:
  assumes "picker_inv canCreate base s" and "i \<in> ct_id ` set (ts_tags s)"
  shows "is_created s i \<longleftrightarrow> i \<notin> ct_id ` set base"
proof -
  obtain created where c: "ts_tags s = base @ created"
      "ts_created s = template_number ` ct_id ` set created"
    using assms(1) by (auto simp: picker_inv_def)
  have good: "good_tags (base @ created)" using assms(1) c by (simp add: picker_inv_def)
  have "template_number (ct_id a) \<noteq> template_number (ct_id b)" if "a \<in> set base" "b \<in> set created" for a b
    using good that by (auto simp: good_tags_def)
  with assms(2) c show ?thesis by (auto simp: is_created_def)
qed

lemma map_find_tag:
  assumes "set ids \<subseteq> ct_id ` set tags"
  shows "\<exists>ts. map (find_tag tags) ids = map Some ts \<and> map ct_id ts = ids \<and> set ts \<subseteq> set tags"
  using assms
proof (induction ids)
  case (Cons i ids)
  then obtain ts where ts: "map (find_tag tags) ids = map Some ts" "map ct_id ts = ids"
    "set ts \<subseteq> set tags" by auto
  obtain t where "t \<in> set tags" "find_tag tags i = Some t" "ct_id t = i"
    using find_tag_Some[of i tags] Cons.prems by auto
  with ts have "map (find_tag tags) (i # ids) = map Some (t # ts) \<and> map ct_id (t # ts) = i # ids
      \<and> set (t # ts) \<subseteq> set tags" by simp
  then show ?case by (rule exI)
qed simp

text \<open>The selection splits into offered and created tags, and each is found.\<close>

lemma selection_split:
  assumes "picker_inv canCreate base s"
  shows "\<exists>ts cs. getSelectedTags s = Inr (map Some ts, map ct_name cs)
    \<and> map ct_id ts = filter (\<lambda>i. i \<in> ct_id ` set base) (ts_selected s) \<and> set ts \<subseteq> set base
    \<and> map ct_id cs = filter (\<lambda>i. i \<notin> ct_id ` set base) (ts_selected s) \<and> set cs \<subseteq> set (ts_tags s)"
proof -
  note inv = assms[unfolded picker_inv_def]
  have created: "is_created s i \<longleftrightarrow> i \<notin> ct_id ` set base" if "i \<in> set (ts_selected s)" for i
    using created_iff[OF assms] inv that by blast
  have split: "filter (is_created s) (ts_selected s) = filter (\<lambda>i. i \<notin> ct_id ` set base) (ts_selected s)"
    "filter (\<lambda>i. \<not> is_created s i) (ts_selected s) = filter (\<lambda>i. i \<in> ct_id ` set base) (ts_selected s)"
    using created by (auto intro: filter_cong)
  have known: "set (filter P (ts_selected s)) \<subseteq> ct_id ` set (ts_tags s)" for P
    using inv by auto
  obtain ts where ts: "map (find_tag (ts_tags s)) (filter (\<lambda>i. i \<in> ct_id ` set base) (ts_selected s))
      = map Some ts" "map ct_id ts = filter (\<lambda>i. i \<in> ct_id ` set base) (ts_selected s)"
      "set ts \<subseteq> set (ts_tags s)"
    using map_find_tag[OF known] by blast
  obtain cs where cs: "map (find_tag (ts_tags s)) (filter (\<lambda>i. i \<notin> ct_id ` set base) (ts_selected s))
      = map Some cs" "map ct_id cs = filter (\<lambda>i. i \<notin> ct_id ` set base) (ts_selected s)"
      "set cs \<subseteq> set (ts_tags s)"
    using map_find_tag[OF known] by blast
  have "t \<in> set base" if "t \<in> set ts" for t
  proof -
    have "ct_id t \<in> set (map ct_id ts)" using that by simp
    then have "ct_id t \<in> ct_id ` set base" by (simp only: ts(2)) simp
    then obtain b where b: "b \<in> set base" "ct_id b = ct_id t" by auto
    have "b \<in> set (ts_tags s)" using b(1) inv by auto
    moreover have "inj_on (template_number \<circ> ct_id) (set (ts_tags s))"
      using inv good_tags_inj by blast
    ultimately have "b = t" using that ts(3) b(2) by (metis comp_apply inj_onD subsetD)
    with b(1) show ?thesis by simp
  qed
  moreover have "getSelectedTags s = Inr (map Some ts, map ct_name cs)"
    unfolding getSelectedTags_def split ts(1) cs(1) by (simp add: Let_def comp_def)
  ultimately show ?thesis using ts cs by blast
qed

text \<open>The tags of the page: each identifier once, none left out.\<close>

lemma unique_tags_facts:
  "ct_id ` set (unique_tags seen ts) = ct_id ` set ts - seen
   \<and> distinct (map ct_id (unique_tags seen ts)) \<and> set (unique_tags seen ts) \<subseteq> set ts"
  by (induction seen ts rule: unique_tags.induct) auto

lemma page_tags_good:
  assumes "\<forall>t \<in> set (concat tagss). \<exists>i. ct_id t = JStr i"
  shows "good_tags (page_tags tagss)" and "ct_id ` set (page_tags tagss) = ct_id ` set (concat tagss)"
proof -
  have "distinct (map ct_id (page_tags tagss))" and sub: "set (page_tags tagss) \<subseteq> set (concat tagss)"
    unfolding page_tags_def using unique_tags_facts by blast+
  moreover have "inj_on template_number (ct_id ` set (page_tags tagss))"
  proof (rule inj_onI)
    fix i j
    assume "i \<in> ct_id ` set (page_tags tagss)" "j \<in> ct_id ` set (page_tags tagss)"
      "template_number i = template_number j"
    moreover from this obtain a b where "i = JStr a" "j = JStr b" using assms sub by blast
    ultimately show "i = j" by simp
  qed
  ultimately show "good_tags (page_tags tagss)"
    unfolding good_tags_def by (simp add: distinct_map comp_inj_on)
  show "ct_id ` set (page_tags tagss) = ct_id ` set (concat tagss)"
    unfolding page_tags_def using unique_tags_facts by blast
qed



end
