(* ===== verification/Client_Debate.thy ===== *)
theory Client_Debate
  imports Public_View Events
begin

text \<open>
  The page of one debate in the client: the transformation of the answer (\<open>get-debate.dto.ts\<close>), the
  store slice of the current debate (\<open>debates.slice.ts\<close>) and the component \<open>DebatePageClient\<close> as a
  state machine over its hooks: the thread of inspected arguments with its history, the two columns
  and the arguments being read. A read answers later than it was asked for and works on the
  arguments of the render that asked, which the model keeps with each pending read.
\<close>

section \<open>The arguments of the page\<close>

record client_arg =
  ca_id :: int
  ca_title :: string
  ca_content :: "string option"
  ca_type :: "argument_type option"
  ca_username :: string
  ca_counterargument_to :: "int option"
  ca_counterarguments :: "int list option"

text \<open>Reading an argument of the answer; the API sends an identifier with each.\<close>

definition client_arg_of :: "arg_data \<Rightarrow> client_arg" where
  "client_arg_of a =
     \<lparr>ca_id = the (ag_argument_id a), ca_title = the (ag_title a), ca_content = ag_content a,
      ca_type = ag_argument_type a, ca_username = the (ag_username a),
      ca_counterargument_to = ag_counterargument_to a, ca_counterarguments = None\<rparr>"

text \<open>
  \<open>getDebateDTO\<close>: the loop fills a map from an argument to those that counter it, in their order;
  an argument that counters none, or zero, is skipped.
\<close>

definition add_counterargument :: "client_arg \<Rightarrow> (int \<Rightarrow> int list option) \<Rightarrow> int \<Rightarrow> int list option" where
  "add_counterargument arg argsWithCounterargs =
     (case ca_counterargument_to arg of
        None \<Rightarrow> argsWithCounterargs
      | Some counterargumentId \<Rightarrow>
          (if counterargumentId = 0 then argsWithCounterargs
           else argsWithCounterargs(counterargumentId \<mapsto>
             (case argsWithCounterargs counterargumentId of None \<Rightarrow> [] | Some ids \<Rightarrow> ids)
               @ [ca_id arg])))"

definition getDebateDTO :: "client_arg list \<Rightarrow> client_arg list" where
  "getDebateDTO args =
     (if args = [] then args
      else let argsWithCounterargs = fold add_counterargument args Map.empty
           in map (\<lambda>a. a\<lparr>ca_counterarguments := argsWithCounterargs (ca_id a)\<rparr>) args)"

text \<open>\<open>getCorrespondingCounterargumentType\<close>: undefined for an unknown argument.\<close>

definition getCorrespondingCounterargumentType :: "client_arg option \<Rightarrow> argument_type option" where
  "getCorrespondingCounterargumentType arg =
     (case arg of
        None \<Rightarrow> None
      | Some a \<Rightarrow> if ca_type a = Some PRO then Some CON else Some PRO)"

section \<open>The store slice\<close>

record current_debate =
  cd_args :: "client_arg list"
  cd_debate_id :: int
  cd_debate_title :: string
  cd_expanded :: "int list option"

type_synonym 'd debates_list = "'d list option"

record 'd debates_state =
  dbs_list :: "'d debates_list"
  dbs_crtDebate :: "current_debate option"

definition initial_debates :: "'d debates_state" where
  "initial_debates = \<lparr>dbs_list = None, dbs_crtDebate = None\<rparr>"

definition setDebates :: "'d debates_list \<Rightarrow> 'd debates_state \<Rightarrow> 'd debates_state" where
  "setDebates payload state = state\<lparr>dbs_list := payload\<rparr>"

definition setCurrentDebate :: "current_debate option \<Rightarrow> 'd debates_state \<Rightarrow> 'd debates_state" where
  "setCurrentDebate payload state =
     state\<lparr>dbs_crtDebate := map_option (\<lambda>d. d\<lparr>cd_expanded := Some []\<rparr>) payload\<rparr>"

definition update_expanded ::
  "(int list \<Rightarrow> int list) \<Rightarrow> 'd debates_state \<Rightarrow> 'd debates_state" where
  "update_expanded f state =
     (case dbs_crtDebate state of
        None \<Rightarrow> state
      | Some d \<Rightarrow>
          (case cd_expanded d of
             None \<Rightarrow> state
           | Some ids \<Rightarrow> state\<lparr>dbs_crtDebate := Some (d\<lparr>cd_expanded := Some (f ids)\<rparr>)\<rparr>))"

definition addExpandedArgumentID :: "int \<Rightarrow> 'd debates_state \<Rightarrow> 'd debates_state" where
  "addExpandedArgumentID i = update_expanded (\<lambda>ids. ids @ [i])"

definition removeExpandedArgumentID :: "int \<Rightarrow> 'd debates_state \<Rightarrow> 'd debates_state" where
  "removeExpandedArgumentID i = update_expanded (filter (\<lambda>j. j \<noteq> i))"

definition selectExpandedArgumentsIDs :: "'d debates_state \<Rightarrow> int list option" where
  "selectExpandedArgumentsIDs state =
     (case dbs_crtDebate state of None \<Rightarrow> None | Some d \<Rightarrow> cd_expanded d)"

section \<open>The component\<close>

text \<open>The hooks of \<open>DebatePageClient\<close>, the store, and the pending reads with their arguments.\<close>

record 'd debate_page =
  dp_store :: "'d debates_state"
  dp_inspected :: "int option"
  dp_history :: "int list"
  dp_detailed :: "client_arg list"
  dp_reads :: "(int \<times> client_arg list) list"

definition find_arg :: "client_arg list \<Rightarrow> int \<Rightarrow> client_arg option" where
  "find_arg args i = find (\<lambda>a. ca_id a = i) args"

text \<open>Mounting: the debate is set in the store, no argument is inspected.\<close>

definition mount_page :: "current_debate \<Rightarrow> 'd debates_state \<Rightarrow> 'd debate_page" where
  "mount_page debateInfo store =
     \<lparr>dp_store = setCurrentDebate (Some debateInfo) store, dp_inspected = None, dp_history = [],
      dp_detailed = cd_args debateInfo, dp_reads = []\<rparr>"

definition expandedArgumentsIDs :: "'d debate_page \<Rightarrow> int set" where
  "expandedArgumentsIDs s =
     (case selectExpandedArgumentsIDs (dp_store s) of None \<Rightarrow> {} | Some ids \<Rightarrow> set ids)"

text \<open>No argument is inspected when the identifier is null or zero.\<close>

definition inspected_id :: "'d debate_page \<Rightarrow> int option" where
  "inspected_id s =
     (case dp_inspected s of Some i \<Rightarrow> if i = 0 then None else Some i | None \<Rightarrow> None)"

definition inspectedCounterargsOfArgument :: "'d debate_page \<Rightarrow> client_arg option" where
  "inspectedCounterargsOfArgument s =
     (case inspected_id s of None \<Rightarrow> None | Some i \<Rightarrow> find_arg (dp_detailed s) i)"

fun index_where :: "('a \<Rightarrow> bool) \<Rightarrow> 'a list \<Rightarrow> nat option" where
  "index_where P [] = None"
| "index_where P (x # xs) = (if P x then Some 0 else map_option Suc (index_where P xs))"

definition inspectCounterargumentsOf :: "client_arg \<Rightarrow> 'd debate_page \<Rightarrow> 'd debate_page" where
  "inspectCounterargumentsOf arg s =
     (if dp_inspected s = Some (ca_id arg) then s
      else s\<lparr>dp_inspected := Some (ca_id arg),
             dp_history :=
               (case index_where (\<lambda>i. i = ca_id arg) (dp_history s) of
                  Some historyIdx \<Rightarrow> take (historyIdx + 1) (dp_history s)
                | None \<Rightarrow> dp_history s @ [ca_id arg])\<rparr>)"

definition disableInspectCounterargumentsMode :: "'d debate_page \<Rightarrow> 'd debate_page" where
  "disableInspectCounterargumentsMode s = s\<lparr>dp_inspected := None, dp_history := []\<rparr>"

text \<open>
  A column, of one type. While a thread is open but its argument is not found, the column holds the
  arguments whose \<open>counterargumentTo\<close> is undefined, which is none, as the API sends null.
\<close>

definition column :: "argument_type \<Rightarrow> 'd debate_page \<Rightarrow> client_arg list" where
  "column ty s =
     (case inspected_id s of
        None \<Rightarrow> filter (\<lambda>a. ca_type a = Some ty) (dp_detailed s)
      | Some i \<Rightarrow>
          (case inspectedCounterargsOfArgument s of
             None \<Rightarrow> []
           | Some b \<Rightarrow>
               (if ca_type b = Some ty then [b]
                else filter (\<lambda>a. ca_type a = Some ty \<and> ca_counterargument_to a = Some (ca_id b))
                       (dp_detailed s))))"

definition pros :: "'d debate_page \<Rightarrow> client_arg list" where
  "pros = column PRO"

definition cons :: "'d debate_page \<Rightarrow> client_arg list" where
  "cons = column CON"

text \<open>A breadcrumb: its text, its identifier and, when the argument is known, the argument it opens.\<close>

definition historyBreadcrumbItems :: "'d debate_page \<Rightarrow> (string \<times> int \<times> client_arg option) list" where
  "historyBreadcrumbItems s =
     map (\<lambda>i. case find_arg (dp_detailed s) i of
                None \<Rightarrow> (''Unknown argument'', i, None)
              | Some arg \<Rightarrow> (ca_title arg, ca_id arg, Some arg)) (dp_history s)"

text \<open>The menu entry that opens a thread is disabled without counterarguments and in its own thread.\<close>

definition shouldDisableCounterargsButton :: "client_arg \<Rightarrow> 'd debate_page \<Rightarrow> bool" where
  "shouldDisableCounterargsButton arg s \<longleftrightarrow>
     (case ca_counterarguments arg of None \<Rightarrow> True | Some ids \<Rightarrow> ids = [])
     \<or> dp_inspected s = Some (ca_id arg)"

definition onCollapseArgument :: "int \<Rightarrow> 'd debate_page \<Rightarrow> 'd debate_page" where
  "onCollapseArgument argId s = s\<lparr>dp_store := removeExpandedArgumentID argId (dp_store s)\<rparr>"

text \<open>\<open>onReadArgument\<close> up to the request; nothing happens on a page without a numeric identifier.\<close>

definition onReadArgument :: "bool \<Rightarrow> int \<Rightarrow> 'd debate_page \<Rightarrow> 'd debate_page" where
  "onReadArgument numericId argId s =
     (if argId \<in> expandedArgumentsIDs s \<or> \<not> numericId then s
      else s\<lparr>dp_reads := dp_reads s @ [(argId, dp_detailed s)]\<rparr>)"

text \<open>The continuation of the read at a position of the pending ones, with the fetched content.\<close>

definition read_answered :: "nat \<Rightarrow> string option \<Rightarrow> 'd debate_page \<Rightarrow> 'd debate_page" where
  "read_answered k content s =
     (let (argId, detailedArgs) = dp_reads s ! k
      in s\<lparr>dp_store := addExpandedArgumentID argId (dp_store s),
           dp_detailed := map (\<lambda>a. if ca_id a \<noteq> argId then a else a\<lparr>ca_content := content\<rparr>)
             detailedArgs,
           dp_reads := take k (dp_reads s) @ drop (k + 1) (dp_reads s)\<rparr>)"

definition read_failed :: "nat \<Rightarrow> 'd debate_page \<Rightarrow> 'd debate_page" where
  "read_failed k s = s\<lparr>dp_reads := take k (dp_reads s) @ drop (k + 1) (dp_reads s)\<rparr>"

text \<open>The links of the page.\<close>

definition addCounterargument :: "string \<Rightarrow> client_arg \<Rightarrow> string" where
  "addCounterargument pathname arg =
     pathname @ ''/new-argument?counterargumentId='' @ int_to_string (ca_id arg)"

definition redirectToNewArgumentPage :: "string \<Rightarrow> string" where
  "redirectToNewArgumentPage pathname = pathname @ ''/new-argument''"

section \<open>Steps of the page\<close>

inductive page_step :: "'d debate_page \<Rightarrow> 'd debate_page \<Rightarrow> bool" where
  step_inspect: "arg \<in> set (dp_detailed s) \<Longrightarrow> page_step s (inspectCounterargumentsOf arg s)"
| step_disable: "page_step s (disableInspectCounterargumentsMode s)"
| step_collapse: "page_step s (onCollapseArgument i s)"
| step_read: "page_step s (onReadArgument numericId i s)"
| step_answered: "k < length (dp_reads s) \<Longrightarrow> page_step s (read_answered k content s)"
| step_failed: "k < length (dp_reads s) \<Longrightarrow> page_step s (read_failed k s)"

definition frame :: "client_arg \<Rightarrow> client_arg" where
  "frame a = a\<lparr>ca_content := None\<rparr>"

text \<open>Everything of the arguments but their content stays as it was mounted.\<close>

definition page_args :: "client_arg list \<Rightarrow> 'd debate_page \<Rightarrow> bool" where
  "page_args args s \<longleftrightarrow> map frame (dp_detailed s) = map frame args
     \<and> (\<forall>r \<in> set (dp_reads s). map frame (snd r) = map frame args)"

definition thread_inv :: "'d debate_page \<Rightarrow> bool" where
  "thread_inv s \<longleftrightarrow> distinct (dp_history s)
     \<and> dp_inspected s = (if dp_history s = [] then None else Some (last (dp_history s)))
     \<and> set (dp_history s) \<subseteq> ca_id ` set (dp_detailed s)"

lemma frame_ids: "map frame xs = map frame ys \<Longrightarrow> map ca_id xs = map ca_id ys"
proof -
  have "ca_id = ca_id \<circ> frame" by (simp add: fun_eq_iff frame_def)
  then show "map frame xs = map frame ys \<Longrightarrow> map ca_id xs = map ca_id ys"
    by (metis list.map_comp)
qed

lemma frame_content [simp]:
  "map (frame \<circ> (\<lambda>a. if P a then a else a\<lparr>ca_content := c\<rparr>)) xs = map frame xs"
  by (simp add: frame_def)

lemma index_where_Some:
  "index_where P xs = Some k \<Longrightarrow> k < length xs \<and> P (xs ! k)"
  by (induction xs arbitrary: k) (auto split: if_splits)

lemma index_where_None: "index_where P xs = None \<longleftrightarrow> (\<forall>x \<in> set xs. \<not> P x)"
  by (induction xs) auto

lemma find_arg_known:
  "i \<in> ca_id ` set args \<Longrightarrow> \<exists>a. find_arg args i = Some a \<and> a \<in> set args \<and> ca_id a = i"
  by (induction args) (auto simp: find_arg_def)

lemma page_args_step: "page_step s s' \<Longrightarrow> page_args args s \<Longrightarrow> page_args args s'"
proof (induction rule: page_step.induct)
  case (step_answered k s content)
  obtain i snap where r: "dp_reads s ! k = (i, snap)" by (cases "dp_reads s ! k")
  then have "map frame snap = map frame args"
    using step_answered nth_mem[of k "dp_reads s"] by (force simp: page_args_def)
  moreover have "set (take k (dp_reads s) @ drop (k + 1) (dp_reads s)) \<subseteq> set (dp_reads s)"
    using set_take_subset set_drop_subset by fastforce
  ultimately show ?case
    using step_answered r by (auto simp: page_args_def read_answered_def simp del: Suc_eq_plus1)
next
  case (step_failed k s)
  have "set (take k (dp_reads s) @ drop (k + 1) (dp_reads s)) \<subseteq> set (dp_reads s)"
    using set_take_subset set_drop_subset by fastforce
  with step_failed show ?case by (auto simp: page_args_def read_failed_def)
qed (auto simp: page_args_def inspectCounterargumentsOf_def disableInspectCounterargumentsMode_def
    onCollapseArgument_def onReadArgument_def)

lemma inspect_thread:
  assumes "thread_inv s" and "arg \<in> set (dp_detailed s)"
  shows "thread_inv (inspectCounterargumentsOf arg s)"
proof (cases "index_where (\<lambda>i. i = ca_id arg) (dp_history s)")
  case None
  then have "ca_id arg \<notin> set (dp_history s)" by (auto simp: index_where_None)
  with None assms show ?thesis by (auto simp: thread_inv_def inspectCounterargumentsOf_def)
next
  case (Some k)
  then have k: "k < length (dp_history s)" "dp_history s ! k = ca_id arg"
    using index_where_Some[OF Some] by simp_all
  then have split: "take (Suc k) (dp_history s) = take k (dp_history s) @ [ca_id arg]"
    by (simp add: take_Suc_conv_app_nth)
  have "distinct (take (Suc k) (dp_history s))"
    using assms(1) by (simp only: thread_inv_def distinct_take)
  then have "ca_id arg \<notin> set (take k (dp_history s))" unfolding split by simp
  moreover note split
  moreover have "set (take (Suc k) (dp_history s)) \<subseteq> set (dp_history s)" by (rule set_take_subset)
  ultimately show ?thesis
    using assms Some by (auto simp: thread_inv_def inspectCounterargumentsOf_def distinct_take)
qed

lemma thread_inv_cong:
  "dp_history s' = dp_history s \<Longrightarrow> dp_inspected s' = dp_inspected s \<Longrightarrow>
    ca_id ` set (dp_detailed s') = ca_id ` set (dp_detailed s) \<Longrightarrow> thread_inv s \<Longrightarrow> thread_inv s'"
  by (simp add: thread_inv_def)

lemma thread_inv_step:
  assumes "page_step s s'" and "page_args args s" and "thread_inv s"
  shows "thread_inv s'"
proof -
  have ids: "ca_id ` set (dp_detailed s') = ca_id ` set (dp_detailed s)"
    using page_args_step[OF assms(1,2)] assms(2) frame_ids
    unfolding page_args_def by (metis list.set_map)
  from assms(1) show ?thesis
  proof cases
    case (step_inspect arg)
    then show ?thesis using inspect_thread assms(3) by blast
  next
    case step_disable
    then show ?thesis by (simp add: thread_inv_def disableInspectCounterargumentsMode_def)
  qed (rule thread_inv_cong[OF _ _ ids assms(3)];
      simp add: onCollapseArgument_def onReadArgument_def read_answered_def read_failed_def
        split: prod.split)+
qed


text \<open>A debate of two arguments, the second a counterargument of the first.\<close>

definition sample_args :: "client_arg list" where
  "sample_args =
     [\<lparr>ca_id = 1, ca_title = ''a'', ca_content = None, ca_type = Some PRO, ca_username = ''u'',
       ca_counterargument_to = None, ca_counterarguments = Some [2]\<rparr>,
      \<lparr>ca_id = 2, ca_title = ''b'', ca_content = None, ca_type = Some CON, ca_username = ''v'',
       ca_counterargument_to = Some 1, ca_counterarguments = None\<rparr>]"

definition sample_debate :: current_debate where
  "sample_debate = \<lparr>cd_args = sample_args, cd_debate_id = 7, cd_debate_title = ''d'', cd_expanded = None\<rparr>"

definition sample_page :: "unit debate_page" where
  "sample_page = mount_page sample_debate initial_debates"


section \<open>Counterarguments and the columns\<close>

text \<open>The arguments that counter another, in their order.\<close>

definition countering :: "client_arg list \<Rightarrow> int \<Rightarrow> int list" where
  "countering args i = map ca_id (filter (\<lambda>b. ca_counterargument_to b = Some i) args)"

definition extend_entry :: "int list option \<Rightarrow> int list \<Rightarrow> int list option" where
  "extend_entry old ids =
     (if ids = [] then old else Some ((case old of None \<Rightarrow> [] | Some xs \<Rightarrow> xs) @ ids))"

lemma add_counterargument_at:
  "i \<noteq> 0 \<Longrightarrow> add_counterargument a m i
    = (if ca_counterargument_to a = Some i then extend_entry (m i) [ca_id a] else m i)"
  by (cases "ca_counterargument_to a") (simp_all add: add_counterargument_def extend_entry_def)

lemma extend_entry_twice: "extend_entry (extend_entry old xs) ys = extend_entry old (xs @ ys)"
  by (cases old) (simp_all add: extend_entry_def)

lemma fold_add_counterargument:
  "i \<noteq> 0 \<Longrightarrow> fold add_counterargument args m i = extend_entry (m i) (countering args i)"
proof (induction args arbitrary: m)
  case (Cons a args)
  have "countering (a # args) i
      = (if ca_counterargument_to a = Some i then [ca_id a] else []) @ countering args i"
    by (simp add: countering_def)
  then show ?case
    using Cons by (simp add: add_counterargument_at extend_entry_twice)
qed (simp add: countering_def extend_entry_def)

definition counterarguments_of :: "client_arg list \<Rightarrow> int \<Rightarrow> int list option" where
  "counterarguments_of args i = (case countering args i of [] \<Rightarrow> None | ids \<Rightarrow> Some ids)"

lemma getDebateDTO_alt:
  assumes "\<forall>a \<in> set args. ca_id a \<noteq> 0"
  shows "getDebateDTO args
    = map (\<lambda>a. a\<lparr>ca_counterarguments := counterarguments_of args (ca_id a)\<rparr>) args"
  using assms
  by (auto simp: getDebateDTO_def Let_def fold_add_counterargument extend_entry_def
      counterarguments_of_def split: list.splits)

definition public_rows :: "tables \<Rightarrow> debate_row \<Rightarrow> argument_row list" where
  "public_rows ts d = filter (\<lambda>a. a_debate_id a = d_id d \<and> is_public ts a) (arguments ts)"

text \<open>On the answer of the API for a debate, the transformation keeps the public arguments and gives
  each exactly the public arguments of the debate that counter it, in order, and null when there is
  none.\<close>

theorem counterarguments_complete:
  assumes "schema_ok db"
  shows "map (\<lambda>c. (ca_id c, ca_counterarguments c))
      (getDebateDTO (map client_arg_of (dv_args (public_view (tabs db) d))))
    = map (\<lambda>a. (a_id a,
        case map a_id (filter (\<lambda>b. a_counterargument_to b = Some (a_id a)) (public_rows (tabs db) d)) of
          [] \<Rightarrow> None | ids \<Rightarrow> Some ids)) (public_rows (tabs db) d)"
proof -
  let ?rows = "public_rows (tabs db) d"
  define conv where "conv = client_arg_of \<circ> arg_data.truncate \<circ> argument_json False (tabs db)"
  have args: "map client_arg_of (dv_args (public_view (tabs db) d)) = map conv ?rows"
    by (simp add: public_view_def public_rows_def conv_def)
  have cols: "ca_id (conv a) = a_id a" "ca_counterargument_to (conv a) = a_counterargument_to a" for a
    by (simp_all add: conv_def client_arg_of_def argument_json_def argument_columns_def
        arg_data.truncate_def)
  have "0 < a_id a" if "a \<in> set ?rows" for a
    using assms that by (auto simp: public_rows_def table_defs serial_key_def list_all_iff)
  then have "\<forall>a \<in> set (map conv ?rows). ca_id a \<noteq> 0" by (force simp: cols)
  note dto = getDebateDTO_alt[OF this]
  have "countering (map conv ?rows) i = map a_id (filter (\<lambda>b. a_counterargument_to b = Some i) ?rows)" for i
    by (simp add: countering_def filter_map comp_def cols)
  then show ?thesis
    unfolding args dto by (simp add: counterarguments_of_def cols)
qed

theorem counterarguments_complete_witness:
  "map (\<lambda>c. (ca_id c, ca_counterarguments c))
      (getDebateDTO (map client_arg_of (dv_args (public_view (tabs sample_db) (debates (tabs sample_db) ! 0)))))
    = map (\<lambda>a. (a_id a,
        case map a_id (filter (\<lambda>b. a_counterargument_to b = Some (a_id a)) (public_rows (tabs sample_db) (debates (tabs sample_db) ! 0))) of
          [] \<Rightarrow> None | ids \<Rightarrow> Some ids)) (public_rows (tabs sample_db) (debates (tabs sample_db) ! 0))"
  by (rule counterarguments_complete) simp

text \<open>Filtering by a predicate that does not look at the content.\<close>

lemma frame_fields:
  "ca_counterarguments (frame a) = ca_counterarguments a" "ca_id (frame a) = ca_id a"
  by (simp_all add: frame_def)

lemma frame_filter:
  assumes "map frame xs = map frame ys" and "\<And>a. P (frame a) = P a"
  shows "map frame (filter P xs) = map frame (filter P ys)"
proof -
  have "map frame (filter P zs) = filter P (map frame zs)" for zs
    using assms(2) by (simp add: filter_map comp_def)
  with assms(1) show ?thesis by simp
qed

lemma frame_member:
  assumes "map frame xs = map frame ys" and "a \<in> set xs"
  shows "\<exists>b \<in> set ys. frame b = frame a"
proof -
  have "frame a \<in> frame ` set ys"
    using assms(2) arg_cong[OF assms(1), of set] by (simp only: set_map) blast
  then show ?thesis by auto
qed

text \<open>What the transformation gave an argument is still there when it is displayed.\<close>

lemma displayed_arg:
  assumes "map frame (dp_detailed s) = map frame (getDebateDTO args)"
    and "\<forall>a \<in> set args. ca_id a \<noteq> 0" and "a \<in> set (dp_detailed s)"
  shows "ca_id a \<noteq> 0 \<and> ca_counterarguments a = counterarguments_of args (ca_id a)"
proof -
  obtain b where "b \<in> set (getDebateDTO args)" "frame b = frame a"
    using frame_member[OF assms(1,3)] by blast
  then obtain c where c: "c \<in> set args"
      "frame (c\<lparr>ca_counterarguments := counterarguments_of args (ca_id c)\<rparr>) = frame a"
    unfolding getDebateDTO_alt[OF assms(2)] by auto
  have "ca_id c = ca_id a" "counterarguments_of args (ca_id c) = ca_counterarguments a"
    using arg_cong[OF c(2), of ca_id] arg_cong[OF c(2), of ca_counterarguments]
    by (simp_all add: frame_fields)
  with c(1) assms(2) show ?thesis by auto
qed

lemma dto_filter:
  assumes "\<forall>a \<in> set args. ca_id a \<noteq> 0" and "\<And>a c. P (a\<lparr>ca_counterarguments := c\<rparr>) = P a"
  shows "map ca_id (filter P (getDebateDTO args)) = map ca_id (filter P args)"
  unfolding getDebateDTO_alt[OF assms(1)] filter_map map_map comp_def assms(2) by simp

lemma mounted_args:
  "page_step\<^sup>*\<^sup>* (mount_page d store) s \<Longrightarrow> page_args (cd_args d) s"
proof (induction rule: rtranclp_induct)
  case base
  then show ?case by (simp add: page_args_def mount_page_def)
next
  case (step s s')
  then show ?case using page_args_step by blast
qed



section \<open>Reading arguments\<close>

text \<open>
  Steps where a read is asked for only while none is pending. An answer brings the content that the
  API holds for the argument.
\<close>

inductive calm_step :: "(int \<Rightarrow> string) \<Rightarrow> 'd debate_page \<Rightarrow> 'd debate_page \<Rightarrow> bool"
  for api :: "int \<Rightarrow> string" where
  calm_inspect: "arg \<in> set (dp_detailed s) \<Longrightarrow> calm_step api s (inspectCounterargumentsOf arg s)"
| calm_disable: "calm_step api s (disableInspectCounterargumentsMode s)"
| calm_collapse: "calm_step api s (onCollapseArgument i s)"
| calm_read: "dp_reads s = [] \<Longrightarrow> calm_step api s (onReadArgument numericId i s)"
| calm_answered: "dp_reads s = [(i, args)] \<Longrightarrow> calm_step api s (read_answered 0 (Some (api i)) s)"
| calm_failed: "dp_reads s \<noteq> [] \<Longrightarrow> calm_step api s (read_failed 0 s)"

definition read_inv :: "(int \<Rightarrow> string) \<Rightarrow> 'd debate_page \<Rightarrow> bool" where
  "read_inv api s \<longleftrightarrow> length (dp_reads s) \<le> 1 \<and> (\<forall>r \<in> set (dp_reads s). snd r = dp_detailed s)
     \<and> (\<forall>a \<in> set (dp_detailed s). ca_id a \<in> expandedArgumentsIDs s \<longrightarrow> ca_content a = Some (api (ca_id a)))"

lemma expanded_answered:
  "dp_reads s ! k = (i, args) \<Longrightarrow>
    expandedArgumentsIDs (read_answered k content s) \<subseteq> insert i (expandedArgumentsIDs s)"
  by (auto simp: expandedArgumentsIDs_def selectExpandedArgumentsIDs_def addExpandedArgumentID_def
      read_answered_def update_expanded_def split: option.splits)

lemma expanded_remove:
  "expandedArgumentsIDs (onCollapseArgument i s) = expandedArgumentsIDs s - {i}"
  by (auto simp: expandedArgumentsIDs_def selectExpandedArgumentsIDs_def removeExpandedArgumentID_def
      onCollapseArgument_def update_expanded_def split: option.splits)

lemma expanded_cong: "dp_store s' = dp_store s \<Longrightarrow> expandedArgumentsIDs s' = expandedArgumentsIDs s"
  by (simp add: expandedArgumentsIDs_def)

lemma read_inv_cong:
  "read_inv api s \<Longrightarrow> dp_store s' = dp_store s \<Longrightarrow> dp_detailed s' = dp_detailed s \<Longrightarrow>
    dp_reads s' = dp_reads s \<Longrightarrow> read_inv api s'"
  unfolding read_inv_def using expanded_cong[of s' s] by simp

lemma read_answered_inv:
  assumes "read_inv api s" and r: "dp_reads s = [(i, args)]"
  shows "read_inv api (read_answered 0 (Some (api i)) s)"
proof -
  let ?s' = "read_answered 0 (Some (api i)) s"
  have args: "args = dp_detailed s" using assms by (simp add: read_inv_def)
  have "expandedArgumentsIDs ?s' \<subseteq> insert i (expandedArgumentsIDs s)"
    using expanded_answered[of s 0 i args] r by simp
  moreover have "dp_reads ?s' = []" "dp_detailed ?s' = map (\<lambda>a. if ca_id a \<noteq> i then a
      else a\<lparr>ca_content := Some (api i)\<rparr>) (dp_detailed s)"
    using r by (simp_all add: read_answered_def args)
  ultimately show ?thesis using assms(1) by (auto simp: read_inv_def split: if_splits)
qed

lemma read_inv_step:
  assumes "calm_step api s s'" and "read_inv api s"
  shows "read_inv api s'"
  using assms(1)
proof cases
  case (calm_inspect arg)
  then show ?thesis
    by (intro read_inv_cong[OF assms(2)]) (simp_all add: inspectCounterargumentsOf_def)
next
  case calm_disable
  then show ?thesis
    by (intro read_inv_cong[OF assms(2)]) (simp_all add: disableInspectCounterargumentsMode_def)
next
  case (calm_collapse i)
  have "dp_detailed s' = dp_detailed s" "dp_reads s' = dp_reads s"
    unfolding calm_collapse by (simp_all add: onCollapseArgument_def)
  then show ?thesis
    using assms(2) unfolding read_inv_def calm_collapse expanded_remove by simp
next
  case (calm_read numericId i)
  then have "expandedArgumentsIDs s' = expandedArgumentsIDs s"
    by (intro expanded_cong) (simp add: onReadArgument_def)
  moreover have "dp_detailed s' = dp_detailed s" "dp_reads s' \<in> {[], [(i, dp_detailed s)]}"
    using calm_read by (simp_all add: onReadArgument_def)
  ultimately show ?thesis using assms(2) unfolding read_inv_def by auto
next
  case (calm_answered i args)
  then show ?thesis using read_answered_inv[OF assms(2)] by simp
next
  case calm_failed
  then have "expandedArgumentsIDs s' = expandedArgumentsIDs s"
    by (intro expanded_cong) (simp add: read_failed_def)
  moreover have "dp_detailed s' = dp_detailed s" using calm_failed by (simp add: read_failed_def)
  moreover have "dp_reads s' = []"
    using calm_failed assms(2) by (cases "dp_reads s") (auto simp: read_inv_def read_failed_def)
  ultimately show ?thesis using assms(2) unfolding read_inv_def by simp
qed

text \<open>As long as no argument is asked for while another read is pending, every argument shown as
  expanded has the content that the API answered for it.\<close>

theorem expanded_have_content:
  assumes "(calm_step api)\<^sup>*\<^sup>* (mount_page d store) s"
    and "a \<in> set (dp_detailed s)" and "ca_id a \<in> expandedArgumentsIDs s"
  shows "ca_content a = Some (api (ca_id a))"
proof -
  have "read_inv api s"
    using assms(1)
  proof (induction rule: rtranclp_induct)
    case base
    then show ?case
      by (simp add: read_inv_def mount_page_def expandedArgumentsIDs_def selectExpandedArgumentsIDs_def
          setCurrentDebate_def)
  next
    case (step s s')
    then show ?case using read_inv_step by blast
  qed
  with assms(2,3) show ?thesis by (simp add: read_inv_def)
qed

text \<open>The page after reading its first argument.\<close>

definition sample_read :: "unit debate_page" where
  "sample_read = read_answered 0 (Some ''text'') (onReadArgument True 1 sample_page)"

lemma sample_reads:
  "dp_reads sample_page = []" "dp_detailed sample_page = sample_args"
  "expandedArgumentsIDs sample_page = {}"
  "dp_reads (onReadArgument True 1 sample_page) = [(1, sample_args)]"
  by (simp_all add: sample_page_def mount_page_def sample_debate_def onReadArgument_def
      expandedArgumentsIDs_def selectExpandedArgumentsIDs_def setCurrentDebate_def)

theorem expanded_have_content_witness:
  "ca_content (dp_detailed sample_read ! 0) = Some ''text''"
proof -
  have "calm_step (\<lambda>_. ''text'') sample_page (onReadArgument True 1 sample_page)"
    by (rule calm_read) (rule sample_reads)
  moreover have "calm_step (\<lambda>_. ''text'') (onReadArgument True 1 sample_page) sample_read"
    unfolding sample_read_def
    using calm_answered[OF sample_reads(4), of "\<lambda>_. ''text''"] by simp
  ultimately have "(calm_step (\<lambda>_. ''text''))\<^sup>*\<^sup>* sample_page sample_read"
    by (meson converse_rtranclp_into_rtranclp rtranclp.rtrancl_refl)
  then have content: "ca_content a = Some ''text''"
    if "a \<in> set (dp_detailed sample_read)" "ca_id a \<in> expandedArgumentsIDs sample_read" for a
    using that expanded_have_content unfolding sample_page_def by blast
  show ?thesis
    by (rule content)
      (simp_all add: sample_read_def read_answered_def onReadArgument_def sample_reads,
       simp_all add: sample_page_def mount_page_def sample_debate_def sample_args_def
         expandedArgumentsIDs_def selectExpandedArgumentsIDs_def setCurrentDebate_def
         addExpandedArgumentID_def update_expanded_def)
qed

text \<open>Two reads, the second asked for before the first one answers.\<close>

definition overlapping_reads ::
  "int \<Rightarrow> string option \<Rightarrow> int \<Rightarrow> string option \<Rightarrow> 'd debate_page \<Rightarrow> 'd debate_page" where
  "overlapping_reads i ci j cj s =
     read_answered 0 cj (read_answered 0 ci (onReadArgument True j (onReadArgument True i s)))"

text \<open>A second read that is asked for before the first one answers works on the arguments without the
  first content: after both answers the first argument is expanded, yet its content is what it was
  before, and asking for it again does nothing.\<close>

theorem overlapping_reads_lose_content:
  assumes "dp_reads s = []" and "selectExpandedArgumentsIDs (dp_store s) = Some ids"
    and "i \<noteq> j" and "i \<notin> set ids" and "j \<notin> set ids"
  shows "expandedArgumentsIDs (overlapping_reads i ci j cj s) = insert i (insert j (set ids))
    \<and> dp_detailed (overlapping_reads i ci j cj s)
      = map (\<lambda>a. if ca_id a \<noteq> j then a else a\<lparr>ca_content := cj\<rparr>) (dp_detailed s)
    \<and> onReadArgument True i (overlapping_reads i ci j cj s) = overlapping_reads i ci j cj s"
proof -
  obtain d where d: "dbs_crtDebate (dp_store s) = Some d" "cd_expanded d = Some ids"
    using assms(2) by (auto simp: selectExpandedArgumentsIDs_def split: option.splits)
  have "dp_reads (onReadArgument True j (onReadArgument True i s))
      = [(i, dp_detailed s), (j, dp_detailed s)]"
    using assms d
    by (simp add: onReadArgument_def expandedArgumentsIDs_def selectExpandedArgumentsIDs_def)
  moreover have "dp_store (onReadArgument True j (onReadArgument True i s)) = dp_store s"
    by (simp add: onReadArgument_def)
  ultimately show ?thesis
    using d
    by (auto simp: overlapping_reads_def read_answered_def expandedArgumentsIDs_def onReadArgument_def
        selectExpandedArgumentsIDs_def addExpandedArgumentID_def update_expanded_def)
qed

theorem overlapping_reads_lose_content_witness:
  "expandedArgumentsIDs (overlapping_reads 1 (Some ''x'') 2 (Some ''y'') sample_page) = {1, 2}
    \<and> map ca_content (dp_detailed (overlapping_reads 1 (Some ''x'') 2 (Some ''y'') sample_page))
      = [None, Some ''y'']"
proof -
  note defs = sample_page_def mount_page_def sample_debate_def setCurrentDebate_def
    initial_debates_def selectExpandedArgumentsIDs_def
  have "selectExpandedArgumentsIDs (dp_store sample_page) = Some []" by (simp add: defs)
  moreover have "dp_reads sample_page = []" by (simp add: defs)
  ultimately show ?thesis
    using overlapping_reads_lose_content[of sample_page "[]" 1 2 "Some ''x''" "Some ''y''"]
    by (simp add: sample_page_def mount_page_def sample_debate_def sample_args_def)
qed

end
