(* ===== verification/Client_Board.thy ===== *)
theory Client_Board
  imports Activity
begin

text \<open>
  The moderators' board in the client: the sorted lists (\<open>get-activity.dto.ts\<close>), the rights of a
  card, dropping a card on a list and approving one (\<open>activity/page.tsx\<close>), the preview and its slice
  (\<open>moderator.slice.ts\<close>). The board is updated before the API answers; the refinement says that the
  update is the one the API makes to the tickets whenever it accepts the request.
\<close>

section \<open>Cards and lists\<close>

datatype card_label = LABEL_DEBATE | LABEL_ARGUMENT

text \<open>\<open>ModeratorActivity\<close>: the identifiers of the argument are undefined on the card of a debate, the
  tags on the card of an argument.\<close>

record board_card =
  bc_ticketId :: int
  bc_boardList :: board_list
  bc_moderatorId :: "int option"
  bc_moderatorUsername :: "string option"
  bc_ticketLabel :: card_label
  bc_ticketTitle :: "string option"
  bc_debateId :: "int option"
  bc_debateTitle :: "string option"
  bc_argumentId :: "int option"
  bc_tags :: "tag_json list"

record board_data =
  bd_boardList :: board_list
  bd_cards :: "board_card list"

fun BOARD_LISTS_SORT_ORDER :: "board_list \<Rightarrow> nat" where
  "BOARD_LISTS_SORT_ORDER PENDING = 0"
| "BOARD_LISTS_SORT_ORDER IN_REVIEW = 1"
| "BOARD_LISTS_SORT_ORDER ACCEPTED = 2"
| "BOARD_LISTS_SORT_ORDER CANCELED = 3"

definition getActivityDTO :: "board_data list \<Rightarrow> board_data list" where
  "getActivityDTO = sort_key (BOARD_LISTS_SORT_ORDER \<circ> bd_boardList)"

text \<open>Reading a card of the answer; the API leaves out those without a ticket.\<close>

fun board_card_of :: "activity_card \<Rightarrow> board_card" where
  "board_card_of (DebateCardJson b c) =
     \<lparr>bc_ticketId = dcj_ticket_id c, bc_boardList = b, bc_moderatorId = dcj_moderator_id c,
      bc_moderatorUsername = dcj_moderator_username c, bc_ticketLabel = LABEL_DEBATE,
      bc_ticketTitle = dcj_ticket_title c, bc_debateId = dcj_debate_id c, bc_debateTitle = None,
      bc_argumentId = None, bc_tags = dcj_tags c\<rparr>"
| "board_card_of (EmptyDebateCard c) =
     \<lparr>bc_ticketId = the (dc_ticket_id c), bc_boardList = dc_board_list c,
      bc_moderatorId = dc_moderator_id c, bc_moderatorUsername = dc_moderator_username c,
      bc_ticketLabel = LABEL_DEBATE, bc_ticketTitle = dc_ticket_title c,
      bc_debateId = dc_debate_id c, bc_debateTitle = None, bc_argumentId = None,
      bc_tags = []\<rparr>"
| "board_card_of (ArgumentCardJson c) =
     \<lparr>bc_ticketId = the (ac_ticket_id c), bc_boardList = ac_board_list c,
      bc_moderatorId = ac_moderator_id c, bc_moderatorUsername = ac_moderator_username c,
      bc_ticketLabel = LABEL_ARGUMENT, bc_ticketTitle = ac_ticket_title c,
      bc_debateId = ac_debate_id c, bc_debateTitle = ac_debate_title c,
      bc_argumentId = ac_argument_id c, bc_tags = []\<rparr>"

definition boards_of :: "(board_list \<times> activity_card list) list \<Rightarrow> board_data list" where
  "boards_of = map (\<lambda>(b, cards). \<lparr>bd_boardList = b, bd_cards = map board_card_of cards\<rparr>)"

section \<open>Dropping a card\<close>

text \<open>The signed-in user of the client, with an identifier and a name.\<close>

type_synonym client_user = "int \<times> string"

definition hasRightsOnTicket :: "client_user option \<Rightarrow> board_card \<Rightarrow> bool" where
  "hasRightsOnTicket crtUser cardData \<longleftrightarrow>
     bc_moderatorId cardData = map_option fst crtUser \<and> crtUser \<noteq> None
     \<or> bc_moderatorId cardData = None"

definition canAcceptDrops :: "board_list \<Rightarrow> bool" where
  "canAcceptDrops boardType \<longleftrightarrow> boardType \<noteq> ACCEPTED"

record drag_item =
  di_fromBoardList :: board_list
  di_cardData :: board_card

text \<open>The card as it is dropped: its moderator is set when it leaves the pending list and cleared when
  it returns there.\<close>

definition dropped_card :: "client_user option \<Rightarrow> drag_item \<Rightarrow> board_list \<Rightarrow> board_card" where
  "dropped_card crtModerator item toBoardList =
     (let crd = di_cardData item; from = di_fromBoardList item
      in (if from \<noteq> PENDING \<and> toBoardList = PENDING
          then crd\<lparr>bc_moderatorId := None, bc_moderatorUsername := None\<rparr>
          else if from = PENDING \<and> toBoardList \<noteq> PENDING
          then crd\<lparr>bc_moderatorId := map_option fst crtModerator,
                    bc_moderatorUsername := map_option snd crtModerator\<rparr>
          else crd)\<lparr>bc_boardList := toBoardList\<rparr>)"

definition no_moderator :: "client_user option \<Rightarrow> bool" where
  "no_moderator crtModerator \<longleftrightarrow>
     (case crtModerator of None \<Rightarrow> True | Some (i, n) \<Rightarrow> i = 0 \<or> n = [])"

text \<open>\<open>onItemDropped\<close>: the boards afterwards and the request, the ticket and the list it is moved to.\<close>

definition onItemDropped ::
  "client_user option \<Rightarrow> board_data list \<Rightarrow> drag_item \<Rightarrow> board_list
    \<Rightarrow> board_data list \<times> (int \<times> string) option" where
  "onItemDropped crtModerator activityBoards item toBoardList =
     (let from = di_fromBoardList item; i = bc_ticketId (di_cardData item)
      in if toBoardList = ACCEPTED \<or> from = toBoardList then (activityBoards, None)
         else if from = PENDING \<and> toBoardList \<noteq> PENDING \<and> no_moderator crtModerator
         then (activityBoards, None)
         else (map (\<lambda>a.
                 if bd_boardList a = from
                 then a\<lparr>bd_cards := filter (\<lambda>c. bc_ticketId c \<noteq> i) (bd_cards a)\<rparr>
                 else if bd_boardList a = toBoardList
                 then a\<lparr>bd_cards := bd_cards a @ [dropped_card crtModerator item toBoardList]\<rparr>
                 else a) activityBoards,
               Some (i, board_list_name toBoardList)))"

text \<open>The drop handler of a list.\<close>

definition board_drop ::
  "client_user option \<Rightarrow> board_data list \<Rightarrow> drag_item \<Rightarrow> board_list
    \<Rightarrow> board_data list \<times> (int \<times> string) option" where
  "board_drop crtModerator activityBoards item boardType =
     (if canAcceptDrops boardType then onItemDropped crtModerator activityBoards item boardType
      else (activityBoards, None))"

section \<open>Approving and previewing\<close>

text \<open>The entry of the menu that approves is offered only in review.\<close>

definition approve_offered :: "client_user option \<Rightarrow> board_card \<Rightarrow> bool" where
  "approve_offered crtUser cardData \<longleftrightarrow>
     bc_boardList cardData = IN_REVIEW \<and> hasRightsOnTicket crtUser cardData"

datatype approve_request =
    ApproveDebate string "string option" "int option"
  | ApproveArgument string "string option" "int option" "int option" "string option"

definition approve_ticket_request :: "board_card \<Rightarrow> approve_request" where
  "approve_ticket_request crd =
     (case bc_ticketLabel crd of
        LABEL_DEBATE \<Rightarrow>
          ApproveDebate (int_to_string (bc_ticketId crd)) (bc_ticketTitle crd) (bc_debateId crd)
      | LABEL_ARGUMENT \<Rightarrow>
          ApproveArgument (int_to_string (bc_ticketId crd)) (bc_debateTitle crd) (bc_debateId crd)
            (bc_argumentId crd) (bc_ticketTitle crd))"

text \<open>\<open>onApproveTicket\<close> once the API has answered.\<close>

definition ticket_approved :: "board_list \<Rightarrow> board_card \<Rightarrow> board_data list \<Rightarrow> board_data list" where
  "ticket_approved updatedBoardList crd boards =
     map (\<lambda>b. if bd_boardList b \<noteq> updatedBoardList \<and> bd_boardList b \<noteq> ACCEPTED then b
              else if bd_boardList b = ACCEPTED
              then b\<lparr>bd_cards := bd_cards b @ [crd\<lparr>bc_boardList := ACCEPTED\<rparr>]\<rparr>
              else b\<lparr>bd_cards := filter (\<lambda>c. bc_ticketId c \<noteq> bc_ticketId crd) (bd_cards b)\<rparr>)
       boards"

text \<open>The slice of the previewed card, and the page the preview opens.\<close>

record moderator_state =
  ms_previewedCard :: "board_card option"

definition setActivityPreviewedCard :: "board_card option \<Rightarrow> moderator_state \<Rightarrow> moderator_state" where
  "setActivityPreviewedCard payload state = state\<lparr>ms_previewedCard := payload\<rparr>"

definition expandCardModal :: "moderator_state \<Rightarrow> string option" where
  "expandCardModal s =
     (case ms_previewedCard s of
        None \<Rightarrow> None
      | Some crd \<Rightarrow>
          Some ((case bc_ticketLabel crd of
                   LABEL_DEBATE \<Rightarrow> ''/review/debate/'' | LABEL_ARGUMENT \<Rightarrow> ''/review/argument/'')
                @ int_to_string (bc_ticketId crd)))"

section \<open>The board and the tickets\<close>

text \<open>The tickets of a list with their moderators: on the board, and in the tables.\<close>

definition board_view :: "board_data list \<Rightarrow> board_list \<Rightarrow> (int \<times> int option) set" where
  "board_view boards b =
     (\<Union>a \<in> set boards. if bd_boardList a = b
        then (\<lambda>c. (bc_ticketId c, bc_moderatorId c)) ` set (bd_cards a) else {})"

definition has_card :: "tables \<Rightarrow> int \<Rightarrow> bool" where
  "has_card ts i \<longleftrightarrow> (\<exists>d \<in> set (debates ts). d_ticket_id d = i \<and> tags_of ts (d_id d) \<noteq> [])
     \<or> (\<exists>a \<in> set (arguments ts). a_ticket_id a = Some i \<and> a_debate_id a \<in> d_id ` set (debates ts))"

definition table_view :: "tables \<Rightarrow> board_list \<Rightarrow> (int \<times> int option) set" where
  "table_view ts b =
     {(t_id t, t_assigned_to t) |t. t \<in> set (tickets ts) \<and> t_board_list t = Some b
        \<and> has_card ts (t_id t)}"

definition board_matches :: "tables \<Rightarrow> board_data list \<Rightarrow> bool" where
  "board_matches ts boards \<longleftrightarrow> distinct (map bd_boardList boards)
     \<and> set (map bd_boardList boards) = UNIV \<and> (\<forall>b. board_view boards b = table_view ts b)"

lemma has_card_tickets [simp]: "has_card (ts\<lparr>tickets := x\<rparr>) = has_card ts"
  by (simp add: has_card_def fun_eq_iff tags_of_def)

lemma left_join_user_nonempty: "left_join_user ts i \<noteq> []"
  by (simp add: left_join_user_def split: list.splits)

lemma in_debate_cards:
  assumes "d \<in> set (debates ts)" "t \<in> set (tickets ts)" "t_id t = d_ticket_id d"
    "debates_tags ts (d_id d) = Some g" "u \<in> set (left_join_user ts (t_assigned_to t))"
    "t_board_list t = Some b"
  shows "\<lparr>dc_ticket_id = Some (t_id t), dc_board_list = b, dc_moderator_id = t_assigned_to t,
       dc_ticket_title = Some (d_title d), dc_moderator_username = map_option u_username u,
       dc_ticket_label = Some ''debate'', dc_tags = Some (fst g), dc_tags_ids = Some (snd g),
       dc_debate_id = Some (d_id d)\<rparr> \<in> set (debate_cards_in ts b)"
proof -
  have "t \<in> set (filter (\<lambda>t. t_id t = d_ticket_id d) (tickets ts))" using assms by simp
  moreover have "g \<in> set (case debates_tags ts (d_id d) of None \<Rightarrow> [] | Some g \<Rightarrow> [g])" using assms by simp
  ultimately show ?thesis
    unfolding debate_cards_in_def set_concat set_map image_image
    using assms(1,5,6)
    by (intro UN_I[of d] UN_I[of t] UN_I[of g] UN_I[of u]) simp_all
qed

lemma in_argument_cards:
  assumes "a \<in> set (arguments ts)" "t \<in> set (tickets ts)" "a_ticket_id a = Some (t_id t)"
    "d \<in> set (debates ts)" "d_id d = a_debate_id a" "u \<in> set (left_join_user ts (t_assigned_to t))"
    "t_board_list t = Some b"
  shows "\<lparr>ac_ticket_id = Some (t_id t), ac_board_list = b, ac_moderator_id = t_assigned_to t,
       ac_ticket_title = Some (a_title a), ac_argument_type = a_type a,
       ac_debate_id = Some (a_debate_id a), ac_moderator_username = map_option u_username u,
       ac_ticket_label = ''argument'', ac_debate_title = Some (d_title d),
       ac_argument_id = Some (a_id a)\<rparr> \<in> set (argument_cards_in ts b)"
proof -
  have "t \<in> set (filter (\<lambda>t. a_ticket_id a = Some (t_id t)) (tickets ts))" using assms by simp
  moreover have "d \<in> set (filter (\<lambda>d. d_id d = a_debate_id a) (debates ts))" using assms by simp
  ultimately show ?thesis
    unfolding argument_cards_in_def set_concat set_map image_image
    using assms(1,6,7)
    by (intro UN_I[of a] UN_I[of t] UN_I[of d] UN_I[of u]) simp_all
qed

lemma debate_cards_view:
  "(\<lambda>c. (the (dc_ticket_id c), dc_moderator_id c)) ` set (debate_cards_in ts b)
    = {(t_id t, t_assigned_to t) |t. t \<in> set (tickets ts) \<and> t_board_list t = Some b
        \<and> (\<exists>d \<in> set (debates ts). d_ticket_id d = t_id t \<and> tags_of ts (d_id d) \<noteq> [])}"
    (is "?L = ?R")
proof (intro equalityI subsetI)
  fix x
  assume "x \<in> ?L"
  then show "x \<in> ?R"
    by (auto simp: debate_cards_in_def debates_tags_def split: list.splits if_splits)
      (metis list.distinct(1))
next
  fix x
  assume "x \<in> ?R"
  then obtain t d where t: "x = (t_id t, t_assigned_to t)" "t \<in> set (tickets ts)" "t_board_list t = Some b"
      "d \<in> set (debates ts)" "d_ticket_id d = t_id t" "tags_of ts (d_id d) \<noteq> []" by blast
  then obtain g where g: "debates_tags ts (d_id d) = Some g"
    by (cases "tags_of ts (d_id d)") (simp_all add: debates_tags_def)
  obtain u where u: "u \<in> set (left_join_user ts (t_assigned_to t))"
    using left_join_user_nonempty[of ts "t_assigned_to t"] list.set_sel(1) by blast
  show "x \<in> ?L"
    by (rule image_eqI[OF _ in_debate_cards[OF t(4,2) t(5)[symmetric] g u t(3)]]) (simp add: t(1))
qed

lemma argument_cards_view:
  "(\<lambda>c. (the (ac_ticket_id c), ac_moderator_id c)) ` set (argument_cards_in ts b)
    = {(t_id t, t_assigned_to t) |t. t \<in> set (tickets ts) \<and> t_board_list t = Some b
        \<and> (\<exists>a \<in> set (arguments ts). a_ticket_id a = Some (t_id t)
             \<and> a_debate_id a \<in> d_id ` set (debates ts))}" (is "?L = ?R")
proof (intro equalityI subsetI)
  fix x
  assume "x \<in> ?L"
  then show "x \<in> ?R" by (force simp: argument_cards_in_def split: if_splits)
next
  fix x
  assume "x \<in> ?R"
  then obtain t a d where t: "x = (t_id t, t_assigned_to t)" "t \<in> set (tickets ts)"
      "t_board_list t = Some b" "a \<in> set (arguments ts)" "a_ticket_id a = Some (t_id t)"
      "d \<in> set (debates ts)" "d_id d = a_debate_id a" by auto
  obtain u where u: "u \<in> set (left_join_user ts (t_assigned_to t))"
    using left_join_user_nonempty[of ts "t_assigned_to t"] list.set_sel(1) by blast
  show "x \<in> ?L"
    by (rule image_eqI[OF _ in_argument_cards[OF t(4,2,5,6,7) u t(3)]]) (simp add: t(1))
qed

lemma json_card_fields [simp]:
  "dc_ticket_id c = Some i \<Longrightarrow> bc_ticketId (board_card_of (debate_card_to_json c)) = i"
  "dc_ticket_id c = Some i \<Longrightarrow> bc_moderatorId (board_card_of (debate_card_to_json c)) = dc_moderator_id c"
  by (simp_all add: debate_card_to_json_def)

lemma debate_cards_ticket: "c \<in> set (debate_cards_in ts b) \<Longrightarrow> \<exists>i. dc_ticket_id c = Some i"
  by (auto simp: debate_cards_in_def split: if_splits)

definition table_boards :: "tables \<Rightarrow> (board_list \<times> activity_card list) list" where
  "table_boards ts = map (\<lambda>b. (b, map debate_card_to_json (debate_cards_in ts b)
     @ map ArgumentCardJson (argument_cards_in ts b))) [PENDING, IN_REVIEW, CANCELED, ACCEPTED]"

lemma table_boards_view:
  "(\<lambda>c. (bc_ticketId c, bc_moderatorId c)) ` set (map board_card_of
      (map debate_card_to_json (debate_cards_in ts b) @ map ArgumentCardJson (argument_cards_in ts b)))
    = table_view ts b"
proof -
  have "(\<lambda>c. (bc_ticketId (board_card_of (debate_card_to_json c)),
        bc_moderatorId (board_card_of (debate_card_to_json c)))) ` set (debate_cards_in ts b)
      = (\<lambda>c. (the (dc_ticket_id c), dc_moderator_id c)) ` set (debate_cards_in ts b)"
    using debate_cards_ticket by (intro image_cong) force+
  moreover have "(\<lambda>c. (bc_ticketId (board_card_of (ArgumentCardJson c)),
        bc_moderatorId (board_card_of (ArgumentCardJson c)))) ` set (argument_cards_in ts b)
      = (\<lambda>c. (the (ac_ticket_id c), ac_moderator_id c)) ` set (argument_cards_in ts b)"
    by simp
  ultimately show ?thesis
    by (simp only: set_map set_append image_Un image_image debate_cards_view argument_cards_view
        table_view_def has_card_def) blast
qed

text \<open>Without a failure, the board opens with its four lists in the client's order, pending, in
  review, accepted and canceled, and each shows exactly the tickets of that list that have a card,
  with their moderators.\<close>

theorem board_opens:
  assumes "txn w = NoTxn" and "faults w = []"
  shows "\<exists>data w'. handle_getActivity w = (Inr data, w') \<and> wtabs w' = wtabs w
    \<and> map bd_boardList (getActivityDTO (boards_of data)) = [PENDING, IN_REVIEW, ACCEPTED, CANCELED]
    \<and> board_matches (wtabs w) (getActivityDTO (boards_of data))"
proof -
  let ?ts = "wtabs w"
  obtain w' where run: "handle_getActivity w = (Inr (table_boards ?ts), w')" "wtabs w' = ?ts"
    using handle_getActivity_run[OF assms] unfolding table_boards_def by blast
  let ?b = "\<lambda>b. \<lparr>bd_boardList = b, bd_cards = map board_card_of
      (map debate_card_to_json (debate_cards_in ?ts b) @ map ArgumentCardJson (argument_cards_in ?ts b))\<rparr>"
  have dto: "getActivityDTO (boards_of (table_boards ?ts))
      = [?b PENDING, ?b IN_REVIEW, ?b ACCEPTED, ?b CANCELED]"
    by (simp add: getActivityDTO_def boards_of_def table_boards_def)
  have "b \<in> {PENDING, IN_REVIEW, ACCEPTED, CANCELED}" for b by (cases b) simp_all
  then have univ: "{PENDING, IN_REVIEW, ACCEPTED, CANCELED} = UNIV" by auto
  have "board_view [?b PENDING, ?b IN_REVIEW, ?b ACCEPTED, ?b CANCELED] b = table_view ?ts b" for b
    unfolding table_boards_view[of ?ts b, symmetric]
    by (cases b) (simp_all add: board_view_def)
  with run dto univ show ?thesis by (simp add: board_matches_def)
qed

theorem board_opens_witness:
  "\<exists>data w'. handle_getActivity sample_world = (Inr data, w') \<and> wtabs w' = wtabs sample_world
    \<and> map bd_boardList (getActivityDTO (boards_of data)) = [PENDING, IN_REVIEW, ACCEPTED, CANCELED]
    \<and> board_matches (wtabs sample_world) (getActivityDTO (boards_of data))"
  by (rule board_opens) simp_all

section \<open>Optimistic updates\<close>

text \<open>Taking a ticket from one list and adding a card to another: what a drop and an approval do.\<close>

definition move_card :: "board_list \<Rightarrow> board_list \<Rightarrow> int \<Rightarrow> board_card \<Rightarrow> board_data list \<Rightarrow> board_data list" where
  "move_card from dest i crd =
     map (\<lambda>a. if bd_boardList a = from
              then a\<lparr>bd_cards := filter (\<lambda>c. bc_ticketId c \<noteq> i) (bd_cards a)\<rparr>
              else if bd_boardList a = dest then a\<lparr>bd_cards := bd_cards a @ [crd]\<rparr> else a)"

lemma ticket_approved_move:
  "from \<noteq> ACCEPTED \<Longrightarrow> ticket_approved from crd boards
    = move_card from ACCEPTED (bc_ticketId crd) (crd\<lparr>bc_boardList := ACCEPTED\<rparr>) boards"
  by (auto simp: ticket_approved_def move_card_def)

lemma board_view_move:
  assumes "dest \<in> set (map bd_boardList boards)" and "from \<noteq> dest" and "bc_ticketId crd = i"
  shows "board_view (move_card from dest i crd boards) b =
    (if b = from then {p \<in> board_view boards b. fst p \<noteq> i}
     else if b = dest then insert (i, bc_moderatorId crd) (board_view boards b)
     else board_view boards b)"
proof -
  let ?v = "\<lambda>a. (\<lambda>c. (bc_ticketId c, bc_moderatorId c)) ` set (bd_cards a)"
  have view: "board_view bs b = (\<Union>a \<in> {a \<in> set bs. bd_boardList a = b}. ?v a)" for bs
    by (auto simp: board_view_def split: if_splits)
  have sel: "{a \<in> set (move_card from dest i crd boards). bd_boardList a = b}
      = (\<lambda>a. if b = from then a\<lparr>bd_cards := filter (\<lambda>c. bc_ticketId c \<noteq> i) (bd_cards a)\<rparr>
              else if b = dest then a\<lparr>bd_cards := bd_cards a @ [crd]\<rparr> else a)
        ` {a \<in> set boards. bd_boardList a = b}"
    by (auto simp: move_card_def)
  obtain a where "a \<in> set boards" "bd_boardList a = dest" using assms(1) by auto
  then show ?thesis
    unfolding view sel using assms(2,3) by auto
qed

lemma move_card_lists [simp]: "map bd_boardList (move_card from dest i crd boards) = map bd_boardList boards"
  by (simp add: move_card_def comp_def if_distrib)

lemma collect_insert:
  "{g u |u. u \<in> insert a S \<and> P u \<and> Q u}
    = {g u |u. u \<in> S \<and> P u \<and> Q u} \<union> (if P a \<and> Q a then {g a} else {})"
  by auto

lemma collect_restrict:
  "{(f u, g u) |u. u \<in> {u \<in> S. f u \<noteq> i} \<and> P u \<and> Q u}
    = {p \<in> {(f u, g u) |u. u \<in> S \<and> P u \<and> Q u}. fst p \<noteq> i}"
  by (rule set_eqI, unfold mem_Collect_eq) (metis fst_conv)

lemma table_view_change:
  assumes "distinct (map t_id (tickets ts))" and "t \<in> set (tickets ts)" and "t_id (f t) = t_id t"
  shows "table_view (ts\<lparr>tickets := map (\<lambda>u. if t_id u = t_id t then f u else u) (tickets ts)\<rparr>) b
    = {p \<in> table_view ts b. fst p \<noteq> t_id t}
      \<union> (if t_board_list (f t) = Some b \<and> has_card ts (t_id t)
         then {(t_id t, t_assigned_to (f t))} else {})"
proof -
  have uniq: "u = t" if "u \<in> set (tickets ts)" "t_id u = t_id t" for u
    using that assms(1,2) by (meson distinct_key_eq)
  have tk: "tickets (ts\<lparr>tickets := xs\<rparr>) = xs" for xs by simp
  have "(\<lambda>u. if t_id u = t_id t then f u else u) ` set (tickets ts)
      = (\<lambda>u. if t_id u = t_id t then f t else u) ` set (tickets ts)"
    by (rule image_cong) (auto dest: uniq)
  then have set: "set (map (\<lambda>u. if t_id u = t_id t then f u else u) (tickets ts))
      = insert (f t) {u \<in> set (tickets ts). t_id u \<noteq> t_id t}"
    using assms(2) by auto
  show ?thesis
    unfolding table_view_def has_card_tickets tk set collect_insert assms(3)
    by (intro arg_cong2[where f = "(\<union>)"] refl collect_restrict)
qed

text \<open>A matching board stays matching when a ticket and its card move alike.\<close>

lemma matches_move:
  assumes m: "board_matches ts boards" and "distinct (map t_id (tickets ts))"
    and t: "t \<in> set (tickets ts)" "t_id t = i" "t_board_list t = Some from" "has_card ts i"
    and f: "t_id (f t) = i" "t_board_list (f t) = Some dest" "t_assigned_to (f t) = bc_moderatorId crd"
    and "bc_ticketId crd = i" and "from \<noteq> dest"
  shows "board_matches (ts\<lparr>tickets := map (\<lambda>u. if t_id u = i then f u else u) (tickets ts)\<rparr>)
    (move_card from dest i crd boards)"
proof -
  have dest: "dest \<in> set (map bd_boardList boards)" using m by (simp add: board_matches_def)
  have others: "(i, a) \<notin> table_view ts b" if "b \<noteq> from" for a b
  proof
    assume "(i, a) \<in> table_view ts b"
    then obtain u where "u \<in> set (tickets ts)" "t_id u = t_id t" "t_board_list u = Some b"
      using t(2) by (auto simp: table_view_def)
    moreover from this have "u = t" using assms(2) t(1) by (meson distinct_key_eq)
    ultimately show False using t(3) that by simp
  qed
  have "board_view (move_card from dest i crd boards) b
      = table_view (ts\<lparr>tickets := map (\<lambda>u. if t_id u = i then f u else u) (tickets ts)\<rparr>) b" for b
    unfolding board_view_move[OF dest assms(11,10)]
      table_view_change[OF assms(2) t(1), of f b, unfolded t(2), OF f(1)]
    using m others f t(4) assms(11) by (auto simp: board_matches_def)
  with m show ?thesis unfolding board_matches_def move_card_lists by blast
qed

text \<open>A card with rights is one the API lets the moderator move.\<close>

lemma rights_can_move:
  assumes "board_matches ts boards" and "app_ok ts" and "a \<in> set boards" and "c \<in> set (bd_cards a)"
    and "hasRightsOnTicket (Some (m, n)) c"
  shows "\<exists>t \<in> set (tickets ts). t_id t = bc_ticketId c \<and> t_board_list t = Some (bd_boardList a)
    \<and> t_assigned_to t = bc_moderatorId c \<and> has_card ts (bc_ticketId c)
    \<and> can_move (bc_ticketId c) m t"
proof -
  have "(bc_ticketId c, bc_moderatorId c) \<in> board_view boards (bd_boardList a)"
    using assms(3,4) by (auto simp: board_view_def)
  then have "(bc_ticketId c, bc_moderatorId c) \<in> table_view ts (bd_boardList a)"
    using assms(1) by (simp add: board_matches_def)
  then obtain t where t: "t \<in> set (tickets ts)" "t_id t = bc_ticketId c"
      "t_board_list t = Some (bd_boardList a)" "t_assigned_to t = bc_moderatorId c"
      "has_card ts (bc_ticketId c)" by (auto simp: table_view_def)
  have "ticket_ok ts t" using assms(2) t(1) by (simp add: app_ok_def list_all_iff)
  then have "bd_boardList a = PENDING \<or> t_assigned_to t \<noteq> None" using t(3) by (simp add: ticket_ok_def)
  moreover have "bc_moderatorId c = Some m \<or> bc_moderatorId c = None"
    using assms(5) by (auto simp: hasRightsOnTicket_def)
  ultimately have "can_move (bc_ticketId c) m t" using t by (auto simp: can_move_def)
  with t show ?thesis by blast
qed

lemma parse_board_name: "parse_board_list (board_list_name b) = Some b"
  by (cases b) (simp_all add: parse_board_list_def board_list_range_def)

lemma updateTicket_ok_run:
  assumes "txn w = NoTxn" and "faults w = []" and "int4 m" and "int4 i" and "tables_ok (wtabs w)"
    and "t \<in> set (tickets (wtabs w))" and "t_id t = i" and "can_move i m t"
  shows "\<exists>w'. updateTicket \<lparr>ut_userId = m, ut_ticketId = i, ut_boardList = board_list_name b\<rparr> w = (Inr (), w')
    \<and> wtabs w' = (wtabs w)\<lparr>tickets := map (\<lambda>u. if t_id u = i then moved b m u else u) (tickets (wtabs w))\<rparr>"
proof -
  have uniq: "u = t" if "u \<in> set (tickets (wtabs w))" "t_id u = i" for u
    using that assms(5,6,7) unfolding tables_ok_def ticket_ids_def by (metis distinct_key_eq)
  have "can_move i m u \<longleftrightarrow> t_id u = i" if "u \<in> set (tickets (wtabs w))" for u
    using uniq[OF that] assms(8) by (auto simp: can_move_def)
  then have same: "map (\<lambda>u. if can_move i m u then moved b m u else u) (tickets (wtabs w))
      = map (\<lambda>u. if t_id u = i then moved b m u else u) (tickets (wtabs w))"
    by (intro map_cong) simp_all
  have "filter (can_move i m) (tickets (wtabs w)) \<noteq> []"
    using assms(6,8) by (auto simp: filter_empty_conv)
  moreover have nn: "not_null (int_param (JNum m)) = Inr m" "not_null (int_param (JNum i)) = Inr i"
    using assms(3,4) by simp_all
  ultimately show ?thesis
    using assms(1,2)
    by (simp add: nn updateTicket_def bnd_run client_query_run update_ticket_stmt_def parse_board_name
        with_param_def enum_param_def update_stmt_def same)
qed

text \<open>When the board shows the tickets as they are, dropping a card of which the moderator has the
  rights on another list that takes drops changes the board and asks for a move that the API accepts,
  and the board then shows the tickets as the API left them: list, moderator and all.\<close>

theorem drop_refines:
  assumes "board_matches (wtabs w) boards" and "app_ok (wtabs w)" and "tables_ok (wtabs w)"
    and "txn w = NoTxn" and "faults w = []"
    and "a \<in> set boards" and "c \<in> set (bd_cards a)" and "hasRightsOnTicket (Some (m, n)) c"
    and "\<not> no_moderator (Some (m, n))" and "canAcceptDrops dest" and "bd_boardList a \<noteq> dest"
    and "int4 m" and "int4 (bc_ticketId c)"
  shows "\<exists>boards' w'. board_drop (Some (m, n)) boards
        \<lparr>di_fromBoardList = bd_boardList a, di_cardData = c\<rparr> dest
      = (boards', Some (bc_ticketId c, board_list_name dest))
    \<and> updateTicket \<lparr>ut_userId = m, ut_ticketId = bc_ticketId c, ut_boardList = board_list_name dest\<rparr> w
      = (Inr (), w')
    \<and> board_matches (wtabs w') boards'"
proof -
  let ?i = "bc_ticketId c" and ?from = "bd_boardList a"
  let ?item = "\<lparr>di_fromBoardList = ?from, di_cardData = c\<rparr>"
  let ?crd = "dropped_card (Some (m, n)) ?item dest"
  have drop: "board_drop (Some (m, n)) boards ?item dest
      = (move_card ?from dest ?i ?crd boards, Some (?i, board_list_name dest))"
    using assms(9-11) by (simp add: board_drop_def canAcceptDrops_def onItemDropped_def move_card_def Let_def)
  obtain t where t: "t \<in> set (tickets (wtabs w))" "t_id t = ?i" "t_board_list t = Some ?from"
      "t_assigned_to t = bc_moderatorId c" "has_card (wtabs w) ?i" "can_move ?i m t"
    using rights_can_move[OF assms(1,2,6,7,8)] by blast
  obtain w' where w': "updateTicket \<lparr>ut_userId = m, ut_ticketId = ?i, ut_boardList = board_list_name dest\<rparr> w
      = (Inr (), w')" "wtabs w' = (wtabs w)\<lparr>tickets :=
        map (\<lambda>u. if t_id u = ?i then moved dest m u else u) (tickets (wtabs w))\<rparr>"
    using updateTicket_ok_run[OF assms(4,5,12,13,3) t(1,2,6)] by blast
  have "t_assigned_to (moved dest m t) = bc_moderatorId ?crd"
    using t(3,4) assms(11) by (auto simp: moved_def dropped_card_def Let_def)
  moreover have "bc_ticketId ?crd = ?i" by (simp add: dropped_card_def Let_def)
  ultimately have "board_matches (wtabs w') (move_card ?from dest ?i ?crd boards)"
    unfolding w'(2) using assms(3,11) t(2)
    by (intro matches_move[OF assms(1) _ t(1,2,3,5)])
      (simp_all add: tables_ok_def ticket_ids_def moved_def)
  with drop w'(1) show ?thesis by blast
qed

lemma sample_matches:
  "board_matches (wtabs sample_world) (boards_of (table_boards (wtabs sample_world)))"
proof -
  have "b \<in> {PENDING, IN_REVIEW, CANCELED, ACCEPTED}" for b by (cases b) simp_all
  then have univ: "{PENDING, IN_REVIEW, CANCELED, ACCEPTED} = UNIV" by auto
  have "board_view (boards_of (table_boards (wtabs sample_world))) b = table_view (wtabs sample_world) b" for b
    unfolding table_boards_view[of "wtabs sample_world" b, symmetric]
    by (cases b) (simp_all add: board_view_def boards_of_def table_boards_def)
  with univ show ?thesis by (simp add: board_matches_def boards_of_def table_boards_def)
qed

lemma sample_card:
  assumes "t \<in> set (tickets (wtabs sample_world))" and "t_board_list t = Some b"
    and "has_card (wtabs sample_world) (t_id t)"
  shows "\<exists>a c. a \<in> set (boards_of (table_boards (wtabs sample_world))) \<and> bd_boardList a = b
    \<and> c \<in> set (bd_cards a) \<and> bc_ticketId c = t_id t \<and> bc_moderatorId c = t_assigned_to t"
proof -
  have "(t_id t, t_assigned_to t) \<in> table_view (wtabs sample_world) b"
    using assms by (auto simp: table_view_def)
  then have "(t_id t, t_assigned_to t) \<in> board_view (boards_of (table_boards (wtabs sample_world))) b"
    using sample_matches by (simp add: board_matches_def)
  then show ?thesis by (fastforce simp: board_view_def split: if_splits)
qed

theorem drop_refines_witness:
  "\<exists>c boards' w'. board_drop (Some (2, ''bob'')) (boards_of (table_boards (wtabs sample_world)))
        \<lparr>di_fromBoardList = PENDING, di_cardData = c\<rparr> IN_REVIEW = (boards', Some (2, ''IN REVIEW''))
    \<and> updateTicket \<lparr>ut_userId = 2, ut_ticketId = 2, ut_boardList = ''IN REVIEW''\<rparr> sample_world
      = (Inr (), w')
    \<and> board_matches (wtabs w') boards'"
proof -
  have "has_card (wtabs sample_world) 2"
    by (simp add: has_card_def sample_defs)
  then obtain a c where c: "a \<in> set (boards_of (table_boards (wtabs sample_world)))" "bd_boardList a = PENDING"
      "c \<in> set (bd_cards a)" "bc_ticketId c = 2" "bc_moderatorId c = None"
    using sample_card[of "sample_ticket 2 None PENDING" PENDING]
    by (auto simp: sample_tables_def sample_ticket_def)
  have "app_ok (wtabs sample_world)" by (simp add: app_defs sample_defs)
  moreover have "tables_ok (wtabs sample_world)" using schema_tables_ok[OF sample_db_ok] by simp
  ultimately show ?thesis
    using drop_refines[OF sample_matches _ _ _ _ c(1,3), of 2 "''bob''" IN_REVIEW] c(2,4,5)
    by (auto simp: hasRightsOnTicket_def no_moderator_def canAcceptDrops_def int4_def)
qed

text \<open>Approving moves the card to the accepted list once the API has accepted.\<close>

lemma approve_stmt_run:
  assumes "int4 i" and "tables_ok (tabs d)" and "t \<in> set (tickets (tabs d))" and "can_approve i (uc_id user) t"
  shows "\<exists>r d'. approve_ticket_stmt user i d = (Inr (t_created_by t # r), d')
    \<and> tabs d' = (tabs d)\<lparr>tickets := map (\<lambda>u. if t_id u = i then u\<lparr>t_board_list := Some ACCEPTED\<rparr> else u)
        (tickets (tabs d))\<rparr>"
proof -
  have uniq: "u = t" if "u \<in> set (tickets (tabs d))" "t_id u = i" for u
    using that assms(2,3,4) unfolding tables_ok_def ticket_ids_def can_approve_def
    by (metis distinct_key_eq)
  have same: "can_approve i (uc_id user) u \<longleftrightarrow> t_id u = i" if "u \<in> set (tickets (tabs d))" for u
    using uniq[OF that] assms(4) by (auto simp: can_approve_def)
  have "map (\<lambda>u. if can_approve i (uc_id user) u then u\<lparr>t_board_list := Some ACCEPTED\<rparr> else u)
        (tickets (tabs d))
      = map (\<lambda>u. if t_id u = i then u\<lparr>t_board_list := Some ACCEPTED\<rparr> else u) (tickets (tabs d))"
    using same by (intro map_cong) simp_all
  moreover obtain rows where "filter (can_approve i (uc_id user)) (tickets (tabs d)) = t # rows"
  proof -
    have "t \<in> set (filter (can_approve i (uc_id user)) (tickets (tabs d)))" using assms(3,4) by simp
    then obtain u us where us: "filter (can_approve i (uc_id user)) (tickets (tabs d)) = u # us"
      by (cases "filter (can_approve i (uc_id user)) (tickets (tabs d))") auto
    then have "u \<in> set (filter (can_approve i (uc_id user)) (tickets (tabs d)))" by simp
    then have "u = t" using uniq same by auto
    with us that show thesis by blast
  qed
  moreover have nn: "not_null (int_param (JNum i)) = Inr i" using assms(1) by simp
  ultimately show ?thesis
    by (simp add: approve_ticket_stmt_def nn with_param_def update_stmt_def)
qed

text \<open>Approving a card in review of which the moderator has the rights is accepted by the API, and the
  board, updated after the answer, shows the tickets as the API left them.\<close>

theorem approve_refines:
  assumes "board_matches (wtabs w) boards" and "app_ok (wtabs w)" and "tables_ok (wtabs w)"
    and "txn w = NoTxn" and "faults w = []"
    and "a \<in> set boards" and "c \<in> set (bd_cards a)" and "bd_boardList a = IN_REVIEW"
    and "hasRightsOnTicket (Some (uc_id user, n)) c" and "int4 (bc_ticketId c)"
  shows "\<exists>creator rows w'. approveTicket user (bc_ticketId c) w = (Inr (creator # rows), w')
    \<and> board_matches (wtabs w') (ticket_approved IN_REVIEW c boards)"
proof -
  let ?i = "bc_ticketId c"
  obtain t where t: "t \<in> set (tickets (wtabs w))" "t_id t = ?i" "t_board_list t = Some IN_REVIEW"
      "t_assigned_to t = bc_moderatorId c" "has_card (wtabs w) ?i" "can_move ?i (uc_id user) t"
    using rights_can_move[OF assms(1,2,6,7,9)] assms(8) by auto
  then have "can_approve ?i (uc_id user) t" by (simp add: can_move_def can_approve_def)
  from approve_stmt_run[OF assms(10,3) t(1) this] obtain r d' where
    d': "approve_ticket_stmt user ?i (pg w) = (Inr (t_created_by t # r), d')"
      "tabs d' = (wtabs w)\<lparr>tickets := map (\<lambda>u. if t_id u = ?i
        then u\<lparr>t_board_list := Some ACCEPTED\<rparr> else u) (tickets (wtabs w))\<rparr>" by blast
  then have run: "approveTicket user ?i w = (Inr (t_created_by t # r), w\<lparr>pg := d', lost := False\<rparr>)"
    using assms(4,5) by (simp add: approveTicket_def client_query_run)
  have "board_matches (tabs d') (ticket_approved IN_REVIEW c boards)"
    unfolding d'(2) ticket_approved_move[of IN_REVIEW, simplified]
    using assms(3) t
    by (intro matches_move[OF assms(1) _ t(1,2,3,5)]) (simp_all add: tables_ok_def ticket_ids_def)
  then have "board_matches (wtabs (w\<lparr>pg := d', lost := False\<rparr>)) (ticket_approved IN_REVIEW c boards)"
    by simp
  with run show ?thesis by blast
qed

theorem approve_refines_witness:
  "\<exists>user c creator rows w'. approveTicket user 3 sample_world = (Inr (creator # rows), w')
    \<and> board_matches (wtabs w') (ticket_approved IN_REVIEW c (boards_of (table_boards (wtabs sample_world))))"
proof -
  let ?user = "\<lparr>uc_id = 2, uc_role = Some MODERATOR, uc_username = ''bob''\<rparr>"
  have "has_card (wtabs sample_world) 3"
    by (simp add: has_card_def tags_of_def sample_defs)
  then obtain a c where c: "a \<in> set (boards_of (table_boards (wtabs sample_world)))" "bd_boardList a = IN_REVIEW"
      "c \<in> set (bd_cards a)" "bc_ticketId c = 3" "bc_moderatorId c = Some 2"
    using sample_card[of "sample_ticket 3 (Some 2) IN_REVIEW" IN_REVIEW]
    by (auto simp: sample_tables_def sample_ticket_def)
  have "app_ok (wtabs sample_world)" by (simp add: app_defs sample_defs)
  moreover have "tables_ok (wtabs sample_world)" using schema_tables_ok[OF sample_db_ok] by simp
  ultimately have "\<exists>creator rows w'. approveTicket ?user (bc_ticketId c) sample_world = (Inr (creator # rows), w')
    \<and> board_matches (wtabs w') (ticket_approved IN_REVIEW c (boards_of (table_boards (wtabs sample_world))))"
    using c by (intro approve_refines[OF sample_matches _ _ _ _ c(1,3,2), of _ "''bob''"])
      (simp_all add: hasRightsOnTicket_def int4_def)
  then show ?thesis unfolding c(4) by blast
qed

end
