(* ===== verification/Client_Review.thy ===== *)
theory Client_Review
  imports Review_Gateway
begin

text \<open>
  The review pages of the client (\<open>app/review/argument/[id]/page.tsx\<close> and its twin for debates): the
  item under review and its editing by its owner, and the pane of comments with its composer. The
  two pages have the same pane, with the names of the events as the only difference, so that the
  pane is one group of definitions over the kind of the page. The editors belong to the Lexical
  library; their state is kept in its serialised form.
\<close>

section \<open>The item under review\<close>

datatype review_item_type = Review_MODERATOR | Review_USER

record page_argument =
  pa_reviewItemType :: review_item_type
  pa_ticketId :: int
  pa_argumentId :: jsval
  pa_debateId :: int
  pa_argumentTitle :: string
  pa_argumentContent :: string
  pa_counterargumentToId :: "int option"
  pa_debateTitle :: string
  pa_boardList :: "board_list option"
  pa_userId :: jsval
  pa_assignedToId :: jsval

record page_debate =
  pd_reviewItemType :: review_item_type
  pd_id :: int
  pd_title :: string
  pd_ticketId :: int
  pd_boardList :: "board_list option"
  pd_userId :: jsval
  pd_assignedToId :: jsval

definition js_int :: "int option \<Rightarrow> jsval" where
  "js_int v = (case v of None \<Rightarrow> JNull | Some i \<Rightarrow> JNum i)"

text \<open>The four reads of \<open>utils/api/review.ts\<close>; the moderator's view has no identifier of the argument.\<close>

definition fetchArgumentAsModerator :: "argument_as_moderator \<Rightarrow> page_argument" where
  "fetchArgumentAsModerator r =
     \<lparr>pa_reviewItemType = Review_MODERATOR, pa_ticketId = am_ticket_id r, pa_argumentId = JUndefined,
      pa_debateId = am_debate_id r, pa_argumentTitle = am_argument_title r,
      pa_argumentContent = am_argument_content r,
      pa_counterargumentToId = am_counterargument_to_id r, pa_debateTitle = am_debate_title r,
      pa_boardList = am_board_list r, pa_userId = JNum (am_user_id r),
      pa_assignedToId = js_int (am_assigned_to_id r)\<rparr>"

definition fetchArgumentAsUser :: "argument_as_user \<Rightarrow> page_argument" where
  "fetchArgumentAsUser r =
     \<lparr>pa_reviewItemType = Review_USER, pa_ticketId = au_ticket_id r,
      pa_argumentId = JNum (au_argument_id r), pa_debateId = au_debate_id r,
      pa_argumentTitle = au_argument_title r, pa_argumentContent = au_argument_content r,
      pa_counterargumentToId = au_counterargument_to_id r, pa_debateTitle = au_debate_title r,
      pa_boardList = au_board_list r, pa_userId = JNum (au_user_id r),
      pa_assignedToId = js_int (au_assigned_to_id r)\<rparr>"

definition fetchDebateAsModerator :: "debate_as_moderator \<Rightarrow> page_debate" where
  "fetchDebateAsModerator r =
     \<lparr>pd_reviewItemType = Review_MODERATOR, pd_id = dm_id r, pd_title = dm_title r,
      pd_ticketId = dm_ticket_id r, pd_boardList = dm_board_list r, pd_userId = JNum (dm_user_id r),
      pd_assignedToId = js_int (dm_assigned_to_id r)\<rparr>"

definition fetchDebateAsUser :: "debate_as_user \<Rightarrow> page_debate" where
  "fetchDebateAsUser r =
     \<lparr>pd_reviewItemType = Review_USER, pd_id = du_id r, pd_title = du_title r,
      pd_ticketId = du_ticket_id r, pd_boardList = du_board_list r, pd_userId = JNum (du_user_id r),
      pd_assignedToId = js_int (du_assigned_to_id r)\<rparr>"

text \<open>An accepted item can neither be edited nor commented.\<close>

definition canEditArgument :: "page_argument option \<Rightarrow> bool" where
  "canEditArgument argument \<longleftrightarrow>
     (case argument of None \<Rightarrow> False | Some a \<Rightarrow> pa_boardList a \<noteq> Some ACCEPTED)"

definition canEditDebate :: "page_debate option \<Rightarrow> bool" where
  "canEditDebate debate \<longleftrightarrow>
     (case debate of None \<Rightarrow> False | Some d \<Rightarrow> pd_boardList d \<noteq> Some ACCEPTED)"

section \<open>Editing by the owner\<close>

text \<open>\<open>UserArgumentContent\<close>: the mode, the modified title and the content of the editor.\<close>

record argument_edit =
  ae_isEditMode :: bool
  ae_argumentTitle :: "string option"
  ae_editor :: string

definition resetEditMode :: "argument_edit \<Rightarrow> argument_edit" where
  "resetEditMode s = s\<lparr>ae_isEditMode := False, ae_argumentTitle := None\<rparr>"

text \<open>Opening the edit mode, or saving: then with the title and the content that are to be sent.\<close>

definition toggleEditOrSave ::
  "page_argument \<Rightarrow> argument_edit \<Rightarrow> argument_edit \<times> (string \<times> string) option" where
  "toggleEditOrSave argumentData s =
     (if \<not> ae_isEditMode s
      then (s\<lparr>ae_isEditMode := True, ae_argumentTitle := Some (pa_argumentTitle argumentData)\<rparr>, None)
      else if ae_editor s = [] then (s, None)
      else (case truthy (ae_argumentTitle s) of
              None \<Rightarrow> (s, None)
            | Some ttl \<Rightarrow> (resetEditMode s, Some (ttl, ae_editor s))))"

definition onTitleChanged :: "string \<Rightarrow> argument_edit \<Rightarrow> argument_edit" where
  "onTitleChanged input s =
     (if trim_both input = [] then s else s\<lparr>ae_argumentTitle := Some input\<rparr>)"

definition cancelChanges :: "page_argument \<Rightarrow> argument_edit \<Rightarrow> argument_edit" where
  "cancelChanges argumentData s = (resetEditMode s)\<lparr>ae_editor := pa_argumentContent argumentData\<rparr>"

text \<open>\<open>UserDebateContent\<close>: only the title is edited.\<close>

record debate_edit =
  de_isEditMode :: bool
  de_title :: "string option"

definition debate_toggleEditOrSave ::
  "page_debate \<Rightarrow> debate_edit \<Rightarrow> debate_edit \<times> string option option" where
  "debate_toggleEditOrSave debateData s =
     (if \<not> de_isEditMode s
      then (\<lparr>de_isEditMode = True, de_title = Some (pd_title debateData)\<rparr>, None)
      else (\<lparr>de_isEditMode = False, de_title = None\<rparr>, Some (de_title s)))"

definition debate_cancelChanges :: "debate_edit \<Rightarrow> debate_edit" where
  "debate_cancelChanges s = \<lparr>de_isEditMode = False, de_title = None\<rparr>"

definition debate_onTitleChanged :: "string \<Rightarrow> debate_edit \<Rightarrow> debate_edit" where
  "debate_onTitleChanged input s =
     (if trim_both input = [] then s else s\<lparr>de_title := Some input\<rparr>)"

text \<open>The updates that the owner sends, and what the page does with the answer \<open>OK\<close>.\<close>

definition onUpdateArgument :: "page_argument option \<Rightarrow> string \<times> string \<Rightarrow> argument_review_updated option" where
  "onUpdateArgument argument data =
     (case argument of
        None \<Rightarrow> None
      | Some a \<Rightarrow>
          if pa_reviewItemType a \<noteq> Review_USER then None
          else Some \<lparr>aru_data = Some (pa_argumentId a, fst data, snd data),
                     aru_ticketId = JNum (pa_ticketId a), aru_debateTitle = pa_debateTitle a,
                     aru_argumentTitle = pa_argumentTitle a, aru_userId = pa_userId a,
                     aru_assignedToId = pa_assignedToId a\<rparr>)"

definition argument_update_answered ::
  "page_argument \<Rightarrow> string \<times> string \<Rightarrow> string \<Rightarrow> page_argument option \<Rightarrow> page_argument option" where
  "argument_update_answered sent data responseMessage argument =
     (if responseMessage = ''OK''
      then Some (sent\<lparr>pa_argumentTitle := fst data, pa_argumentContent := snd data\<rparr>)
      else argument)"

definition onUpdateDebate :: "page_debate option \<Rightarrow> string \<Rightarrow> debate_review_updated option" where
  "onUpdateDebate debate ttl =
     (case debate of
        None \<Rightarrow> None
      | Some d \<Rightarrow>
          if pd_reviewItemType d \<noteq> Review_USER then None
          else Some \<lparr>dru_data = Some (JNum (pd_id d), ttl), dru_oldTitle = pd_title d,
                     dru_ticketId = JNum (pd_ticketId d), dru_userId = pd_userId d,
                     dru_assignedToId = pd_assignedToId d\<rparr>)"

definition debate_update_answered ::
  "page_debate \<Rightarrow> string \<Rightarrow> string \<Rightarrow> page_debate option \<Rightarrow> page_debate option" where
  "debate_update_answered sent ttl responseMessage debate =
     (if responseMessage \<noteq> ''OK'' then debate else Some (sent\<lparr>pd_title := ttl\<rparr>))"

text \<open>The update of the item as the other pages of the room take it: only a moderator's page does.\<close>

definition argument_updated :: "string \<Rightarrow> string \<Rightarrow> page_argument option \<Rightarrow> page_argument option" where
  "argument_updated ttl content argument =
     (case argument of
        None \<Rightarrow> None
      | Some a \<Rightarrow>
          if pa_reviewItemType a \<noteq> Review_MODERATOR then Some a
          else Some (a\<lparr>pa_argumentContent := content, pa_argumentTitle := ttl\<rparr>))"

definition debate_updated :: "string \<Rightarrow> page_debate option \<Rightarrow> page_debate option" where
  "debate_updated ttl debate =
     (case debate of
        None \<Rightarrow> None
      | Some d \<Rightarrow>
          if pd_reviewItemType d \<noteq> Review_MODERATOR then Some d else Some (d\<lparr>pd_title := ttl\<rparr>))"

section \<open>The pane of comments\<close>

datatype review_kind = Kind_debate | Kind_argument

fun create_event :: "review_kind \<Rightarrow> string" where
  "create_event Kind_debate = ''comment/debate:create''"
| "create_event Kind_argument = ''comment/argument:create''"

fun update_event :: "review_kind \<Rightarrow> string" where
  "update_event Kind_debate = ''comment/debate:update''"
| "update_event Kind_argument = ''comment/argument:update''"

text \<open>
  The comments, the comment that is being edited, the content of its editor and of the composer, and
  whether the page has been left after an error.
\<close>

record comments_pane =
  pn_comments :: "sent_comment list"
  pn_editing :: "int option"
  pn_edited :: string
  pn_composer :: string
  pn_left :: bool

definition opened_pane :: "string \<Rightarrow> comments_pane" where
  "opened_pane cleared =
     \<lparr>pn_comments = [], pn_editing = None, pn_edited = cleared, pn_composer = cleared, pn_left = False\<rparr>"

definition comments_fetched :: "sent_comment list \<Rightarrow> comments_pane \<Rightarrow> comments_pane" where
  "comments_fetched fetched s = s\<lparr>pn_comments := fetched\<rparr>"

text \<open>An identifier of zero counts as none.\<close>

definition is_editing :: "comments_pane \<Rightarrow> bool" where
  "is_editing s \<longleftrightarrow> pn_editing s \<notin> {None, Some 0}"

text \<open>
  \<open>editableCommentRef\<close>: the editor of the comment that is being edited, or else the composer, which is
  there only when comments can be added. \<open>clearContent\<close> empties the editor it refers to.
\<close>

definition editable_content :: "bool \<Rightarrow> comments_pane \<Rightarrow> string option" where
  "editable_content canAddComments s =
     (if is_editing s then Some (pn_edited s)
      else if canAddComments then Some (pn_composer s) else None)"

definition clearContent :: "bool \<Rightarrow> string \<Rightarrow> comments_pane \<Rightarrow> comments_pane" where
  "clearContent canAddComments cleared s =
     (if is_editing s then s\<lparr>pn_edited := cleared\<rparr>
      else if canAddComments then s\<lparr>pn_composer := cleared\<rparr> else s)"

definition addComment :: "bool \<Rightarrow> comments_pane \<Rightarrow> string option" where
  "addComment canAddComments s =
     (if is_editing s \<or> \<not> canAddComments then None else truthy (editable_content canAddComments s))"

definition argument_addComment :: "page_argument \<Rightarrow> comments_pane \<Rightarrow> comment_payload option" where
  "argument_addComment argument s =
     map_option (\<lambda>comment. \<lparr>cp_comment = Some comment, cp_userId = pa_userId argument,
         cp_assignedToId = pa_assignedToId argument, cp_debateTitle = pa_debateTitle argument,
         cp_argumentTitle = pa_argumentTitle argument\<rparr>)
       (addComment (canEditArgument (Some argument)) s)"

definition debate_addComment :: "page_debate \<Rightarrow> comments_pane \<Rightarrow> comment_payload option" where
  "debate_addComment debate s =
     map_option (\<lambda>comment. \<lparr>cp_comment = Some comment, cp_userId = pd_userId debate,
         cp_assignedToId = pd_assignedToId debate, cp_debateTitle = pd_title debate,
         cp_argumentTitle = []\<rparr>)
       (addComment (canEditDebate (Some debate)) s)"

definition startEditingComment :: "sent_comment \<Rightarrow> comments_pane \<Rightarrow> comments_pane" where
  "startEditingComment comment s =
     s\<lparr>pn_editing := Some (sc_comment_id comment), pn_edited := sc_content comment\<rparr>"

definition cancelEditing :: "sent_comment \<Rightarrow> comments_pane \<Rightarrow> comments_pane" where
  "cancelEditing comment s = s\<lparr>pn_editing := None, pn_edited := sc_content comment\<rparr>"

text \<open>What is sent when the edits are saved, and the acknowledgement.\<close>

definition saveCommentEdits :: "sent_comment \<Rightarrow> comments_pane \<Rightarrow> (jsval \<times> string) option" where
  "saveCommentEdits comment s =
     (case truthy (editable_content True s) of
        None \<Rightarrow> None
      | Some commentContent \<Rightarrow> Some (JNum (sc_comment_id comment), commentContent))"

definition set_content :: "(sent_comment \<Rightarrow> bool) \<Rightarrow> string \<Rightarrow> comments_pane \<Rightarrow> comments_pane" where
  "set_content which content s =
     s\<lparr>pn_comments := map (\<lambda>c. if which c then c\<lparr>sc_content := content\<rparr> else c) (pn_comments s)\<rparr>"

definition edits_saved :: "int \<Rightarrow> string \<Rightarrow> string \<Rightarrow> comments_pane \<Rightarrow> comments_pane" where
  "edits_saved commentId commentContent responseMessage s =
     (if responseMessage = ''OK''
      then set_content (\<lambda>c. sc_comment_id c = commentId) commentContent s else s)
     \<lparr>pn_editing := None\<rparr>"

text \<open>The listeners on the socket.\<close>

fun comment_event :: "review_kind \<Rightarrow> bool \<Rightarrow> string \<Rightarrow> ws_message \<Rightarrow> comments_pane \<Rightarrow> comments_pane" where
  "comment_event k canAddComments cleared (CommentCreated ev insertedComment) s =
     (if ev = create_event k
      then (clearContent canAddComments cleared s)
             \<lparr>pn_comments := pn_comments s @ [insertedComment]\<rparr>
      else s)"
| "comment_event k canAddComments cleared (CommentUpdated ev commentId content) s =
     (if ev = update_event k
      then set_content (\<lambda>c. JNum (sc_comment_id c) = unary_plus commentId) content s else s)"
| "comment_event k canAddComments cleared (ErrorMsg m) s = s\<lparr>pn_left := True\<rparr>"
| "comment_event k canAddComments cleared _ s = s"

fun argument_event ::
  "string \<Rightarrow> ws_message \<Rightarrow> page_argument option \<times> comments_pane \<Rightarrow> page_argument option \<times> comments_pane" where
  "argument_event cleared (ArgumentUpdatedMsg i ttl content) (argument, s) =
     (argument_updated ttl content argument, s)"
| "argument_event cleared m (argument, s) =
     (argument, comment_event Kind_argument (canEditArgument argument) cleared m s)"

fun debate_event ::
  "string \<Rightarrow> ws_message \<Rightarrow> page_debate option \<times> comments_pane \<Rightarrow> page_debate option \<times> comments_pane" where
  "debate_event cleared (DebateUpdatedMsg i ttl) (debate, s) = (debate_updated ttl debate, s)"
| "debate_event cleared m (debate, s) =
     (debate, comment_event Kind_debate (canEditDebate debate) cleared m s)"

end
