(* ===== verification/Review_Room.thy ===== *)
theory Review_Room
  imports Client_Review
begin

text \<open>
  The review pages of one ticket together with the gateway: what the handlers of the comment events do
  to the tables, the rooms and the wire, and the pages with their messages in flight as a step
  relation. The result is that every page in the room shows the comments of the ticket once its
  messages have arrived.
\<close>

section \<open>The handlers of the comment events\<close>

definition review_room :: "int \<Rightarrow> string" where
  "review_room tid = ''review:'' @ int_to_string tid"

lemma ticket_socket:
  assumes "sk_ticket_id sk = Some (int_to_string tid)"
  shows "getTicketIdFromSocket sk = Inr (int_to_string tid)"
    and "getRoomIdentifier sk = Inr (review_room tid)"
proof -
  have "CHR ''u'' \<notin> set (int_to_string tid)"
    using nat_to_string_digits[of "CHR ''u''"] by (auto simp: int_to_string_def)
  then have "int_to_string tid \<noteq> ''undefined''" by auto
  moreover have "truthy (Some (int_to_string tid)) = Some (int_to_string tid)"
    by (cases "int_to_string tid") (simp_all add: truthy_def)
  ultimately show "getTicketIdFromSocket sk = Inr (int_to_string tid)"
    using assms by (simp add: getTicketIdFromSocket_def)
  then show "getRoomIdentifier sk = Inr (review_room tid)"
    by (simp add: getRoomIdentifier_def review_room_def)
qed

lemma redis_net:
  assumes "\<And>v. sockets (snd (act v)) = sockets v \<and> wire (snd (act v)) = wire v"
  shows "sockets (snd (redis act w)) = sockets w \<and> wire (snd (redis act w)) = wire w"
proof -
  obtain f w1 where nf: "next_fault w = (f, w1)" by (cases "next_fault w")
  then have "sockets w1 = sockets w \<and> wire w1 = wire w"
    by (auto simp: next_fault_def split: list.splits)
  then show ?thesis using assms nf by (cases f) (simp_all add: redis_def)
qed

lemma notify_run:
  "\<exists>v. notify_participant render ev kind recipientId w = (Inr (), v) \<and> pg v = pg w \<and> txn v = txn w
     \<and> sockets v = sockets w \<and> wire v = wire w"
proof -
  have "sockets (snd (enqueueNotification p w)) = sockets w
      \<and> wire (snd (enqueueNotification p w)) = wire w" for p
    unfolding enqueueNotification_def by (rule redis_net) simp
  then show ?thesis
    using enqueue_pg by (simp add: notify_participant_def fire_and_forget_run)
qed

text \<open>What concerns one socket only: its entry, and errors that are sent to it.\<close>

definition same_but :: "nat \<Rightarrow> socket \<Rightarrow> socket \<Rightarrow> bool" where
  "same_but i s s' \<longleftrightarrow> sk_id s' = sk_id s \<and> sk_ticket_id s' = sk_ticket_id s \<and> (sk_id s \<noteq> i \<longrightarrow> s' = s)"

definition errors_to :: "nat \<Rightarrow> (nat \<times> ws_message) list \<Rightarrow> bool" where
  "errors_to i ms \<longleftrightarrow> (\<forall>(j, m) \<in> set ms. j = i \<and> (\<exists>t. m = ErrorMsg t))"

definition own_socket :: "nat \<Rightarrow> world \<Rightarrow> world \<Rightarrow> bool" where
  "own_socket i w w' \<longleftrightarrow> pg w' = pg w \<and> txn w' = txn w \<and> faults w' = faults w
     \<and> list_all2 (same_but i) (sockets w) (sockets w')
     \<and> (\<exists>ms. wire w' = wire w @ ms \<and> errors_to i ms)"

lemma same_but_refl: "list_all2 (same_but i) xs xs"
  by (rule list.rel_refl) (simp add: same_but_def)

lemma same_but_origin:
  "list_all2 (same_but i) xs ys \<Longrightarrow> s \<in> set ys \<Longrightarrow> \<exists>s0 \<in> set xs. same_but i s0 s"
  by (induction rule: list_all2_induct) auto

lemma same_but_ids: "list_all2 (same_but i) xs ys \<Longrightarrow> map sk_id ys = map sk_id xs"
  by (induction rule: list_all2_induct) (auto simp: same_but_def)

interpretation own: world_order "own_socket i" for i
proof
  show "own_socket i s s" for s
    by (simp add: own_socket_def same_but_refl errors_to_def)
  fix s t u
  assume st: "own_socket i s t" and tu: "own_socket i t u"
  have "list_all2 (same_but i) (sockets s) (sockets u)"
    by (rule list_all2_trans[of "same_but i" "same_but i" "same_but i" "sockets s" "sockets t"])
       (use st tu in \<open>auto simp: own_socket_def same_but_def\<close>)
  moreover from st tu obtain m n where "wire t = wire s @ m" "errors_to i m"
      "wire u = wire t @ n" "errors_to i n"
    by (auto simp: own_socket_def)
  then have "wire u = wire s @ (m @ n) \<and> errors_to i (m @ n)"
    by (auto simp: errors_to_def)
  ultimately show "own_socket i s u"
    using st tu by (auto simp: own_socket_def)
qed

lemma own_update_socket:
  "(\<And>s. sk_id (f s) = sk_id s \<and> sk_ticket_id (f s) = sk_ticket_id s) \<Longrightarrow>
   keeps (own_socket i) (modify (update_socket i f))"
  by (rule keepsI)
     (auto simp: modify_def update_socket_def own_socket_def list_all2_conv_all_nth same_but_def
       errors_to_def)

lemma own_emit: "keeps (own_socket i) (modify (socket_emit i (ErrorMsg t)))"
  by (rule keepsI) (simp add: modify_def socket_emit_def own_socket_def same_but_refl errors_to_def)

lemma own_lift_sum: "keeps (own_socket i) (lift_sum r)"
  by (rule keepsI) (simp add: own.reflR)

lemma own_room_changes:
  "keeps (own_socket i) (modify (socket_join i room))"
  "keeps (own_socket i) (modify (socket_leave i room))"
  "keeps (own_socket i) (modify (socket_disconnect i))"
  unfolding socket_join_def socket_leave_def socket_disconnect_def
  by (rule own_update_socket; simp)+

lemma own_removeUser: "keeps (own_socket (sk_id sk)) (removeUserFromRoom sk m)"
  unfolding removeUserFromRoom_def
  by (cases "truthy m") (auto intro!: own.keeps_intros own_lift_sum own_room_changes own_emit)

lemma own_connection:
  "keeps (own_socket (sk_id sk)) (handleConnection session_cookie unsign store hs sk)"
  unfolding handleConnection_def addUserToRoom_def
  by (intro own.keeps_try_catch own.keeps_bnd own.keeps_sq own_lift_sum own_room_changes own_emit
      own_update_socket) (auto intro: own.keeps_ret own_room_changes)

lemma own_disconnection: "keeps (own_socket (sk_id sk)) (handleDisconnect sk)"
  unfolding handleDisconnect_def by (intro own.keeps_try_catch own_removeUser own.keeps_ret)

text \<open>A handler that fails takes its socket out of the room.\<close>

definition left_room :: "int \<Rightarrow> socket \<Rightarrow> world \<Rightarrow> world \<Rightarrow> bool" where
  "left_room tid sk w w' \<longleftrightarrow> own_socket (sk_id sk) w w'
     \<and> (\<forall>s \<in> set (sockets w'). sk_id s = sk_id sk \<longrightarrow> review_room tid \<notin> set (sk_rooms s))"

lemma removeUserFromRoom_run:
  assumes "sk_ticket_id sk = Some (int_to_string tid)"
  shows "\<exists>v. removeUserFromRoom sk m w = (Inr (), v) \<and> left_room tid sk w v"
proof -
  let ?w1 = "socket_leave (sk_id sk) (review_room tid) w"
  let ?v = "case truthy m of None \<Rightarrow> ?w1 | Some t \<Rightarrow> socket_emit (sk_id sk) (ErrorMsg t) ?w1"
  have run: "removeUserFromRoom sk m w = (Inr (), ?v)"
    by (simp add: removeUserFromRoom_def ticket_socket(2)[OF assms] bnd_run sq_run modify_def ret_def
        split: option.splits)
  have "sockets ?v = sockets ?w1" by (simp add: socket_emit_def split: option.splits)
  then have "\<forall>s \<in> set (sockets ?v). sk_id s = sk_id sk \<longrightarrow> review_room tid \<notin> set (sk_rooms s)"
    by (auto simp: socket_leave_def update_socket_def)
  then show ?thesis
    using run keeps_result[OF own_removeUser run] by (simp add: left_room_def)
qed

text \<open>Creating a comment: it is stored and sent to the others in the room, or nothing is stored.\<close>

definition comment_stored :: "int \<Rightarrow> world \<Rightarrow> sent_comment \<Rightarrow> world \<Rightarrow> bool" where
  "comment_stored tid w c w' \<longleftrightarrow>
     (\<exists>x u. wtabs w' = (wtabs w)\<lparr>ticket_comments := ticket_comments (wtabs w) @ [x]\<rparr>
        \<and> tc_ticket_id x = tid \<and> tc_created_at x = now (pg w) \<and> c = comment_columns x u)"

definition refused :: "int \<Rightarrow> socket \<Rightarrow> world \<Rightarrow> world \<Rightarrow> bool" where
  "refused tid sk w w' \<longleftrightarrow> (\<exists>w1. safe w1 \<and> wtabs w1 = wtabs w \<and> sockets w1 = sockets w
     \<and> wire w1 = wire w \<and> left_room tid sk w1 w')"

definition comment_create_outcome ::
  "int \<Rightarrow> string \<Rightarrow> socket \<Rightarrow> world \<Rightarrow> (js_error + sent_comment option) \<times> world \<Rightarrow> bool" where
  "comment_create_outcome tid ev sk w res \<longleftrightarrow>
     (\<exists>c w'. res = (Inr (Some c), w') \<and> safe w' \<and> comment_stored tid w c w' \<and> sockets w' = sockets w
        \<and> wire w' = wire w @ map (\<lambda>j. (j, CommentCreated ev c)) (room_members w (sk_id sk) (review_room tid)))
   \<or> (\<exists>w'. res = (Inr None, w') \<and> refused tid sk w w')"

lemma caught_refused:
  assumes "sk_ticket_id sk = Some (int_to_string tid)" and "body w = (Inl e, w1)"
    and "safe w1" "wtabs w1 = wtabs w" "sockets w1 = sockets w" "wire w1 = wire w"
  shows "\<exists>w'. try_catch body
      (\<lambda>err. sq (removeUserFromRoom sk (Some (error_message err))) (ret None)) w = (Inr None, w')
    \<and> refused tid sk w w'"
proof -
  obtain v where v: "removeUserFromRoom sk (Some (error_message e)) w1 = (Inr (), v)"
      and left: "left_room tid sk w1 v"
    using removeUserFromRoom_run[OF assms(1)] by blast
  have "try_catch body (\<lambda>err. sq (removeUserFromRoom sk (Some (error_message err))) (ret None)) w
      = (Inr None, v)"
    by (simp add: try_catch_def assms(2) sq_run v ret_def)
  then show ?thesis using assms(3-) left unfolding refused_def by blast
qed

lemma comment_create_cases:
  assumes store: "comment_store target add" and safe: "safe w" and nf: "FailAfter \<notin> set (faults w)"
    and t: "sk_ticket_id sk = Some (int_to_string tid)"
  shows "comment_create_outcome tid ev sk w
    (comment_create ev add mk_event kind render sk payload w)"
proof (cases "truthy (cp_comment payload)")
  case None
  show ?thesis unfolding comment_create_def comment_create_outcome_def
    by (rule disjI2, rule caught_refused[OF t]) (simp_all add: nonempty_or_throw_def None bnd_run raise_def safe)
next
  case (Some content)
  show ?thesis
  proof (cases "sk_user sk")
    case None
    show ?thesis unfolding comment_create_def comment_create_outcome_def
      by (rule disjI2, rule caught_refused[OF t])
         (simp_all add: nonempty_or_throw_def Some bnd_run raise_def ret_def lift_sum_def
           ticket_socket[OF t] user_or_throw_def None safe)
  next
    case user: (Some user)
    let ?data = "\<lparr>acd_ticketId = JNum tid, acd_content = content, acd_commenterId = uc_id user\<rparr>"
    obtain r w1 where add: "add ?data w = (r, w1)" by (cases "add ?data w")
    have idle: "idle w" using safe by (rule safeD(1))
    have w1: "safe w1" "sockets w1 = sockets w" "wire w1 = wire w"
      using keeps_result[OF comment_store.add_safe[OF store] add]
        keeps_result[OF comment_store.add_quiet[OF store] add] safe
      by (simp_all add: keeps_safe_def quiet_def)
    note body = nonempty_or_throw_def Some bnd_run raise_def ret_def lift_sum_def
      ticket_socket[OF t] user_or_throw_def user add
    show ?thesis
    proof (cases r)
      case (Inl e)
      have "wtabs w1 = wtabs w"
        using comment_store.add_error[OF store idle] add Inl nf by blast
      then show ?thesis unfolding comment_create_def comment_create_outcome_def
        by (intro disjI2 caught_refused[OF t, where e = e and ?w1.0 = w1]) (simp_all add: body Inl w1)
    next
      case (Inr c)
      note added = comment_store.add_result[OF store idle add[unfolded Inr]]
        comment_store.add_time[OF store idle add[unfolded Inr]]
      have stored: "comment_stored tid w c w1"
        using added by (auto simp: comment_added_def comment_stored_def comment_columns_def)
      let ?w2 = "broadcast (sk_id sk) (review_room tid) (CommentCreated ev c) w1"
      let ?rcp = "other_participant user (cp_userId payload) (cp_assignedToId payload)"
      obtain v where v: "notify_participant render
            (mk_event (JNum tid) (sc_comment_id c) user ?rcp) kind ?rcp ?w2 = (Inr (), v)"
          and same: "pg v = pg ?w2" "txn v = txn ?w2" "sockets v = sockets ?w2" "wire v = wire ?w2"
        using notify_run by blast
      have run: "comment_create ev add mk_event kind render sk payload w = (Inr (Some c), v)"
        unfolding comment_create_def
        by (simp add: try_catch_def body Inr sq_run modify_def Let_def v)
      have "safe v" using w1(1) same by (simp add: safe_def idle_def world_ok_def broadcast_def)
      moreover have "comment_stored tid w c v"
        using stored same by (simp add: comment_stored_def broadcast_def)
      ultimately show ?thesis
        using run w1 same by (simp add: comment_create_outcome_def broadcast_def room_members_def)
    qed
  qed
qed

text \<open>Editing a comment: the caller's own one, which the others in the room are sent, or nothing.\<close>

definition comment_edited :: "int \<Rightarrow> int \<Rightarrow> string \<Rightarrow> world \<Rightarrow> world \<Rightarrow> bool" where
  "comment_edited uid cid content w w' \<longleftrightarrow>
     (\<exists>x \<in> set (ticket_comments (wtabs w)). tc_id x = cid \<and> tc_commenter_id x = uid)
     \<and> wtabs w' = (wtabs w)\<lparr>ticket_comments := map (\<lambda>c.
         if tc_id c = cid \<and> tc_commenter_id c = uid
         then c\<lparr>tc_content := content, tc_modified_at := now (pg w)\<rparr> else c)
         (ticket_comments (wtabs w))\<rparr>"

lemma updateComment_cases:
  assumes safe: "safe w" and nf: "FailAfter \<notin> set (faults w)"
    and run: "updateComment user \<lparr>ucd_commentId = JNum cid, ucd_content = content\<rparr> w = (r, w')"
  shows "safe w' \<and> sockets w' = sockets w \<and> wire w' = wire w \<and>
    (case r of
       Inl e \<Rightarrow> wtabs w' = wtabs w
     | Inr n \<Rightarrow> if n = 0 then wtabs w' = wtabs w else comment_edited (uc_id user) cid content w w')"
proof -
  let ?data = "\<lparr>ucd_commentId = JNum cid, ucd_content = content\<rparr>"
  have kept: "safe w'" "sockets w' = sockets w" "wire w' = wire w"
    using keeps_result[OF updateComment_keeps(1) run] keeps_result[OF updateComment_keeps(3) run] safe
    by (simp_all add: keeps_safe_def quiet_def)
  note cq = client_query_cases(2)[OF safeD(1)[OF safe] stmt_ok_update_comment
      run[unfolded updateComment_def]]
  have own: "own_comment (Some cid) (uc_id user) = (\<lambda>c. tc_id c = cid \<and> tc_commenter_id c = uc_id user)"
    by (auto simp: own_comment_def fun_eq_iff)
  have "case r of
       Inl e \<Rightarrow> wtabs w' = wtabs w
     | Inr n \<Rightarrow> if n = 0 then wtabs w' = wtabs w else comment_edited (uc_id user) cid content w w'"
  proof (cases r)
    case (Inl e)
    then show ?thesis using cq nf by auto
  next
    case (Inr n)
    let ?own = "\<lambda>c. tc_id c = cid \<and> tc_commenter_id c = uc_id user"
    let ?ts = "(wtabs w)\<lparr>ticket_comments := map (\<lambda>c. if ?own c
         then c\<lparr>tc_content := content, tc_modified_at := now (pg w)\<rparr> else c)
         (ticket_comments (wtabs w))\<rparr>"
    from cq Inr have st: "update_comment_stmt user ?data (pg w) = (Inr n, pg w')" by simp
    then have "int4 cid" by (auto simp: update_comment_stmt_def with_param_Inr)
    then have "update_comment_stmt user ?data (pg w) =
        (Inr (length (filter ?own (ticket_comments (wtabs w)))), (pg w)\<lparr>tabs := ?ts\<rparr>)"
      by (simp add: update_comment_stmt_def with_param_def update_stmt_def own int_param.simps(3))
    with st have n: "n = length (filter ?own (ticket_comments (wtabs w)))"
      and pg: "pg w' = (pg w)\<lparr>tabs := ?ts\<rparr>" by simp_all
    then have w': "wtabs w' = ?ts" by simp
    show ?thesis
    proof (cases "n = 0")
      case True
      then have "\<forall>c \<in> set (ticket_comments (wtabs w)). \<not> (tc_id c = cid \<and> tc_commenter_id c = uc_id user)"
        using n by (simp add: filter_empty_conv)
      then have "map (\<lambda>c. if tc_id c = cid \<and> tc_commenter_id c = uc_id user
         then c\<lparr>tc_content := content, tc_modified_at := now (pg w)\<rparr> else c) (ticket_comments (wtabs w))
         = ticket_comments (wtabs w)"
        by (intro map_idI) auto
      with w' True Inr show ?thesis by simp
    next
      case False
      then have "filter (\<lambda>c. tc_id c = cid \<and> tc_commenter_id c = uc_id user)
          (ticket_comments (wtabs w)) \<noteq> []" using n by auto
      then have "\<exists>x \<in> set (ticket_comments (wtabs w)). tc_id x = cid \<and> tc_commenter_id x = uc_id user"
        by (simp add: filter_empty_conv)
      with w' False Inr show ?thesis by (simp add: comment_edited_def)
    qed
  qed
  with kept show ?thesis by simp
qed

definition comment_update_outcome ::
  "int \<Rightarrow> string \<Rightarrow> socket \<Rightarrow> int \<Rightarrow> string \<Rightarrow> world \<Rightarrow> (js_error + string option) \<times> world \<Rightarrow> bool" where
  "comment_update_outcome tid ev sk cid content w res \<longleftrightarrow>
     (\<exists>uid w'. res = (Inr (Some ''OK''), w') \<and> safe w' \<and> comment_edited uid cid content w w'
        \<and> sockets w' = sockets w
        \<and> wire w' = wire w @ map (\<lambda>j. (j, CommentUpdated ev (JNum cid) content))
             (room_members w (sk_id sk) (review_room tid)))
   \<or> (\<exists>w'. res = (Inr None, w') \<and> refused tid sk w w')"

lemma comment_update_cases:
  assumes safe: "safe w" and nf: "FailAfter \<notin> set (faults w)"
    and t: "sk_ticket_id sk = Some (int_to_string tid)"
  shows "comment_update_outcome tid ev sk cid content w
    (comment_update ev sk (JNum cid) (Some content) w)"
proof (cases "content = [] \<or> sk_user sk = None")
  case True
  have tr: "truthy (Some content) = (if content = [] then None else Some content)"
    by (cases content) (simp_all add: truthy_def)
  show ?thesis unfolding comment_update_def comment_update_outcome_def
    by (rule disjI2, rule caught_refused[OF t, where ?w1.0 = w
          and e = "if content = [] then WsException (''Comment'' @ CHR 0x27 # ''s content can''
            @ CHR 0x27 # ''t be empty.'') else TypeError"])
       (use True in \<open>auto simp: nonempty_or_throw_def tr bnd_run raise_def ret_def user_or_throw_def safe\<close>)
next
  case False
  then obtain user where user: "sk_user sk = Some user" and ne: "content \<noteq> []" by auto
  have tr: "truthy (Some content) = Some content"
    using ne by (cases content) (simp_all add: truthy_def)
  let ?data = "\<lparr>ucd_commentId = JNum cid, ucd_content = content\<rparr>"
  obtain r w1 where up: "updateComment user ?data w = (r, w1)" by (cases "updateComment user ?data w")
  note w1 = updateComment_cases[OF safe nf up]
  note body = nonempty_or_throw_def tr bnd_run raise_def ret_def lift_sum_def sq_run guard_js_def
    ticket_socket[OF t] user_or_throw_def user up
  show ?thesis
  proof (cases "\<exists>n. r = Inr n \<and> n \<noteq> 0")
    case False
    then have "wtabs w1 = wtabs w" using w1 by (auto split: sum.splits)
    with False w1 show ?thesis unfolding comment_update_def comment_update_outcome_def
      by (cases r) (intro disjI2 caught_refused[OF t, where ?w1.0 = w1]; simp add: body; fail)+
  next
    case True
    then obtain n where n: "r = Inr n" "n \<noteq> 0" by blast
    let ?w2 = "broadcast (sk_id sk) (review_room tid) (CommentUpdated ev (JNum cid) content) w1"
    have "comment_update ev sk (JNum cid) (Some content) w = (Inr (Some ''OK''), ?w2)"
      unfolding comment_update_def by (simp add: try_catch_def body n modify_def)
    moreover have "safe ?w2" using w1 by (simp add: safe_def idle_def world_ok_def broadcast_def)
    ultimately show ?thesis
      using w1 n by (auto simp: comment_update_outcome_def broadcast_def room_members_def comment_edited_def)
  qed
qed

section \<open>The thread of a ticket\<close>

lemma sort_key_map_same: "(\<And>x. f (g x) = f x) \<Longrightarrow> sort_key f (map g xs) = map g (sort_key f xs)"
proof (induction xs)
  case (Cons x xs)
  have "insort_key f (g y) (map g ys) = map g (insort_key f y ys)" for y ys
    by (induction ys) (simp_all add: Cons.prems)
  with Cons show ?case by simp
qed simp

lemma sort_key_append_last:
  assumes "\<forall>y \<in> set xs. f y \<le> f x"
  shows "sort_key f (xs @ [x]) = sort_key f xs @ [x]"
  using assms
proof (induction xs)
  case (Cons a xs)
  have "insort_key f a (ys @ [x]) = insort_key f a ys @ [x]" if "f a \<le> f x" for ys
    using that by (induction ys) auto
  with Cons show ?case by simp
qed simp

type_synonym thread_view = "(int \<times> string \<times> int) list"

definition shown :: "sent_comment list \<Rightarrow> thread_view" where
  "shown = map (\<lambda>c. (sc_comment_id c, sc_content c, sc_commenter_id c))"

definition stored :: "tables \<Rightarrow> int \<Rightarrow> thread_view" where
  "stored ts tid = map (\<lambda>c. (tc_id c, tc_content c, tc_commenter_id c)) (ticket_thread ts tid)"

text \<open>The clock has not been set back behind a comment.\<close>

definition clock_ok :: "world \<Rightarrow> bool" where
  "clock_ok w \<longleftrightarrow> list_all (\<lambda>c. tc_created_at c \<le> now (pg w)) (ticket_comments (wtabs w))"

definition edit_view :: "int \<Rightarrow> string \<Rightarrow> thread_view \<Rightarrow> thread_view" where
  "edit_view cid content = map (\<lambda>(i, c, u). if i = cid then (i, content, u) else (i, c, u))"

lemma stored_created:
  assumes "comment_stored tid w c w'" and "clock_ok w"
  shows "stored (wtabs w') tid = stored (wtabs w) tid @ shown [c]"
proof -
  from assms(1) obtain x u where w': "ticket_comments (wtabs w') = ticket_comments (wtabs w) @ [x]"
      and x: "tc_ticket_id x = tid" "tc_created_at x = now (pg w)" "c = comment_columns x u"
    by (auto simp: comment_stored_def)
  have "sort_key tc_created_at (ticket_comments (wtabs w) @ [x])
      = sort_key tc_created_at (ticket_comments (wtabs w)) @ [x]"
    by (rule sort_key_append_last) (use assms(2) x in \<open>simp add: clock_ok_def list_all_iff\<close>)
  with w' x show ?thesis
    by (simp add: stored_def ticket_thread_def shown_def comment_columns_def)
qed

lemma stored_edited:
  assumes e: "comment_edited uid cid content w w'" and ids: "distinct (map tc_id (ticket_comments (wtabs w)))"
  shows "stored (wtabs w') tid = edit_view cid content (stored (wtabs w) tid)"
proof -
  let ?g = "\<lambda>c. if tc_id c = cid \<and> tc_commenter_id c = uid
      then c\<lparr>tc_content := content, tc_modified_at := now (pg w)\<rparr> else c"
  from e obtain x where x: "x \<in> set (ticket_comments (wtabs w))" "tc_id x = cid" "tc_commenter_id x = uid"
      and w': "ticket_comments (wtabs w') = map ?g (ticket_comments (wtabs w))"
    by (auto simp: comment_edited_def)
  have own: "tc_commenter_id c = uid" if "c \<in> set (ticket_comments (wtabs w))" "tc_id c = cid" for c
    using ids that x by (metis distinct_map inj_on_def)
  have "sort_key tc_created_at (map ?g (ticket_comments (wtabs w)))
      = map ?g (sort_key tc_created_at (ticket_comments (wtabs w)))"
    by (rule sort_key_map_same) simp
  moreover have "filter (\<lambda>c. tc_ticket_id c = tid) (map ?g ys)
      = map ?g (filter (\<lambda>c. tc_ticket_id c = tid) ys)" for ys
    by (induction ys) auto
  ultimately have "ticket_thread (wtabs w') tid = map ?g (ticket_thread (wtabs w) tid)"
    by (simp add: ticket_thread_def w')
  moreover have "c \<in> set (ticket_comments (wtabs w))" if "c \<in> set (ticket_thread (wtabs w) tid)" for c
    using that by (simp add: ticket_thread_def)
  ultimately show ?thesis
    by (auto simp: stored_def edit_view_def own)
qed

section \<open>The pages of a room\<close>

text \<open>
  What a page gets: an event from the socket, the answer to a created comment included, or the
  acknowledgement of its edits, with the comment and the content that were sent.
\<close>

datatype client_msg = Pushed ws_message | Acked int string string

fun pane_message :: "review_kind \<Rightarrow> bool \<Rightarrow> string \<Rightarrow> client_msg \<Rightarrow> comments_pane \<Rightarrow> comments_pane" where
  "pane_message k canAddComments cleared (Pushed m) s = comment_event k canAddComments cleared m s"
| "pane_message k canAddComments cleared (Acked commentId content response) s =
     edits_saved commentId content response s"

fun view_message :: "review_kind \<Rightarrow> client_msg \<Rightarrow> thread_view \<Rightarrow> thread_view" where
  "view_message k (Pushed (CommentCreated ev c)) v = (if ev = create_event k then v @ shown [c] else v)"
| "view_message k (Pushed (CommentUpdated ev i content)) v =
     (if ev = update_event k
      then map (\<lambda>(j, c, u). if JNum j = unary_plus i then (j, content, u) else (j, c, u)) v else v)"
| "view_message k (Acked i content response) v = (if response = ''OK'' then edit_view i content v else v)"
| "view_message k _ v = v"

lemma shown_set_content:
  "shown (pn_comments (set_content which content s)) =
     map (\<lambda>c. if which c then (sc_comment_id c, content, sc_commenter_id c)
              else (sc_comment_id c, sc_content c, sc_commenter_id c)) (pn_comments s)"
  by (simp add: shown_def set_content_def)

lemma pane_message_view:
  "shown (pn_comments (pane_message k canAdd cleared m s)) = view_message k m (shown (pn_comments s))"
proof (cases m)
  case (Pushed w)
  then show ?thesis
    by (cases w) (auto simp: shown_def set_content_def clearContent_def)
next
  case (Acked i content response)
  then show ?thesis
    by (auto simp: edits_saved_def shown_def set_content_def edit_view_def)
qed

record review_net =
  rn_world :: world
  rn_pages :: "nat \<Rightarrow> comments_pane option"
  rn_inbox :: "(nat \<times> client_msg) list"

definition msgs_for :: "nat \<Rightarrow> (nat \<times> client_msg) list \<Rightarrow> client_msg list" where
  "msgs_for i inbox = map snd (filter (\<lambda>(j, m). j = i) inbox)"

lemma msgs_for_simps [simp]:
  "msgs_for i [] = []" "msgs_for i (xs @ ys) = msgs_for i xs @ msgs_for i ys"
  "msgs_for i ((j, m) # xs) = (if j = i then m # msgs_for i xs else msgs_for i xs)"
  by (simp_all add: msgs_for_def)

text \<open>What a step of the gateway has put on the wire.\<close>

definition wired :: "world \<Rightarrow> world \<Rightarrow> (nat \<times> client_msg) list" where
  "wired w w' = map (\<lambda>(j, m). (j, Pushed m)) (drop (length (wire w)) (wire w'))"

fun handle_comment_create ::
  "review_kind \<Rightarrow> (document \<Rightarrow> string) \<Rightarrow> socket \<Rightarrow> comment_payload \<Rightarrow> (world, sent_comment option) svc" where
  "handle_comment_create Kind_debate = handleDebateCommentCreate"
| "handle_comment_create Kind_argument = handleArgumentCommentCreate"

fun handle_comment_update ::
  "review_kind \<Rightarrow> socket \<Rightarrow> jsval \<Rightarrow> string option \<Rightarrow> (world, string option) svc" where
  "handle_comment_update Kind_debate = handleDebateCommentUpdate"
| "handle_comment_update Kind_argument = handleArgumentCommentUpdate"

lemma handle_comment_create_cases:
  assumes "safe w" and "FailAfter \<notin> set (faults w)" and "sk_ticket_id sk = Some (int_to_string tid)"
  shows "comment_create_outcome tid (create_event k) sk w (handle_comment_create k render sk payload w)"
  using comment_create_cases[OF debate_comments.comment_store_axioms assms]
    comment_create_cases[OF argument_comments.comment_store_axioms assms]
  by (cases k) (simp_all add: handleDebateCommentCreate_def handleArgumentCommentCreate_def)

lemma handle_comment_update_cases:
  assumes "safe w" and "FailAfter \<notin> set (faults w)" and "sk_ticket_id sk = Some (int_to_string tid)"
  shows "comment_update_outcome tid (update_event k) sk cid content w
    (handle_comment_update k sk (JNum cid) (Some content) w)"
  using comment_update_cases[OF assms]
  by (cases k) (simp_all add: handleDebateCommentUpdate_def handleArgumentCommentUpdate_def)

text \<open>
  The steps. A page opens when its socket is connected and its comments have been read, by a user who
  takes part in the ticket, with nothing happening in between. Everything else that happens in the
  system leaves the comments of the ticket alone.
\<close>

inductive net_step :: "review_kind \<Rightarrow> int \<Rightarrow> review_net \<Rightarrow> review_net \<Rightarrow> bool" for k tid where
  net_open:
    "sk \<in> set (sockets (rn_world n)) \<Longrightarrow> sk_ticket_id sk = Some (int_to_string tid) \<Longrightarrow>
     rn_pages n (sk_id sk) = None \<Longrightarrow> msgs_for (sk_id sk) (rn_inbox n) = [] \<Longrightarrow>
     handleConnection session_cookie unsign store hs sk (rn_world n) = (Inr (), w1) \<Longrightarrow>
     int4 tid \<Longrightarrow> faults w1 = [] \<Longrightarrow> participant (wtabs w1) tid (uc_id user) \<Longrightarrow>
     getTicketComments tid user w1 = (Inr cs, w2) \<Longrightarrow>
     net_step k tid n \<lparr>rn_world = w2,
       rn_pages = (rn_pages n)(sk_id sk \<mapsto> comments_fetched cs (opened_pane cleared)),
       rn_inbox = rn_inbox n @ wired (rn_world n) w2\<rparr>"
| net_comment:
    "sk \<in> set (sockets (rn_world n)) \<Longrightarrow> rn_pages n (sk_id sk) = Some p \<Longrightarrow>
     addComment canAdd p = Some comment \<Longrightarrow> cp_comment payload = Some comment \<Longrightarrow>
     FailAfter \<notin> set (faults (rn_world n)) \<Longrightarrow> clock_ok (rn_world n) \<Longrightarrow>
     handle_comment_create k render sk payload (rn_world n) = (Inr r, w') \<Longrightarrow>
     net_step k tid n (n\<lparr>rn_world := w',
       rn_inbox := rn_inbox n @ wired (rn_world n) w'
         @ (case r of None \<Rightarrow> [] | Some c \<Rightarrow> [(sk_id sk, Pushed (CommentCreated (create_event k) c))])\<rparr>)"
| net_edit:
    "sk \<in> set (sockets (rn_world n)) \<Longrightarrow> rn_pages n (sk_id sk) = Some p \<Longrightarrow>
     comment \<in> set (pn_comments p) \<Longrightarrow> saveCommentEdits comment p = Some (i, content) \<Longrightarrow>
     FailAfter \<notin> set (faults (rn_world n)) \<Longrightarrow>
     handle_comment_update k sk i (Some content) (rn_world n) = (Inr r, w') \<Longrightarrow>
     net_step k tid n (n\<lparr>rn_world := w',
       rn_inbox := rn_inbox n @ wired (rn_world n) w'
         @ (case r of None \<Rightarrow> [] | Some response \<Rightarrow>
              [(sk_id sk, Acked (sc_comment_id comment) content response)])\<rparr>)"
| net_deliver:
    "rn_inbox n = before @ (i, m) # after \<Longrightarrow> msgs_for i before = [] \<Longrightarrow> rn_pages n i = Some p \<Longrightarrow>
     net_step k tid n (n\<lparr>rn_pages := (rn_pages n)(i \<mapsto> pane_message k canAdd cleared m p),
       rn_inbox := before @ after\<rparr>)"
| net_local:
    "rn_pages n i = Some p \<Longrightarrow>
     p' \<in> {startEditingComment c p, cancelEditing c p, p\<lparr>pn_composer := text\<rparr>, p\<lparr>pn_edited := text\<rparr>} \<Longrightarrow>
     net_step k tid n (n\<lparr>rn_pages := (rn_pages n)(i \<mapsto> p')\<rparr>)"
| net_leave:
    "sk \<in> set (sockets (rn_world n)) \<Longrightarrow> handleDisconnect sk (rn_world n) = (r, w') \<Longrightarrow>
     net_step k tid n (n\<lparr>rn_world := w', rn_pages := (rn_pages n)(sk_id sk := None)\<rparr>)"
| net_socket:
    "sk_id sk \<notin> sk_id ` set (sockets (rn_world n)) \<Longrightarrow> sk_rooms sk = [] \<Longrightarrow>
     rn_pages n (sk_id sk) = None \<Longrightarrow>
     net_step k tid n (n\<lparr>rn_world := (rn_world n)\<lparr>sockets := sockets (rn_world n) @ [sk]\<rparr>\<rparr>)"
| net_other:
    "safe w' \<Longrightarrow> stored (wtabs w') tid = stored (wtabs (rn_world n)) tid \<Longrightarrow>
     sockets w' = sockets (rn_world n) \<Longrightarrow>
     \<forall>(j, m) \<in> set extra. \<exists>i ttl content. m \<in> {ArgumentUpdatedMsg i ttl content, DebateUpdatedMsg i ttl} \<Longrightarrow>
     net_step k tid n (n\<lparr>rn_world := w',
       rn_inbox := rn_inbox n @ map (\<lambda>(j, m). (j, Pushed m)) extra\<rparr>)"

section \<open>The invariant of the net\<close>

definition in_room :: "int \<Rightarrow> socket \<Rightarrow> bool" where
  "in_room tid sk \<longleftrightarrow> review_room tid \<in> set (sk_rooms sk)"

definition in_step :: "review_kind \<Rightarrow> int \<Rightarrow> review_net \<Rightarrow> socket \<Rightarrow> comments_pane \<Rightarrow> bool" where
  "in_step k tid n sk p \<longleftrightarrow> sk_ticket_id sk = Some (int_to_string tid)
     \<and> (in_room tid sk \<longrightarrow> fold (view_message k) (msgs_for (sk_id sk) (rn_inbox n)) (shown (pn_comments p))
          = stored (wtabs (rn_world n)) tid)"

definition net_inv :: "review_kind \<Rightarrow> int \<Rightarrow> review_net \<Rightarrow> bool" where
  "net_inv k tid n \<longleftrightarrow> safe (rn_world n) \<and> distinct (map sk_id (sockets (rn_world n)))
     \<and> (\<forall>sk \<in> set (sockets (rn_world n)). \<forall>p. rn_pages n (sk_id sk) = Some p \<longrightarrow> in_step k tid n sk p)"

lemma net_inv_page:
  "net_inv k tid n \<Longrightarrow> sk \<in> set (sockets (rn_world n)) \<Longrightarrow> rn_pages n (sk_id sk) = Some p \<Longrightarrow>
   in_step k tid n sk p"
  by (simp add: net_inv_def)

text \<open>A step of the gateway that brings every page of the room up to the tables it leaves.\<close>

lemma net_inv_send:
  assumes inv: "net_inv k tid n" and safe: "safe w'"
    and socks: "list_all2 (same_but i) (sockets (rn_world n)) (sockets w')"
    and news: "\<And>sk. sk \<in> set (sockets w') \<Longrightarrow> in_room tid sk \<Longrightarrow>
        (\<exists>sk0 \<in> set (sockets (rn_world n)). sk_id sk0 = sk_id sk \<and> in_room tid sk0) \<and>
        fold (view_message k) (msgs_for (sk_id sk) new) (stored (wtabs (rn_world n)) tid) = stored (wtabs w') tid"
  shows "net_inv k tid (n\<lparr>rn_world := w', rn_inbox := rn_inbox n @ new\<rparr>)"
proof -
  have "map sk_id (sockets w') = map sk_id (sockets (rn_world n))"
    by (rule same_but_ids[OF socks])
  then have ids: "distinct (map sk_id (sockets w'))" using inv by (simp add: net_inv_def)
  have "in_step k tid (n\<lparr>rn_world := w', rn_inbox := rn_inbox n @ new\<rparr>) sk p"
    if sk: "sk \<in> set (sockets w')" and p: "rn_pages n (sk_id sk) = Some p" for sk p
  proof -
    obtain sk0 where sk0: "sk0 \<in> set (sockets (rn_world n))" "same_but i sk0 sk"
      using same_but_origin[OF socks sk] by blast
    then have t: "sk_ticket_id sk = Some (int_to_string tid)"
      using net_inv_page[OF inv sk0(1)] p by (simp add: same_but_def in_step_def)
    show ?thesis
    proof (cases "in_room tid sk")
      case True
      from news[OF sk True] obtain sk1 where sk1: "sk1 \<in> set (sockets (rn_world n))"
          "sk_id sk1 = sk_id sk" "in_room tid sk1"
        and new: "fold (view_message k) (msgs_for (sk_id sk) new) (stored (wtabs (rn_world n)) tid)
            = stored (wtabs w') tid" by blast
      have "in_step k tid n sk1 p" using net_inv_page[OF inv sk1(1)] p sk1(2) by simp
      then show ?thesis using t new sk1 by (simp add: in_step_def)
    qed (simp add: in_step_def t)
  qed
  then show ?thesis using safe ids by (simp add: net_inv_def)
qed

text \<open>Everyone in the room gets one message: the author the answer, the others the broadcast.\<close>

lemma msgs_for_distinct:
  "distinct js \<Longrightarrow> msgs_for j (map (\<lambda>j. (j, m)) js) = (if j \<in> set js then [m] else [])"
  by (induction js) auto

lemma msgs_for_room:
  assumes "distinct (map sk_id (sockets w))" and "sk \<in> set (sockets w)" and "in_room tid sk"
  shows "msgs_for (sk_id sk) (map (\<lambda>j. (j, m)) (room_members w i (review_room tid)) @ [(i, r)])
    = [if sk_id sk = i then r else m]"
proof -
  have "distinct (room_members w i (review_room tid))"
    using assms(1) by (simp add: room_members_def distinct_map_filter)
  moreover have "sk_id sk \<in> set (room_members w i (review_room tid)) \<longleftrightarrow> sk_id sk \<noteq> i"
    using assms(2,3) by (auto simp: room_members_def in_room_def)
  ultimately show ?thesis by (simp add: msgs_for_distinct)
qed

lemma wired_append: "wire w' = wire w @ ms \<Longrightarrow> wired w w' = map (\<lambda>(j, m). (j, Pushed m)) ms"
  by (simp add: wired_def)

lemma errors_not_for: "errors_to i ms \<Longrightarrow> j \<noteq> i \<Longrightarrow> msgs_for j (map (\<lambda>(j, m). (j, Pushed m)) ms) = []"
  by (induction ms) (auto simp: errors_to_def)

lemma errors_view:
  "errors_to i ms \<Longrightarrow> fold (view_message k) (msgs_for j (map (\<lambda>(j, m). (j, Pushed m)) ms)) v = v"
  by (induction ms) (auto simp: errors_to_def)

lemma net_inv_refused:
  assumes inv: "net_inv k tid n" and ref: "refused tid sk (rn_world n) w'"
  shows "net_inv k tid (n\<lparr>rn_world := w', rn_inbox := rn_inbox n @ wired (rn_world n) w' @ []\<rparr>)"
proof -
  from ref obtain w1 ms where w1: "safe w1" "wtabs w1 = wtabs (rn_world n)"
      "sockets w1 = sockets (rn_world n)" "wire w1 = wire (rn_world n)"
    and own: "pg w' = pg w1" "txn w' = txn w1" "list_all2 (same_but (sk_id sk)) (sockets w1) (sockets w')"
      "wire w' = wire w1 @ ms" "errors_to (sk_id sk) ms"
    and out: "\<forall>s \<in> set (sockets w'). sk_id s = sk_id sk \<longrightarrow> review_room tid \<notin> set (sk_rooms s)"
    by (auto simp: refused_def left_room_def own_socket_def)
  have "safe w'" using w1(1) own by (simp add: safe_def idle_def world_ok_def)
  moreover have "list_all2 (same_but (sk_id sk)) (sockets (rn_world n)) (sockets w')"
    using own(3) w1(3) by simp
  moreover have "(\<exists>sk0 \<in> set (sockets (rn_world n)). sk_id sk0 = sk_id s \<and> in_room tid sk0) \<and>
        fold (view_message k) (msgs_for (sk_id s) (wired (rn_world n) w' @ []))
          (stored (wtabs (rn_world n)) tid) = stored (wtabs w') tid"
    if s: "s \<in> set (sockets w')" "in_room tid s" for s
  proof -
    have ne: "sk_id s \<noteq> sk_id sk" using out s by (auto simp: in_room_def)
    obtain s0 where s0: "s0 \<in> set (sockets w1)" "same_but (sk_id sk) s0 s"
      using same_but_origin[OF own(3) s(1)] by blast
    then have "s = s0" using ne by (auto simp: same_but_def)
    moreover have "wire w' = wire (rn_world n) @ ms" using own(4) w1(4) by simp
    ultimately show ?thesis
      using s0 s w1 own errors_not_for[OF own(5) ne] by (auto simp: wired_append)
  qed
  ultimately show ?thesis by (rule net_inv_send[OF inv])
qed

lemma net_inv_broadcast:
  assumes inv: "net_inv k tid n" and safe: "safe w'" and sk: "sockets w' = sockets (rn_world n)"
    and wire: "wire w' = wire (rn_world n) @ map (\<lambda>j. (j, m)) (room_members (rn_world n) i (review_room tid))"
    and m: "view_message k (Pushed m) (stored (wtabs (rn_world n)) tid) = stored (wtabs w') tid"
    and r: "view_message k r (stored (wtabs (rn_world n)) tid) = stored (wtabs w') tid"
  shows "net_inv k tid (n\<lparr>rn_world := w', rn_inbox := rn_inbox n @ wired (rn_world n) w' @ [(i, r)]\<rparr>)"
proof (rule net_inv_send[OF inv safe])
  show "list_all2 (same_but i) (sockets (rn_world n)) (sockets w')" by (simp add: sk same_but_refl)
  fix s assume s: "s \<in> set (sockets w')" "in_room tid s"
  have "wired (rn_world n) w' @ [(i, r)]
      = map (\<lambda>j. (j, Pushed m)) (room_members (rn_world n) i (review_room tid)) @ [(i, r)]"
    by (simp add: wired_append[OF wire] comp_def)
  moreover have "distinct (map sk_id (sockets (rn_world n)))" using inv by (simp add: net_inv_def)
  ultimately show "(\<exists>sk0 \<in> set (sockets (rn_world n)). sk_id sk0 = sk_id s \<and> in_room tid sk0) \<and>
      fold (view_message k) (msgs_for (sk_id s) (wired (rn_world n) w' @ [(i, r)]))
        (stored (wtabs (rn_world n)) tid) = stored (wtabs w') tid"
    using s sk m r msgs_for_room[of "rn_world n" s tid "Pushed m" i r] by auto
qed

lemma comment_ids: "safe w \<Longrightarrow> distinct (map tc_id (ticket_comments (wtabs w)))"
  using safeD(3) by (auto simp: schema_ok_def tables_ok_def keys_ok_def serial_key_def)

lemma net_inv_comment:
  assumes inv: "net_inv k tid n" and sk: "sk \<in> set (sockets (rn_world n))"
    and p: "rn_pages n (sk_id sk) = Some p"
    and nf: "FailAfter \<notin> set (faults (rn_world n))" and clock: "clock_ok (rn_world n)"
    and run: "handle_comment_create k render sk payload (rn_world n) = (Inr r, w')"
  shows "net_inv k tid (n\<lparr>rn_world := w', rn_inbox := rn_inbox n @ wired (rn_world n) w'
    @ (case r of None \<Rightarrow> [] | Some c \<Rightarrow> [(sk_id sk, Pushed (CommentCreated (create_event k) c))])\<rparr>)"
proof -
  have safe: "safe (rn_world n)" using inv by (simp add: net_inv_def)
  have t: "sk_ticket_id sk = Some (int_to_string tid)"
    using net_inv_page[OF inv sk p] by (simp add: in_step_def)
  have out: "comment_create_outcome tid (create_event k) sk (rn_world n) (Inr r, w')"
    using handle_comment_create_cases[OF safe nf t] run by metis
  show ?thesis
  proof (cases r)
    case None
    then have "refused tid sk (rn_world n) w'" using out by (simp add: comment_create_outcome_def)
    from net_inv_refused[OF inv this] None show ?thesis by simp
  next
    case (Some c)
    with out have c: "safe w'" "comment_stored tid (rn_world n) c w'" "sockets w' = sockets (rn_world n)"
      "wire w' = wire (rn_world n) @ map (\<lambda>j. (j, CommentCreated (create_event k) c))
         (room_members (rn_world n) (sk_id sk) (review_room tid))"
      by (simp_all add: comment_create_outcome_def)
    show ?thesis
      using net_inv_broadcast[OF inv c(1,3,4)] stored_created[OF c(2) clock] Some by simp
  qed
qed

lemma net_inv_edit:
  assumes inv: "net_inv k tid n" and sk: "sk \<in> set (sockets (rn_world n))"
    and p: "rn_pages n (sk_id sk) = Some p"
    and nf: "FailAfter \<notin> set (faults (rn_world n))"
    and run: "handle_comment_update k sk (JNum cid) (Some content) (rn_world n) = (Inr r, w')"
  shows "net_inv k tid (n\<lparr>rn_world := w', rn_inbox := rn_inbox n @ wired (rn_world n) w'
    @ (case r of None \<Rightarrow> [] | Some response \<Rightarrow> [(sk_id sk, Acked cid content response)])\<rparr>)"
proof -
  have safe: "safe (rn_world n)" using inv by (simp add: net_inv_def)
  have t: "sk_ticket_id sk = Some (int_to_string tid)"
    using net_inv_page[OF inv sk p] by (simp add: in_step_def)
  have out: "comment_update_outcome tid (update_event k) sk cid content (rn_world n) (Inr r, w')"
    using handle_comment_update_cases[OF safe nf t] run by metis
  show ?thesis
  proof (cases r)
    case None
    then have "refused tid sk (rn_world n) w'" using out by (simp add: comment_update_outcome_def)
    from net_inv_refused[OF inv this] None show ?thesis by simp
  next
    case (Some response)
    with out obtain uid where r: "response = ''OK''" and c: "safe w'"
      "comment_edited uid cid content (rn_world n) w'" "sockets w' = sockets (rn_world n)"
      "wire w' = wire (rn_world n) @ map (\<lambda>j. (j, CommentUpdated (update_event k) (JNum cid) content))
         (room_members (rn_world n) (sk_id sk) (review_room tid))"
      by (auto simp: comment_update_outcome_def)
    show ?thesis
      using net_inv_broadcast[OF inv c(1,3,4)] stored_edited[OF c(2) comment_ids[OF safe]] Some r
      by (simp add: edit_view_def)
  qed
qed

lemma net_inv_pages:
  assumes "net_inv k tid n"
    and "\<And>sk p. sk \<in> set (sockets (rn_world n)) \<Longrightarrow> pages (sk_id sk) = Some p \<Longrightarrow>
        in_step k tid (n\<lparr>rn_pages := pages, rn_inbox := inbox\<rparr>) sk p"
  shows "net_inv k tid (n\<lparr>rn_pages := pages, rn_inbox := inbox\<rparr>)"
  using assms by (simp add: net_inv_def)

lemma net_inv_deliver:
  assumes inv: "net_inv k tid n" and inbox: "rn_inbox n = before @ (i, m) # after"
    and first: "msgs_for i before = []" and p: "rn_pages n i = Some p"
  shows "net_inv k tid (n\<lparr>rn_pages := (rn_pages n)(i \<mapsto> pane_message k canAdd cleared m p),
       rn_inbox := before @ after\<rparr>)"
proof (rule net_inv_pages[OF inv])
  fix sk q assume sk: "sk \<in> set (sockets (rn_world n))"
    and q: "((rn_pages n)(i \<mapsto> pane_message k canAdd cleared m p)) (sk_id sk) = Some q"
  show "in_step k tid (n\<lparr>rn_pages := (rn_pages n)(i \<mapsto> pane_message k canAdd cleared m p),
       rn_inbox := before @ after\<rparr>) sk q"
  proof (cases "sk_id sk = i")
    case True
    then have "in_step k tid n sk p" using net_inv_page[OF inv sk] p by simp
    with True q first show ?thesis by (auto simp: in_step_def inbox pane_message_view)
  next
    case False
    then have "in_step k tid n sk q" using net_inv_page[OF inv sk] q by simp
    with False show ?thesis by (simp add: in_step_def inbox)
  qed
qed

lemma socket_unique:
  "net_inv k tid n \<Longrightarrow> sk \<in> set (sockets (rn_world n)) \<Longrightarrow> s \<in> set (sockets (rn_world n)) \<Longrightarrow>
   sk_id s = sk_id sk \<Longrightarrow> s = sk"
  unfolding net_inv_def by (metis distinct_map inj_onD)

lemma net_inv_open:
  assumes inv: "net_inv k tid n" and sk: "sk \<in> set (sockets (rn_world n))"
    and t: "sk_ticket_id sk = Some (int_to_string tid)" and none: "msgs_for (sk_id sk) (rn_inbox n) = []"
    and conn: "handleConnection session_cookie unsign store hs sk (rn_world n) = (Inr (), w1)"
    and i: "int4 tid" and nf: "faults w1 = []" and part: "participant (wtabs w1) tid (uc_id user)"
    and run: "getTicketComments tid user w1 = (Inr cs, w2)"
  shows "net_inv k tid \<lparr>rn_world = w2,
       rn_pages = (rn_pages n)(sk_id sk \<mapsto> comments_fetched cs (opened_pane cleared)),
       rn_inbox = rn_inbox n @ wired (rn_world n) w2\<rparr>"
proof -
  have safe: "safe (rn_world n)" and ids: "distinct (map sk_id (sockets (rn_world n)))"
    using inv by (simp_all add: net_inv_def)
  from keeps_result[OF own_connection conn]
  obtain ms where own: "pg w1 = pg (rn_world n)" "txn w1 = txn (rn_world n)"
      "list_all2 (same_but (sk_id sk)) (sockets (rn_world n)) (sockets w1)"
      "wire w1 = wire (rn_world n) @ ms" "errors_to (sk_id sk) ms"
    by (auto simp: own_socket_def)
  have "txn w1 = NoTxn" "schema_ok (pg w1)"
    using safe own by (simp_all add: safe_def idle_def world_ok_def)
  from getTicketComments_run[OF this(1) nf this(2) i, of user] run part
  have cs: "cs = map (\<lambda>c. comment_columns c (the (user_of (wtabs w1) (tc_commenter_id c)))) (ticket_thread (wtabs w1) tid)"
      and w2: "w2 = w1\<lparr>lost := False\<rparr>" by simp_all
  have "map sk_id (sockets w1) = map sk_id (sockets (rn_world n))"
    by (rule same_but_ids[OF own(3)])
  moreover have shown: "shown cs = stored (wtabs w1) tid"
    by (simp add: cs shown_def stored_def comment_columns_def)
  moreover have "in_step k tid \<lparr>rn_world = w2,
       rn_pages = (rn_pages n)(sk_id sk \<mapsto> comments_fetched cs (opened_pane cleared)),
       rn_inbox = rn_inbox n @ wired (rn_world n) w2\<rparr> s p"
    if s: "s \<in> set (sockets w2)" and p: "((rn_pages n)(sk_id sk \<mapsto> comments_fetched cs (opened_pane cleared))) (sk_id s) = Some p"
    for s p
  proof -
    obtain s0 where s0: "s0 \<in> set (sockets (rn_world n))" "same_but (sk_id sk) s0 s"
      using same_but_origin[OF own(3)] s w2 by auto
    have wired: "wired (rn_world n) w2 = map (\<lambda>(j, m). (j, Pushed m)) ms"
      by (rule wired_append) (simp add: w2 own)
    show ?thesis
    proof (cases "sk_id s = sk_id sk")
      case True
      then have "s0 = sk" using socket_unique[OF inv sk s0(1)] s0(2) by (simp add: same_but_def)
      moreover from True p have "p = comments_fetched cs (opened_pane cleared)" by simp
      ultimately show ?thesis
        using True t s0(2) none wired errors_view[OF own(5)] shown
        by (simp add: in_step_def same_but_def comments_fetched_def w2)
    next
      case False
      then have "s0 = s" using s0(2) by (auto simp: same_but_def)
      with False p s0(1) have "in_step k tid n s p" by (intro net_inv_page[OF inv]) simp_all
      with False errors_not_for[OF own(5) False] show ?thesis
        by (simp add: in_step_def wired) (simp add: w2 own)
    qed
  qed
  ultimately show ?thesis
    using ids safe own by (simp add: net_inv_def w2 safe_def idle_def world_ok_def)
qed

lemma net_inv_step:
  assumes "net_step k tid n n'" and "net_inv k tid n"
  shows "net_inv k tid n'"
  using assms(1)
proof cases
  case net_open
  then show ?thesis using net_inv_open[OF assms(2)] by blast
next
  case (net_comment sk p canAdd comment payload render r w')
  show ?thesis unfolding net_comment(1)
    by (rule net_inv_comment[OF assms(2)]) fact+
next
  case (net_edit sk p comment i content r w')
  have "i = JNum (sc_comment_id comment)"
    using net_edit(5) by (simp add: saveCommentEdits_def split: option.splits)
  with net_edit(7) have run: "handle_comment_update k sk (JNum (sc_comment_id comment)) (Some content)
      (rn_world n) = (Inr r, w')" by simp
  show ?thesis unfolding net_edit(1)
    by (rule net_inv_edit[OF assms(2) _ _ _ run]) fact+
next
  case (net_deliver before i m after p canAdd cleared)
  show ?thesis unfolding net_deliver(1) by (rule net_inv_deliver[OF assms(2)]) fact+
next
  case (net_local i p p' c tx)
  have "shown (pn_comments p') = shown (pn_comments p)"
    using net_local(3) by (auto simp: startEditingComment_def cancelEditing_def)
  then have "in_step k tid (n\<lparr>rn_pages := (rn_pages n)(i \<mapsto> p'), rn_inbox := rn_inbox n\<rparr>) sk q"
    if "sk \<in> set (sockets (rn_world n))" "((rn_pages n)(i \<mapsto> p')) (sk_id sk) = Some q" for sk q
    using net_inv_page[OF assms(2) that(1)] that(2) net_local(2)
    by (cases "sk_id sk = i") (auto simp: in_step_def)
  from net_inv_pages[OF assms(2) this] show ?thesis unfolding net_local(1) by simp
next
  case (net_leave sk r w')
  from keeps_result[OF own_disconnection net_leave(3)]
  have own: "pg w' = pg (rn_world n)" "txn w' = txn (rn_world n)"
      "list_all2 (same_but (sk_id sk)) (sockets (rn_world n)) (sockets w')"
    by (simp_all add: own_socket_def)
  have "in_step k tid n' s p"
    if s: "s \<in> set (sockets w')" and p: "rn_pages n' (sk_id s) = Some p" for s p
  proof -
    have "sk_id s \<noteq> sk_id sk" and pn: "rn_pages n (sk_id s) = Some p"
      using p unfolding net_leave(1) by (auto split: if_splits)
    then have "s \<in> set (sockets (rn_world n))"
      using same_but_origin[OF own(3) s] by (auto simp: same_but_def)
    from net_inv_page[OF assms(2) this pn] show ?thesis
      unfolding net_leave(1) by (simp add: in_step_def own)
  qed
  then show ?thesis
    using assms(2) own same_but_ids[OF own(3)]
    by (simp add: net_inv_def net_leave(1) safe_def idle_def world_ok_def)
next
  case (net_socket sk)
  have "safe (rn_world n')"
    using assms(2) by (simp add: net_socket(1) net_inv_def safe_def idle_def world_ok_def)
  then show ?thesis using assms(2) net_socket by (auto simp: net_inv_def in_step_def in_room_def)
next
  case (net_other w' extra)
  have "fold (view_message k) (msgs_for j (map (\<lambda>(j, m). (j, Pushed m)) extra)) v = v" for j v
    using net_other(5) by (induction extra) auto
  then show ?thesis
    unfolding net_other(1)
    by (intro net_inv_send[OF assms(2) net_other(2), where i = 0])
       (auto simp: net_other(3,4) same_but_refl)
qed

section \<open>The pages show the comments of the ticket\<close>

text \<open>The nets that are reached from a world without open pages.\<close>

definition started_net :: "world \<Rightarrow> review_net" where
  "started_net w = \<lparr>rn_world = w, rn_pages = (\<lambda>_. None), rn_inbox = []\<rparr>"

definition net_reaches :: "review_kind \<Rightarrow> int \<Rightarrow> world \<Rightarrow> review_net \<Rightarrow> bool" where
  "net_reaches k tid w n \<longleftrightarrow> safe w \<and> distinct (map sk_id (sockets w))
     \<and> (net_step k tid)\<^sup>*\<^sup>* (started_net w) n"

lemma net_reaches_inv:
  assumes "net_reaches k tid w n" shows "net_inv k tid n"
proof -
  have start: "net_inv k tid (started_net w)"
    using assms by (simp add: net_reaches_def net_inv_def started_net_def)
  have "(net_step k tid)\<^sup>*\<^sup>* (started_net w) n" using assms by (simp add: net_reaches_def)
  then show ?thesis
    by (induction rule: rtranclp_induct) (auto intro: net_inv_step start)
qed


text \<open>A run: alice opens the page of the debate in review, writes a comment and gets the answer.\<close>

definition sample_socket :: "user_cookie option \<Rightarrow> string list \<Rightarrow> socket" where
  "sample_socket user rooms = \<lparr>sk_id = 1, sk_ticket_id = Some (int_to_string 3), sk_user = user,
     sk_rooms = rooms, sk_open = True\<rparr>"

definition sample_joined :: socket where
  "sample_joined = sample_socket (Some alice_cookie) [review_room 3]"

definition sample_first :: sent_comment where
  "sample_first = \<lparr>sc_comment_id = 1, sc_content = ''hi'', sc_commenter_id = 2, sc_created_at = 3,
     sc_modified_at = 3, sc_commenter_username = ''bob''\<rparr>"

definition sample_second :: sent_comment where
  "sample_second = \<lparr>sc_comment_id = 2, sc_content = ''yes'', sc_commenter_id = 1, sc_created_at = 9,
     sc_modified_at = 9, sc_commenter_username = ''alice''\<rparr>"

definition sample_opened :: review_net where
  "sample_opened = \<lparr>rn_world = sample_world\<lparr>sockets := [sample_joined], lost := False\<rparr>,
     rn_pages = [1 \<mapsto> comments_fetched [sample_first] (opened_pane ''e'')], rn_inbox = []\<rparr>"

lemma sample_connected:
  "handleConnection (\<lambda>c. Some c) (\<lambda>s. Some s) (\<lambda>s. Some alice_cookie)
     \<lparr>hs_cookie = Some ''s:x'', hs_connection = None\<rparr> (sample_socket None [])
     (sample_world\<lparr>sockets := [sample_socket None []]\<rparr>)
   = (Inr (), sample_world\<lparr>sockets := [sample_joined]\<rparr>)"
  by (simp add: handleConnection_def getUserFromSocket_def truthy_def addUserToRoom_def try_catch_def
      bnd_run sq_run modify_def ret_def sample_socket_def ticket_socket(2)[of _ 3] update_socket_def
      socket_join_def sample_joined_def)

lemma sample_comments:
  "getTicketComments 3 alice_cookie (sample_world\<lparr>sockets := [sample_joined]\<rparr>)
   = (Inr [sample_first], sample_world\<lparr>sockets := [sample_joined], lost := False\<rparr>)"
proof -
  have "participant sample_tables 3 1" by (simp add: participant_def sample_defs)
  moreover have "ticket_thread sample_tables 3 = ticket_comments sample_tables"
    by (simp add: ticket_thread_def sample_defs)
  moreover have "user_of sample_tables 2 = Some bob"
    by (simp add: user_of_def sample_defs)
  ultimately show ?thesis
    by (simp add: getTicketComments_run int4_def alice_cookie_def)
       (simp add: sample_tables_def comment_columns_def sample_first_def bob_def)
qed

abbreviation sample_start :: review_net where
  "sample_start \<equiv> started_net (sample_world\<lparr>sockets := [sample_socket None []]\<rparr>)"

lemma sample_opens: "net_step Kind_debate 3 sample_start sample_opened"
proof -
  have conn: "handleConnection (\<lambda>c. Some c) (\<lambda>s. Some s) (\<lambda>s. Some alice_cookie)
     \<lparr>hs_cookie = Some ''s:x'', hs_connection = None\<rparr> (sample_socket None []) (rn_world sample_start)
   = (Inr (), sample_world\<lparr>sockets := [sample_joined]\<rparr>)"
    by (simp add: started_net_def sample_connected)
  have "net_step Kind_debate 3 sample_start
    \<lparr>rn_world = sample_world\<lparr>sockets := [sample_joined], lost := False\<rparr>,
     rn_pages = (rn_pages sample_start)
       (sk_id (sample_socket None []) \<mapsto> comments_fetched [sample_first] (opened_pane ''e'')),
     rn_inbox = rn_inbox sample_start
       @ wired (rn_world sample_start) (sample_world\<lparr>sockets := [sample_joined], lost := False\<rparr>)\<rparr>"
    by (rule net_open[OF _ _ _ _ conn _ _ _ sample_comments])
       (simp_all add: started_net_def, simp_all add: sample_socket_def participant_def int4_def sample_defs)
  then show ?thesis
    by (simp add: started_net_def sample_opened_def sample_socket_def wired_def)
qed

definition sample_db_later :: database where
  "sample_db_later = sample_db\<lparr>
     tabs := sample_tables\<lparr>ticket_comments := ticket_comments sample_tables @
       [\<lparr>tc_id = 2, tc_ticket_id = 3, tc_content = ''yes'', tc_commenter_id = 1,
         tc_created_at = 9, tc_modified_at = 9\<rparr>]\<rparr>,
     sqs := (sqs sample_db)\<lparr>ticket_comment_seq := 2\<rparr>\<rparr>"

lemma sample_insert:
  "insert_comment_stmt debate_has_ticket
     \<lparr>acd_ticketId = JNum 3, acd_content = ''yes'', acd_commenterId = 1\<rparr> sample_db
   = (Inr [sample_second], sample_db_later)"
proof -
  have facts: "participant sample_tables 3 1" "debate_has_ticket sample_tables 3"
      "3 \<in> set (ticket_ids sample_tables)" "1 \<in> set (user_ids sample_tables)"
      "2 \<notin> set (map tc_id (ticket_comments sample_tables))"
      "filter (\<lambda>u. u_id u = 1) (users sample_tables) = [alice]"
      "ticket_comment_seq (sqs sample_db) = 1" "now sample_db = 9"
    by (simp_all add: participant_def debate_has_ticket_def ticket_ids_def user_ids_def sample_defs)
  have "insert_ticket_comment 3 ''yes'' 1 sample_db =
      (Inr \<lparr>tc_id = 2, tc_ticket_id = 3, tc_content = ''yes'', tc_commenter_id = 1,
         tc_created_at = 9, tc_modified_at = 9\<rparr>, sample_db_later)"
    using facts by (simp add: insert_ticket_comment_def serial_insert_def nextval_def references_def
        sample_db_later_def)
  then show ?thesis
    using facts by (simp add: insert_comment_stmt_def with_param_def int_param.simps(3) int4_def
        not_null_def sample_second_def comment_columns_def alice_def sample_db_later_def)
qed

lemma sample_created:
  "\<exists>jobs. handle_comment_create Kind_debate render sample_joined
      \<lparr>cp_comment = Some ''yes'', cp_userId = JNum 1, cp_assignedToId = JNum 2,
       cp_debateTitle = ''Go'', cp_argumentTitle = []\<rparr>
      (sample_world\<lparr>sockets := [sample_joined], lost := False\<rparr>)
   = (Inr (Some sample_second),
      sample_world\<lparr>sockets := [sample_joined], pg := sample_db_later, lost := False, jobs := jobs\<rparr>)"
  by (simp add: handleDebateCommentCreate_def comment_create_def nonempty_or_throw_def truthy_def
      bnd_run sq_run ret_def try_catch_def ticket_socket[of _ 3] user_or_throw_def sample_insert
      sample_joined_def sample_socket_def addCommentToDebate_def client_query_run comment_or_404_def
      alice_cookie_def modify_def broadcast_def room_members_def Let_def notify_participant_def
      fire_and_forget_run enqueue_run)
     (rule exI, rule refl)

lemma sample_reaches:
  "\<exists>w. net_reaches Kind_debate 3 (sample_world\<lparr>sockets := [sample_socket None []]\<rparr>)
      \<lparr>rn_world = w, rn_pages = [1 \<mapsto> (comments_fetched [sample_first, sample_second] (opened_pane ''e''))],
       rn_inbox = []\<rparr>
    \<and> sockets w = [sample_joined] \<and> wtabs w = tabs sample_db_later"
proof -
  let ?p = "comments_fetched [sample_first] (opened_pane ''e'')"
  let ?p1 = "?p\<lparr>pn_composer := ''yes''\<rparr>"
  let ?payload = "\<lparr>cp_comment = Some ''yes'', cp_userId = JNum 1, cp_assignedToId = JNum 2,
       cp_debateTitle = ''Go'', cp_argumentTitle = []\<rparr>"
  let ?n1 = "sample_opened\<lparr>rn_pages := (rn_pages sample_opened)(1 \<mapsto> ?p1)\<rparr>"
  have 1: "net_step Kind_debate 3 sample_opened ?n1"
    by (rule net_local) (auto simp: sample_opened_def)
  obtain jobs where created: "handle_comment_create Kind_debate (\<lambda>_. []) sample_joined ?payload
      (rn_world ?n1) = (Inr (Some sample_second),
        sample_world\<lparr>sockets := [sample_joined], pg := sample_db_later, lost := False, jobs := jobs\<rparr>)"
    using sample_created[of "\<lambda>_. []"] by (auto simp: sample_opened_def)
  let ?w = "sample_world\<lparr>sockets := [sample_joined], pg := sample_db_later, lost := False, jobs := jobs\<rparr>"
  have 2: "net_step Kind_debate 3 ?n1 (?n1\<lparr>rn_world := ?w,
       rn_inbox := rn_inbox ?n1 @ wired (rn_world ?n1) ?w
         @ (case Some sample_second of None \<Rightarrow> []
            | Some c \<Rightarrow> [(sk_id sample_joined, Pushed (CommentCreated (create_event Kind_debate) c))])\<rparr>)"
    by (rule net_comment[OF _ _ _ _ _ _ created, where canAdd = True and p = ?p1])
       (simp_all add: sample_opened_def sample_joined_def sample_socket_def addComment_def is_editing_def
          comments_fetched_def opened_pane_def editable_content_def truthy_def clock_ok_def
          sample_tables_def sample_db_def)
  let ?n2 = "\<lparr>rn_world = ?w, rn_pages = [1 \<mapsto> ?p1],
      rn_inbox = [(1, Pushed (CommentCreated ''comment/debate:create'' sample_second))]\<rparr>"
  have "?n1\<lparr>rn_world := ?w, rn_inbox := rn_inbox ?n1 @ wired (rn_world ?n1) ?w
         @ (case Some sample_second of None \<Rightarrow> []
            | Some c \<Rightarrow> [(sk_id sample_joined, Pushed (CommentCreated (create_event Kind_debate) c))])\<rparr> = ?n2"
    by (simp add: sample_opened_def wired_def sample_joined_def sample_socket_def sample_world_def empty_world_def)
  note 2 = 2[unfolded this]
  have 3: "net_step Kind_debate 3 ?n2
    (?n2\<lparr>rn_pages := (rn_pages ?n2)(1 \<mapsto> pane_message Kind_debate True ''e''
        (Pushed (CommentCreated ''comment/debate:create'' sample_second)) ?p1), rn_inbox := [] @ []\<rparr>)"
    by (rule net_deliver) simp_all
  have "?n2\<lparr>rn_pages := (rn_pages ?n2)(1 \<mapsto> pane_message Kind_debate True ''e''
        (Pushed (CommentCreated ''comment/debate:create'' sample_second)) ?p1), rn_inbox := [] @ []\<rparr>
    = \<lparr>rn_world = ?w, rn_pages = [1 \<mapsto> (comments_fetched [sample_first, sample_second] (opened_pane ''e''))],
       rn_inbox = []\<rparr>"
    by (simp add: clearContent_def is_editing_def comments_fetched_def opened_pane_def)
  note 3 = 3[unfolded this]
  have "(net_step Kind_debate 3)\<^sup>*\<^sup>* sample_start
     \<lparr>rn_world = ?w, rn_pages = [1 \<mapsto> (comments_fetched [sample_first, sample_second] (opened_pane ''e''))],
       rn_inbox = []\<rparr>"
    using sample_opens 1 2 3 by (meson rtranclp.rtrancl_into_rtrancl rtranclp.rtrancl_refl)
  moreover have "safe (sample_world\<lparr>sockets := [sample_socket None []]\<rparr>)"
    using sample_safe by (simp add: safe_def idle_def world_ok_def)
  ultimately have "net_reaches Kind_debate 3 (sample_world\<lparr>sockets := [sample_socket None []]\<rparr>)
     \<lparr>rn_world = ?w, rn_pages = [1 \<mapsto> (comments_fetched [sample_first, sample_second] (opened_pane ''e''))],
       rn_inbox = []\<rparr>"
    by (simp add: net_reaches_def)
  then show ?thesis by (intro exI[of _ ?w]) simp
qed


end
