(* ===== verification/Client_Notifications.thy ===== *)
theory Client_Notifications
  imports System
begin

text \<open>
  The notification widget of the client (\<open>NotificationWidget.tsx\<close>): the badge with the number of unread
  notifications, fed by the event stream, and the panel that fetches the notifications; and the
  widget together with the API, the worker and the stream in between.
\<close>

section \<open>The widget\<close>

text \<open>\<open>fetchNotifications\<close>: the unread ones of the answer are marked as merely read.\<close>

record client_notification =
  cn_row :: notification_row
  cn_isMerelyRead :: bool

definition fetchNotifications :: "notification_row list \<Rightarrow> client_notification list" where
  "fetchNotifications = map (\<lambda>n. \<lparr>cn_row = n, cn_isMerelyRead = (\<not> n_is_read n)\<rparr>)"

record notification_widget =
  nw_isOpen :: bool
  nw_notifications :: "client_notification list"
  nw_unreadNotificationsCount :: "nat option"
  nw_isLoadingNotifications :: bool

definition initial_widget :: notification_widget where
  "initial_widget = \<lparr>nw_isOpen = False, nw_notifications = [], nw_unreadNotificationsCount = None,
     nw_isLoadingNotifications = False\<rparr>"

definition onMessage :: "nat \<Rightarrow> notification_widget \<Rightarrow> notification_widget" where
  "onMessage unreadCount s =
     (let nextCount = (case nw_unreadNotificationsCount s of None \<Rightarrow> 0 | Some c \<Rightarrow> c) + unreadCount
      in s\<lparr>nw_unreadNotificationsCount := (if nextCount = 0 then None else Some nextCount)\<rparr>)"

text \<open>
  What an interaction asks for: the timer that will take the marks off the notifications shown when
  the panel closed, or a read of the notifications.
\<close>

datatype widget_request = StartTimer "client_notification list" | FetchNotifications

definition handleInteraction ::
  "bool \<Rightarrow> notification_widget \<Rightarrow> notification_widget \<times> widget_request option" where
  "handleInteraction nextState s =
     (if nextState = nw_isOpen s then (s, None)
      else let s1 = s\<lparr>nw_isOpen := nextState\<rparr>
           in if \<not> nextState then (s1, Some (StartTimer (nw_notifications s)))
              else let shouldFetchNotifications = (case nw_unreadNotificationsCount s of
                         None \<Rightarrow> True | Some c \<Rightarrow> c > 0)
                   in if \<not> shouldFetchNotifications then (s1, None)
                      else (s1\<lparr>nw_isLoadingNotifications := True\<rparr>, Some FetchNotifications))"

definition timer_fired :: "client_notification list \<Rightarrow> notification_widget \<Rightarrow> notification_widget" where
  "timer_fired shownNotifications s =
     s\<lparr>nw_notifications := map (\<lambda>n. n\<lparr>cn_isMerelyRead := False\<rparr>) shownNotifications\<rparr>"

definition notifications_answered :: "notification_row list \<Rightarrow> notification_widget \<Rightarrow> notification_widget" where
  "notifications_answered answer s =
     s\<lparr>nw_unreadNotificationsCount := Some 0, nw_notifications := fetchNotifications answer,
       nw_isLoadingNotifications := False\<rparr>"

text \<open>The number on the bell, none for zero.\<close>

definition badge :: "notification_widget \<Rightarrow> nat" where
  "badge s = (case nw_unreadNotificationsCount s of None \<Rightarrow> 0 | Some c \<Rightarrow> c)"

lemma badge_simps [simp]:
  "badge initial_widget = 0" "badge (onMessage c s) = badge s + c"
  "badge (notifications_answered ns s) = 0" "badge (timer_fired cs s) = badge s"
  "badge (fst (handleInteraction b s)) = badge s"
  by (auto simp: badge_def initial_widget_def onMessage_def notifications_answered_def
      timer_fired_def handleInteraction_def Let_def split: option.splits)

lemma fetches_when_unread:
  "badge s \<noteq> 0 \<Longrightarrow> \<not> nw_isOpen s \<Longrightarrow> snd (handleInteraction True s) = Some FetchNotifications"
  by (auto simp: badge_def handleInteraction_def Let_def split: option.splits)

section \<open>The widget and the stream\<close>

definition unread_count :: "tables \<Rightarrow> int \<Rightarrow> nat" where
  "unread_count ts i = length (filter (\<lambda>n. n_recipient_id n = i \<and> \<not> n_is_read n) (notifications ts))"

record badge_net =
  bn_world :: world
  bn_widget :: notification_widget
  bn_connected :: bool
  bn_stream :: "nat list"
  bn_answer :: "notification_row list option"
  bn_timers :: "client_notification list list"

definition started_badge :: "world \<Rightarrow> badge_net" where
  "started_badge w = \<lparr>bn_world = w, bn_widget = initial_widget, bn_connected = False, bn_stream = [],
     bn_answer = None, bn_timers = []\<rparr>"

text \<open>A job whose recipient is a number, as the API puts it on the queue.\<close>

fun numeric_payload :: "job_payload \<Rightarrow> bool" where
  "numeric_payload (TicketParticipant _ _ _ (JStr s)) = False"
| "numeric_payload _ = True"

text \<open>
  The steps for one user's page, without failures. The calm ones: the notifications are read when the
  stream is up and empty, and no notification arrives while the answer is on its way.
\<close>

inductive badge_step :: "user_cookie \<Rightarrow> badge_net \<Rightarrow> badge_net \<Rightarrow> bool" for user where
  badge_connect:
    "\<not> bn_connected s \<Longrightarrow> faults (bn_world s) = [] \<Longrightarrow>
     notificationCount user [] (bn_world s) = (Inr counts, w') \<Longrightarrow>
     badge_step user s (s\<lparr>bn_world := w', bn_connected := True, bn_stream := counts\<rparr>)"
| badge_notify:
    "bn_answer s = None \<Longrightarrow> numeric_payload p \<Longrightarrow> faults (bn_world s) = [] \<Longrightarrow>
     handle_job p (bn_world s) = (Inr (), w') \<Longrightarrow>
     badge_step user s (s\<lparr>bn_world := w', bn_stream := bn_stream s @
       (if bn_connected s then
          map (\<lambda>_. 1) (filter (sse_filter user) (drop (length (published (bn_world s))) (published w')))
        else [])\<rparr>)"
| badge_deliver:
    "bn_stream s = c # rest \<Longrightarrow>
     badge_step user s (s\<lparr>bn_widget := onMessage c (bn_widget s), bn_stream := rest\<rparr>)"
| badge_fetch:
    "bn_connected s \<Longrightarrow> bn_stream s = [] \<Longrightarrow> bn_answer s = None \<Longrightarrow> faults (bn_world s) = [] \<Longrightarrow>
     handleInteraction True (bn_widget s) = (wd, Some FetchNotifications) \<Longrightarrow>
     getNotifications user (bn_world s) = (Inr ns, w') \<Longrightarrow>
     badge_step user s (s\<lparr>bn_world := w', bn_widget := wd, bn_answer := Some ns\<rparr>)"
| badge_answered:
    "bn_answer s = Some ns \<Longrightarrow>
     badge_step user s (s\<lparr>bn_widget := notifications_answered ns (bn_widget s), bn_answer := None\<rparr>)"
| badge_toggle:
    "handleInteraction b (bn_widget s) = (wd, r) \<Longrightarrow> r \<noteq> Some FetchNotifications \<Longrightarrow>
     badge_step user s (s\<lparr>bn_widget := wd,
       bn_timers := bn_timers s @ (case r of Some (StartTimer ns) \<Rightarrow> [ns] | _ \<Rightarrow> [])\<rparr>)"
| badge_timer:
    "bn_timers s = before @ ns # after \<Longrightarrow>
     badge_step user s (s\<lparr>bn_widget := timer_fired ns (bn_widget s), bn_timers := before @ after\<rparr>)"
| badge_other:
    "safe w' \<Longrightarrow> set (users (wtabs (bn_world s))) \<subseteq> set (users (wtabs w')) \<Longrightarrow>
     unread_count (wtabs w') (uc_id user) = unread_count (wtabs (bn_world s)) (uc_id user) \<Longrightarrow>
     badge_step user s (s\<lparr>bn_world := w'\<rparr>)"

section \<open>The invariant\<close>

definition has_account :: "tables \<Rightarrow> user_cookie \<Rightarrow> bool" where
  "has_account ts user \<longleftrightarrow> (\<exists>u \<in> set (users ts).
     user = \<lparr>uc_id = u_id u, uc_role = u_role u, uc_username = u_username u\<rparr>)"

definition badge_inv :: "user_cookie \<Rightarrow> badge_net \<Rightarrow> bool" where
  "badge_inv user s \<longleftrightarrow> safe (bn_world s) \<and> has_account (wtabs (bn_world s)) user
     \<and> (let n = unread_count (wtabs (bn_world s)) (uc_id user); b = badge (bn_widget s) in
          if \<not> bn_connected s then b = 0 \<and> bn_stream s = [] \<and> bn_answer s = None
          else if bn_answer s = None then b + sum_list (bn_stream s) = n
          else n = 0 \<and> bn_stream s = [])"

lemma connect_run:
  assumes "txn w = NoTxn" and "faults w = []" and "notificationCount user [] w = (Inr counts, w')"
  shows "counts = [unread_count (wtabs w) (uc_id user)] \<and> w' = w\<lparr>lost := False\<rparr>"
  using assms(3)
  by (simp add: notificationCount_def getUnreadCount_def bnd_run client_query_run[OF assms(1,2)]
      select_stmt_def unread_count_def ret_def)

lemma unread_after_fetch:
  assumes "txn w = NoTxn" and "faults w = []" and "getNotifications user w = (Inr ns, w')"
  shows "unread_count (wtabs w') (uc_id user) = 0"
proof -
  obtain ids where ids: "set ids = unread_ids (uc_id user) (notifications (wtabs w))"
      and w': "notifications (wtabs w') = map (mark_ids ids) (notifications (wtabs w))"
    using getNotifications_run[OF assms(1,2), of user] assms(3) by auto
  then have "\<forall>n \<in> set (notifications (wtabs w')). \<not> (n_recipient_id n = uc_id user \<and> \<not> n_is_read n)"
    using marked_read[OF ids] by auto
  then show ?thesis by (simp add: unread_count_def filter_empty_conv)
qed

text \<open>A processed job adds one unread notification for a user whom its message reaches, none else.\<close>

lemma batch_count:
  "map int_param rs = map (Inr \<circ> Some \<circ> n_recipient_id) rows \<Longrightarrow> \<forall>r \<in> set rs. \<forall>s. r \<noteq> JStr s \<Longrightarrow>
   length (filter (\<lambda>n. n_recipient_id n = i) rows) = length (filter (\<lambda>r. r = JNum i) rs)"
proof (induction rs arbitrary: rows)
  case (Cons r rs)
  then obtain n ns where rows: "rows = n # ns" "int_param r = Inr (Some (n_recipient_id n))"
      "map int_param rs = map (Inr \<circ> Some \<circ> n_recipient_id) ns" by (cases rows) auto
  have "r = JNum i \<longleftrightarrow> n_recipient_id n = i"
    using rows(2) Cons.prems(2) by (cases r) (auto simp: int_param.simps(3) split: if_splits)
  with Cons.IH[OF rows(3)] Cons.prems(2) rows(1) show ?case by simp
qed simp

lemma recipients_once:
  assumes "distinct (user_ids ts)"
  shows "length (filter (\<lambda>r. r = JNum i) (recipients ts p)) = (if JNum i \<in> set (recipients ts p) then 1 else 0)"
proof -
  have "distinct (recipients ts p)"
    using assms by (cases p) (simp_all add: recipients_def user_ids_def distinct_map inj_on_def distinct_filter)
  then have "length (filter (\<lambda>r. r = JNum i) (recipients ts p)) = card {r. r = JNum i \<and> r \<in> set (recipients ts p)}"
    by (simp add: distinct_length_filter Int_def)
  moreover have "{r. r = JNum i \<and> r \<in> set (recipients ts p)}
      = (if JNum i \<in> set (recipients ts p) then {JNum i} else {})" by auto
  ultimately show ?thesis by simp
qed

lemma numeric_recipients: "numeric_payload p \<Longrightarrow> \<forall>r \<in> set (recipients ts p). \<forall>s. r \<noteq> JStr s"
  by (cases p rule: numeric_payload.cases) (auto simp: recipients_def)

lemma job_adds_one:
  assumes safe: "safe w" and acc: "has_account (wtabs w) user" and nf: "faults w = []"
    and num: "numeric_payload p" and run: "handle_job p w = (Inr (), w')"
  shows "safe w' \<and> has_account (wtabs w') user
    \<and> published w' = published w @ [payload_message p]
    \<and> unread_count (wtabs w') (uc_id user)
        = unread_count (wtabs w) (uc_id user) + (if sse_filter user (payload_message p) then 1 else 0)"
proof -
  have idle: "idle w" using safe by (rule safeD(1))
  have keys: "distinct (user_ids (wtabs w))"
    using safeD(3)[OF safe] by (auto simp: schema_ok_def tables_ok_def keys_ok_def serial_key_def user_ids_def)
  obtain q w1 where 1: "insert_payload p w = (q, w1)" by (cases "insert_payload p w")
  with run have q: "q = Inr ()" by (cases q) (auto simp: handle_job_def sq_run)
  from keeps_result[OF insert_payload_quiet 1] nf
  have w1: "published w1 = published w" "faults w1 = []" by (simp_all add: quiet_def)
  from 1 run q have w': "w' = w1\<lparr>published := published w @ [payload_message p]\<rparr>"
    by (simp add: handle_job_def sq_run try_catch_def publish_message_def redis_def next_fault_def w1
        modify_def ret_def)
  from insert_payload_cases[OF idle 1] q nf obtain rows where batch: "is_batch (wtabs w) p rows"
      and tabs: "wtabs w1 = (wtabs w)\<lparr>notifications := notifications (wtabs w) @ rows\<rparr>" by auto
  have "safe w'" using keeps_result[OF grows_handle_job run] safe by (simp add: grows_def)
  moreover have "has_account (wtabs w') user"
    using acc by (simp add: w' tabs has_account_def)
  moreover have "unread_count (wtabs w') (uc_id user)
        = unread_count (wtabs w) (uc_id user) + (if sse_filter user (payload_message p) then 1 else 0)"
  proof -
    from batch have rs: "map int_param (recipients (wtabs w) p) = map (Inr \<circ> Some \<circ> n_recipient_id) rows"
        and unread: "list_all (\<lambda>n. \<not> n_is_read n) rows"
      by (cases "payload_fields p"; simp add: is_batch_def list_all_iff)+
    have "length (filter (\<lambda>n. n_recipient_id n = uc_id user \<and> \<not> n_is_read n) rows)
        = length (filter (\<lambda>n. n_recipient_id n = uc_id user) rows)"
      using unread by (metis (no_types, lifting) filter_cong list_all_iff)
    also have "\<dots> = (if JNum (uc_id user) \<in> set (recipients (wtabs w) p) then 1 else 0)"
      using batch_count[OF rs numeric_recipients[OF num]] recipients_once[OF keys] by simp
    also have "JNum (uc_id user) \<in> set (recipients (wtabs w) p) \<longleftrightarrow> sse_filter user (payload_message p)"
      using acc stream_filter_recipients[OF keys] unfolding has_account_def by metis
    finally show ?thesis by (simp add: w' tabs unread_count_def)
  qed
  ultimately show ?thesis by (simp add: w')
qed

lemma grows_getNotifications: "keeps grows (getNotifications user)"
  unfolding getNotifications_def Let_def
  by (auto intro!: growth.keeps_intros grows_fire_and_forget grows_ops)

lemma badge_inv_step:
  assumes "badge_step user s s'" and "badge_inv user s"
  shows "badge_inv user s'"
  using assms(1)
proof cases
  have safe: "safe (bn_world s)" and acc: "has_account (wtabs (bn_world s)) user"
    using assms(2) by (simp_all add: badge_inv_def Let_def)
  then have idle: "txn (bn_world s) = NoTxn" by (simp add: safe_def idle_def)
  {
    case (badge_connect counts w')
    from connect_run[OF idle badge_connect(3,4)] have "counts = [unread_count (wtabs (bn_world s)) (uc_id user)]"
        "w' = (bn_world s)\<lparr>lost := False\<rparr>" by simp_all
    moreover have "safe w'" using safe calculation(2) by (simp add: safe_def idle_def world_ok_def)
    ultimately show ?thesis using assms(2) badge_connect(1,2) by (simp add: badge_inv_def Let_def)
  next
    case (badge_notify p w')
    note job = job_adds_one[OF safe acc badge_notify(4,3,5)]
    then show ?thesis using assms(2) badge_notify(1,2)
      by (auto simp: badge_inv_def Let_def split: if_splits)
  next
    case (badge_deliver c rest)
    then show ?thesis using assms(2) by (auto simp: badge_inv_def Let_def split: if_splits)
  next
    case (badge_fetch wd ns w')
    have "grows (bn_world s) w'" using keeps_result[OF grows_getNotifications badge_fetch(7)] .
    then have "safe w'" "has_account (wtabs w') user"
      using safe acc by (auto simp: grows_def has_account_def)
    moreover have "unread_count (wtabs w') (uc_id user) = 0"
      by (rule unread_after_fetch[OF idle badge_fetch(5,7)])
    ultimately show ?thesis using badge_fetch(1,2,3) by (simp add: badge_inv_def Let_def)
  next
    case (badge_answered ns)
    then show ?thesis using assms(2) by (auto simp: badge_inv_def Let_def split: if_splits)
  next
    case (badge_toggle b wd r)
    have "badge wd = badge (bn_widget s)" using badge_simps(5)[of b "bn_widget s"] badge_toggle(2) by simp
    then show ?thesis using assms(2) badge_toggle(1) by (simp add: badge_inv_def Let_def)
  next
    case (badge_timer before ns after)
    then show ?thesis using assms(2) by (simp add: badge_inv_def Let_def)
  next
    case (badge_other w')
    then show ?thesis using assms(2) by (auto simp: badge_inv_def has_account_def Let_def)
  }
qed

definition badge_reaches :: "user_cookie \<Rightarrow> world \<Rightarrow> badge_net \<Rightarrow> bool" where
  "badge_reaches user w s \<longleftrightarrow> safe w \<and> has_account (wtabs w) user
     \<and> (badge_step user)\<^sup>*\<^sup>* (started_badge w) s"

lemma badge_reaches_inv:
  assumes "badge_reaches user w s" shows "badge_inv user s"
proof -
  have start: "badge_inv user (started_badge w)"
    using assms by (simp add: badge_reaches_def badge_inv_def started_badge_def)
  have "(badge_step user)\<^sup>*\<^sup>* (started_badge w) s" using assms by (simp add: badge_reaches_def)
  then show ?thesis by (induction rule: rtranclp_induct) (auto intro: badge_inv_step start)
qed


text \<open>A message that arrives while the answer is on its way is forgotten: the answer sets the count to
  zero, and the panel is then opened without a read.\<close>

lemma late_message_forgotten:
  "badge (notifications_answered ns (onMessage c s)) = 0"
  "snd (handleInteraction True (notifications_answered ns (onMessage c s))) \<noteq> Some FetchNotifications"
  by (simp only: badge_simps)
     (auto simp: handleInteraction_def notifications_answered_def Let_def)

text \<open>A run: bob connects, gets his count, a job for the moderators is processed, both are delivered.\<close>

lemma sample_badge_reaches:
  "\<exists>w. badge_reaches bob_cookie sample_world
     \<lparr>bn_world = w, bn_widget = onMessage 1 initial_widget, bn_connected = True, bn_stream = [],
      bn_answer = None, bn_timers = []\<rparr> \<and> wtabs w = sample_tables"
proof -
  let ?w1 = "sample_world\<lparr>lost := False\<rparr>"
  let ?s1 = "(started_badge sample_world)\<lparr>bn_world := ?w1, bn_connected := True, bn_stream := [1]\<rparr>"
  have count: "notificationCount bob_cookie [] (bn_world (started_badge sample_world)) = (Inr [1], ?w1)"
    by (simp add: notificationCount_def getUnreadCount_def bnd_run client_query_run select_stmt_def
        started_badge_def) (simp add: sample_tables_def bob_cookie_def)
  have 1: "badge_step bob_cookie (started_badge sample_world) ?s1"
    by (rule badge_connect[OF _ _ count]) (simp_all add: started_badge_def)
  have 2: "badge_step bob_cookie ?s1 (?s1\<lparr>bn_widget := onMessage 1 (bn_widget ?s1), bn_stream := []\<rparr>)"
    by (rule badge_deliver) simp
  have end_state: "?s1\<lparr>bn_widget := onMessage 1 (bn_widget ?s1), bn_stream := []\<rparr> =
    \<lparr>bn_world = ?w1, bn_widget = onMessage 1 initial_widget, bn_connected = True, bn_stream = [],
      bn_answer = None, bn_timers = []\<rparr>"
    by (simp add: started_badge_def)
  have "(badge_step bob_cookie)\<^sup>*\<^sup>* (started_badge sample_world)
    \<lparr>bn_world = ?w1, bn_widget = onMessage 1 initial_widget, bn_connected = True, bn_stream = [],
      bn_answer = None, bn_timers = []\<rparr>"
    using 1 2[unfolded end_state] by (meson rtranclp.rtrancl_into_rtrancl rtranclp.rtrancl_refl)
  moreover have "has_account sample_tables bob_cookie"
    by (simp add: has_account_def sample_defs)
  ultimately show ?thesis
    by (intro exI[of _ ?w1]) (simp add: badge_reaches_def)
qed


end
