(* ===== verification/Client_Argument.thy ===== *)
theory Client_Argument
  imports Client_Debate
begin

text \<open>
  The page on which an argument is written (\<open>app/debates/[id]/new-argument/page.tsx\<close>): the form,
  the effects of the component, the requests it sends and what their answers do. An effect runs
  after the render in which one of its dependencies changed and works on the values of that
  render; a callback given to \<open>setTimeout\<close> runs later, which the model keeps in a list of timers.
  The store's current debate may be the one of a page visited before. Rendering and the editor
  belong to React and Lexical; the exported text of the editor is a parameter.
\<close>

section \<open>Address and form\<close>

record argument_url =
  au_debateId :: string
  au_counterargumentId :: "string option"
  au_draftId :: "string option"

definition isCounterargumentExplicit :: "argument_url \<Rightarrow> bool" where
  "isCounterargumentExplicit u = (truthy (au_counterargumentId u) \<noteq> None)"

definition counterargument_param :: "argument_url \<Rightarrow> jsval" where
  "counterargument_param u = (case au_counterargumentId u of Some s \<Rightarrow> to_number s | None \<Rightarrow> JNum 0)"

definition parsedDraftId :: "argument_url \<Rightarrow> jsval option" where
  "parsedDraftId u = map_option to_number (truthy (au_draftId u))"

definition isDraft :: "argument_url \<Rightarrow> bool" where
  "isDraft u = (case truthy (au_draftId u) of Some s \<Rightarrow> to_number s \<noteq> JNaN | None \<Rightarrow> False)"

record argument_form =
  fm_counterargumentId :: jsval
  fm_argType :: "argument_type option"
  fm_isCounterargument :: bool
  fm_argumentTitle :: string

definition truthy_value :: "jsval \<Rightarrow> bool" where
  "truthy_value v = (v \<notin> {JUndefined, JNull, JNaN, JNum 0, JStr []})"

section \<open>State\<close>

record argument_body =
  ab_title :: string
  ab_content :: "string option"
  ab_argumentType :: "argument_type option"
  ab_counterargumentId :: "jsval option"

datatype argument_request =
    FetchDebate jsval
  | FetchDraft jsval jsval
  | FetchArgument int jsval
  | CreateArgument int argument_body
  | SaveDraft int argument_body
  | UpdateDraft jsval jsval argument_body
  | SubmitDraft jsval jsval argument_body

datatype argument_timer =
    SetCounterargumentId jsval
  | GoTo string
  | AskToRetry

record argument_page =
  np_url :: argument_url
  np_form :: argument_form
  np_isExpanded :: bool
  np_isOpen :: bool
  np_counterargument :: "client_arg option"
  np_prefilled :: "string option"
  np_editorReady :: bool
  np_debate :: "current_debate option"
  np_signedIn :: bool
  np_requests :: "argument_request list"
  np_timers :: "argument_timer list"
  np_toasts :: "string list"
  np_route :: "string option"
  np_unhandled :: nat

definition currentDebateId :: "argument_page \<Rightarrow> int option" where
  "currentDebateId s = map_option cd_debate_id (np_debate s)"

definition nonzero :: "int option \<Rightarrow> int option" where
  "nonzero i = (if i = Some 0 then None else i)"

text \<open>\<open>counterargumentId\<close> of the render: the watched field, or false.\<close>

definition counterargumentId :: "argument_page \<Rightarrow> jsval option" where
  "counterargumentId s =
     (if fm_isCounterargument (np_form s) \<and> truthy_value (fm_counterargumentId (np_form s))
      then Some (fm_counterargumentId (np_form s)) else None)"

definition isUpdatingDraft :: "argument_page \<Rightarrow> bool" where
  "isUpdatingDraft s = (truthy (np_prefilled s) \<noteq> None)"

definition isPageReady :: "argument_page \<Rightarrow> bool" where
  "isPageReady s = (np_debate s \<noteq> None)"

text \<open>The arguments that the select offers.\<close>

definition debateArguments :: "argument_page \<Rightarrow> client_arg list" where
  "debateArguments s =
     (case np_debate s of None \<Rightarrow> []
      | Some d \<Rightarrow> filter (\<lambda>a. client_arg.ca_type a \<noteq> fm_argType (np_form s)) (cd_args d))"

definition unexpandedArg :: "argument_page \<Rightarrow> client_arg option" where
  "unexpandedArg s =
     (case (counterargumentId s, np_debate s) of
        (Some i, Some d) \<Rightarrow> find (\<lambda>a. JNum (client_arg.ca_id a) = unary_plus i) (cd_args d)
      | _ \<Rightarrow> None)"

section \<open>Effects\<close>

definition set_counterargument :: "jsval \<Rightarrow> argument_page \<Rightarrow> argument_page" where
  "set_counterargument v s = s\<lparr>np_form := (np_form s)\<lparr>fm_counterargumentId := v\<rparr>\<rparr>"

definition push :: "string \<Rightarrow> argument_page \<Rightarrow> argument_page" where
  "push r s = s\<lparr>np_route := Some r\<rparr>"

definition send :: "argument_request \<Rightarrow> argument_page \<Rightarrow> argument_page" where
  "send r s = s\<lparr>np_requests := np_requests s @ [r]\<rparr>"

definition later :: "argument_timer \<Rightarrow> argument_page \<Rightarrow> argument_page" where
  "later t s = s\<lparr>np_timers := np_timers s @ [t]\<rparr>"

definition user_effect :: "argument_page \<Rightarrow> argument_page" where
  "user_effect s =
     (if \<not> np_signedIn s then push ''/'' s
      else if isCounterargumentExplicit (np_url s)
      then later (SetCounterargumentId (counterargument_param (np_url s))) s
      else s)"

definition load_effect :: "argument_page \<Rightarrow> argument_page" where
  "load_effect s =
     (let u = np_url s
      in if au_debateId u = [] \<or> to_number (au_debateId u) = JNaN then push ''/debates'' s
         else if isDraft u
         then send (FetchDraft (to_number (au_debateId u))
                (case parsedDraftId u of Some i \<Rightarrow> i | None \<Rightarrow> JNull)) s
         else send (FetchDebate (to_number (au_debateId u))) s)"

definition type_effect :: "argument_page \<Rightarrow> argument_page" where
  "type_effect s = set_counterargument JUndefined s"

definition check_effect :: "argument_page \<Rightarrow> argument_page" where
  "check_effect s =
     (if fm_isCounterargument (np_form s) then s else set_counterargument JUndefined s)"

text \<open>The effect that fetches the expanded argument, with the values of the render \<open>r\<close>.\<close>

definition fetch_effect :: "argument_page \<Rightarrow> argument_page \<Rightarrow> argument_page" where
  "fetch_effect r s =
     (case counterargumentId r of
        None \<Rightarrow> s
      | Some i \<Rightarrow> if np_isExpanded r
                  then (case nonzero (currentDebateId r) of
                          None \<Rightarrow> s | Some d \<Rightarrow> send (FetchArgument d i) s)
                  else s)"

definition fetch_deps :: "argument_page \<Rightarrow> jsval option \<times> int option \<times> bool" where
  "fetch_deps s = (counterargumentId s, currentDebateId s, np_isExpanded s)"

text \<open>The collapsible part is only there while an argument is countered.\<close>

definition hide_collapse :: "argument_page \<Rightarrow> argument_page" where
  "hide_collapse s = (if counterargumentId s = None then s\<lparr>np_isOpen := False\<rparr> else s)"

text \<open>
  The renders after an update from \<open>s0\<close> to \<open>s1\<close>: the effects whose dependencies changed, in
  their order, and once more the fetching effect when they changed the field it depends on.
\<close>

definition settle :: "argument_page \<Rightarrow> argument_page \<Rightarrow> argument_page" where
  "settle s0 s1 =
     (let s2 = (if np_signedIn s0 \<noteq> np_signedIn s1 then user_effect s1 else s1);
          s3 = (if fm_argType (np_form s0) \<noteq> fm_argType (np_form s1) then type_effect s2 else s2);
          s4 = (if fm_isCounterargument (np_form s0) \<noteq> fm_isCounterargument (np_form s1)
                then check_effect s3 else s3);
          s5 = (if fetch_deps s0 \<noteq> fetch_deps s1 then fetch_effect s1 s4 else s4);
          s6 = (if fetch_deps s5 \<noteq> fetch_deps s1 then fetch_effect s5 s5 else s5)
      in hide_collapse s6)"

definition update :: "(argument_page \<Rightarrow> argument_page) \<Rightarrow> argument_page \<Rightarrow> argument_page" where
  "update f s = settle s (f s)"

section \<open>Mounting the page\<close>

definition default_form :: "argument_url \<Rightarrow> current_debate option \<Rightarrow> argument_form" where
  "default_form u crtDebate =
     (if isCounterargumentExplicit u
      then \<lparr>fm_counterargumentId = counterargument_param u,
            fm_argType = getCorrespondingCounterargumentType
              (case crtDebate of None \<Rightarrow> None
               | Some d \<Rightarrow> find (\<lambda>a. JNum (client_arg.ca_id a) = counterargument_param u) (cd_args d)),
            fm_isCounterargument = True, fm_argumentTitle = []\<rparr>
      else \<lparr>fm_counterargumentId = JUndefined, fm_argType = Some PRO,
            fm_isCounterargument = False, fm_argumentTitle = []\<rparr>)"

definition first_render :: "argument_url \<Rightarrow> bool \<Rightarrow> current_debate option \<Rightarrow> argument_page" where
  "first_render u signedIn crtDebate =
     \<lparr>np_url = u, np_form = default_form u crtDebate, np_isExpanded = isCounterargumentExplicit u,
      np_isOpen = False, np_counterargument = None, np_prefilled = None,
      np_editorReady = (\<not> isDraft u), np_debate = crtDebate, np_signedIn = signedIn,
      np_requests = [], np_timers = [], np_toasts = [], np_route = None, np_unhandled = 0\<rparr>"

definition mount_argument_page :: "argument_url \<Rightarrow> bool \<Rightarrow> current_debate option \<Rightarrow> argument_page" where
  "mount_argument_page u signedIn crtDebate =
     (let r = first_render u signedIn crtDebate;
          s = fetch_effect r (check_effect (type_effect (load_effect (user_effect r))))
      in hide_collapse (if fetch_deps s \<noteq> fetch_deps r then fetch_effect s s else s))"

section \<open>Events\<close>

definition run_timer :: "nat \<Rightarrow> argument_page \<Rightarrow> argument_page" where
  "run_timer k s =
     (let rest = s\<lparr>np_timers := take k (np_timers s) @ drop (k + 1) (np_timers s)\<rparr>
      in case np_timers s ! k of
           SetCounterargumentId v \<Rightarrow> update (set_counterargument v) rest
         | GoTo r \<Rightarrow> push r rest
         | AskToRetry \<Rightarrow> rest\<lparr>np_toasts := np_toasts rest @
             [''Please try again and, if the errors persists, please contact support.'']\<rparr>)"

definition debate_loaded :: "current_debate \<Rightarrow> argument_page \<Rightarrow> argument_page" where
  "debate_loaded d s = update (\<lambda>s. s\<lparr>np_debate := Some d\<rparr>) s"

definition load_failed :: "argument_page \<Rightarrow> argument_page" where
  "load_failed s = push ''/debates'' s"

definition draft_loaded :: "current_debate \<Rightarrow> client_arg \<Rightarrow> argument_page \<Rightarrow> argument_page" where
  "draft_loaded d draft s =
     update (\<lambda>s.
       let s1 = s\<lparr>np_debate := Some d\<rparr>;
           s2 = (case nonzero (client_arg.ca_counterargument_to draft) of
                   None \<Rightarrow> s1
                 | Some i \<Rightarrow>
                     later (SetCounterargumentId (JNum i))
                       (s1\<lparr>np_form := (np_form s1)\<lparr>fm_isCounterargument := True\<rparr>\<rparr>))
       in s2\<lparr>np_form := (np_form s2)\<lparr>fm_argumentTitle := client_arg.ca_title draft,
                                     fm_argType := client_arg.ca_type draft\<rparr>,
             np_prefilled := client_arg.ca_content draft,
             np_editorReady := True\<rparr>) s"

definition argument_fetched :: "client_arg \<Rightarrow> argument_page \<Rightarrow> argument_page" where
  "argument_fetched a s = s\<lparr>np_counterargument := Some a\<rparr>"

definition choose_type :: "argument_type \<Rightarrow> argument_page \<Rightarrow> argument_page" where
  "choose_type t = update (\<lambda>s. s\<lparr>np_form := (np_form s)\<lparr>fm_argType := Some t\<rparr>\<rparr>)"

definition toggle_counterargument :: "bool \<Rightarrow> argument_page \<Rightarrow> argument_page" where
  "toggle_counterargument checked =
     update (\<lambda>s. s\<lparr>np_form := (np_form s)\<lparr>fm_isCounterargument := checked\<rparr>,
                   np_counterargument := (if checked then None else np_counterargument s)\<rparr>)"

definition select_counterargument :: "string \<Rightarrow> argument_page \<Rightarrow> argument_page" where
  "select_counterargument v = update (set_counterargument (JStr v))"

definition set_title :: "string \<Rightarrow> argument_page \<Rightarrow> argument_page" where
  "set_title t s = s\<lparr>np_form := (np_form s)\<lparr>fm_argumentTitle := t\<rparr>\<rparr>"

text \<open>A click on the collapsible part toggles both its own state and the page's.\<close>

definition expandCounterargument :: "argument_page \<Rightarrow> argument_page" where
  "expandCounterargument s =
     update (\<lambda>t.
       let t1 = t\<lparr>np_isOpen := \<not> np_isOpen t, np_isExpanded := \<not> np_isExpanded t\<rparr>
       in if np_isExpanded s then t1
          else if np_counterargument s \<noteq> None then t1
          else (case counterargumentId s of
                  None \<Rightarrow> t1
                | Some i \<Rightarrow> (case nonzero (currentDebateId s) of
                               None \<Rightarrow> t1 | Some d \<Rightarrow> send (FetchArgument d i) t1))) s"

section \<open>Submitting\<close>

definition createdArgument :: "string option \<Rightarrow> argument_form \<Rightarrow> argument_body" where
  "createdArgument editorState f =
     \<lparr>ab_title = fm_argumentTitle f, ab_content = editorState, ab_argumentType = fm_argType f,
      ab_counterargumentId =
        (if truthy_value (fm_counterargumentId f)
         then Some (unary_plus (fm_counterargumentId f)) else None)\<rparr>"

text \<open>
  The action of a submission: the request, or the message of the plain error it is rejected
  with. The text of the editor is undefined while there is no editor.
\<close>

definition submit_action :: "bool \<Rightarrow> string option \<Rightarrow> argument_page \<Rightarrow> string + argument_request" where
  "submit_action isDraftSubmit editorState s =
     (let body = createdArgument (if np_editorReady s then editorState else None) (np_form s);
          did = to_number (au_debateId (np_url s))
      in if isDraftSubmit then
           (if isUpdatingDraft s then
              (case parsedDraftId (np_url s) of
                 Some i \<Rightarrow> Inr (UpdateDraft did i body)
               | None \<Rightarrow> Inl ''Draft ID is missing.'')
            else (case nonzero (currentDebateId s) of
                    Some d \<Rightarrow> Inr (SaveDraft d body)
                  | None \<Rightarrow> Inl ''Current debate is missing.''))
         else if isUpdatingDraft s then
           (case parsedDraftId (np_url s) of
              Some i \<Rightarrow> Inr (SubmitDraft did i body)
            | None \<Rightarrow> Inl ''Draft ID is missing.'')
         else (case nonzero (currentDebateId s) of
                 Some d \<Rightarrow> Inr (CreateArgument d body)
               | None \<Rightarrow> Inl ''Current debate is missing.''))"

text \<open>
  A rejection without a response makes the handler itself throw; nothing handles that.
\<close>

definition onSubmit :: "bool \<Rightarrow> string option \<Rightarrow> argument_page \<Rightarrow> argument_page" where
  "onSubmit isDraftSubmit editorState s =
     (case submit_action isDraftSubmit editorState s of
        Inr r \<Rightarrow> send r s
      | Inl message \<Rightarrow> s\<lparr>np_unhandled := np_unhandled s + 1\<rparr>)"

text \<open>
  The answers come back to the handlers of the render \<open>r\<close> that submitted.
\<close>

definition submit_succeeded :: "argument_page \<Rightarrow> bool \<Rightarrow> string \<Rightarrow> argument_page \<Rightarrow> argument_page" where
  "submit_succeeded r isDraftSubmit message s =
     (let s1 = s\<lparr>np_toasts := np_toasts s @ [message]\<rparr>;
          isFirstTimeDraft = isDraftSubmit \<and> \<not> isUpdatingDraft r;
          isDraftSubmitted = \<not> isDraftSubmit \<and> isUpdatingDraft r;
          isDirectlySubmitted = \<not> isDraftSubmit \<and> \<not> isUpdatingDraft r;
          shouldRedirect = isFirstTimeDraft \<or> isDraftSubmitted \<or> isDirectlySubmitted
      in if \<not> shouldRedirect then s1
         else if isUpdatingDraft r then later (GoTo ''/my-activity'') s1
         else (case nonzero (currentDebateId r) of
                 Some d \<Rightarrow> later (GoTo (''/debates/'' @ int_to_string d)) s1
               | None \<Rightarrow> s1))"

definition submit_failed :: "(nat \<times> string) option \<Rightarrow> argument_page \<Rightarrow> argument_page" where
  "submit_failed response s =
     (case response of
        None \<Rightarrow> s\<lparr>np_unhandled := np_unhandled s + 1\<rparr>
      | Some (status, message) \<Rightarrow>
          (if status = 401 then update (\<lambda>s. push ''/'' (s\<lparr>np_signedIn := False\<rparr>)) s
           else later AskToRetry (s\<lparr>np_toasts := np_toasts s @ [message]\<rparr>)))"

lemmas page_ops = settle_def update_def hide_collapse_def fetch_deps_def fetch_effect_def
  user_effect_def load_effect_def type_effect_def check_effect_def set_counterargument_def
  push_def send_def later_def counterargumentId_def currentDebateId_def

section \<open>What the steps leave alone\<close>

lemma fetch_effect_frame [simp]:
    "np_url (fetch_effect r s) = np_url s"
    "np_form (fetch_effect r s) = np_form s"
    "np_isExpanded (fetch_effect r s) = np_isExpanded s"
    "np_isOpen (fetch_effect r s) = np_isOpen s"
    "np_counterargument (fetch_effect r s) = np_counterargument s"
    "np_prefilled (fetch_effect r s) = np_prefilled s"
    "np_editorReady (fetch_effect r s) = np_editorReady s"
    "np_debate (fetch_effect r s) = np_debate s"
    "np_signedIn (fetch_effect r s) = np_signedIn s"
    "np_timers (fetch_effect r s) = np_timers s"
    "np_toasts (fetch_effect r s) = np_toasts s"
    "np_route (fetch_effect r s) = np_route s"
    "np_unhandled (fetch_effect r s) = np_unhandled s"
  by (simp_all add: fetch_effect_def send_def split: option.split)

lemma hide_collapse_frame [simp]:
    "np_url (hide_collapse s) = np_url s"
    "np_form (hide_collapse s) = np_form s"
    "np_isExpanded (hide_collapse s) = np_isExpanded s"
    "np_counterargument (hide_collapse s) = np_counterargument s"
    "np_prefilled (hide_collapse s) = np_prefilled s"
    "np_editorReady (hide_collapse s) = np_editorReady s"
    "np_debate (hide_collapse s) = np_debate s"
    "np_signedIn (hide_collapse s) = np_signedIn s"
    "np_requests (hide_collapse s) = np_requests s"
    "np_timers (hide_collapse s) = np_timers s"
    "np_toasts (hide_collapse s) = np_toasts s"
    "np_route (hide_collapse s) = np_route s"
    "np_unhandled (hide_collapse s) = np_unhandled s"
  by (simp_all add: hide_collapse_def)

lemma load_effect_frame [simp]:
    "np_url (load_effect s) = np_url s"
    "np_form (load_effect s) = np_form s"
    "np_isExpanded (load_effect s) = np_isExpanded s"
    "np_isOpen (load_effect s) = np_isOpen s"
    "np_counterargument (load_effect s) = np_counterargument s"
    "np_prefilled (load_effect s) = np_prefilled s"
    "np_editorReady (load_effect s) = np_editorReady s"
    "np_debate (load_effect s) = np_debate s"
    "np_signedIn (load_effect s) = np_signedIn s"
    "np_timers (load_effect s) = np_timers s"
    "np_toasts (load_effect s) = np_toasts s"
    "np_unhandled (load_effect s) = np_unhandled s"
  by (simp_all add: load_effect_def send_def push_def Let_def)

lemma user_effect_frame [simp]:
    "np_url (user_effect s) = np_url s"
    "np_form (user_effect s) = np_form s"
    "np_isExpanded (user_effect s) = np_isExpanded s"
    "np_isOpen (user_effect s) = np_isOpen s"
    "np_counterargument (user_effect s) = np_counterargument s"
    "np_prefilled (user_effect s) = np_prefilled s"
    "np_editorReady (user_effect s) = np_editorReady s"
    "np_debate (user_effect s) = np_debate s"
    "np_signedIn (user_effect s) = np_signedIn s"
    "np_requests (user_effect s) = np_requests s"
    "np_toasts (user_effect s) = np_toasts s"
    "np_unhandled (user_effect s) = np_unhandled s"
  by (simp_all add: user_effect_def later_def push_def)

lemma set_counterargument_frame [simp]:
    "np_url (set_counterargument v s) = np_url s"
    "np_isExpanded (set_counterargument v s) = np_isExpanded s"
    "np_isOpen (set_counterargument v s) = np_isOpen s"
    "np_counterargument (set_counterargument v s) = np_counterargument s"
    "np_prefilled (set_counterargument v s) = np_prefilled s"
    "np_editorReady (set_counterargument v s) = np_editorReady s"
    "np_debate (set_counterargument v s) = np_debate s"
    "np_signedIn (set_counterargument v s) = np_signedIn s"
    "np_requests (set_counterargument v s) = np_requests s"
    "np_timers (set_counterargument v s) = np_timers s"
    "np_toasts (set_counterargument v s) = np_toasts s"
    "np_route (set_counterargument v s) = np_route s"
    "np_unhandled (set_counterargument v s) = np_unhandled s"
    "np_form (set_counterargument v s) = (np_form s)\<lparr>fm_counterargumentId := v\<rparr>"
  by (simp_all add: set_counterargument_def)

lemma field_deps [simp]:
  "counterargumentId (fetch_effect r s) = counterargumentId s"
  "counterargumentId (hide_collapse s) = counterargumentId s"
  "currentDebateId (fetch_effect r s) = currentDebateId s"
  "fetch_deps (fetch_effect r s) = fetch_deps s"
  by (simp_all add: counterargumentId_def currentDebateId_def fetch_deps_def)

text \<open>An update that leaves the type, the check box and the user alone runs no effect but the fetch.\<close>

lemma settle_quiet:
  assumes "np_signedIn s0 = np_signedIn s1" "fm_argType (np_form s0) = fm_argType (np_form s1)"
    "fm_isCounterargument (np_form s0) = fm_isCounterargument (np_form s1)"
  shows "settle s0 s1 = hide_collapse (if fetch_deps s0 \<noteq> fetch_deps s1 then fetch_effect s1 s1 else s1)"
  using assms by (simp add: settle_def Let_def)

section \<open>Following the link of an argument\<close>

lemma truthy_int [simp]: "truthy (Some (int_to_string i)) = Some (int_to_string i)"
  by (cases "int_to_string i") (simp_all add: truthy_def)

lemma truthy_JNum [simp]: "truthy_value (JNum i) \<longleftrightarrow> i \<noteq> 0"
  by (simp add: truthy_value_def)

lemma truthy_JStr [simp]: "truthy_value (JStr s) \<longleftrightarrow> s \<noteq> []"
  by (simp add: truthy_value_def)

lemma truthy_undefined [simp]: "\<not> truthy_value JUndefined"
  by (simp add: truthy_value_def)

definition link_url :: "string \<Rightarrow> int \<Rightarrow> argument_url" where
  "link_url did i = \<lparr>au_debateId = did, au_counterargumentId = Some (int_to_string i), au_draftId = None\<rparr>"

lemma link_url_facts [simp]:
  "isCounterargumentExplicit (link_url did i)" "counterargument_param (link_url did i) = JNum i"
  "\<not> isDraft (link_url did i)" "parsedDraftId (link_url did i) = None"
  by (simp_all add: link_url_def isCounterargumentExplicit_def counterargument_param_def isDraft_def
      parsedDraftId_def) (simp_all add: truthy_def)

lemma find_unique:
  assumes "a \<in> set xs" "distinct (map client_arg.ca_id xs)"
  shows "find (\<lambda>b. JNum (client_arg.ca_id b) = JNum (client_arg.ca_id a)) xs = Some a"
  using assms
proof (induction xs)
  case (Cons x xs)
  then show ?case
    by (cases "x = a") force+
qed simp

text \<open>The page reached by the link, once its timer has run.\<close>

definition link_page :: "string \<Rightarrow> current_debate \<Rightarrow> client_arg \<Rightarrow> argument_page" where
  "link_page did d a = run_timer 0 (mount_argument_page (link_url did (client_arg.ca_id a)) True (Some d))"

lemma run_set_counterargument:
  assumes "np_timers s = [SetCounterargumentId v]"
  shows "run_timer 0 s = settle (s\<lparr>np_timers := []\<rparr>) (set_counterargument v (s\<lparr>np_timers := []\<rparr>))"
  using assms by (simp add: run_timer_def update_def Let_def)

lemma mount_link:
  fixes did :: string and i :: int and crtDebate :: "current_debate option"
  defines "s \<equiv> mount_argument_page (link_url did i) True crtDebate"
  shows "np_url s = link_url did i" "np_debate s = crtDebate" "np_prefilled s = None"
    "np_editorReady s" "np_isExpanded s" "\<not> np_isOpen s" "np_counterargument s = None"
    "np_timers s = [SetCounterargumentId (JNum i)]" "np_signedIn s"
    "np_form s = (default_form (link_url did i) crtDebate)\<lparr>fm_counterargumentId := JUndefined\<rparr>"
    "counterargumentId s = None"
proof -
  define r where "r = first_render (link_url did i) True crtDebate"
  have form: "fm_isCounterargument (np_form r)"
    by (simp add: r_def first_render_def default_form_def)
  define e where "e = fetch_effect r (type_effect (load_effect (user_effect r)))"
  have e: "np_form e = (np_form r)\<lparr>fm_counterargumentId := JUndefined\<rparr>"
    by (simp add: e_def type_effect_def)
  then have none: "counterargumentId e = None"
    by (simp add: counterargumentId_def)
  then have "fetch_effect e e = e"
    by (simp add: fetch_effect_def)
  then have s: "s = hide_collapse e"
    using form by (simp add: s_def mount_argument_page_def r_def[symmetric] e_def Let_def check_effect_def
        type_effect_def)
  show "np_timers s = [SetCounterargumentId (JNum i)]"
    by (simp add: s e_def type_effect_def) (simp add: r_def first_render_def user_effect_def later_def)
  show "counterargumentId s = None"
    using none by (simp add: s)
  show "np_form s = (default_form (link_url did i) crtDebate)\<lparr>fm_counterargumentId := JUndefined\<rparr>"
    using e by (simp add: s r_def first_render_def)
  show "\<not> np_isOpen s"
    using none by (simp add: s hide_collapse_def)
  show "np_url s = link_url did i" "np_debate s = crtDebate" "np_prefilled s = None"
    "np_editorReady s" "np_isExpanded s" "np_counterargument s = None" "np_signedIn s"
    by (simp_all add: s e_def type_effect_def r_def first_render_def)
qed

lemma link_page_state:
  fixes did :: string
  assumes d: "cd_debate_id d \<noteq> 0" "client_arg.ca_id a \<noteq> 0" "a \<in> set (cd_args d)"
    "distinct (map client_arg.ca_id (cd_args d))"
  defines "s \<equiv> link_page did d a"
  shows "np_url s = link_url did (client_arg.ca_id a)" "np_debate s = Some d" "np_prefilled s = None"
    "np_editorReady s" "np_isExpanded s" "\<not> np_isOpen s" "np_counterargument s = None"
    "np_signedIn s"
    "np_form s = \<lparr>fm_counterargumentId = JNum (client_arg.ca_id a),
       fm_argType = Some (if client_arg.ca_type a = Some PRO then CON else PRO),
       fm_isCounterargument = True, fm_argumentTitle = []\<rparr>"
    "FetchArgument (cd_debate_id d) (JNum (client_arg.ca_id a)) \<in> set (np_requests s)"
proof -
  define m where "m = mount_argument_page (link_url did (client_arg.ca_id a)) True (Some d)"
  note m = mount_link[of did "client_arg.ca_id a" "Some d", folded m_def]
  define m0 where "m0 = m\<lparr>np_timers := []\<rparr>"
  define m1 where "m1 = set_counterargument (JNum (client_arg.ca_id a)) m0"
  have deps: "counterargumentId m1 = Some (JNum (client_arg.ca_id a))" "counterargumentId m0 = None"
    using m d(2) by (simp_all add: m1_def m0_def counterargumentId_def default_form_def)
  have "s = settle m0 m1"
    using run_set_counterargument[OF m(8)] by (simp add: s_def link_page_def m_def m1_def m0_def)
  also have "\<dots> = hide_collapse (fetch_effect m1 m1)"
    using deps by (subst settle_quiet) (simp_all add: m1_def fetch_deps_def)
  finally have s: "s = hide_collapse (fetch_effect m1 m1)" .
  have m1: "np_form m1 = (np_form m)\<lparr>fm_counterargumentId := JNum (client_arg.ca_id a)\<rparr>"
    by (simp add: m1_def m0_def)
  show "np_url s = link_url did (client_arg.ca_id a)" "np_debate s = Some d" "np_prefilled s = None"
    "np_editorReady s" "np_isExpanded s" "np_counterargument s = None" "np_signedIn s"
    using m by (simp_all add: s m1_def m0_def)
  show "\<not> np_isOpen s"
    using m by (simp add: s hide_collapse_def m1_def m0_def)
  show "np_form s = \<lparr>fm_counterargumentId = JNum (client_arg.ca_id a),
       fm_argType = Some (if client_arg.ca_type a = Some PRO then CON else PRO),
       fm_isCounterargument = True, fm_argumentTitle = []\<rparr>"
    using m(10) find_unique[OF d(3,4)]
    by (simp add: s m1 default_form_def getCorrespondingCounterargumentType_def)
  show "FetchArgument (cd_debate_id d) (JNum (client_arg.ca_id a)) \<in> set (np_requests s)"
    using m deps(1) d(1)
    by (simp add: s fetch_effect_def send_def m1_def m0_def currentDebateId_def nonzero_def)
qed

lemma submit_new:
  assumes "\<not> isUpdatingDraft s" "currentDebateId s = Some i" "i \<noteq> 0"
  shows "submit_action False editor s =
    Inr (CreateArgument i (createdArgument (if np_editorReady s then editor else None) (np_form s)))"
  using assms by (simp add: submit_action_def nonzero_def Let_def)

lemma debate_loaded_frame:
  "np_form (debate_loaded d s) = np_form s" "np_prefilled (debate_loaded d s) = np_prefilled s"
  "np_editorReady (debate_loaded d s) = np_editorReady s"
  "np_debate (debate_loaded d s) = Some d"
  unfolding debate_loaded_def update_def by (subst settle_quiet; simp)+

text \<open>C26: The link to counter an argument opens the form on that argument with the opposite type:
  once the page's timer has run, whatever title is entered and whether or not the debate is loaded
  again, submitting asks to create an argument of the store's debate that counters it.\<close>

theorem counterargument_link:
  assumes "cd_debate_id d \<noteq> 0" "client_arg.ca_id a \<noteq> 0" "a \<in> set (cd_args d)"
    "distinct (map client_arg.ca_id (cd_args d))" "cd_debate_id d' = cd_debate_id d"
    "s = set_title t (link_page did d a) \<or> s = debate_loaded d' (set_title t (link_page did d a))"
  shows "submit_action False (Some editor) s =
      Inr (CreateArgument (cd_debate_id d)
        \<lparr>ab_title = t, ab_content = Some editor,
         ab_argumentType = Some (if client_arg.ca_type a = Some PRO then CON else PRO),
         ab_counterargumentId = Some (JNum (client_arg.ca_id a))\<rparr>)"
proof -
  note p = link_page_state[OF assms(1-4), of did]
  have "currentDebateId s = Some (cd_debate_id d)" "\<not> isUpdatingDraft s" "np_editorReady s"
    "np_form s = (np_form (link_page did d a))\<lparr>fm_argumentTitle := t\<rparr>"
    using assms(5,6) p
    by (auto simp: currentDebateId_def isUpdatingDraft_def debate_loaded_frame set_title_def truthy_def)
  then show ?thesis
    using submit_new[of s "cd_debate_id d"] assms(1,2) p(9) by (simp add: createdArgument_def)
qed

theorem counterargument_link_witness:
  "submit_action False (Some ''e'') (set_title ''No'' (link_page ''7'' sample_debate (hd sample_args))) =
     Inr (CreateArgument 7
        \<lparr>ab_title = ''No'', ab_content = Some ''e'', ab_argumentType = Some CON,
         ab_counterargumentId = Some (JNum 1)\<rparr>)"
  using counterargument_link[of sample_debate "hd sample_args" sample_debate
      "set_title ''No'' (link_page ''7'' sample_debate (hd sample_args))" "''No''" "''7''" "''e''"]
  by (simp add: sample_debate_def sample_args_def)

text \<open>
  Opened directly, before the store has the debate, the type stays undefined, and choosing one
  drops the argument to be countered.
\<close>

lemma direct_link_type: "fm_argType (default_form (link_url did i) None) = None"
  by (simp add: default_form_def getCorrespondingCounterargumentType_def)

lemma choosing_type_drops:
  assumes "fm_argType (np_form s) \<noteq> Some ty"
  shows "fm_counterargumentId (np_form (choose_type ty s)) = JUndefined"
  using assms by (simp add: choose_type_def update_def settle_def Let_def type_effect_def check_effect_def)

text \<open>C33: The page works on the store's debate until its own is loaded. Before that, a submission
  on the page of any debate asks to create an argument of the debate visited before; on the page
  of a draft it asks for a new argument without content, instead of submitting the draft.\<close>

theorem submit_before_loaded:
  assumes "cd_debate_id d \<noteq> 0" "s = mount_argument_page u True (Some d)"
  shows "isPageReady s \<and>
    submit_action False editor s =
      Inr (CreateArgument (cd_debate_id d)
        (createdArgument (if isDraft u then None else editor) (np_form s)))"
proof -
  have "np_debate s = Some d" "np_prefilled s = None" "np_editorReady s \<longleftrightarrow> \<not> isDraft u"
    by (simp_all add: assms(2) mount_argument_page_def Let_def check_effect_def type_effect_def
        first_render_def)
  then show ?thesis
    using submit_new[of s "cd_debate_id d" editor] assms(1)
    by (simp add: isPageReady_def isUpdatingDraft_def truthy_def currentDebateId_def)
qed

theorem submit_before_loaded_witness:
  "\<exists>body. submit_action False (Some ''e'')
      (mount_argument_page \<lparr>au_debateId = ''12'', au_counterargumentId = None, au_draftId = None\<rparr>
         True (Some sample_debate)) = Inr (CreateArgument 7 body)"
  using submit_before_loaded[OF _ refl, of sample_debate
      "\<lparr>au_debateId = ''12'', au_counterargumentId = None, au_draftId = None\<rparr>" "Some ''e''"]
  by (simp add: sample_debate_def)

end
