(* ===== verification/Client_Drafts.thy ===== *)
theory Client_Drafts
  imports Client_Argument Proposals
begin

text \<open>
  Drafts from one end to the other: the page that saves an argument as a draft, the API that
  stores and returns it, and the page that opens it again.
\<close>

section \<open>The body of a request and the API's transfer object\<close>

text \<open>What the validation of the body accepts: a missing text or type is a bad request.\<close>

definition argument_dto_of :: "argument_body \<Rightarrow> argument_dto option" where
  "argument_dto_of b =
     (case (ab_content b, ab_argumentType b) of
        (Some content, Some ty) \<Rightarrow>
          Some \<lparr>argument_dto.ca_title = ab_title b, argument_dto.ca_content = content,
                ca_argumentType = argument_type_name ty,
                ca_counterargumentId = (case ab_counterargumentId b of Some i \<Rightarrow> i | None \<Rightarrow> JUndefined)\<rparr>
      | _ \<Rightarrow> None)"

lemma argument_dto_of_Some:
  assumes "argument_dto_of b = Some dto"
  shows "\<exists>content ty. ab_content b = Some content \<and> ab_argumentType b = Some ty \<and>
    argument_dto.ca_title dto = ab_title b \<and> argument_dto.ca_content dto = content \<and>
    ca_argumentType dto = argument_type_name ty \<and>
    ca_counterargumentId dto = (case ab_counterargumentId b of Some i \<Rightarrow> i | None \<Rightarrow> JUndefined)"
  using assms by (auto simp: argument_dto_of_def split: option.splits)

section \<open>Opening a draft\<close>

definition draft_url :: "int \<Rightarrow> int \<Rightarrow> argument_url" where
  "draft_url did n = \<lparr>au_debateId = int_to_string did, au_counterargumentId = None,
     au_draftId = Some (int_to_string n)\<rparr>"

lemma draft_url_facts [simp]:
  "\<not> isCounterargumentExplicit (draft_url did n)" "isDraft (draft_url did n)"
  "parsedDraftId (draft_url did n) = Some (JNum n)" "au_debateId (draft_url did n) = int_to_string did"
  by (simp_all add: draft_url_def isCounterargumentExplicit_def isDraft_def parsedDraftId_def)
     (simp add: truthy_def)

definition run_timers :: "argument_page \<Rightarrow> argument_page" where
  "run_timers s = (if np_timers s = [] then s else run_timer 0 s)"

definition open_draft :: "int \<Rightarrow> int \<Rightarrow> current_debate option \<Rightarrow> current_debate \<Rightarrow> client_arg \<Rightarrow> argument_page" where
  "open_draft did n crtDebate d draft =
     run_timers (draft_loaded d draft (mount_argument_page (draft_url did n) True crtDebate))"

lemma set_same_counterargument:
  "fm_counterargumentId (np_form s) = v \<Longrightarrow> set_counterargument v s = s"
  by (cases s; cases "np_form s") (simp add: set_counterargument_def)

lemma no_counterargument: "fm_counterargumentId (np_form s) = JUndefined \<Longrightarrow> counterargumentId s = None"
  by (simp add: counterargumentId_def)

lemma fetch_nothing: "counterargumentId r = None \<Longrightarrow> fetch_effect r s = s"
  by (simp add: fetch_effect_def)

lemma settle_undefined:
  assumes "fm_counterargumentId (np_form s1) = JUndefined" "np_signedIn s0 = np_signedIn s1"
  shows "settle s0 s1 = hide_collapse s1"
  by (simp add: settle_def Let_def type_effect_def check_effect_def assms(2)
      set_same_counterargument[OF assms(1)] fetch_nothing[OF no_counterargument[OF assms(1)]])

lemma mount_draft:
  fixes did n :: int and crtDebate :: "current_debate option"
  defines "m \<equiv> mount_argument_page (draft_url did n) True crtDebate"
  shows "np_url m = draft_url did n" "np_timers m = []" "np_signedIn m"
    "np_form m = \<lparr>fm_counterargumentId = JUndefined, fm_argType = Some PRO,
       fm_isCounterargument = False, fm_argumentTitle = []\<rparr>"
proof -
  define r where "r = first_render (draft_url did n) True crtDebate"
  have form: "np_form r = \<lparr>fm_counterargumentId = JUndefined, fm_argType = Some PRO,
       fm_isCounterargument = False, fm_argumentTitle = []\<rparr>"
    by (simp add: r_def first_render_def default_form_def)
  have m: "m = hide_collapse (load_effect (user_effect r))"
    using form unfolding m_def mount_argument_page_def r_def[symmetric]
    by (simp add: Let_def type_effect_def check_effect_def set_same_counterargument
        fetch_nothing no_counterargument)
  show "np_form m = \<lparr>fm_counterargumentId = JUndefined, fm_argType = Some PRO,
       fm_isCounterargument = False, fm_argumentTitle = []\<rparr>"
    using form by (simp add: m)
  show "np_url m = draft_url did n" "np_signedIn m"
    by (simp_all add: m r_def first_render_def)
  show "np_timers m = []"
    by (simp add: m) (simp add: r_def first_render_def user_effect_def)
qed

text \<open>The page with the draft in it: its form is the draft's, and a click works on the draft.\<close>

lemma open_draft_state:
  fixes did n :: int and crtDebate :: "current_debate option" and d :: current_debate
    and draft :: client_arg
  defines "s \<equiv> open_draft did n crtDebate d draft"
  shows "np_url s = draft_url did n \<and> np_prefilled s = client_arg.ca_content draft \<and> np_editorReady s \<and>
    fm_argumentTitle (np_form s) = client_arg.ca_title draft \<and>
    fm_argType (np_form s) = client_arg.ca_type draft \<and>
    fm_counterargumentId (np_form s) =
      (case nonzero (client_arg.ca_counterargument_to draft) of Some i \<Rightarrow> JNum i | None \<Rightarrow> JUndefined)"
proof -
  define m where "m = mount_argument_page (draft_url did n) True crtDebate"
  note m = mount_draft[of did n crtDebate, folded m_def]
  define l where "l = draft_loaded d draft m"
  show ?thesis
  proof (cases "nonzero (client_arg.ca_counterargument_to draft)")
    case None
    have "l = hide_collapse (m\<lparr>np_debate := Some d,
        np_form := (np_form m)\<lparr>fm_argumentTitle := client_arg.ca_title draft, fm_argType := client_arg.ca_type draft\<rparr>,
        np_prefilled := client_arg.ca_content draft, np_editorReady := True\<rparr>)"
      using m None unfolding l_def draft_loaded_def update_def Let_def
      by (subst settle_undefined) simp_all
    then show ?thesis
      using m None by (simp add: s_def open_draft_def m_def[symmetric] l_def[symmetric] run_timers_def)
  next
    case (Some i)
    have l: "l = hide_collapse (m\<lparr>np_debate := Some d, np_timers := [SetCounterargumentId (JNum i)],
        np_form := (np_form m)\<lparr>fm_isCounterargument := True, fm_argumentTitle := client_arg.ca_title draft,
                                fm_argType := client_arg.ca_type draft\<rparr>,
        np_prefilled := client_arg.ca_content draft, np_editorReady := True\<rparr>)"
      using m Some unfolding l_def draft_loaded_def update_def Let_def
      by (subst settle_undefined) (simp_all add: later_def)
    have t: "np_timers l = [SetCounterargumentId (JNum i)]"
      by (simp add: l)
    have "s = settle (l\<lparr>np_timers := []\<rparr>) (set_counterargument (JNum i) (l\<lparr>np_timers := []\<rparr>))"
      using run_set_counterargument[OF t] t
      by (simp add: s_def open_draft_def m_def[symmetric] l_def[symmetric] run_timers_def)
    also have "\<dots> = hide_collapse (if fetch_deps (l\<lparr>np_timers := []\<rparr>) \<noteq>
          fetch_deps (set_counterargument (JNum i) (l\<lparr>np_timers := []\<rparr>))
        then fetch_effect (set_counterargument (JNum i) (l\<lparr>np_timers := []\<rparr>))
               (set_counterargument (JNum i) (l\<lparr>np_timers := []\<rparr>))
        else set_counterargument (JNum i) (l\<lparr>np_timers := []\<rparr>))"
      by (rule settle_quiet) simp_all
    finally show ?thesis
      using m Some by (simp add: l)
  qed
qed

section \<open>What the API stores and returns\<close>

text \<open>The next identifier of an argument.\<close>

definition next_argument_id :: "world \<Rightarrow> int" where
  "next_argument_id w = argument_seq (sqs (pg w)) + 1"

lemma saved_draft:
  assumes w: "txn w = NoTxn" "faults w = []" "schema_ok (pg w)"
    and run: "handle_saveArgumentAsDraft user (int_to_string did) dto w = (Inr m, w1)"
    and short: "length (argument_dto.ca_title dto) \<le> 80"
  shows "txn w1 = NoTxn" "faults w1 = []" "schema_ok (pg w1)"
    and "\<exists>r \<in> set (arguments (wtabs w1)). a_id r = next_argument_id w \<and>
      a_title r = argument_dto.ca_title dto \<and> a_content r = argument_dto.ca_content dto \<and>
      int_param (ca_counterargumentId dto) = Inr (a_counterargument_to r) \<and>
      a_type r = parse_argument_type (ca_argumentType dto) \<and> a_is_draft r"
proof -
  define v where "v = \<lparr>av_debate_id = JNum did, av_ticket_id = None,
     av_title = argument_dto.ca_title dto, av_content = argument_dto.ca_content dto,
     av_counterargument_to = ca_counterargumentId dto, av_created_by = JNum (uc_id user),
     av_type = ca_argumentType dto, av_is_draft = True\<rparr>"
  obtain q db where st: "insert_argument v (pg w) = (q, db)"
    by (cases "insert_argument v (pg w)")
  have sq: "sq (client_query (insert_argument v) (\<lambda>_. Inr ())
       (\<lambda>_. PlainError ''An error occurred while saving the argument as draft.''))
     (ret ''Draft successfully saved.'') w = (Inr m, w1)"
    using run by (simp add: handle_saveArgumentAsDraft_def saveArgumentAsDraft_def v_def)
  then obtain r where r: "q = Inr r" and w1: "w1 = w\<lparr>pg := db, lost := False\<rparr>"
    using w(1,2) st by (cases q) (simp_all add: sq_run client_query_run)
  note i = insert_argument_Inr[OF st[unfolded r]]
  show "txn w1 = NoTxn" "faults w1 = []"
    using w by (simp_all add: w1)
  show "schema_ok (pg w1)"
    using stmt_ok_schema[OF stmt_ok_insert_argument st w(3)] by (simp add: w1)
  have "a_title r = argument_dto.ca_title dto"
    using i(6) short by (simp add: v_def varchar_short)
  then show "\<exists>r \<in> set (arguments (wtabs w1)). a_id r = next_argument_id w \<and>
      a_title r = argument_dto.ca_title dto \<and> a_content r = argument_dto.ca_content dto \<and>
      int_param (ca_counterargumentId dto) = Inr (a_counterargument_to r) \<and>
      a_type r = parse_argument_type (ca_argumentType dto) \<and> a_is_draft r"
    using i by (intro bexI[of _ r]) (simp_all add: w1 v_def next_argument_id_def)
qed

lemma read_draft:
  assumes w: "txn w = NoTxn" "faults w = []" "schema_ok (pg w)" and n: "int4 did" "int4 n"
    and run: "handle_getDraft user (int_to_string did) (int_to_string n) inc w = (Inr (a, v), w2)"
  shows "\<exists>r \<in> set (arguments (wtabs w)). a_id r = n \<and> (\<exists>d u. a = argument_columns True r d u)"
proof -
  define data where "data = \<lparr>gd_user = user, gd_debateId = JNum did, gd_argumentId = JNum n\<rparr>"
  have "fst (getDraft data w) = Inr (Some a)"
    using run
    by (auto simp: handle_getDraft_def debate_draft_pipe_def bnd_run fork_join_def data_def
        raise_def ret_def split: sum.splits prod.splits option.splits if_splits)
  then have "first_row [argument_columns True a d u.
         a \<leftarrow> arguments (wtabs w),
         d \<leftarrow> filter (\<lambda>d. d_id d = a_debate_id a) (debates (wtabs w)),
         u \<leftarrow> filter (\<lambda>u. u_id u = a_created_by a) (users (wtabs w)),
         Some (a_debate_id a) = Some did \<and> Some (a_id a) = Some n
           \<and> a_created_by a = uc_id user] = Some a"
    using w n
    by (simp add: getDraft_def client_query_run select_draft_def with_param_def select_stmt_def data_def
        int_param.simps(3))
  then show ?thesis
    using first_row_in by (fastforce split: if_splits)
qed

text \<open>C22: A draft comes back as it was saved: when the page's text of an argument is accepted as a
  draft, and the draft is then opened with the link to it, saving it again without a change asks
  to update that draft with exactly the data that was saved, its countered argument included.\<close>

theorem draft_round_trip:
  assumes w: "txn w = NoTxn" "faults w = []" "schema_ok (pg w)"
    and body: "argument_dto_of body = Some dto" "length (ab_title body) \<le> 80" "ab_content body \<noteq> Some []"
      "ab_counterargumentId body = None \<or> (\<exists>i. ab_counterargumentId body = Some (JNum i) \<and> i \<noteq> 0)"
    and saved: "handle_saveArgumentAsDraft user (int_to_string did) dto w = (Inr m, w1)"
    and n: "n = next_argument_id w" "int4 did" "int4 n"
    and opened: "handle_getDraft user (int_to_string did) (int_to_string n) (Some ''true'') w1 = (Inr (a, v), w2)"
    and s: "s = open_draft did n crtDebate d (client_arg_of (arg_data.truncate a))"
  shows "submit_action True (np_prefilled s) s = Inr (UpdateDraft (JNum did) (JNum n) body)"
proof -
  obtain content ty where b: "ab_content body = Some content" "ab_argumentType body = Some ty"
    "argument_dto.ca_title dto = ab_title body" "argument_dto.ca_content dto = content"
    "ca_argumentType dto = argument_type_name ty"
    "ca_counterargumentId dto = (case ab_counterargumentId body of Some i \<Rightarrow> i | None \<Rightarrow> JUndefined)"
    using argument_dto_of_Some[OF body(1)] by blast
  have short: "length (argument_dto.ca_title dto) \<le> 80"
    using b body(2) by simp
  note w1 = saved_draft[OF w saved short]
  obtain r where r: "r \<in> set (arguments (wtabs w1))" "a_id r = n" "a_title r = ab_title body"
    "a_content r = content" "int_param (ca_counterargumentId dto) = Inr (a_counterargument_to r)"
    "a_type r = Some ty"
    using w1(4) b n(1) by auto
  obtain r' d' u' where r': "r' \<in> set (arguments (wtabs w1))" "a_id r' = n" "a = argument_columns True r' d' u'"
    using read_draft[OF w1(1-3) n(2,3) opened] by blast
  have "r' = r"
    using distinct_key_eq[of a_id "arguments (wtabs w1)" r' r] r(1,2) r'(1,2) schema_tables_ok[OF w1(3)]
    by (simp add: tables_ok_def)
  then have draft: "client_arg.ca_title (client_arg_of (arg_data.truncate a)) = ab_title body"
    "client_arg.ca_content (client_arg_of (arg_data.truncate a)) = Some content"
    "client_arg.ca_type (client_arg_of (arg_data.truncate a)) = Some ty"
    "client_arg.ca_counterargument_to (client_arg_of (arg_data.truncate a)) = a_counterargument_to r"
    using r r'(3) by (simp_all add: client_arg_of_def argument_columns_def arg_data.truncate_def)
  note st = open_draft_state[of did n crtDebate d "client_arg_of (arg_data.truncate a)", folded s]
  have updating: "isUpdatingDraft s" "np_prefilled s = Some content"
    using st draft b body(3) by (cases content; simp add: isUpdatingDraft_def truthy_def)+
  have "createdArgument (Some content) (np_form s) = body"
    using st draft b(1,2,6) r(5) body(4)
    by (cases body) (auto simp: createdArgument_def nonzero_def)
  then show ?thesis
    using st updating by (simp add: submit_action_def Let_def)
qed

text \<open>An argument against the first of the sample debate, saved and opened again.\<close>

definition sample_body :: argument_body where
  "sample_body = \<lparr>ab_title = ''T'', ab_content = Some ''x'', ab_argumentType = Some CON,
     ab_counterargumentId = Some (JNum 1)\<rparr>"

definition sample_dto :: argument_dto where
  "sample_dto = \<lparr>argument_dto.ca_title = ''T'', argument_dto.ca_content = ''x'',
     ca_argumentType = ''CON'', ca_counterargumentId = JNum 1\<rparr>"

definition saved_world :: world where
  "saved_world = snd (handle_saveArgumentAsDraft alice_cookie (int_to_string 1) sample_dto sample_world)"

definition sample_draft :: debate_argument where
  "sample_draft = argument_columns True
     \<lparr>a_id = 4, a_debate_id = 1, a_ticket_id = None, a_title = ''T'', a_content = ''x'',
      a_counterargument_to = Some 1, a_created_by = 1, a_created_at = 9, a_type = Some CON,
      a_is_draft = True\<rparr> (hd (debates sample_tables)) alice"

lemma sample_saved:
  "fst (handle_saveArgumentAsDraft alice_cookie (int_to_string 1) sample_dto sample_world) =
     Inr ''Draft successfully saved.''"
  by code_simp

lemma sample_opened:
  "map_sum id fst (fst (handle_getDraft alice_cookie (int_to_string 1) (int_to_string 4) (Some ''true'') saved_world)) =
     Inr sample_draft"
  by code_simp

theorem draft_round_trip_witness:
  "\<exists>w1 v w2. handle_saveArgumentAsDraft alice_cookie (int_to_string 1) sample_dto sample_world =
      (Inr ''Draft successfully saved.'', w1) \<and>
    handle_getDraft alice_cookie (int_to_string 1) (int_to_string 4) (Some ''true'') w1 =
      (Inr (sample_draft, v), w2) \<and>
    (let s = open_draft 1 4 None sample_debate (client_arg_of (arg_data.truncate sample_draft))
     in submit_action True (np_prefilled s) s = Inr (UpdateDraft (JNum 1) (JNum 4) sample_body))"
proof -
  obtain w1 where saved: "handle_saveArgumentAsDraft alice_cookie (int_to_string 1) sample_dto sample_world =
      (Inr ''Draft successfully saved.'', w1)"
    using sample_saved
    by (cases "handle_saveArgumentAsDraft alice_cookie (int_to_string 1) sample_dto sample_world") simp
  then have w1: "saved_world = w1"
    by (simp add: saved_world_def)
  obtain v w2 where opened: "handle_getDraft alice_cookie (int_to_string 1) (int_to_string 4) (Some ''true'') w1 =
      (Inr (sample_draft, v), w2)"
    using sample_opened unfolding w1
    by (cases "handle_getDraft alice_cookie (int_to_string 1) (int_to_string 4) (Some ''true'') w1";
        cases "fst (handle_getDraft alice_cookie (int_to_string 1) (int_to_string 4) (Some ''true'') w1)") auto
  have dto: "argument_dto_of sample_body = Some sample_dto"
    by (simp add: argument_dto_of_def sample_body_def sample_dto_def)
  have n: "4 = next_argument_id sample_world"
    by (simp add: next_argument_id_def sample_defs)
  have "submit_action True (np_prefilled s) s = Inr (UpdateDraft (JNum 1) (JNum 4) sample_body)"
    if "s = open_draft 1 4 None sample_debate (client_arg_of (arg_data.truncate sample_draft))" for s
    by (rule draft_round_trip[OF _ _ _ dto _ _ _ saved n _ _ opened that])
       (simp_all add: sample_body_def int4_def)
  then show ?thesis
    using saved opened by (simp add: Let_def)
qed

end
