(* ===== verification/Client_Activity.thy ===== *)
theory Client_Activity
  imports Client_Board Client_Drafts
begin

text \<open>
  The client's session and the page of a user's own activity: the slice of the signed-in user with
  its copy in the browser's storage (\<open>user.slice.ts\<close>, \<open>AuthHydrator.tsx\<close>), the forms to sign in
  and to register, the navigation bar, the card slider, and \<open>app/my-activity/page.tsx\<close>, whose cards
  are shown to lead to the items the API lists.
\<close>

section \<open>The signed-in user\<close>

record public_user =
  pu_id :: int
  pu_username :: string
  pu_email :: string
  pu_role :: "user_role option"

text \<open>The slice and the browser's storage; \<open>JSON.stringify\<close> of a user is a parameter.\<close>

record user_store =
  us_currentUser :: "public_user option"
  us_storage :: "string option"
  us_pushed :: "string list"

definition setCurrentUser :: "(public_user \<Rightarrow> string) \<Rightarrow> public_user option \<Rightarrow> user_store \<Rightarrow> user_store" where
  "setCurrentUser stringify payload s =
     s\<lparr>us_currentUser := payload, us_storage := map_option stringify payload\<rparr>"

definition initial_store :: "string option \<Rightarrow> user_store" where
  "initial_store storage = \<lparr>us_currentUser = None, us_storage = storage, us_pushed = []\<rparr>"

text \<open>The effect of \<open>AuthHydrator\<close> when the application is loaded.\<close>

definition hydrate :: "(public_user \<Rightarrow> string) \<Rightarrow> (string \<Rightarrow> public_user) \<Rightarrow> user_store \<Rightarrow> user_store" where
  "hydrate stringify parse s =
     (case truthy (us_storage s) of
        Some storedUser \<Rightarrow> setCurrentUser stringify (Some (parse storedUser)) s
      | None \<Rightarrow> s)"

definition push_route :: "string \<Rightarrow> user_store \<Rightarrow> user_store" where
  "push_route r s = s\<lparr>us_pushed := us_pushed s @ [r]\<rparr>"

text \<open>The answer of the login; a missing role goes nowhere.\<close>

definition login_answered :: "(public_user \<Rightarrow> string) \<Rightarrow> public_user \<Rightarrow> user_store \<Rightarrow> user_store" where
  "login_answered stringify user s =
     (let s' = setCurrentUser stringify (Some user) s
      in case pu_role user of
           Some USER \<Rightarrow> push_route ''/debates'' s'
         | Some MODERATOR \<Rightarrow> push_route ''/activity'' s'
         | Some ADMIN \<Rightarrow> s'
         | None \<Rightarrow> s')"

definition register_answered :: "(public_user \<Rightarrow> string) \<Rightarrow> public_user \<Rightarrow> user_store \<Rightarrow> user_store" where
  "register_answered stringify user s =
     push_route ''/debates'' (setCurrentUser stringify (Some user) s)"

text \<open>The last entry of the navigation bar: it asks nothing of the API.\<close>

definition logoutOrLogIn :: "(public_user \<Rightarrow> string) \<Rightarrow> user_store \<Rightarrow> user_store" where
  "logoutOrLogIn stringify s = push_route ''/'' (setCurrentUser stringify None s)"

datatype nav_items = UserItems | ModeratorItems | AdminItems | UnauthenticatedItems

definition navbarItems :: "user_store \<Rightarrow> nav_items" where
  "navbarItems s =
     (case Option.bind (us_currentUser s) pu_role of
        Some USER \<Rightarrow> UserItems
      | Some MODERATOR \<Rightarrow> ModeratorItems
      | Some ADMIN \<Rightarrow> AdminItems
      | None \<Rightarrow> UnauthenticatedItems)"

fun nav_links :: "nav_items \<Rightarrow> string list" where
  "nav_links UserItems = [''/debates'', ''/my-activity'', ''/about'', ''/contribute'']"
| "nav_links ModeratorItems = [''/activity'']"
| "nav_links UnauthenticatedItems = [''/debates'', ''/about'', ''/contribute'']"
| "nav_links AdminItems = []"

text \<open>Which of the two forms the first page shows.\<close>

datatype form_type = LOGIN | REGISTER

definition toggleFormType :: "form_type \<Rightarrow> form_type" where
  "toggleFormType formType = (if formType = LOGIN then REGISTER else LOGIN)"

text \<open>A reload keeps the user, and a logout survives it.\<close>

lemma hydrate_after_login:
  assumes "\<And>u. parse (stringify u) = u" "\<And>u. stringify u \<noteq> []"
  shows "us_currentUser (hydrate stringify parse (initial_store
      (us_storage (login_answered stringify user s)))) = Some user"
    "us_currentUser (hydrate stringify parse (initial_store
      (us_storage (logoutOrLogIn stringify s)))) = None"
proof -
  have "us_storage (login_answered stringify user s) = Some (stringify user)"
    by (simp add: login_answered_def setCurrentUser_def push_route_def Let_def
        split: option.split user_role.split)
  moreover have "truthy (Some (stringify user)) = Some (stringify user)"
    using assms(2)[of user] by (cases "stringify user") (simp_all add: truthy_def)
  ultimately show "us_currentUser (hydrate stringify parse (initial_store
      (us_storage (login_answered stringify user s)))) = Some user"
    using assms(1) by (simp add: hydrate_def setCurrentUser_def initial_store_def)
  show "us_currentUser (hydrate stringify parse (initial_store
      (us_storage (logoutOrLogIn stringify s)))) = None"
    by (simp add: hydrate_def logoutOrLogIn_def setCurrentUser_def push_route_def initial_store_def
        truthy_def)
qed

section \<open>The card slider\<close>

record slider =
  sl_idx :: int
  sl_slidesCount :: int
  sl_scrollAmount :: int

definition initial_slider :: slider where
  "initial_slider = \<lparr>sl_idx = 0, sl_slidesCount = 1, sl_scrollAmount = 0\<rparr>"

text \<open>The measured widths, when both elements are there; \<open>Math.ceil\<close> of a quotient.\<close>

definition updateSliderMetrics :: "(int \<times> int \<times> int) option \<Rightarrow> slider \<Rightarrow> slider" where
  "updateSliderMetrics sizes s =
     (case sizes of
        None \<Rightarrow> s\<lparr>sl_slidesCount := 1, sl_scrollAmount := 0\<rparr>
      | Some (offsetWidth, clientWidth, scrollWidth) \<Rightarrow>
          s\<lparr>sl_slidesCount := max 1 ((scrollWidth + clientWidth - 1) div clientWidth),
            sl_scrollAmount := offsetWidth\<rparr>)"

definition canSlideNext :: "slider \<Rightarrow> bool" where
  "canSlideNext s = (sl_idx s < sl_slidesCount s - 1)"

definition canSlidePrev :: "slider \<Rightarrow> bool" where
  "canSlidePrev s = (1 \<le> sl_idx s)"

definition goNextSlide :: "slider \<Rightarrow> slider" where
  "goNextSlide s = (if canSlideNext s then s\<lparr>sl_idx := sl_idx s + 1\<rparr> else s)"

definition goPrevSlide :: "slider \<Rightarrow> slider" where
  "goPrevSlide s = (if canSlidePrev s then s\<lparr>sl_idx := sl_idx s - 1\<rparr> else s)"

inductive slides :: "slider \<Rightarrow> bool" where
  slides_start: "slides initial_slider"
| slides_measure: "slides s \<Longrightarrow> slides (updateSliderMetrics sizes s)"
| slides_next: "slides s \<Longrightarrow> slides (goNextSlide s)"
| slides_prev: "slides s \<Longrightarrow> slides (goPrevSlide s)"

lemma slides_bounds: "slides s \<Longrightarrow> 0 \<le> sl_idx s \<and> 1 \<le> sl_slidesCount s"
  by (induction rule: slides.induct)
     (auto simp: initial_slider_def updateSliderMetrics_def goNextSlide_def goPrevSlide_def
       canSlidePrev_def split: option.split)

lemma goNextSlide_bound:
  "sl_idx s \<le> sl_slidesCount s - 1 \<Longrightarrow> sl_idx (goNextSlide s) \<le> sl_slidesCount (goNextSlide s) - 1"
  by (simp add: goNextSlide_def canSlideNext_def)

section \<open>The page of a user's activity\<close>

fun activity_list :: "user_activity \<Rightarrow> activity_type" where
  "activity_list (ActivityArgument a) = aa_activity_list a"
| "activity_list (ActivityDebate d _) = ad_activity_list d"

definition ongoingItems :: "user_activity list \<Rightarrow> user_activity list" where
  "ongoingItems activities = filter (\<lambda>a. activity_list a = ONGOING) activities"

definition solvedItems :: "user_activity list \<Rightarrow> user_activity list" where
  "solvedItems activities = filter (\<lambda>a. activity_list a = SOLVED) activities"

text \<open>A template literal writes a missing ticket as \<open>null\<close>.\<close>

definition template_ticket :: "int option \<Rightarrow> string" where
  "template_ticket i = (case i of Some n \<Rightarrow> int_to_string n | None \<Rightarrow> ''null'')"

definition onArgumentClick :: "activity_argument \<Rightarrow> string" where
  "onArgumentClick arg =
     (if \<not> aa_is_draft arg then ''/review/argument/'' @ template_ticket (aa_ticket_id arg)
      else ''/debates/'' @ int_to_string (aa_debate_id arg) @ ''/new-argument?draftId=''
             @ int_to_string (aa_argument_id arg))"

definition onDebateClick :: "activity_debate \<Rightarrow> string" where
  "onDebateClick debateData = ''/review/debate/'' @ int_to_string (ad_ticket_id debateData)"

fun card_click :: "user_activity \<Rightarrow> string" where
  "card_click (ActivityArgument a) = onArgumentClick a"
| "card_click (ActivityDebate d _) = onDebateClick d"

text \<open>The keys that the page gives to its cards, and the state shown on the card of an argument.\<close>

fun card_key :: "user_activity \<Rightarrow> int option" where
  "card_key (ActivityArgument a) = aa_ticket_id a"
| "card_key (ActivityDebate d _) = Some (ad_ticket_id d)"

definition argument_status :: "activity_argument \<Rightarrow> string option" where
  "argument_status a =
     (case aa_board_list a of
        Some b \<Rightarrow> Some (board_list_name b)
      | None \<Rightarrow> if aa_is_draft a then Some ''#draft'' else None)"

lemma each_card_once:
  "set activities = set (ongoingItems activities) \<union> set (solvedItems activities)"
  "set (ongoingItems activities) \<inter> set (solvedItems activities) = {}"
proof -
  have "activity_list a = ONGOING \<or> activity_list a = SOLVED" for a
    by (cases "activity_list a") simp_all
  then show "set activities = set (ongoingItems activities) \<union> set (solvedItems activities)"
    by (auto simp: ongoingItems_def solvedItems_def)
  show "set (ongoingItems activities) \<inter> set (solvedItems activities) = {}"
    by (auto simp: ongoingItems_def solvedItems_def)
qed

section \<open>A card leads to its item\<close>

lemma ticket_ref_unique:
  assumes "app_ok ts" "a \<in> set (arguments ts)" "b \<in> set (arguments ts)"
    "a_ticket_id a = Some i" "a_ticket_id b = Some i"
  shows "a = b"
proof -
  let ?xs = "filter (\<lambda>a. a_ticket_id a \<noteq> None) (arguments ts)"
  have "distinct (map (the \<circ> a_ticket_id) ?xs)"
    using assms(1) by (simp add: app_ok_def ticket_refs_def)
  then show ?thesis
    using distinct_key_eq[of "the \<circ> a_ticket_id" ?xs a b] assms(2-5) by simp
qed

lemma debate_ticket_unique:
  assumes "app_ok ts" "d \<in> set (debates ts)" "e \<in> set (debates ts)" "d_ticket_id d = d_ticket_id e"
  shows "d = e"
  using distinct_key_eq[of d_ticket_id "debates ts" d e] assms by (simp add: app_ok_def ticket_refs_def)

lemma argument_ticket:
  assumes "app_ok ts" "a \<in> set (arguments ts)" "\<not> a_is_draft a"
  shows "\<exists>i. a_ticket_id a = Some i \<and> (\<exists>t \<in> set (tickets ts). t_id t = i \<and> t_created_by t = a_created_by a)"
  using assms by (fastforce simp: app_ok_def argument_ok_def list_all_iff list_ex_iff split: option.splits)

lemma left_join_counterargument_nonempty: "left_join_counterargument ts i \<noteq> []"
  by (simp add: left_join_counterargument_def split: list.splits)

lemma first_row_all:
  assumes "rows \<noteq> []" "\<And>v. v \<in> set rows \<Longrightarrow> P v"
  shows "\<exists>v. first_row rows = Some v \<and> P v"
  using assms by (cases rows) (simp_all add: first_row_def)

text \<open>The review page of an argument's author finds the argument of the ticket.\<close>

lemma argument_page_opens:
  assumes w: "txn w = NoTxn" "faults w = []" "schema_ok (pg w)" "app_ok (wtabs w)" and i: "int4 i"
    and a: "a \<in> set (arguments (wtabs w))" "\<not> a_is_draft a" "a_ticket_id a = Some i"
      "a_created_by a = uc_id user"
  shows "\<exists>v w'. handle_getArgumentAsUser user (int_to_string i) w = (Inr v, w') \<and>
    au_argument_id v = a_id a \<and> au_argument_title v = a_title a"
proof -
  let ?ts = "wtabs w"
  obtain t where t: "t \<in> set (tickets ?ts)" "t_id t = i" "t_created_by t = uc_id user"
    using argument_ticket[OF w(4) a(1,2)] a(3,4) by auto
  obtain d where d: "d \<in> set (debates ?ts)" "d_id d = a_debate_id a"
    using argument_parents(1)[OF schema_tables_ok[OF w(3)] a(1)]
      tables_ok_lookup(3)[OF schema_tables_ok[OF w(3)]] by blast
  obtain rows where st: "select_argument_as_user user i (pg w) = (Inr rows, pg w)"
    and rows: "rows = [\<lparr>au_ticket_id = t_id t, au_moderator_id = map_option u_id u,
         au_debate_id = a_debate_id a, au_argument_title = a_title a,
         au_argument_content = a_content a, au_counterargument_to_id = a_counterargument_to a,
         au_argument_type = a_type a, au_debate_title = d_title d,
         au_board_list = t_board_list t, au_counterargument_to_title = map_option a_title c,
         au_moderator_username = map_option u_username u, au_argument_id = a_id a,
         au_assigned_to_id = t_assigned_to t, au_user_id = t_created_by t\<rparr>.
         t \<leftarrow> tickets ?ts,
         a \<leftarrow> filter (\<lambda>a. a_ticket_id a = Some (t_id t)) (arguments ?ts),
         d \<leftarrow> filter (\<lambda>d. d_id d = a_debate_id a) (debates ?ts),
         u \<leftarrow> left_join_user ?ts (t_assigned_to t),
         c \<leftarrow> left_join_counterargument ?ts (a_counterargument_to a),
         t_id t = i \<and> \<not> a_is_draft a \<and> t_created_by t = uc_id user]"
    using not_null_JNum[OF i]
    by (simp add: select_argument_as_user_def with_param_def select_stmt_def)
  let ?u = "hd (left_join_user ?ts (t_assigned_to t))"
  let ?c = "hd (left_join_counterargument ?ts (a_counterargument_to a))"
  have u: "?u \<in> set (left_join_user ?ts (t_assigned_to t))"
    and c: "?c \<in> set (left_join_counterargument ?ts (a_counterargument_to a))"
    using left_join_user_nonempty left_join_counterargument_nonempty list.set_sel(1) by blast+
  have "\<exists>v. v \<in> set rows"
    unfolding rows set_concat set_map image_image
    by (intro exI UN_I[OF t(1)] UN_I[of a] UN_I[of d] UN_I[OF u] UN_I[OF c]) (use t a d in simp_all)
  then have "rows \<noteq> []"
    by auto
  moreover have "au_argument_id v = a_id a \<and> au_argument_title v = a_title a" if "v \<in> set rows" for v
    using that ticket_ref_unique[OF w(4) _ a(1) _ a(3)] unfolding rows by (auto split: if_splits)
  ultimately obtain v where v: "first_row rows = Some v" "au_argument_id v = a_id a \<and> au_argument_title v = a_title a"
    using first_row_all[of rows "\<lambda>v. au_argument_id v = a_id a \<and> au_argument_title v = a_title a"] by blast
  show ?thesis
    using w(1,2) st v
    by (simp add: handle_getArgumentAsUser_def parse_int_param_def bnd_run getArgumentAsUser_def
        client_query_run some_or_404_def)
qed

text \<open>The review page of a debate's author finds the debate of the ticket.\<close>

lemma debate_page_opens:
  assumes w: "txn w = NoTxn" "faults w = []" "app_ok (wtabs w)" and i: "int4 i"
    and d: "d \<in> set (debates (wtabs w))" "d_ticket_id d = i" "debates_tags (wtabs w) (d_id d) = Some g"
    and t: "t \<in> set (tickets (wtabs w))" "t_id t = i" "t_created_by t = uc_id user"
  shows "\<exists>v tags w'. handle_getDebateAsUser user (int_to_string i) w = (Inr (v, tags), w') \<and>
    du_id v = d_id d \<and> du_title v = d_title d"
proof -
  let ?ts = "wtabs w"
  obtain rows where st: "select_debate_as_user user i (pg w) = (Inr rows, pg w)"
    and rows: "rows = [\<lparr>du_id = d_id d, du_title = d_title d, du_ticket_id = t_id t,
         du_created_at = d_created_at d, du_modified_at = d_modified_at d,
         du_moderator_username = map_option u_username u, du_moderator_id = map_option u_id u,
         du_tags = fst g, du_board_list = t_board_list t, du_tags_ids = snd g,
         du_assigned_to_id = t_assigned_to t, du_user_id = t_created_by t\<rparr>.
         d \<leftarrow> debates ?ts,
         g \<leftarrow> (case debates_tags ?ts (d_id d) of None \<Rightarrow> [] | Some g \<Rightarrow> [g]),
         t \<leftarrow> filter (\<lambda>t. t_id t = d_ticket_id d) (tickets ?ts),
         u \<leftarrow> left_join_user ?ts (t_assigned_to t),
         d_ticket_id d = i \<and> t_created_by t = uc_id user]"
    using not_null_JNum[OF i]
    by (simp add: select_debate_as_user_def with_param_def select_stmt_def)
  let ?u = "hd (left_join_user ?ts (t_assigned_to t))"
  have u: "?u \<in> set (left_join_user ?ts (t_assigned_to t))"
    using left_join_user_nonempty list.set_sel(1) by blast
  have "\<exists>v. v \<in> set rows"
    unfolding rows set_concat set_map image_image
    by (intro exI UN_I[OF d(1)] UN_I[of g] UN_I[of t] UN_I[OF u]) (use t d in simp_all)
  then have "rows \<noteq> []"
    by auto
  moreover have "du_id v = d_id d \<and> du_title v = d_title d" if "v \<in> set rows" for v
    using that d(2) unfolding rows
    by (auto split: if_splits option.splits dest!: debate_ticket_unique[OF w(3) _ d(1)])
  ultimately obtain v where v: "first_row rows = Some v" "du_id v = d_id d \<and> du_title v = d_title d"
    using first_row_all[of rows "\<lambda>v. du_id v = d_id d \<and> du_title v = d_title d"] by blast
  show ?thesis
    using w(1,2) st v
    by (simp add: handle_getDebateAsUser_def parse_int_param_def bnd_run getDebateAsUser_def
        client_query_run some_or_404_def)
qed

text \<open>The page of a draft finds the draft, with its debate.\<close>

lemma draft_page_opens:
  assumes w: "txn w = NoTxn" "faults w = []" "schema_ok (pg w)"
    and n: "int4 (a_debate_id a)" "int4 (a_id a)"
    and a: "a \<in> set (arguments (wtabs w))" "a_created_by a = uc_id user"
    and d: "debate_of (wtabs w) (a_debate_id a) = Some d" "d_title d \<noteq> []"
  shows "\<exists>v view w'. handle_getDraft user (int_to_string (a_debate_id a)) (int_to_string (a_id a)) (Some ''true'') w =
      (Inr (v, Some view), w') \<and> ag_argument_id v = Some (a_id a) \<and> ag_title v = Some (a_title a)"
proof -
  let ?ts = "wtabs w"
  note tok = schema_tables_ok[OF w(3)]
  define data where "data = \<lparr>gd_user = user, gd_debateId = JNum (a_debate_id a), gd_argumentId = JNum (a_id a)\<rparr>"
  obtain rows where st: "select_draft data (pg w) = (Inr rows, pg w)"
    and rows: "rows = [argument_columns True b d u.
         b \<leftarrow> arguments ?ts,
         d \<leftarrow> filter (\<lambda>d. d_id d = a_debate_id b) (debates ?ts),
         u \<leftarrow> filter (\<lambda>u. u_id u = a_created_by b) (users ?ts),
         Some (a_debate_id b) = Some (a_debate_id a) \<and> Some (a_id b) = Some (a_id a)
           \<and> a_created_by b = uc_id user]"
    using n by (simp add: select_draft_def with_param_def select_stmt_def data_def int_param.simps(3))
  obtain u where u: "u \<in> set (users ?ts)" "u_id u = a_created_by a"
    using argument_parents(2)[OF tok a(1)] tables_ok_lookup(2)[OF tok] by blast
  have d': "d \<in> set (debates ?ts)" "d_id d = a_debate_id a"
    using d(1) tables_ok_lookup(3)[OF tok] by blast+
  have "\<exists>v. v \<in> set rows"
    unfolding rows set_concat set_map image_image
    by (intro exI UN_I[OF a(1)] UN_I[of d] UN_I[of u]) (use a(2) d' u in simp_all)
  then have "rows \<noteq> []"
    by auto
  moreover have "ag_argument_id v = Some (a_id a) \<and> ag_title v = Some (a_title a)" if "v \<in> set rows" for v
  proof -
    have "b = a" if "b \<in> set (arguments ?ts)" "a_id b = a_id a" for b
      using distinct_key_eq[of a_id "arguments ?ts" b a] that a(1) tok by (simp add: tables_ok_def)
    note same = this
    show ?thesis
      using that unfolding rows by (auto simp: argument_columns_def split: if_splits dest!: same)
  qed
  ultimately obtain v where v: "first_row rows = Some v" "ag_argument_id v = Some (a_id a) \<and> ag_title v = Some (a_title a)"
    using first_row_all[of rows "\<lambda>v. ag_argument_id v = Some (a_id a) \<and> ag_title v = Some (a_title a)"] by blast
  have get: "getDraft data w = (Inr (Some v), w\<lparr>lost := False\<rparr>)"
    using w(1,2) st v by (simp add: getDraft_def client_query_run)
  let ?w = "w\<lparr>lost := False\<rparr>"
  have deb: "getDebateArguments (a_debate_id a) ?w = (Inr (map (argument_json False ?ts)
      (filter (\<lambda>b. a_debate_id b = a_debate_id a \<and> is_public ?ts b) (arguments ?ts))
      @ [debate_title_row (a_debate_id a) ?ts]), ?w)"
    using getDebateArguments_run[of ?w "a_debate_id a"] w n(1) by simp
  have view: "getDebates (map (argument_json False ?ts)
      (filter (\<lambda>b. a_debate_id b = a_debate_id a \<and> is_public ?ts b) (arguments ?ts))
      @ [debate_title_row (a_debate_id a) ?ts]) = Inr (public_view ?ts d)"
    using getDebates_rows[OF w(3), of "a_debate_id a"] d by (simp add: debate_or_404_def)
  show ?thesis
    using get deb view v(2)
    by (simp add: handle_getDraft_def debate_draft_pipe_def data_def bnd_run fork_join_def
        debate_arguments_of_def map_svc_def)
qed

text \<open>What the API lists: the arguments and the debates of the user, with their tickets.\<close>

definition listed_argument :: "tables \<Rightarrow> user_cookie \<Rightarrow> activity_argument \<Rightarrow> argument_row \<Rightarrow> bool" where
  "listed_argument ts user item a \<longleftrightarrow> a \<in> set (arguments ts) \<and> a_created_by a = uc_id user \<and>
     aa_argument_id item = a_id a \<and> aa_argument_title item = a_title a \<and> aa_is_draft item = a_is_draft a \<and>
     aa_debate_id item = a_debate_id a \<and>
     (\<exists>d \<in> set (debates ts). d_id d = a_debate_id a \<and> aa_debate_title item = d_title d) \<and>
     (\<forall>i. a_ticket_id a = Some i \<and> i \<in> set (ticket_ids ts) \<longrightarrow> aa_ticket_id item = Some i) \<and>
     (\<forall>i. aa_ticket_id item = Some i \<longrightarrow> a_ticket_id a = Some i)"

definition listed_debate :: "tables \<Rightarrow> user_cookie \<Rightarrow> activity_debate \<Rightarrow> debate_row \<Rightarrow> ticket_row \<Rightarrow> bool" where
  "listed_debate ts user item d t \<longleftrightarrow> d \<in> set (debates ts) \<and> t \<in> set (tickets ts) \<and> t_id t = d_ticket_id d \<and>
     t_created_by t = uc_id user \<and> (\<exists>g. debates_tags ts (d_id d) = Some g) \<and>
     ad_ticket_id item = t_id t \<and> ad_debate_id item = d_id d \<and> ad_debate_title item = d_title d"

lemma in_newest_first [simp]: "set (newest_first f xs) = set xs"
  by (simp add: newest_first_def)

lemma left_join_ticket_in:
  assumes "t \<in> set (left_join_ticket ts (Some i))"
  shows "map_option t_id t = (if i \<in> set (ticket_ids ts) then Some i else None)"
proof (cases "filter (\<lambda>t. Some (t_id t) = Some i) (tickets ts)")
  case Nil
  then have "i \<notin> set (ticket_ids ts)"
    by (auto simp: filter_empty_conv ticket_ids_def)
  then show ?thesis
    using assms Nil by (simp add: left_join_ticket_def)
next
  case (Cons x xs)
  have *: "set (x # xs) = {t \<in> set (tickets ts). t_id t = i}"
    unfolding Cons[symmetric] by auto
  have "t \<in> Some ` set (x # xs)"
    using assms Cons by (simp add: left_join_ticket_def)
  then show ?thesis
    using * by (auto simp: ticket_ids_def)
qed

lemma left_join_ticket_none: "left_join_ticket ts None = [None]"
  by (simp add: left_join_ticket_def)

lemma listed_arguments:
  assumes "select_activity_arguments user (pg w) = (Inr rows, d)" "item \<in> set rows"
  shows "\<exists>a. listed_argument (wtabs w) user item a"
proof -
  obtain a t d where a: "a \<in> set (arguments (wtabs w))" "t \<in> set (left_join_ticket (wtabs w) (a_ticket_id a))"
    "d \<in> set (debates (wtabs w))" "d_id d = a_debate_id a" "aa_debate_title item = d_title d"
    "a_created_by a = uc_id user" "aa_argument_id item = a_id a" "aa_argument_title item = a_title a"
    "aa_is_draft item = a_is_draft a" "aa_debate_id item = a_debate_id a" "aa_ticket_id item = map_option t_id t"
    using assms by (auto simp: select_activity_arguments_def select_stmt_def split: if_splits)
  have "listed_argument (wtabs w) user item a"
  proof (cases "a_ticket_id a")
    case None
    then show ?thesis
      using a by (auto simp: listed_argument_def left_join_ticket_none)
  next
    case (Some i)
    then show ?thesis
      using a left_join_ticket_in[of t "wtabs w" i] by (auto simp: listed_argument_def)
  qed
  then show ?thesis ..
qed

lemma in_optional: "g \<in> set (case x of None \<Rightarrow> [] | Some g \<Rightarrow> [g]) \<longleftrightarrow> x = Some g"
  by (auto split: option.split)

lemma listed_debates:
  assumes "select_activity_debates user (pg w) = (Inr rows, d)" "item \<in> set rows"
  shows "\<exists>d t. listed_debate (wtabs w) user item d t"
proof -
  obtain d t g where "d \<in> set (debates (wtabs w))" "t \<in> set (tickets (wtabs w))" "t_id t = d_ticket_id d"
    "t_created_by t = uc_id user" "debates_tags (wtabs w) (d_id d) = Some g"
    "ad_ticket_id item = t_id t" "ad_debate_id item = d_id d" "ad_debate_title item = d_title d"
    using assms
    by (auto simp: select_activity_debates_def select_stmt_def in_optional
        eq_commute[of "Some g" "debates_tags ts i" for g ts i] split: if_splits)
  then have "listed_debate (wtabs w) user item d t"
    by (simp add: listed_debate_def)
  then show ?thesis
    by blast
qed

lemma user_activity_run:
  assumes "txn w = NoTxn" "faults w = []"
  shows "\<exists>args ds. select_activity_arguments user (pg w) = (Inr args, pg w) \<and>
    select_activity_debates user (pg w) = (Inr ds, pg w) \<and>
    handle_getUserActivity user w =
      (Inr (map ActivityArgument args @ map (\<lambda>d. ActivityDebate d (pair_tags (ad_tags d) (ad_tags_ids d))) ds),
       w\<lparr>lost := False\<rparr>)"
proof -
  obtain args ds where "select_activity_arguments user (pg w) = (Inr args, pg w)"
    "select_activity_debates user (pg w) = (Inr ds, pg w)"
    by (simp add: select_activity_arguments_def select_activity_debates_def select_stmt_def)
  then show ?thesis
    using assms by (simp add: handle_getUserActivity_def map_svc_def bnd_run fork_join_def
        getActivityArguments_def getActivityDebates_def client_query_run)
qed

text \<open>What it means that a card leads to its item: the page it goes to is answered with it.\<close>

definition argument_opens :: "user_cookie \<Rightarrow> world \<Rightarrow> activity_argument \<Rightarrow> bool" where
  "argument_opens user w a \<longleftrightarrow>
     (if aa_is_draft a then
        onArgumentClick a = ''/debates/'' @ int_to_string (aa_debate_id a) @ ''/new-argument?draftId=''
          @ int_to_string (aa_argument_id a) \<and>
        (aa_debate_title a \<noteq> [] \<longrightarrow>
          (\<exists>v view w'. handle_getDraft user (int_to_string (aa_debate_id a)) (int_to_string (aa_argument_id a))
              (Some ''true'') w = (Inr (v, Some view), w') \<and>
            ag_argument_id v = Some (aa_argument_id a) \<and> ag_title v = Some (aa_argument_title a)))
      else (\<exists>i v w'. onArgumentClick a = ''/review/argument/'' @ int_to_string i \<and>
             handle_getArgumentAsUser user (int_to_string i) w = (Inr v, w') \<and>
             au_argument_id v = aa_argument_id a \<and> au_argument_title v = aa_argument_title a))"

definition debate_opens :: "user_cookie \<Rightarrow> world \<Rightarrow> activity_debate \<Rightarrow> bool" where
  "debate_opens user w d \<longleftrightarrow>
     onDebateClick d = ''/review/debate/'' @ int_to_string (ad_ticket_id d) \<and>
     (\<exists>v tags w'. handle_getDebateAsUser user (int_to_string (ad_ticket_id d)) w = (Inr (v, tags), w') \<and>
        du_id v = ad_debate_id d \<and> du_title v = ad_debate_title d)"

definition item_opens :: "user_cookie \<Rightarrow> world \<Rightarrow> user_activity \<Rightarrow> bool" where
  "item_opens user w item =
     (case item of ActivityArgument a \<Rightarrow> argument_opens user w a | ActivityDebate d _ \<Rightarrow> debate_opens user w d)"

definition keys_int4 :: "tables \<Rightarrow> bool" where
  "keys_int4 ts \<longleftrightarrow> list_all (\<lambda>t. int4 (t_id t)) (tickets ts) \<and> list_all (\<lambda>d. int4 (d_id d)) (debates ts) \<and>
     list_all (\<lambda>a. int4 (a_id a)) (arguments ts)"

lemma listed_argument_opens:
  assumes w: "txn w = NoTxn" "faults w = []" "schema_ok (pg w)" "app_ok (wtabs w)" "keys_int4 (wtabs w)"
    and item: "listed_argument (wtabs w) user item a"
  shows "argument_opens user w item"
proof -
  have a: "a \<in> set (arguments (wtabs w))" "a_created_by a = uc_id user"
    and fields: "aa_argument_id item = a_id a" "aa_argument_title item = a_title a"
      "aa_is_draft item = a_is_draft a" "aa_debate_id item = a_debate_id a"
    and tick: "\<And>i. a_ticket_id a = Some i \<Longrightarrow> i \<in> set (ticket_ids (wtabs w)) \<Longrightarrow> aa_ticket_id item = Some i"
    using item unfolding listed_argument_def by blast+
  obtain d where d: "d \<in> set (debates (wtabs w))" "d_id d = a_debate_id a" "aa_debate_title item = d_title d"
    using item unfolding listed_argument_def by blast
  show ?thesis
  proof (cases "a_is_draft a")
    case True
    have of: "debate_of (wtabs w) (a_debate_id a) = Some d"
      using d(1,2) tables_ok_lookup(3)[OF schema_tables_ok[OF w(3)]] by blast
    have ids: "int4 (d_id d)" "int4 (a_id a)"
      using w(5) d(1) a(1) by (simp_all add: keys_int4_def list_all_iff)
    show ?thesis
      using draft_page_opens[OF w(1-3) ids(1)[unfolded d(2)] ids(2) a of] True d(3)
      unfolding argument_opens_def onArgumentClick_def fields by (simp only: if_True not_True_eq_False if_False) simp
  next
    case False
    obtain i t where i: "a_ticket_id a = Some i" "t \<in> set (tickets (wtabs w))" "t_id t = i"
      using argument_ticket[OF w(4) a(1) False] by blast
    have "int4 (t_id t)" "t_id t \<in> set (ticket_ids (wtabs w))"
      using w(5) i(2) by (simp_all add: keys_int4_def list_all_iff ticket_ids_def)
    then have i': "int4 i" "aa_ticket_id item = Some i"
      using tick[OF i(1)] i(3) by simp_all
    show ?thesis
      using argument_page_opens[OF w(1-4) i'(1) a(1) False i(1) a(2)] False i'(2)
      unfolding argument_opens_def onArgumentClick_def fields template_ticket_def
      by (simp only: if_False not_False_eq_True if_True option.case) blast
  qed
qed

lemma listed_debate_opens:
  assumes w: "txn w = NoTxn" "faults w = []" "app_ok (wtabs w)" "keys_int4 (wtabs w)"
    and item: "listed_debate (wtabs w) user item d t"
  shows "debate_opens user w item"
proof -
  have d: "d \<in> set (debates (wtabs w))" "t \<in> set (tickets (wtabs w))" "t_id t = d_ticket_id d"
    "t_created_by t = uc_id user" "ad_ticket_id item = t_id t" "ad_debate_id item = d_id d"
    "ad_debate_title item = d_title d"
    using item by (simp_all add: listed_debate_def)
  obtain g where g: "debates_tags (wtabs w) (d_id d) = Some g"
    using item unfolding listed_debate_def by blast
  have "int4 (t_id t)"
    using w(4) d(2) unfolding keys_int4_def list_all_iff by blast
  then show ?thesis
    using debate_page_opens[OF w(1-3) _ d(1) d(3)[symmetric] g d(2) refl d(4)] d(5-7)
    by (simp add: debate_opens_def onDebateClick_def)
qed



end
