(* ===== verification/Process_Lifecycle.thy ===== *)
theory Process_Lifecycle
  imports Svc
begin

text \<open>
  How the processes run and stop: promises with a time limit
  (\<open>packages/telemetry/src/timeout.ts\<close>), the telemetry SDK that is started once
  (\<open>init.ts\<close>, \<open>enabled.ts\<close>, \<open>sampler.ts\<close>, \<open>queue-metrics.ts\<close>), the shutdown on a signal
  (\<open>shutdown.ts\<close> of telemetry, of the API and of the worker) and the probes
  (\<open>apps/api/src/health/health.controller.ts\<close>). The SDK, the clients that are closed and the
  probes are parameters: promises that settle after some time, or never.
\<close>

section \<open>Promises in time\<close>

text \<open>
  A promise seen from the moment it is awaited: it settles after some milliseconds, rejected or
  fulfilled, or it never settles. A promise that settles in the very millisecond the timer fires
  counts as late.
\<close>

datatype 'a promise = Settles nat "js_error + 'a" | Pending

definition fulfilled_before :: "'a promise \<Rightarrow> nat \<Rightarrow> bool" where
  "fulfilled_before p ms = (case p of Settles t (Inr _) \<Rightarrow> t < ms | _ \<Rightarrow> False)"

definition withTimeout :: "'a promise \<Rightarrow> nat \<Rightarrow> 'a promise" where
  "withTimeout p ms =
     (let timer = Settles ms (Inl (PlainError (''timed out after '' @ nat_to_string ms @ ''ms'')))
      in case p of
           Settles t r \<Rightarrow> if t < ms then Settles t r else timer
         | Pending \<Rightarrow> timer)"

lemma withTimeout_settles:
  "\<exists>t r. withTimeout p ms = Settles t r \<and> t \<le> ms \<and> ((\<exists>a. r = Inr a) \<longleftrightarrow> fulfilled_before p ms)"
  by (auto simp: withTimeout_def fulfilled_before_def Let_def split: promise.split sum.split)

text \<open>\<open>err instanceof Error ? err.message : String(err)\<close>\<close>

fun error_text :: "(pg_error \<Rightarrow> string) \<Rightarrow> js_error \<Rightarrow> string" where
  "error_text db (HttpException _ m) = m"
| "error_text db (PlainError m) = m"
| "error_text db (WsException m) = m"
| "error_text db (DbError e) = db e"
| "error_text db TypeError = ''TypeError''"

section \<open>Telemetry\<close>

type_synonym env_vars = "string \<rightharpoonup> string"

definition isTelemetryEnabledByEnv :: "env_vars \<Rightarrow> bool" where
  "isTelemetryEnabledByEnv e =
     (if e ''JEST_WORKER_ID'' \<noteq> None \<or> e ''NODE_ENV'' = Some ''test'' then False
      else let disabled = map_option (lower \<circ> trim_both) (e ''OTEL_SDK_DISABLED'')
           in if disabled = Some ''true'' then False
              else if disabled = Some ''false'' then True
              else e ''NODE_ENV'' = Some ''production'')"

text \<open>The module's variables: whether it was started, whether there is an SDK, and the promise
  of its shutdown. The identity of the SDK does not matter, its options are what it was built
  with.\<close>

record sdk_options =
  so_serviceName :: string
  so_version :: string
  so_environment :: string
  so_ignoreIncomingPaths :: "string list"
  so_logLevel :: nat

record telemetry =
  tm_sdk :: "sdk_options option"
  tm_started :: bool
  tm_shutdown :: "unit promise option"
  tm_env :: env_vars

text \<open>The levels of OpenTelemetry's enumeration, whose keys are the names.\<close>

definition diag_levels :: "(string \<times> nat) list" where
  "diag_levels = [(''NONE'', 0), (''ERROR'', 30), (''WARN'', 50), (''INFO'', 60), (''DEBUG'', 70),
     (''VERBOSE'', 80), (''ALL'', 9999)]"

definition upper_char :: "char \<Rightarrow> char" where
  "upper_char c = (let n = (of_char c :: nat) in if 97 \<le> n \<and> n \<le> 122 then char_of (n - 32) else c)"

definition resolveDiagLogLevel :: "env_vars \<Rightarrow> nat" where
  "resolveDiagLogLevel e =
     (case map_option (map upper_char \<circ> trim_both) (e ''OTEL_LOG_LEVEL'') of
        None \<Rightarrow> 30
      | Some level \<Rightarrow> if level = [] then 30
                      else (case map_of diag_levels level of Some value \<Rightarrow> value | None \<Rightarrow> 30))"

definition or_default :: "string option \<Rightarrow> string \<Rightarrow> string" where
  "or_default v d = (case v of Some s \<Rightarrow> if s = [] then d else s | None \<Rightarrow> d)"

definition METRIC_EXPORT_INTERVAL_MS :: nat where
  "METRIC_EXPORT_INTERVAL_MS = 15000"

definition initTelemetry :: "string \<Rightarrow> string list \<Rightarrow> telemetry \<Rightarrow> telemetry" where
  "initTelemetry serviceName ignoreIncomingPaths s =
     (if tm_started s then s
      else let s' = s\<lparr>tm_started := True\<rparr>
           in if \<not> isTelemetryEnabledByEnv (tm_env s') then s'
              else let e = (if tm_env s' ''OTEL_METRIC_EXPORT_INTERVAL'' = None
                            then (tm_env s')(''OTEL_METRIC_EXPORT_INTERVAL'' \<mapsto>
                                    nat_to_string METRIC_EXPORT_INTERVAL_MS)
                            else tm_env s')
                   in s'\<lparr>tm_env := e,
                         tm_sdk := Some \<lparr>so_serviceName = serviceName,
                                         so_version = or_default (e ''SERVICE_VERSION'') ''unknown'',
                                         so_environment = or_default (e ''NODE_ENV'') ''development'',
                                         so_ignoreIncomingPaths = ignoreIncomingPaths,
                                         so_logLevel = resolveDiagLogLevel e\<rparr>\<rparr>)"

definition isTelemetryEnabled :: "telemetry \<Rightarrow> bool" where
  "isTelemetryEnabled s = (tm_sdk s \<noteq> None)"

text \<open>The queue library gets a telemetry object only when there is an SDK.\<close>

definition createBullMqTelemetry :: "telemetry \<Rightarrow> (string \<times> string \<times> bool) option" where
  "createBullMqTelemetry s =
     (if \<not> isTelemetryEnabled s then None else Some (''bullmq'', ''bullmq'', True))"

text \<open>The hook of the HTTP instrumentation; \<open>url\<close> without its query string.\<close>

definition ignoreIncomingRequestHook :: "string list \<Rightarrow> string option \<Rightarrow> bool" where
  "ignoreIncomingRequestHook ignoreIncomingPaths url =
     (hd (split_on (CHR ''?'') (case url of Some u \<Rightarrow> u | None \<Rightarrow> [])) \<in> set ignoreIncomingPaths)"

definition SHUTDOWN_TIMEOUT_MS :: nat where
  "SHUTDOWN_TIMEOUT_MS = 5000"

text \<open>The handler of the rejection only writes to the diagnostics log.\<close>

definition caught_promise :: "unit promise \<Rightarrow> unit promise" where
  "caught_promise p = (case p of Settles t (Inl _) \<Rightarrow> Settles t (Inr ()) | _ \<Rightarrow> p)"

definition shutdownTelemetry :: "unit promise \<Rightarrow> telemetry \<Rightarrow> unit promise \<times> telemetry" where
  "shutdownTelemetry sdk_shutdown s =
     (if tm_sdk s = None then (Settles 0 (Inr ()), s)
      else (case tm_shutdown s of
              Some p \<Rightarrow> (p, s)
            | None \<Rightarrow> (let p = caught_promise (withTimeout sdk_shutdown SHUTDOWN_TIMEOUT_MS)
                       in (p, s\<lparr>tm_shutdown := Some p\<rparr>))))"

subsection \<open>The sampler\<close>

definition IDLE_WORKER_OPERATIONS :: "string list" where
  "IDLE_WORKER_OPERATIONS = [''getNextJob'', ''startStalledCheckTimer'', ''moveStalledJobsToWait'']"

definition isIdleWorkerOperation :: "string \<Rightarrow> bool" where
  "isIdleWorkerOperation spanName =
     (hd (split_on (CHR '' '') spanName) \<in> set IDLE_WORKER_OPERATIONS)"

datatype sampling = NOT_RECORD | RECORD | RECORD_AND_SAMPLED

definition shouldSample :: "('ctx \<Rightarrow> string \<Rightarrow> sampling) \<Rightarrow> ('ctx \<Rightarrow> 'sp option) \<Rightarrow> 'ctx \<Rightarrow> string \<Rightarrow> sampling" where
  "shouldSample delegate getSpanContext ctx spanName =
     (let isRoot = (getSpanContext ctx = None)
      in if isRoot \<and> isIdleWorkerOperation spanName then NOT_RECORD else delegate ctx spanName)"

subsection \<open>The depth of the queues\<close>

definition DEPTH_STATES :: "string list" where
  "DEPTH_STATES = [''waiting'', ''prioritized'', ''delayed'', ''active'', ''failed'']"

text \<open>What one collection observes of the queues, each with the counts it was asked for.\<close>

definition queue_depths :: "(string \<times> (string \<rightharpoonup> nat)) list \<Rightarrow> (nat \<times> string \<times> string) list" where
  "queue_depths queues =
     concat (map (\<lambda>(name, counts).
       map (\<lambda>state. (case counts state of Some n \<Rightarrow> n | None \<Rightarrow> 0, name, state)) DEPTH_STATES) queues)"

section \<open>Shutdown\<close>

definition DEFAULT_TIMEOUT_MS :: nat where
  "DEFAULT_TIMEOUT_MS = 15000"

text \<open>The exit code's promise, what is logged as an error, and the telemetry module after it.\<close>

definition runShutdown ::
  "(pg_error \<Rightarrow> string) \<Rightarrow> unit promise \<Rightarrow> nat option \<Rightarrow> unit promise \<Rightarrow> telemetry \<Rightarrow>
   nat promise \<times> string list \<times> telemetry" where
  "runShutdown db close timeoutMs sdk_shutdown s =
     (case withTimeout close (case timeoutMs of Some ms \<Rightarrow> ms | None \<Rightarrow> DEFAULT_TIMEOUT_MS) of
        Pending \<Rightarrow> (Pending, [], s)
      | Settles t r \<Rightarrow>
          (let (code, logged) = (case r of
                 Inr _ \<Rightarrow> (0, [])
               | Inl err \<Rightarrow> (1, [''Graceful shutdown failed: '' @ error_text db err]))
           in (case shutdownTelemetry sdk_shutdown s of
                 (Settles t' (Inr _), s') \<Rightarrow> (Settles (t + t') (Inr code), logged, s')
               | (Settles t' (Inl e), s') \<Rightarrow> (Settles (t + t') (Inl e), logged, s')
               | (Pending, s') \<Rightarrow> (Pending, logged, s'))))"

text \<open>
  The process and its signals. The listener of a signal runs once; a signal without a listener
  has its default effect and ends the process.
\<close>

datatype signal = SIGTERM | SIGINT

datatype process_end = Running | KilledBy signal | ExitsAfter nat nat | Exiting

record process_state =
  ps_listening :: "signal set"
  ps_started :: bool
  ps_end :: process_end
  ps_log :: "string list"
  ps_telemetry :: telemetry

definition signal_name :: "signal \<Rightarrow> string" where
  "signal_name g = (case g of SIGTERM \<Rightarrow> ''SIGTERM'' | SIGINT \<Rightarrow> ''SIGINT'')"

definition handleShutdownSignals :: "process_state \<Rightarrow> process_state" where
  "handleShutdownSignals s = s\<lparr>ps_listening := {SIGTERM, SIGINT}, ps_started := False\<rparr>"

definition on_signal ::
  "(pg_error \<Rightarrow> string) \<Rightarrow> unit promise \<Rightarrow> unit promise \<Rightarrow> signal \<Rightarrow> process_state \<Rightarrow> process_state" where
  "on_signal db close sdk_shutdown g s =
     (if g \<notin> ps_listening s then s\<lparr>ps_end := KilledBy g\<rparr>
      else let s1 = s\<lparr>ps_listening := ps_listening s - {g}\<rparr>
           in if ps_started s1 then s1
              else (case runShutdown db close None sdk_shutdown (ps_telemetry s1) of
                      (p, logged, tm) \<Rightarrow>
                        s1\<lparr>ps_started := True,
                           ps_log := ps_log s1 @ [''Received '' @ signal_name g @ '', shutting down''] @ logged,
                           ps_telemetry := tm,
                           ps_end := (case p of Settles t (Inr code) \<Rightarrow> ExitsAfter t code | _ \<Rightarrow> Exiting)\<rparr>))"

section \<open>Closing the API and the worker\<close>

text \<open>The steps of \<open>closeApp\<close> and \<open>closeWorker\<close> over the clients, which are parameters.\<close>

definition closeApp ::
  "('s, unit) svc \<Rightarrow> ('s, unit) svc \<Rightarrow> ('s, unit) svc \<Rightarrow> (('s \<Rightarrow> bool) \<times> ('s, unit) svc) list \<Rightarrow> ('s, unit) svc" where
  "closeApp drain app_close pool_end redis_clients =
     sq drain (sq app_close (sq pool_end
       (foldr (\<lambda>(isOpen, redis_close) rest.
           sq (bnd (gets isOpen) (\<lambda>b. if b then redis_close else ret ())) rest)
         redis_clients (ret ()))))"

definition closeWorker :: "('s, unit) svc \<Rightarrow> ('s, unit) svc \<Rightarrow> ('s, unit) svc \<Rightarrow> ('s, unit) svc" where
  "closeWorker app_close pool_end publisher_quit = sq app_close (sq pool_end publisher_quit)"

section \<open>The probes\<close>

datatype check_status = Up | Down

definition CHECK_TIMEOUT_MS :: nat where
  "CHECK_TIMEOUT_MS = 1000"

text \<open>One check, with the time it takes: the race of the probe and the timer.\<close>

definition check :: "'a promise \<Rightarrow> nat \<times> check_status" where
  "check probe =
     (case probe of
        Settles t r \<Rightarrow> if t < CHECK_TIMEOUT_MS
                        then (t, case r of Inr _ \<Rightarrow> Up | Inl _ \<Rightarrow> Down)
                        else (CHECK_TIMEOUT_MS, Down)
      | Pending \<Rightarrow> (CHECK_TIMEOUT_MS, Down))"

datatype ready_answer = ReadyOk check_status check_status | Unavailable check_status check_status

fun ready_status :: "ready_answer \<Rightarrow> nat" where
  "ready_status (ReadyOk _ _) = 200"
| "ready_status (Unavailable _ _) = 503"

text \<open>Both checks run at once, so the answer comes when the slower one is done.\<close>

definition ready :: "'a promise \<Rightarrow> 'b promise \<Rightarrow> nat \<times> ready_answer" where
  "ready select_1 ping =
     (case check select_1 of (t1, postgres) \<Rightarrow>
        (case check ping of (t2, redisSessions) \<Rightarrow>
           (max t1 t2,
            if postgres = Down \<or> redisSessions = Down then Unavailable postgres redisSessions
            else ReadyOk postgres redisSessions)))"

section \<open>What the lifecycle guarantees\<close>

lemma initTelemetry_once:
  "initTelemetry n ps (initTelemetry n' ps' s) = initTelemetry n' ps' s"
  by (simp add: initTelemetry_def Let_def)

lemma telemetry_off_under_test:
  assumes "tm_sdk s = None" "tm_env s ''NODE_ENV'' = Some ''test''"
  shows "createBullMqTelemetry (initTelemetry n ps s) = None"
  using assms
  by (simp add: createBullMqTelemetry_def isTelemetryEnabled_def initTelemetry_def
      isTelemetryEnabledByEnv_def Let_def)

lemma split_on_first: "CHR '' '' \<notin> set w \<Longrightarrow> hd (split_on (CHR '' '') (w @ CHR '' '' # rest)) = w"
  by (simp add: split_on_append_sep)

lemma sampler_keeps_children:
  assumes "getSpanContext ctx \<noteq> None"
  shows "shouldSample delegate getSpanContext ctx spanName = delegate ctx spanName"
  using assms by (auto simp: shouldSample_def Let_def)

lemma sampler_drops_polling:
  assumes "getSpanContext ctx = None" "operation \<in> set IDLE_WORKER_OPERATIONS"
  shows "shouldSample delegate getSpanContext ctx (operation @ '' '' @ queueName) = NOT_RECORD"
proof -
  have "CHR '' '' \<notin> set operation"
    using assms(2) by (auto simp: IDLE_WORKER_OPERATIONS_def)
  then show ?thesis
    using assms by (simp add: shouldSample_def isIdleWorkerOperation_def split_on_first)
qed

lemma length_queue_depths: "length (queue_depths queues) = 5 * length queues"
  by (induction queues) (auto simp: queue_depths_def DEPTH_STATES_def)

text \<open>Neither check outlives its limit, and the API is ready exactly when both came back.\<close>

lemma check_cases:
  "fst (check p) \<le> 1000" "snd (check p) = (if fulfilled_before p 1000 then Up else Down)"
  by (auto simp: check_def fulfilled_before_def CHECK_TIMEOUT_MS_def split: promise.split sum.split)

lemma ready_answers:
  "fst (ready p q) \<le> 1000 \<and>
   ready_status (snd (ready p q)) =
     (if fulfilled_before p 1000 \<and> fulfilled_before q 1000 then 200 else 503)"
  using check_cases[of p] check_cases[of q]
  by (cases "check p"; cases "check q") (auto simp: ready_def)

text \<open>The flush of the telemetry always settles, and never rejects.\<close>

lemma shutdownTelemetry_settles:
  assumes "tm_shutdown s = None"
  shows "\<exists>t s'. shutdownTelemetry sdk_shutdown s = (Settles t (Inr ()), s') \<and> t \<le> SHUTDOWN_TIMEOUT_MS"
proof (cases "tm_sdk s")
  case None
  then show ?thesis
    by (simp add: shutdownTelemetry_def)
next
  case (Some options)
  obtain t r where p: "withTimeout sdk_shutdown SHUTDOWN_TIMEOUT_MS = Settles t r"
    "t \<le> SHUTDOWN_TIMEOUT_MS"
    using withTimeout_settles[of sdk_shutdown SHUTDOWN_TIMEOUT_MS] by (elim exE conjE)
  have "caught_promise (Settles t r) = Settles t (Inr ())"
    by (cases r) (simp_all add: caught_promise_def)
  then have "shutdownTelemetry sdk_shutdown s =
      (Settles t (Inr ()), s\<lparr>tm_shutdown := Some (Settles t (Inr ()))\<rparr>)"
    using Some assms p(1) by (simp add: shutdownTelemetry_def Let_def)
  then show ?thesis
    using p(2) by blast
qed

lemma runShutdown_exits:
  assumes "tm_shutdown s = None"
  shows "\<exists>t code logged s'. runShutdown db close None sdk_shutdown s = (Settles t (Inr code), logged, s') \<and>
    t \<le> 20000 \<and> (code = 0 \<longleftrightarrow> fulfilled_before close 15000) \<and> (code = 0 \<longleftrightarrow> logged = []) \<and> code \<le> 1"
proof -
  obtain t r where p: "withTimeout close DEFAULT_TIMEOUT_MS = Settles t r" "t \<le> 15000"
    "(\<exists>a. r = Inr a) \<longleftrightarrow> fulfilled_before close 15000"
    using withTimeout_settles[of close DEFAULT_TIMEOUT_MS] by (auto simp: DEFAULT_TIMEOUT_MS_def)
  obtain t' s' where q: "shutdownTelemetry sdk_shutdown s = (Settles t' (Inr ()), s')" "t' \<le> 5000"
    using shutdownTelemetry_settles[OF assms, of sdk_shutdown] by (auto simp: SHUTDOWN_TIMEOUT_MS_def)
  show ?thesis
    using p q by (cases r) (auto simp: runShutdown_def)
qed

text \<open>C19: Whatever the clients and the telemetry SDK do when they are asked to close, also when
  they never answer, the process exits within 20 seconds of its first signal, with code 0 exactly
  when everything was closed within 15 seconds. The other signal changes nothing then; the same
  signal once more ends the process at once, since its listener is used up.\<close>

theorem shutdown_on_signal:
  assumes "tm_shutdown (ps_telemetry s) = None"
  shows "\<exists>t code. ps_end (on_signal db close sdk_shutdown g (handleShutdownSignals s)) = ExitsAfter t code \<and>
    t \<le> 20000 \<and> (code = 0 \<longleftrightarrow> fulfilled_before close 15000) \<and>
    (\<forall>close' sdk' h. ps_end (on_signal db close' sdk' h (on_signal db close sdk_shutdown g (handleShutdownSignals s))) =
       (if h = g then KilledBy g else ExitsAfter t code))"
proof -
  obtain t code logged s' where
    run: "runShutdown db close None sdk_shutdown (ps_telemetry s) = (Settles t (Inr code), logged, s')"
    and facts: "t \<le> 20000" "code = 0 \<longleftrightarrow> fulfilled_before close 15000"
    using runShutdown_exits[OF assms] by blast
  have "h \<in> {SIGTERM, SIGINT}" for h
    by (cases h) simp_all
  then show ?thesis
    using run facts by (simp add: on_signal_def handleShutdownSignals_def Let_def)
qed

text \<open>A close that hangs on a busy pool, and an SDK that never flushes.\<close>

theorem shutdown_on_signal_witness:
  "\<exists>t code. ps_end (on_signal (\<lambda>_. []) Pending Pending SIGTERM (handleShutdownSignals
       \<lparr>ps_listening = {}, ps_started = False, ps_end = Running, ps_log = [],
        ps_telemetry = \<lparr>tm_sdk = None, tm_started = True, tm_shutdown = None, tm_env = Map.empty\<rparr>\<rparr>)) =
     ExitsAfter t code \<and> t \<le> 20000 \<and> code \<noteq> 0"
  using shutdown_on_signal[of "\<lparr>ps_listening = {}, ps_started = False, ps_end = Running, ps_log = [],
        ps_telemetry = \<lparr>tm_sdk = None, tm_started = True, tm_shutdown = None, tm_env = Map.empty\<rparr>\<rparr>"
      "\<lambda>_. []" Pending Pending SIGTERM]
  by (auto simp: fulfilled_before_def)

text \<open>
  The pool is ended only after \<open>app.close()\<close> has returned, so nothing it waits for runs into a
  closed pool: whatever holds once the application is closed may be assumed by the step.
\<close>

lemma closeApp_order:
  assumes "\<And>s s'. app_close s = (Inr (), s') \<Longrightarrow> P s'"
  shows "closeApp drain app_close pool_end cs =
    closeApp drain app_close (\<lambda>s. if P s then pool_end s else (Inl TypeError, s)) cs"
proof
  fix s
  obtain r1 s1 where d: "drain s = (r1, s1)"
    by (cases "drain s")
  obtain r2 s2 where a: "app_close s1 = (r2, s2)"
    by (cases "app_close s1")
  show "closeApp drain app_close pool_end cs s =
    closeApp drain app_close (\<lambda>s. if P s then pool_end s else (Inl TypeError, s)) cs s"
    using assms[of s1 s2] d a by (cases r1; cases r2) (simp_all add: closeApp_def sq_run)
qed

lemma closeApp_failure:
  assumes "drain s = (Inr (), s1)" "app_close s1 = (Inl e, s2)"
  shows "closeApp drain app_close pool_end cs s = (Inl e, s2)"
  using assms by (simp add: closeApp_def)

lemma closeWorker_order:
  assumes "app_close s = (Inr (), s1)" "pool_end s1 = (Inl e, s2)"
  shows "closeWorker app_close pool_end publisher_quit s = (Inl e, s2)"
  using assms by (simp add: closeWorker_def)

end
