(* ===== verification/Connection_Drain.thy ===== *)
theory Connection_Drain
  imports Process_Lifecycle
begin

text \<open>
  Draining the API's connections at shutdown (\<open>apps/api/src/connection-drain.ts\<close>), as a step
  relation: the listeners of the code run on the events of Node's HTTP server, whose connections
  and responses are modelled as Node documents them. \<open>server.close()\<close> ends the connections that
  are idle at that moment; the code has to see to it that no other one is left idle afterwards.
\<close>

section \<open>Connections, responses and the listeners' state\<close>

datatype connection = Unconnected | Reading | Responding nat | Idle | Closed

record response =
  rs_headersSent :: bool
  rs_connectionClose :: bool
  rs_onFinish :: bool

record server =
  sv_conns :: "nat \<Rightarrow> connection"
  sv_responses :: "nat \<Rightarrow> response option"
  sv_inFlight :: "nat set"
  sv_draining :: bool
  sv_closing :: bool
  sv_immediates :: nat

definition trackConnectionsForDrain :: "server" where
  "trackConnectionsForDrain =
     \<lparr>sv_conns = (\<lambda>_. Unconnected), sv_responses = (\<lambda>_. None), sv_inFlight = {},
      sv_draining = False, sv_closing = False, sv_immediates = 0\<rparr>"

definition closeAfterResponse :: "response \<Rightarrow> response" where
  "closeAfterResponse res =
     (if \<not> rs_headersSent res then res\<lparr>rs_connectionClose := True\<rparr>
      else res\<lparr>rs_onFinish := True\<rparr>)"

definition new_response :: response where
  "new_response = \<lparr>rs_headersSent = False, rs_connectionClose = False, rs_onFinish = False\<rparr>"

text \<open>The listener of the server's \<open>request\<close> event, for a response \<open>r\<close>.\<close>

definition on_request :: "nat \<Rightarrow> server \<Rightarrow> server" where
  "on_request r s =
     s\<lparr>sv_inFlight := insert r (sv_inFlight s),
       sv_responses := (sv_responses s)(r \<mapsto>
         (if sv_draining s then closeAfterResponse new_response else new_response))\<rparr>"

text \<open>The listener of a response's \<open>close\<close> event.\<close>

definition on_response_close :: "nat \<Rightarrow> server \<Rightarrow> server" where
  "on_response_close r s = s\<lparr>sv_inFlight := sv_inFlight s - {r}\<rparr>"

text \<open>\<open>startDrainingConnections\<close>: the function the map holds for the server.\<close>

definition startDrainingConnections :: "server \<Rightarrow> server" where
  "startDrainingConnections s =
     s\<lparr>sv_draining := True,
       sv_responses := (\<lambda>r. if r \<in> sv_inFlight s then map_option closeAfterResponse (sv_responses s r)
                            else sv_responses s r)\<rparr>"

section \<open>The server's own steps\<close>

definition closeIdleConnections :: "server \<Rightarrow> server" where
  "closeIdleConnections s = s\<lparr>sv_conns := (\<lambda>c. if sv_conns s c = Idle then Closed else sv_conns s c)\<rparr>"

definition server_close :: "server \<Rightarrow> server" where
  "server_close s = closeIdleConnections (s\<lparr>sv_closing := True\<rparr>)"

text \<open>
  A response ends: the connection is closed when the response said so, and is idle otherwise;
  the listener of \<open>finish\<close> schedules the closing of idle connections.
\<close>

definition finish_response :: "nat \<Rightarrow> nat \<Rightarrow> response \<Rightarrow> server \<Rightarrow> server" where
  "finish_response c r res s =
     s\<lparr>sv_conns := (sv_conns s)(c := (if rs_connectionClose res then Closed else Idle)),
       sv_responses := (sv_responses s)(r \<mapsto> res\<lparr>rs_headersSent := True, rs_onFinish := False\<rparr>),
       sv_immediates := sv_immediates s + (if rs_onFinish res then 1 else 0)\<rparr>"

definition run_immediate :: "server \<Rightarrow> server" where
  "run_immediate s = closeIdleConnections (s\<lparr>sv_immediates := sv_immediates s - 1\<rparr>)"

inductive drain_step :: "server \<Rightarrow> server \<Rightarrow> bool" where
  accept: "sv_conns s c = Unconnected \<Longrightarrow> \<not> sv_closing s \<Longrightarrow>
    drain_step s (s\<lparr>sv_conns := (sv_conns s)(c := Reading)\<rparr>)"
| next_request: "sv_conns s c = Idle \<Longrightarrow>
    drain_step s (s\<lparr>sv_conns := (sv_conns s)(c := Reading)\<rparr>)"
| request: "sv_conns s c = Reading \<Longrightarrow> sv_responses s r = None \<Longrightarrow>
    drain_step s (on_request r (s\<lparr>sv_conns := (sv_conns s)(c := Responding r)\<rparr>))"
| write_head: "sv_conns s c = Responding r \<Longrightarrow> sv_responses s r = Some res \<Longrightarrow>
    drain_step s (s\<lparr>sv_responses := (sv_responses s)(r \<mapsto> res\<lparr>rs_headersSent := True\<rparr>)\<rparr>)"
| finish: "sv_conns s c = Responding r \<Longrightarrow> sv_responses s r = Some res \<Longrightarrow>
    drain_step s (finish_response c r res s)"
| response_closed: "r \<in> sv_inFlight s \<Longrightarrow> (\<And>c. sv_conns s c \<noteq> Responding r) \<Longrightarrow>
    drain_step s (on_response_close r s)"
| hang_up: "sv_conns s c \<noteq> Unconnected \<Longrightarrow>
    drain_step s (s\<lparr>sv_conns := (sv_conns s)(c := Closed)\<rparr>)"
| immediate: "0 < sv_immediates s \<Longrightarrow> drain_step s (run_immediate s)"
| drain: "drain_step s (startDrainingConnections s)"
| close: "sv_draining s \<Longrightarrow> drain_step s (server_close s)"

inductive serves :: "server \<Rightarrow> bool" where
  listening: "serves trackConnectionsForDrain"
| serving: "serves s \<Longrightarrow> drain_step s s' \<Longrightarrow> serves s'"

section \<open>No connection is left idle\<close>

text \<open>A response is settled when its connection will not stay idle after it.\<close>

definition ends_connection :: "response \<Rightarrow> bool" where
  "ends_connection res \<longleftrightarrow> rs_connectionClose res \<or> rs_onFinish res"

definition drain_inv :: "server \<Rightarrow> bool" where
  "drain_inv s \<longleftrightarrow>
     (\<forall>c r. sv_conns s c = Responding r \<longrightarrow>
        r \<in> sv_inFlight s \<and>
        (\<exists>res. sv_responses s r = Some res \<and> (sv_draining s \<longrightarrow> ends_connection res)) \<and>
        (\<forall>c'. sv_conns s c' = Responding r \<longrightarrow> c' = c)) \<and>
     (sv_closing s \<longrightarrow> sv_draining s) \<and>
     (\<forall>c. sv_closing s \<longrightarrow> sv_conns s c = Idle \<longrightarrow> 0 < sv_immediates s)"

lemma ends_connection_after [simp]: "ends_connection (closeAfterResponse res)"
  by (simp add: closeAfterResponse_def ends_connection_def)

lemma ends_connection_head [simp]: "ends_connection (res\<lparr>rs_headersSent := b\<rparr>) = ends_connection res"
  by (simp add: ends_connection_def)

lemma drain_inv_responding:
  assumes "drain_inv s" "sv_conns s c = Responding r"
  shows "r \<in> sv_inFlight s"
    and "\<exists>res. sv_responses s r = Some res \<and> (sv_draining s \<longrightarrow> ends_connection res)"
    and "sv_conns s c' = Responding r \<Longrightarrow> c' = c"
  using assms unfolding drain_inv_def by blast+

lemmas drain_ops = on_request_def on_response_close_def startDrainingConnections_def
  closeIdleConnections_def server_close_def finish_response_def run_immediate_def

lemma drain_inv_step:
  assumes "drain_step s s'" "drain_inv s"
  shows "drain_inv s'"
  using assms
proof cases
  case (request c r)
  have "sv_conns s c' \<noteq> Responding r" for c'
    using drain_inv_responding(2)[OF assms(2)] request(3) by fastforce
  then show ?thesis
    using assms(2) request unfolding drain_inv_def by (auto simp: drain_ops)
next
  case (finish c r res)
  have "ends_connection res" if "sv_draining s"
    using drain_inv_responding(2)[OF assms(2) finish(2)] finish(3) that by simp
  then show ?thesis
    using assms(2) finish unfolding drain_inv_def
    by (auto simp: drain_ops ends_connection_def)
next
  case (write_head c r res)
  have "ends_connection res" if "sv_draining s"
    using drain_inv_responding(2)[OF assms(2) write_head(2)] write_head(3) that by simp
  then show ?thesis
    using assms(2) write_head unfolding drain_inv_def by auto
next
  case drain
  have "\<exists>res. sv_responses s' r = Some res \<and> ends_connection res" if busy: "sv_conns s c = Responding r" for c r
  proof -
    obtain res where "sv_responses s r = Some res" "r \<in> sv_inFlight s"
      using drain_inv_responding(1,2)[OF assms(2) busy] by blast
    then show ?thesis
      using drain by (simp add: startDrainingConnections_def)
  qed
  moreover have "sv_conns s' = sv_conns s" "sv_inFlight s' = sv_inFlight s" "sv_draining s'"
    "sv_closing s' = sv_closing s" "sv_immediates s' = sv_immediates s"
    using drain by (simp_all add: startDrainingConnections_def)
  ultimately show ?thesis
    using assms(2) unfolding drain_inv_def by simp
qed (use assms(2) in \<open>auto simp: drain_inv_def drain_ops\<close>)

lemma serves_inv: "serves s \<Longrightarrow> drain_inv s"
proof (induction rule: serves.induct)
  case listening
  then show ?case
    by (simp add: drain_inv_def trackConnectionsForDrain_def)
next
  case (serving s s')
  then show ?case
    using drain_inv_step by blast
qed

text \<open>C20: Once the server is closing, no connection stays idle for its keep-alive time: a
  connection whose response ends is closed, by its header or by the listener's closing of idle
  connections, and when nothing is scheduled any more no connection is idle at all.\<close>

theorem drained_connections_close:
  assumes "serves s" "sv_closing s"
  shows "(sv_immediates s = 0 \<longrightarrow> (\<forall>c. sv_conns s c \<noteq> Idle)) \<and>
    (\<forall>c r. sv_conns s c = Responding r \<longrightarrow>
       (\<exists>res. sv_responses s r = Some res \<and>
          (let s' = finish_response c r res s
           in sv_conns s' c = Closed \<or>
              0 < sv_immediates s' \<and> sv_conns (run_immediate s') c = Closed)))"
proof -
  note inv = serves_inv[OF assms(1)]
  have idle: "sv_immediates s = 0 \<longrightarrow> (\<forall>c. sv_conns s c \<noteq> Idle)"
    using inv assms(2) unfolding drain_inv_def by fastforce
  have "\<exists>res. sv_responses s r = Some res \<and>
          (let s' = finish_response c r res s
           in sv_conns s' c = Closed \<or>
              0 < sv_immediates s' \<and> sv_conns (run_immediate s') c = Closed)"
    if busy: "sv_conns s c = Responding r" for c r
  proof -
    have "sv_draining s"
      using inv assms(2) unfolding drain_inv_def by simp
    then obtain res where "sv_responses s r = Some res" "ends_connection res"
      using drain_inv_responding(2)[OF inv busy] by blast
    then show ?thesis
      by (auto simp: Let_def drain_ops ends_connection_def)
  qed
  then show ?thesis
    using idle by blast
qed

text \<open>A response that has begun before the shutdown, and ends after the server was closed.\<close>

definition sample_server :: server where
  "sample_server =
     (let s1 = trackConnectionsForDrain\<lparr>sv_conns := (sv_conns trackConnectionsForDrain)(7 := Reading)\<rparr>;
          s2 = on_request 1 (s1\<lparr>sv_conns := (sv_conns s1)(7 := Responding 1)\<rparr>);
          s3 = s2\<lparr>sv_responses := (sv_responses s2)(1 \<mapsto> new_response\<lparr>rs_headersSent := True\<rparr>)\<rparr>
      in server_close (startDrainingConnections s3))"

lemma sample_serves: "serves sample_server"
proof -
  define s1 where "s1 = trackConnectionsForDrain\<lparr>sv_conns := (sv_conns trackConnectionsForDrain)(7 := Reading)\<rparr>"
  define s2 where "s2 = on_request 1 (s1\<lparr>sv_conns := (sv_conns s1)(7 := Responding 1)\<rparr>)"
  define s3 where "s3 = s2\<lparr>sv_responses := (sv_responses s2)(1 \<mapsto> new_response\<lparr>rs_headersSent := True\<rparr>)\<rparr>"
  have "serves s1"
    unfolding s1_def
    by (rule serving[OF listening accept]) (simp_all add: trackConnectionsForDrain_def)
  then have "serves s2"
    unfolding s2_def
    by (rule serving[OF _ request]) (simp_all add: s1_def trackConnectionsForDrain_def)
  then have "serves s3"
    unfolding s3_def
    by (rule serving[OF _ write_head[where c = 7]])
       (simp_all add: s2_def on_request_def s1_def trackConnectionsForDrain_def)
  then have "serves (startDrainingConnections s3)"
    by (rule serving[OF _ drain])
  then have "serves (server_close (startDrainingConnections s3))"
    by (rule serving[OF _ close]) (simp add: startDrainingConnections_def)
  then show ?thesis
    by (simp add: sample_server_def s1_def s2_def s3_def Let_def)
qed

theorem drained_connections_close_witness:
  "\<exists>res. sv_responses sample_server 1 = Some res \<and> \<not> rs_connectionClose res \<and>
     sv_conns (run_immediate (finish_response 7 1 res sample_server)) 7 = Closed"
proof -
  have busy: "sv_conns sample_server 7 = Responding 1" "sv_closing sample_server"
    by (simp_all add: sample_server_def trackConnectionsForDrain_def drain_ops Let_def)
  have "\<exists>res. sv_responses sample_server 1 = Some res \<and>
          (let s' = finish_response 7 1 res sample_server
           in sv_conns s' 7 = Closed \<or>
              0 < sv_immediates s' \<and> sv_conns (run_immediate s') 7 = Closed)"
    using drained_connections_close[OF sample_serves busy(2)] busy(1) by blast
  then show ?thesis
    by (auto simp: sample_server_def trackConnectionsForDrain_def drain_ops closeAfterResponse_def
        new_response_def Let_def)
qed

end
