(* ===== verification/Request_Logging.thy ===== *)
theory Request_Logging
  imports Process_Lifecycle
begin

text \<open>
  The identifier of a request and its log lines: which inbound identifier is reused
  (\<open>packages/logging/src/request-id.ts\<close>), the options of the HTTP logger
  (\<open>logger-params.ts\<close>, \<open>runtime.ts\<close>), and the context that carries the identifier to the jobs
  (\<open>apps/api/src/request-context.ts\<close>). The logger itself, the host's name and the generator of
  identifiers are parameters.
\<close>

section \<open>The identifier of a request\<close>

definition REQUEST_ID_HEADER :: string where
  "REQUEST_ID_HEADER = ''x-request-id''"

definition request_id_char :: "char \<Rightarrow> bool" where
  "request_id_char c =
     (let n = (of_char c :: nat)
      in 65 \<le> n \<and> n \<le> 90 \<or> 97 \<le> n \<and> n \<le> 122 \<or> 48 \<le> n \<and> n \<le> 57 \<or> c \<in> set ''._-'')"

definition VALID_REQUEST_ID :: "string \<Rightarrow> bool" where
  "VALID_REQUEST_ID s = (1 \<le> length s \<and> length s \<le> 64 \<and> list_all request_id_char s)"

text \<open>A header is absent, one string, or several.\<close>

datatype header = Absent | One string | Several "string list"

text \<open>The identifier, and the response's headers with it.\<close>

definition genReqId ::
  "string \<Rightarrow> (string \<Rightarrow> header) \<Rightarrow> (string \<rightharpoonup> string) \<Rightarrow> string \<times> (string \<rightharpoonup> string)" where
  "genReqId randomUUID req_headers res_headers =
     (let inbound = req_headers REQUEST_ID_HEADER;
          i = (case inbound of
                 One s \<Rightarrow> if VALID_REQUEST_ID s then s else randomUUID
               | _ \<Rightarrow> randomUUID)
      in (i, res_headers(REQUEST_ID_HEADER \<mapsto> i)))"

text \<open>Whatever the client sends, the identifier on every log line is short and harmless.\<close>

lemma genReqId_valid:
  assumes "VALID_REQUEST_ID randomUUID"
  shows "VALID_REQUEST_ID (fst (genReqId randomUUID req res)) \<and>
    snd (genReqId randomUUID req res) REQUEST_ID_HEADER = Some (fst (genReqId randomUUID req res))"
  using assms by (simp add: genReqId_def Let_def split: header.split)

lemma no_line_break:
  assumes "VALID_REQUEST_ID s"
  shows "CHR 0x0A \<notin> set s" "CHR ''\"'' \<notin> set s" "CHR '' '' \<notin> set s"
  using assms by (auto simp: VALID_REQUEST_ID_def list_all_iff request_id_char_def Let_def)

section \<open>The logger's options\<close>

definition isTestRuntime :: "env_vars \<Rightarrow> bool" where
  "isTestRuntime e = (e ''NODE_ENV'' = Some ''test'' \<or> e ''JEST_WORKER_ID'' \<noteq> None)"

definition shouldEmitRoutineLogs :: "env_vars \<Rightarrow> bool" where
  "shouldEmitRoutineLogs e = (\<not> isTestRuntime e)"

datatype log_level = ErrorLevel | WarnLevel | InfoLevel | SilentLevel

definition resolveLevel :: "env_vars \<Rightarrow> log_level" where
  "resolveLevel e = (if shouldEmitRoutineLogs e then InfoLevel else SilentLevel)"

definition customLogLevel :: "nat \<Rightarrow> js_error option \<Rightarrow> log_level" where
  "customLogLevel statusCode err =
     (if err \<noteq> None \<or> 500 \<le> statusCode then ErrorLevel
      else if 400 \<le> statusCode then WarnLevel
      else InfoLevel)"

definition REDACT_PATHS :: "string list" where
  "REDACT_PATHS =
     [''password'', ''*.password'', ''*.*.password'', ''email'', ''*.email'', ''*.*.email'',
      ''headers.cookie'', ''headers.authorization'', ''*.headers.cookie'',
      ''*.headers.authorization'', ''res.headers[\"set-cookie\"]'']"

record logger_options =
  lo_level :: log_level
  lo_service :: string
  lo_pid :: nat
  lo_hostname :: string
  lo_redact :: "string list"

definition createBaseLoggerOptions :: "nat \<Rightarrow> string \<Rightarrow> string \<Rightarrow> log_level \<Rightarrow> logger_options" where
  "createBaseLoggerOptions pid hostname serviceName level =
     \<lparr>lo_level = level, lo_service = serviceName, lo_pid = pid, lo_hostname = hostname,
      lo_redact = REDACT_PATHS\<rparr>"

text \<open>What a log line carries of a request: with the route only once the head was sent.\<close>

record logger_params =
  lp_base :: logger_options
  lp_pretty :: bool
  lp_ignored :: "string list"

definition createLoggerModuleParams ::
  "nat \<Rightarrow> string \<Rightarrow> env_vars \<Rightarrow> string \<Rightarrow> string list \<Rightarrow> logger_params" where
  "createLoggerModuleParams pid hostname e serviceName ignorePaths =
     (let level = resolveLevel e
      in \<lparr>lp_base = createBaseLoggerOptions pid hostname serviceName level,
          lp_pretty = (e ''NODE_ENV'' \<noteq> Some ''production'' \<and> level \<noteq> SilentLevel),
          lp_ignored = ignorePaths\<rparr>)"

definition autoLogging_ignore :: "logger_params \<Rightarrow> string option \<Rightarrow> bool" where
  "autoLogging_ignore params url =
     (hd (split_on (CHR ''?'') (case url of Some u \<Rightarrow> u | None \<Rightarrow> [])) \<in> set (lp_ignored params))"

definition customProps ::
  "bool \<Rightarrow> string option \<Rightarrow> bool option \<Rightarrow> (string option \<times> bool option) option" where
  "customProps headersSent route cacheHit = (if headersSent then Some (route, cacheHit) else None)"

text \<open>The API's probes are logged under no query string either.\<close>

definition PROBE_PATHS :: "string list" where
  "PROBE_PATHS = [''/api/health'', ''/api/ready'']"

lemma url_path:
  assumes "CHR ''?'' \<notin> set p"
  shows "hd (split_on (CHR ''?'') (p @ CHR ''?'' # q)) = p"
  using assms by (simp add: split_on_append_sep)

lemma probes_not_logged:
  assumes "p \<in> set PROBE_PATHS"
  shows "autoLogging_ignore (createLoggerModuleParams pid h e ''api'' PROBE_PATHS) (Some (p @ ''?'' @ q))"
    "ignoreIncomingRequestHook PROBE_PATHS (Some (p @ ''?'' @ q))"
proof -
  have "CHR ''?'' \<notin> set p"
    using assms by (auto simp: PROBE_PATHS_def)
  then show "autoLogging_ignore (createLoggerModuleParams pid h e ''api'' PROBE_PATHS) (Some (p @ ''?'' @ q))"
    "ignoreIncomingRequestHook PROBE_PATHS (Some (p @ ''?'' @ q))"
    using assms
    by (simp_all add: autoLogging_ignore_def createLoggerModuleParams_def Let_def
        ignoreIncomingRequestHook_def url_path)
qed

text \<open>The level of a line follows the status of the answer, an unknown error being a 500.\<close>

lemma level_of_error: "customLogLevel (error_status err) None = ErrorLevel \<longleftrightarrow> 500 \<le> error_status err"
  by (simp add: customLogLevel_def)

section \<open>The context of a request\<close>

text \<open>
  The store of an asynchronous context holds how to read the identifier: for an HTTP request it
  is read from the request when it is asked for, for a message of a socket it is fixed.
\<close>

type_synonym 'req context_store = "('req \<Rightarrow> string option) option"

definition getRequestId :: "'req context_store \<Rightarrow> 'req \<Rightarrow> string option" where
  "getRequestId store req = (case store of None \<Rightarrow> None | Some requestId \<Rightarrow> requestId req)"

definition runWithRequestId :: "string \<Rightarrow> ('req context_store \<Rightarrow> 'a) \<Rightarrow> 'a" where
  "runWithRequestId requestId fn = fn (Some (\<lambda>_. Some requestId))"

definition use_request_context :: "('req \<Rightarrow> string option) \<Rightarrow> ('req context_store \<Rightarrow> 'a) \<Rightarrow> 'a" where
  "use_request_context req_id next_handler = next_handler (Some req_id)"

definition intercept_ws :: "string \<Rightarrow> ('req context_store \<Rightarrow> string \<Rightarrow> 'a) \<Rightarrow> 'a" where
  "intercept_ws generated handler =
     runWithRequestId generated (\<lambda>store. handler store generated)"

definition intercept_http_route :: "string \<Rightarrow> string option \<Rightarrow> string option \<Rightarrow> string option" where
  "intercept_http_route context_type route_path metadata_route =
     (if context_type = ''http'' then
        (case route_path of Some route \<Rightarrow> Some route | None \<Rightarrow> metadata_route)
      else metadata_route)"

text \<open>The two middlewares may run in either order: the identifier is read when it is needed.\<close>

lemma context_reads_late:
  "use_request_context req_id (\<lambda>store. getRequestId store req) = req_id req"
  by (simp add: use_request_context_def getRequestId_def)

lemma ws_context: "intercept_ws i (\<lambda>store logged. (getRequestId store req, logged)) = (Some i, i)"
  by (simp add: intercept_ws_def runWithRequestId_def getRequestId_def)

end
