(* ===== verification/Config_Env.thy ===== *)
theory Config_Env
  imports Svc
begin

text \<open>
  Configuration of the API and of the worker: finding the package's root above the running file
  (\<open>packages/config/src/load-env.ts\<close>), loading its environment files, and validating the
  environment (\<open>parse-env.ts\<close>, \<open>apps/api/src/config.ts\<close>). Node's \<open>path.join\<close> and
  \<open>path.dirname\<close> are written out for POSIX paths; the file system is a predicate on paths,
  dotenv-flow and the object schema of zod are parameters. The loop that walks up is a partial
  function, and that it ends is a theorem.
\<close>

section \<open>Paths of Node's standard library\<close>

abbreviation slash :: char where
  "slash \<equiv> CHR ''/''"

fun push_segment :: "bool \<Rightarrow> string list \<Rightarrow> string \<Rightarrow> string list" where
  "push_segment allowAboveRoot st seg =
     (if seg = [] \<or> seg = ''.'' then st
      else if seg = ''..'' then
        (case st of
           s # rest \<Rightarrow> if s = ''..'' then seg # st else rest
         | [] \<Rightarrow> if allowAboveRoot then [seg] else [])
      else seg # st)"

definition normalizeString :: "bool \<Rightarrow> string \<Rightarrow> string" where
  "normalizeString allowAboveRoot p =
     join_on slash (rev (foldl (push_segment allowAboveRoot) [] (split_on slash p)))"

definition path_normalize :: "string \<Rightarrow> string" where
  "path_normalize p =
     (if p = [] then ''.''
      else let isAbsolute = (hd p = slash);
               trailing = (last p = slash);
               q = normalizeString (\<not> isAbsolute) p
           in if q = [] then (if isAbsolute then ''/'' else if trailing then ''./'' else ''.'')
              else (if isAbsolute then ''/'' else []) @ q @ (if trailing then ''/'' else []))"

definition path_join :: "string \<Rightarrow> string \<Rightarrow> string" where
  "path_join a b = path_normalize (join_on slash (filter (\<lambda>s. s \<noteq> []) [a, b]))"

text \<open>
  \<open>dirname\<close> scans from the end down to index 1: it skips trailing slashes, then the last
  segment, and cuts at the slash in front of it.
\<close>

definition dirname :: "string \<Rightarrow> string" where
  "dirname p =
     (if p = [] then ''.''
      else let hasRoot = (hd p = slash);
               kept = dropWhile (\<lambda>c. c \<noteq> slash) (dropWhile (\<lambda>c. c = slash) (rev (tl p)))
           in if kept = [] then (if hasRoot then ''/'' else ''.'')
              else if hasRoot \<and> length kept = 1 then ''//''
              else take (length kept) p)"

section \<open>load-env.ts\<close>

partial_function (option) package_root_from ::
  "(string \<Rightarrow> bool) \<Rightarrow> string \<Rightarrow> string \<Rightarrow> (js_error + string) option" where
  "package_root_from existsSync fromDir dir =
     (if existsSync (path_join dir ''package.json'') then Some (Inr dir)
      else let parent = dirname dir
           in if parent = dir
              then Some (Inl (PlainError (''No package.json found above '' @ fromDir)))
              else package_root_from existsSync fromDir parent)"

definition findPackageRoot :: "(string \<Rightarrow> bool) \<Rightarrow> string \<Rightarrow> (js_error + string) option" where
  "findPackageRoot existsSync fromDir = package_root_from existsSync fromDir fromDir"

type_synonym env = "string \<rightharpoonup> string"

definition DEFAULT_NODE_ENV :: string where
  "DEFAULT_NODE_ENV = ''development''"

definition loadEnv ::
  "(string \<Rightarrow> bool) \<Rightarrow> (string \<Rightarrow> string \<Rightarrow> string list) \<Rightarrow>
   (string list \<Rightarrow> env \<Rightarrow> js_error option \<times> env) \<Rightarrow> string \<Rightarrow> env \<Rightarrow>
   ((js_error + unit) \<times> env) option" where
  "loadEnv existsSync listFiles load fromDir process_env =
     (case findPackageRoot existsSync fromDir of
        None \<Rightarrow> None
      | Some (Inl e) \<Rightarrow> Some (Inl e, process_env)
      | Some (Inr root) \<Rightarrow>
          (let files = listFiles root (case process_env ''NODE_ENV'' of
                                         Some e \<Rightarrow> e | None \<Rightarrow> DEFAULT_NODE_ENV)
           in if files = [] then Some (Inr (), process_env)
              else (case load files process_env of
                      (Some err, e') \<Rightarrow> Some (Inl err, e')
                    | (None, e') \<Rightarrow> Some (Inr (), e'))))"

section \<open>parse-env.ts and config.ts\<close>

definition parseEnv :: "('i \<Rightarrow> string) \<Rightarrow> (env \<Rightarrow> 'i + 'a) \<Rightarrow> env \<Rightarrow> js_error + 'a" where
  "parseEnv prettifyError safeParse e =
     (case safeParse e of
        Inl issues \<Rightarrow> Inl (PlainError (''Invalid environment variables:'' @ [CHR 0x0A] @ prettifyError issues))
      | Inr data \<Rightarrow> Inr data)"

datatype node_env = Development | Production | Test

record api_env =
  ae_NODE_ENV :: node_env
  ae_COOKIE_SECRET :: string
  ae_SESSION_COOKIE_NAME :: string
  ae_SESSION_COOKIE_SECURE :: "bool option"
  ae_TRUST_PROXY_HOPS :: nat
  ae_CLIENT_URL :: string
  ae_REDIS_SESSIONS_URL :: string
  ae_REDIS_QUEUE_URL :: string
  ae_REDIS_CACHE_URL :: string
  ae_THROTTLE_LIMIT :: nat
  ae_AUTH_THROTTLE_LIMIT :: nat

record api_config =
  ac_env :: api_env
  ac_SESSION_COOKIE_SECURE :: bool
  ac_SWAGGER_ENABLED :: bool

definition MIN_PRODUCTION_SECRET_LENGTH :: nat where
  "MIN_PRODUCTION_SECRET_LENGTH = 32"

definition refine_secret :: "api_env \<Rightarrow> string list" where
  "refine_secret e =
     (if ae_NODE_ENV e \<noteq> Production then []
      else if length (ae_COOKIE_SECRET e) < MIN_PRODUCTION_SECRET_LENGTH \<or>
              lower (ae_COOKIE_SECRET e) = ''null''
      then [''COOKIE_SECRET'']
      else [])"

definition transform_env :: "api_env \<Rightarrow> api_config" where
  "transform_env e =
     \<lparr>ac_env = e,
      ac_SESSION_COOKIE_SECURE =
        (case ae_SESSION_COOKIE_SECURE e of Some b \<Rightarrow> b | None \<Rightarrow> ae_NODE_ENV e = Production),
      ac_SWAGGER_ENABLED = (ae_NODE_ENV e = Development)\<rparr>"

definition apiSchema :: "(env \<Rightarrow> string list + api_env) \<Rightarrow> env \<Rightarrow> string list + api_config" where
  "apiSchema object_schema e =
     (case object_schema e of
        Inl issues \<Rightarrow> Inl issues
      | Inr data \<Rightarrow> (case refine_secret data of [] \<Rightarrow> Inr (transform_env data) | issues \<Rightarrow> Inl issues))"

definition parseApiConfig ::
  "(string list \<Rightarrow> string) \<Rightarrow> (env \<Rightarrow> string list + api_env) \<Rightarrow> env \<Rightarrow> js_error + api_config" where
  "parseApiConfig prettifyError object_schema = parseEnv prettifyError (apiSchema object_schema)"

section \<open>The walk to the package's root ends\<close>

text \<open>Every step that changes the directory makes this measure smaller.\<close>

definition dir_depth :: "string \<Rightarrow> nat" where
  "dir_depth p = (if p = ''.'' \<or> p = ''/'' then 0 else max 1 (length p))"

lemma kept_shorter: "length (dropWhile P (dropWhile Q (rev (tl p)))) \<le> length p - 1"
  by (metis le_trans length_dropWhile_le length_rev length_tl)

lemma dir_depth_le: "dir_depth p \<le> max 1 (length p)"
  by (simp add: dir_depth_def)

lemma dirname_rooted_twice:
  assumes p: "p = c # q"
    and kept: "length (dropWhile (\<lambda>c. c \<noteq> slash) (dropWhile (\<lambda>c. c = slash) (rev q))) = 1"
  shows "3 \<le> length p"
proof -
  have "length q \<noteq> 0" "length q \<noteq> 1"
    using kept by (auto simp: length_Suc_conv split: if_splits)
  then have "2 \<le> length q"
    by linarith
  then show ?thesis
    using p by simp
qed

lemma dirname_fixed: "dirname ''.'' = ''.''" "dirname ''/'' = ''/''"
  by (simp_all add: dirname_def)

lemma dir_depth_moving: "p \<noteq> ''.'' \<Longrightarrow> p \<noteq> ''/'' \<Longrightarrow> dir_depth p = max 1 (length p)"
  by (simp add: dir_depth_def)

lemma dirname_cases:
  assumes "p = c # q" "kept = dropWhile (\<lambda>c. c \<noteq> slash) (dropWhile (\<lambda>c. c = slash) (rev q))"
  shows "dirname p = (if kept = [] then (if c = slash then ''/'' else ''.'')
           else if c = slash \<and> length kept = 1 then ''//'' else take (length kept) p)"
  unfolding assms dirname_def Let_def list.sel by (simp only: list.distinct if_False)

lemma dirname_smaller:
  assumes "dirname p \<noteq> p"
  shows "dir_depth (dirname p) < dir_depth p"
proof (cases p)
  case Nil
  then show ?thesis
    by (simp add: dirname_def dir_depth_def)
next
  case (Cons c q)
  define kept where "kept = dropWhile (\<lambda>c. c \<noteq> slash) (dropWhile (\<lambda>c. c = slash) (rev q))"
  have short: "length kept \<le> length p - 1"
    using kept_shorter[of "\<lambda>c. c \<noteq> slash" "\<lambda>c. c = slash" p] Cons by (simp add: kept_def)
  note dn = dirname_cases[OF Cons kept_def]
  have here: "dir_depth p = length p"
    using assms dirname_fixed dir_depth_moving[of p] Cons by fastforce
  consider (top) "kept = []" | (root) "length kept = 1" "dirname p = ''//''"
    | (cut) "kept \<noteq> []" "dirname p = take (length kept) p"
    using dn by presburger
  then show ?thesis
  proof cases
    case top
    then have "dirname p = ''.'' \<or> dirname p = ''/''"
      using dn by presburger
    then have "dir_depth (dirname p) = 0"
      unfolding dir_depth_def by presburger
    then show ?thesis
      using here Cons by simp
  next
    case root
    have "3 \<le> length p"
      using dirname_rooted_twice[OF Cons] root by (simp add: kept_def)
    then show ?thesis
      using here dir_depth_le[of "dirname p"] root by simp
  next
    case cut
    have "1 \<le> length kept"
      using cut by (simp add: Suc_le_eq)
    moreover have "length (dirname p) = min (length p) (length kept)"
      using cut(2) by simp
    ultimately have "2 \<le> length p" "length (dirname p) < length p"
      using short by linarith+
    then show ?thesis
      using here dir_depth_le[of "dirname p"] by simp
  qed
qed

lemmas package_root_step = package_root_from.simps

lemma package_root_outcome:
  "\<exists>r. package_root_from ex start d = Some r \<and>
     (case r of
        Inr dir \<Rightarrow> (\<exists>n\<le>dir_depth d. dir = (dirname ^^ n) d \<and> ex (path_join dir ''package.json'') \<and>
                      (\<forall>m<n. \<not> ex (path_join ((dirname ^^ m) d) ''package.json'')))
      | Inl e \<Rightarrow> e = PlainError (''No package.json found above '' @ start) \<and>
                 (\<forall>n. \<not> ex (path_join ((dirname ^^ n) d) ''package.json'')))"
proof (induction "dir_depth d" arbitrary: d rule: less_induct)
  case less
  consider (here) "ex (path_join d ''package.json'')"
    | (top) "\<not> ex (path_join d ''package.json'')" "dirname d = d"
    | (up) "\<not> ex (path_join d ''package.json'')" "dirname d \<noteq> d"
    by blast
  then show ?case
  proof cases
    case here
    then show ?thesis
      by (simp add: package_root_step exI[where x = "0::nat"])
  next
    case top
    have "(dirname ^^ n) d = d" for n
      using top(2) by (induction n) simp_all
    then show ?thesis
      using top by (simp add: package_root_step)
  next
    case up
    note smaller = dirname_smaller[OF up(2)]
    obtain r where r: "package_root_from ex start (dirname d) = Some r"
      and out: "case r of
        Inr dir \<Rightarrow> (\<exists>n\<le>dir_depth (dirname d). dir = (dirname ^^ n) (dirname d) \<and>
                      ex (path_join dir ''package.json'') \<and>
                      (\<forall>m<n. \<not> ex (path_join ((dirname ^^ m) (dirname d)) ''package.json'')))
      | Inl e \<Rightarrow> e = PlainError (''No package.json found above '' @ start) \<and>
                 (\<forall>n. \<not> ex (path_join ((dirname ^^ n) (dirname d)) ''package.json''))"
      using less[OF smaller] by blast
    have run: "package_root_from ex start d = Some r"
      using up r by (simp add: package_root_step[of ex start d])
    have shift: "(dirname ^^ n) (dirname d) = (dirname ^^ Suc n) d" for n
      by (simp add: funpow_swap1)
    show ?thesis
    proof (cases r)
      case (Inl e)
      have "\<not> ex (path_join ((dirname ^^ n) d) ''package.json'')" for n
        using out Inl up(1) by (cases n) (simp_all add: funpow_swap1)
      then show ?thesis
        using run out Inl by simp
    next
      case (Inr dir)
      then obtain n where n: "n \<le> dir_depth (dirname d)" "dir = (dirname ^^ Suc n) d"
        "ex (path_join dir ''package.json'')"
        "\<forall>m<n. \<not> ex (path_join ((dirname ^^ Suc m) d) ''package.json'')"
        using out unfolding shift by auto
      have "\<not> ex (path_join ((dirname ^^ m) d) ''package.json'')" if "m < Suc n" for m
        using that n(4) up(1) by (cases m) auto
      moreover have "Suc n \<le> dir_depth d"
        using n(1) smaller by simp
      ultimately show ?thesis
        using run Inr n(2,3) by auto
    qed
  qed
qed

text \<open>C31: The walk to the package's root always ends: it takes at most as many steps as the
  directory's name has characters, and returns the nearest directory at or above it that has a
  package.json; it fails, naming the directory it started from, only when none has one.\<close>

theorem findPackageRoot_returns:
  "\<exists>r. findPackageRoot existsSync fromDir = Some r \<and>
     (case r of
        Inr dir \<Rightarrow> (\<exists>n\<le>max 1 (length fromDir). dir = (dirname ^^ n) fromDir \<and>
                      existsSync (path_join dir ''package.json'') \<and>
                      (\<forall>m<n. \<not> existsSync (path_join ((dirname ^^ m) fromDir) ''package.json'')))
      | Inl e \<Rightarrow> e = PlainError (''No package.json found above '' @ fromDir) \<and>
                 (\<forall>n. \<not> existsSync (path_join ((dirname ^^ n) fromDir) ''package.json'')))"
proof -
  obtain r where r: "findPackageRoot existsSync fromDir = Some r" and
    "case r of
        Inr dir \<Rightarrow> (\<exists>n\<le>dir_depth fromDir. dir = (dirname ^^ n) fromDir \<and>
                      existsSync (path_join dir ''package.json'') \<and>
                      (\<forall>m<n. \<not> existsSync (path_join ((dirname ^^ m) fromDir) ''package.json'')))
      | Inl e \<Rightarrow> e = PlainError (''No package.json found above '' @ fromDir) \<and>
                 (\<forall>n. \<not> existsSync (path_join ((dirname ^^ n) fromDir) ''package.json''))"
    using package_root_outcome[of existsSync fromDir fromDir] unfolding findPackageRoot_def by blast
  then show ?thesis
    using dir_depth_le[of fromDir] by (cases r) (auto intro: order_trans)
qed

text \<open>The built API finds its root two levels up, and a file outside every package none.\<close>

theorem findPackageRoot_returns_witness:
  "\<exists>n\<le>13. ''/app'' = (dirname ^^ n) ''/app/dist/src'' \<and>
     (\<forall>m<n. path_join ((dirname ^^ m) ''/app/dist/src'') ''package.json'' \<noteq> ''/app/package.json'')"
proof -
  have run: "findPackageRoot (\<lambda>p. p = ''/app/package.json'') ''/app/dist/src'' = Some (Inr ''/app'')"
    by (simp add: findPackageRoot_def package_root_step path_join_def path_normalize_def
        normalizeString_def dirname_def)
  have len: "max 1 (length ''/app/dist/src'') = 13"
    by simp
  have "\<exists>r. findPackageRoot (\<lambda>p. p = ''/app/package.json'') ''/app/dist/src'' = Some r \<and>
     (case r of
        Inr dir \<Rightarrow> (\<exists>n\<le>13. dir = (dirname ^^ n) ''/app/dist/src'' \<and>
                      path_join dir ''package.json'' = ''/app/package.json'' \<and>
                      (\<forall>m<n. path_join ((dirname ^^ m) ''/app/dist/src'') ''package.json'' \<noteq> ''/app/package.json''))
      | Inl e \<Rightarrow> e = PlainError (''No package.json found above '' @ ''/app/dist/src'') \<and>
                 (\<forall>n. path_join ((dirname ^^ n) ''/app/dist/src'') ''package.json'' \<noteq> ''/app/package.json''))"
    (is "\<exists>r. _ = Some r \<and> ?outcome r")
    using findPackageRoot_returns[of "\<lambda>p. p = ''/app/package.json''" "''/app/dist/src''"]
    unfolding len .
  then have "\<exists>r. Some (Inr ''/app'') = Some r \<and> ?outcome r"
    unfolding run .
  then have "?outcome (Inr ''/app'')"
    unfolding option.inject by (elim exE conjE) (erule ssubst)
  then show ?thesis
    unfolding sum.case by (elim exE conjE) (intro exI conjI)
qed

section \<open>The configuration\<close>

text \<open>In production the secret is long; the second test of the check never decides.\<close>

lemma null_check_redundant:
  "refine_secret e =
     (if ae_NODE_ENV e = Production \<and> length (ae_COOKIE_SECRET e) < MIN_PRODUCTION_SECRET_LENGTH
      then [''COOKIE_SECRET''] else [])"
proof -
  have "length (ae_COOKIE_SECRET e) = 4" if "lower (ae_COOKIE_SECRET e) = ''null''"
    using arg_cong[OF that, of length] by (simp add: lower_def)
  then show ?thesis
    by (auto simp: refine_secret_def MIN_PRODUCTION_SECRET_LENGTH_def)
qed

lemma production_config:
  assumes "parseApiConfig pretty schema e = Inr c" "ae_NODE_ENV (ac_env c) = Production"
  shows "32 \<le> length (ae_COOKIE_SECRET (ac_env c)) \<and> \<not> ac_SWAGGER_ENABLED c \<and>
    (ac_SESSION_COOKIE_SECURE c \<or> ae_SESSION_COOKIE_SECURE (ac_env c) = Some False)"
  using assms
  by (auto simp: parseApiConfig_def parseEnv_def apiSchema_def null_check_redundant transform_env_def
      MIN_PRODUCTION_SECRET_LENGTH_def split: sum.splits if_splits option.splits)

text \<open>Loading never changes the environment when the package has no environment files.\<close>

lemma loadEnv_no_files:
  assumes "findPackageRoot ex fromDir = Some (Inr root)" "\<And>e. listFiles root e = []"
  shows "loadEnv ex listFiles load fromDir process_env = Some (Inr (), process_env)"
  using assms by (simp add: loadEnv_def)

lemma loadEnv_returns: "loadEnv ex listFiles load fromDir process_env \<noteq> None"
proof -
  obtain r where "findPackageRoot ex fromDir = Some r"
    using package_root_outcome[of ex fromDir fromDir] unfolding findPackageRoot_def by blast
  then show ?thesis
    by (cases r) (simp_all add: loadEnv_def Let_def split: prod.split option.split)
qed

end
