(* ===== verification/Seed_Load.thy ===== *)
theory Seed_Load
  imports App_State
begin

text \<open>
  The database of the load tests (\<open>packages/db/data/seeds-load/01_load.ts\<close>): the rows that its
  statements insert, as lists over the ranges of \<open>generate_series\<close>, and what the file says of
  them. The rows satisfy the schema and the application's invariant, so that the load tests start
  in a state the theorems about the services speak of. The password's hash, the two texts and the
  epoch are parameters. Where a query leaves the order of its rows open, the model takes the order
  of the series.
\<close>

section \<open>Sizes and spreads\<close>

definition MODERATORS :: nat where "MODERATORS = 50"
definition USERS :: nat where "USERS = 9950"
definition ACCEPTED_DEBATES :: nat where "ACCEPTED_DEBATES = 2000"
definition PENDING_DEBATES :: nat where "PENDING_DEBATES = 200"
definition IN_REVIEW_DEBATES :: nat where "IN_REVIEW_DEBATES = 200"
definition CANCELED_DEBATES :: nat where "CANCELED_DEBATES = 100"
definition DEBATES :: nat where
  "DEBATES = ACCEPTED_DEBATES + PENDING_DEBATES + IN_REVIEW_DEBATES + CANCELED_DEBATES"
definition TAGS :: nat where "TAGS = 50"
definition HOT_DEBATES :: nat where "HOT_DEBATES = 20"
definition ARGUMENT_BRANCHING :: nat where "ARGUMENT_BRANCHING = 5"
definition TICKET_COMMENTS :: nat where "TICKET_COMMENTS = 50000"
definition SUBSCRIPTIONS_PER_USER :: nat where "SUBSCRIPTIONS_PER_USER = 5"
definition NOTIFICATIONS :: nat where "NOTIFICATIONS = 1000000"
definition HEAVY_NOTIFICATION_USERS :: nat where "HEAVY_NOTIFICATION_USERS = 10"
definition NOTIFICATIONS_PER_HEAVY_USER :: nat where "NOTIFICATIONS_PER_HEAVY_USER = 8000"
definition SPREAD :: nat where "SPREAD = 7919"

lemmas seed_sizes = MODERATORS_def USERS_def ACCEPTED_DEBATES_def PENDING_DEBATES_def
  IN_REVIEW_DEBATES_def CANCELED_DEBATES_def DEBATES_def TAGS_def HOT_DEBATES_def
  ARGUMENT_BRANCHING_def SPREAD_def HEAVY_NOTIFICATION_USERS_def NOTIFICATIONS_PER_HEAVY_USER_def

definition regularUser :: "nat \<Rightarrow> nat" where
  "regularUser n = MODERATORS + 1 + n * SPREAD mod USERS"

definition moderator :: "nat \<Rightarrow> nat" where
  "moderator n = 1 + n mod MODERATORS"

definition generate_series :: "nat \<Rightarrow> nat \<Rightarrow> nat list" where
  "generate_series a b = [a..<Suc b]"

text \<open>\<open>lpad\<close> of a text with zeros; a longer text is cut.\<close>

definition lpad :: "string \<Rightarrow> nat \<Rightarrow> string" where
  "lpad s n = (if n \<le> length s then take n s else replicate (n - length s) (CHR ''0'') @ s)"

section \<open>The rows\<close>

definition load_username :: "nat \<Rightarrow> string" where
  "load_username i =
     (if i \<le> MODERATORS then ''load-mod-'' @ lpad (nat_to_string i) 2
      else ''load-user-'' @ lpad (nat_to_string (i - MODERATORS)) 5)"

definition load_users :: "string \<Rightarrow> nat \<Rightarrow> user_row list" where
  "load_users passwordHash epoch =
     map (\<lambda>i. \<lparr>u_id = int i, u_username = load_username i, u_password = passwordHash,
               u_email = load_username i @ ''@example.com'', u_created_at = epoch + i * 1800,
               u_role = Some (if i \<le> MODERATORS then MODERATOR else USER)\<rparr>)
       (generate_series 1 (MODERATORS + USERS))"

definition load_debate_board :: "nat \<Rightarrow> board_list" where
  "load_debate_board d =
     (if d \<le> ACCEPTED_DEBATES then ACCEPTED
      else if d \<le> ACCEPTED_DEBATES + PENDING_DEBATES then PENDING
      else if d \<le> ACCEPTED_DEBATES + PENDING_DEBATES + IN_REVIEW_DEBATES then IN_REVIEW
      else CANCELED)"

definition load_debate_tickets :: "ticket_row list" where
  "load_debate_tickets =
     map (\<lambda>d. \<lparr>t_id = int d, t_created_by = int (regularUser d),
               t_assigned_to = (if d \<le> ACCEPTED_DEBATES \<or> ACCEPTED_DEBATES + PENDING_DEBATES < d
                                then Some (int (moderator d)) else None),
               t_board_list = Some (load_debate_board d)\<rparr>)
       (generate_series 1 DEBATES)"

definition load_debates :: "nat \<Rightarrow> debate_row list" where
  "load_debates epoch =
     map (\<lambda>d. \<lparr>d_id = int d, d_ticket_id = int d, d_title = ''Load debate #'' @ nat_to_string d,
               d_created_at = epoch + d * 7200, d_modified_at = epoch + d * 7200,
               d_created_by = int (regularUser d)\<rparr>)
       (generate_series 1 DEBATES)"

definition load_tags :: "debate_tag_row list" where
  "load_tags =
     map (\<lambda>t. \<lparr>dt_id = int t, dt_name = ''tag-'' @ lpad (nat_to_string t) 2\<rparr>) (generate_series 1 TAGS)"

definition load_debate_tags :: "assoc_row list" where
  "load_debate_tags =
     [\<lparr>adt_debate_id = int d, adt_tag_id = int (1 + (d * 7 + k) mod TAGS)\<rparr>.
       d \<leftarrow> generate_series 1 DEBATES, k \<leftarrow> generate_series 0 (d mod 4)]"

text \<open>
  The temporary table of the arguments: an identifier, the debate, the position in the debate and
  the state, where a draft has none.
\<close>

definition argument_count :: "nat \<Rightarrow> nat" where
  "argument_count d = (if d \<le> HOT_DEBATES then 2000 + d * 37 mod 1000 else 10 + d * 13 mod 41)"

definition argument_status :: "nat \<Rightarrow> nat \<Rightarrow> nat \<Rightarrow> board_list option" where
  "argument_status i j cnt =
     (if j * ARGUMENT_BRANCHING \<le> cnt then Some ACCEPTED
      else if i mod 20 = 0 then None
      else if i mod 33 = 1 then Some IN_REVIEW
      else if i mod 50 = 2 then Some PENDING
      else Some ACCEPTED)"

record load_row =
  la_id :: nat
  la_debate_id :: nat
  la_j :: nat
  la_status :: "board_list option"

definition argument_places :: "(nat \<times> nat) list" where
  "argument_places =
     [(d, j). d \<leftarrow> generate_series 1 ACCEPTED_DEBATES, j \<leftarrow> generate_series 1 (argument_count d)]"

definition load_argument :: "load_row list" where
  "load_argument =
     map (\<lambda>(i, d, j). \<lparr>la_id = i, la_debate_id = d, la_j = j,
                       la_status = argument_status i j (argument_count d)\<rparr>)
       (enumerate 1 argument_places)"

definition load_argument_tickets :: "ticket_row list" where
  "load_argument_tickets =
     map (\<lambda>a. \<lparr>t_id = int (DEBATES + la_id a), t_created_by = int (regularUser (la_id a)),
               t_assigned_to = (if la_status a \<noteq> Some PENDING then Some (int (moderator (la_id a))) else None),
               t_board_list = la_status a\<rparr>)
       (filter (\<lambda>a. la_status a \<noteq> None) load_argument)"

text \<open>The argument that an argument answers, if any.\<close>

definition parent_of :: "load_row \<Rightarrow> load_row option" where
  "parent_of a =
     find (\<lambda>p. la_debate_id p = la_debate_id a \<and> la_j p = la_j a div ARGUMENT_BRANCHING) load_argument"

definition load_arguments :: "string \<Rightarrow> nat \<Rightarrow> argument_row list" where
  "load_arguments longText epoch =
     map (\<lambda>a. \<lparr>a_id = int (la_id a), a_debate_id = int (la_debate_id a),
               a_ticket_id = (if la_status a \<noteq> None then Some (int (DEBATES + la_id a)) else None),
               a_title = ''Load argument #'' @ nat_to_string (la_id a), a_content = longText,
               a_counterargument_to = map_option (int \<circ> la_id) (parent_of a),
               a_created_by = int (regularUser (la_id a)),
               a_created_at = epoch + la_debate_id a * 7200 + la_j a * 600,
               a_type = Some (if la_j a mod 2 = 0 then PRO else CON),
               a_is_draft = (la_status a = None)\<rparr>) load_argument"

definition load_tickets :: "ticket_row list" where
  "load_tickets = load_debate_tickets @ load_argument_tickets"

definition load_comments :: "string \<Rightarrow> nat \<Rightarrow> comment_row list" where
  "load_comments longText epoch =
     map (\<lambda>i. let t = load_tickets ! (i * SPREAD mod length load_tickets)
              in \<lparr>tc_id = int i, tc_ticket_id = t_id t, tc_content = longText,
                  tc_commenter_id = (if i mod 2 = 0 then t_created_by t
                    else case t_assigned_to t of Some m \<Rightarrow> m | None \<Rightarrow> t_created_by t),
                  tc_created_at = epoch + i * 300, tc_modified_at = epoch + i * 300\<rparr>)
       (generate_series 1 TICKET_COMMENTS)"

definition load_subscriptions :: "(nat \<times> nat) list" where
  "load_subscriptions =
     [(u, 1 + (u * 13 + k * 401) mod ACCEPTED_DEBATES).
       u \<leftarrow> generate_series (MODERATORS + 1) (MODERATORS + USERS),
       k \<leftarrow> generate_series 1 SUBSCRIPTIONS_PER_USER]"

definition heavyNotifications :: nat where
  "heavyNotifications = HEAVY_NOTIFICATION_USERS * NOTIFICATIONS_PER_HEAVY_USER"

definition notification_recipient :: "nat \<Rightarrow> nat" where
  "notification_recipient i =
     (if i \<le> heavyNotifications then MODERATORS + 1 + (i - 1) div NOTIFICATIONS_PER_HEAVY_USER
      else MODERATORS + HEAVY_NOTIFICATION_USERS + 1
             + i * SPREAD mod (USERS - HEAVY_NOTIFICATION_USERS))"

definition load_notifications :: "string \<Rightarrow> notification_row list" where
  "load_notifications notificationText =
     map (\<lambda>i. \<lparr>n_id = int i,
               n_title = [''New debate proposed'', ''New comment on argument'',
                          ''New comment on debate''] ! (i mod 3),
               n_content = notificationText, n_recipient_id = int (notification_recipient i),
               n_event = (if i mod 3 = 1 then EV_ARGUMENT else EV_DEBATE),
               n_is_read = (i mod 5 \<noteq> 0)\<rparr>)
       (generate_series 1 NOTIFICATIONS)"

definition load_tables :: "string \<Rightarrow> string \<Rightarrow> string \<Rightarrow> nat \<Rightarrow> tables" where
  "load_tables passwordHash longText notificationText epoch =
     \<lparr>users = load_users passwordHash epoch, notifications = load_notifications notificationText,
      tickets = load_tickets, debates = load_debates epoch, debate_tags = load_tags,
      assoc_debate_tags = load_debate_tags, arguments = load_arguments longText epoch,
      ticket_comments = load_comments longText epoch\<rparr>"

text \<open>\<open>setval\<close> to the largest identifier; the other sequences have counted the rows.\<close>

definition setval :: "int list \<Rightarrow> int" where
  "setval ids = Max (set ids)"

definition load_db :: "string \<Rightarrow> string \<Rightarrow> string \<Rightarrow> nat \<Rightarrow> database" where
  "load_db passwordHash longText notificationText epoch =
     (let ts = load_tables passwordHash longText notificationText epoch
      in \<lparr>tabs = ts,
          sqs = \<lparr>user_seq = setval (map u_id (users ts)), notification_seq = int NOTIFICATIONS,
                 ticket_seq = setval (map t_id (tickets ts)), debate_seq = setval (map d_id (debates ts)),
                 debate_tag_seq = setval (map dt_id (debate_tags ts)),
                 argument_seq = setval (map a_id (arguments ts)),
                 ticket_comment_seq = int TICKET_COMMENTS\<rparr>,
          now = epoch\<rparr>)"

section \<open>Ranges\<close>

lemma in_series [simp]: "x \<in> set (generate_series a b) \<longleftrightarrow> a \<le> x \<and> x \<le> b"
  by (auto simp: generate_series_def)

lemma distinct_series [simp]: "distinct (generate_series a b)"
  by (simp add: generate_series_def)

lemma series_not_Nil: "a \<le> b \<Longrightarrow> generate_series a b \<noteq> []"
  using in_series[of a a b] by (metis empty_iff empty_set order_refl)

lemma regularUser_range: "MODERATORS < regularUser n \<and> regularUser n \<le> MODERATORS + USERS"
  by (simp add: regularUser_def seed_sizes)

lemma moderator_range: "1 \<le> moderator n \<and> moderator n \<le> MODERATORS"
  by (simp add: moderator_def seed_sizes)

lemma notification_recipient_range:
  "MODERATORS < notification_recipient i \<and> notification_recipient i \<le> MODERATORS + USERS"
proof (cases "i \<le> heavyNotifications")
  case True
  then have "(i - 1) div NOTIFICATIONS_PER_HEAVY_USER \<le> 9"
    by (simp add: heavyNotifications_def seed_sizes)
  then show ?thesis
    using True by (simp add: notification_recipient_def seed_sizes)
next
  case False
  have "i * SPREAD mod (USERS - HEAVY_NOTIFICATION_USERS) < 9940"
    by (simp add: seed_sizes)
  then show ?thesis
    using False by (simp add: notification_recipient_def seed_sizes)
qed

section \<open>Names are distinct and fit\<close>

lemma length_nat_to_string: "n < 10 ^ Suc k \<Longrightarrow> length (nat_to_string n) \<le> Suc k"
proof (induction k arbitrary: n)
  case 0
  then show ?case
    by (simp add: nat_to_string.simps[of n])
next
  case (Suc k)
  then have "n div 10 < 10 ^ Suc k"
    by simp
  then show ?case
    using Suc.IH[of "n div 10"] by (simp add: nat_to_string.simps[of n])
qed

lemma string_to_nat_zeros: "string_to_nat (replicate r (CHR ''0'') @ s) = string_to_nat s"
  by (induction r) (simp_all add: string_to_nat_def digit_val_def)

lemma lpad_value: "n < 10 ^ Suc k \<Longrightarrow> string_to_nat (lpad (nat_to_string n) (Suc k)) = n"
  using length_nat_to_string[of n k] by (auto simp: lpad_def string_to_nat_zeros)

lemma length_lpad [simp]: "length (lpad s n) = n"
  by (simp add: lpad_def)

lemma load_username_inj:
  assumes "load_username i = load_username j" "i \<in> {1..MODERATORS + USERS}" "j \<in> {1..MODERATORS + USERS}"
  shows "i = j"
proof -
  have bound: "i < 100000" "j < 100000"
    using assms(2,3) by (simp_all add: seed_sizes)
  have val: "string_to_nat (lpad (nat_to_string n) 5) = n" if "n < 100000" for n
    using lpad_value[of n 4] that by simp
  have val2: "string_to_nat (lpad (nat_to_string n) 2) = n" if "n \<le> MODERATORS" for n
  proof -
    have "n < 10 ^ Suc 1"
      using that by (simp add: seed_sizes)
    then show ?thesis
      using lpad_value[of n 1] by (simp only: Suc_1)
  qed
  consider "i \<le> MODERATORS" "j \<le> MODERATORS" | "MODERATORS < i" "MODERATORS < j"
    | "i \<le> MODERATORS \<and> MODERATORS < j \<or> MODERATORS < i \<and> j \<le> MODERATORS"
    by linarith
  then show ?thesis
  proof cases
    case 1
    then have "lpad (nat_to_string i) 2 = lpad (nat_to_string j) 2"
      using assms(1) by (simp add: load_username_def)
    from arg_cong[OF this, of string_to_nat] show ?thesis
      unfolding val2[OF 1(1)] val2[OF 1(2)] .
  next
    case 2
    then have "lpad (nat_to_string (i - MODERATORS)) 5 = lpad (nat_to_string (j - MODERATORS)) 5"
      using assms(1) by (simp add: load_username_def)
    from arg_cong[OF this, of string_to_nat] have "i - MODERATORS = j - MODERATORS"
      using bound by (subst (asm) (1 2) val) linarith+
    then show ?thesis
      using 2 by simp
  next
    case 3
    then show ?thesis
      using assms(1) by (auto simp: load_username_def)
  qed
qed

lemma length_load_username: "length (load_username i) \<le> 15"
  by (simp add: load_username_def)

lemma number_title: "n < 10 ^ 8 \<Longrightarrow> length (nat_to_string n) \<le> 8"
  using length_nat_to_string[of n 7] by simp

section \<open>The arguments\<close>

lemma distinct_pairs:
  assumes "distinct xs" "\<And>x. distinct (g x)"
  shows "distinct (concat (map (\<lambda>x. map (\<lambda>y. (x, y)) (g x)) xs))"
  using assms(1)
proof (induction xs)
  case (Cons x xs)
  have "distinct (map (\<lambda>y. (x, y)) (g x))"
    using assms(2) by (simp add: distinct_map inj_on_def)
  then show ?case
    using Cons by auto
qed simp

lemma distinct_argument_places: "distinct argument_places"
  using distinct_pairs[of "generate_series 1 ACCEPTED_DEBATES" "\<lambda>d. generate_series 1 (argument_count d)"]
  by (simp add: argument_places_def)

lemma in_argument_places:
  "(d, j) \<in> set argument_places \<longleftrightarrow> 1 \<le> d \<and> d \<le> ACCEPTED_DEBATES \<and> 1 \<le> j \<and> j \<le> argument_count d"
  by (force simp: argument_places_def)

lemma load_argument_ids: "map la_id load_argument = [1..<Suc (length argument_places)]"
proof -
  have "map la_id load_argument = map fst (enumerate 1 argument_places)"
    by (simp add: load_argument_def comp_def case_prod_beta)
  then show ?thesis
    by simp
qed

lemma load_argument_places: "map (\<lambda>a. (la_debate_id a, la_j a)) load_argument = argument_places"
proof -
  have "map (\<lambda>a. (la_debate_id a, la_j a)) load_argument = map snd (enumerate 1 argument_places)"
    by (simp add: load_argument_def comp_def case_prod_beta)
  then show ?thesis
    by simp
qed

lemma in_load_argument:
  assumes "a \<in> set load_argument"
  shows "1 \<le> la_id a" "la_id a \<le> length argument_places"
    "1 \<le> la_debate_id a \<and> la_debate_id a \<le> ACCEPTED_DEBATES"
    "1 \<le> la_j a \<and> la_j a \<le> argument_count (la_debate_id a)"
    "la_status a = argument_status (la_id a) (la_j a) (argument_count (la_debate_id a))"
proof -
  have "la_id a \<in> set (map la_id load_argument)"
    using assms by simp
  then show "1 \<le> la_id a" "la_id a \<le> length argument_places"
    unfolding load_argument_ids by auto
  have "(la_debate_id a, la_j a) \<in> set (map (\<lambda>a. (la_debate_id a, la_j a)) load_argument)"
    using assms by simp
  then show "1 \<le> la_debate_id a \<and> la_debate_id a \<le> ACCEPTED_DEBATES"
    "1 \<le> la_j a \<and> la_j a \<le> argument_count (la_debate_id a)"
    unfolding load_argument_places by (simp_all add: in_argument_places)
  show "la_status a = argument_status (la_id a) (la_j a) (argument_count (la_debate_id a))"
    using assms by (auto simp: load_argument_def)
qed

lemma place_in_load_argument:
  assumes "1 \<le> d" "d \<le> ACCEPTED_DEBATES" "1 \<le> j" "j \<le> argument_count d"
  shows "\<exists>a \<in> set load_argument. la_debate_id a = d \<and> la_j a = j"
proof -
  have "(d, j) \<in> set (map (\<lambda>a. (la_debate_id a, la_j a)) load_argument)"
    unfolding load_argument_places using assms by (simp add: in_argument_places)
  then show ?thesis
    by auto
qed

lemma argument_count_range:
  "(if d \<le> HOT_DEBATES then 2000 \<le> argument_count d \<and> argument_count d < 3000
    else 10 \<le> argument_count d \<and> argument_count d \<le> 50)"
proof -
  have "d * 37 mod 1000 < 1000" "d * 13 mod 41 < 41"
    by simp_all
  then show ?thesis
    unfolding argument_count_def by (auto simp: less_Suc_eq_le)
qed

lemma parent_of_Some:
  assumes "parent_of a = Some p"
  shows "p \<in> set load_argument" "la_debate_id p = la_debate_id a" "la_j p = la_j a div ARGUMENT_BRANCHING"
  using assms by (auto simp: parent_of_def find_Some_iff)

lemma parent_of_None:
  assumes "a \<in> set load_argument"
  shows "parent_of a = None \<longleftrightarrow> la_j a < ARGUMENT_BRANCHING"
proof
  assume none: "parent_of a = None"
  show "la_j a < ARGUMENT_BRANCHING"
  proof (rule ccontr)
    assume "\<not> la_j a < ARGUMENT_BRANCHING"
    then have "1 \<le> la_j a div ARGUMENT_BRANCHING"
      by (simp add: seed_sizes)
    moreover have "la_j a div ARGUMENT_BRANCHING \<le> argument_count (la_debate_id a)"
      using in_load_argument(4)[OF assms] div_le_dividend order_trans by blast
    ultimately obtain p where "p \<in> set load_argument" "la_debate_id p = la_debate_id a"
      "la_j p = la_j a div ARGUMENT_BRANCHING"
      using place_in_load_argument in_load_argument(3)[OF assms] by blast
    then show False
      using none by (auto simp: parent_of_def find_None_iff)
  qed
next
  assume "la_j a < ARGUMENT_BRANCHING"
  then have "la_j a div ARGUMENT_BRANCHING = 0"
    by simp
  then show "parent_of a = None"
    using in_load_argument(4) by (force simp: parent_of_def find_None_iff)
qed

text \<open>What the comment promises: whatever its own state, an argument's parent is accepted.\<close>

lemma parent_accepted:
  assumes "a \<in> set load_argument" "parent_of a = Some p"
  shows "la_status p = Some ACCEPTED"
proof -
  note p = parent_of_Some[OF assms(2)]
  have "la_j p * ARGUMENT_BRANCHING \<le> la_j a"
    unfolding p(3) by simp
  also have "\<dots> \<le> argument_count (la_debate_id p)"
    using in_load_argument(4)[OF assms(1)] p(2) by simp
  finally show ?thesis
    using in_load_argument(5)[OF p(1)] by (simp add: argument_status_def)
qed

section \<open>The database\<close>

lemma load_user_ids: "set (map u_id (load_users h e)) = int ` {1..MODERATORS + USERS}"
  by (force simp: load_users_def)

lemma load_debate_ids: "set (map d_id (load_debates e)) = int ` {1..DEBATES}"
  by (force simp: load_debates_def)

lemma load_arguments_facts:
  "map a_id (load_arguments l e) = map (int \<circ> la_id) load_argument"
  by (simp add: load_arguments_def)

lemma distinct_load_arguments: "distinct (map a_id (load_arguments l e))"
proof -
  have "distinct (map int (map la_id load_argument))"
    unfolding load_argument_ids distinct_map by (simp add: inj_on_def)
  then show ?thesis
    by (simp add: load_arguments_facts comp_def)
qed

lemma load_argument_inj: "inj_on la_id (set load_argument)"
  using load_argument_ids distinct_map[of la_id load_argument] by (metis distinct_upt)

lemma load_ticket_ids:
  "map t_id load_debate_tickets = map int (generate_series 1 DEBATES)"
  "map t_id load_argument_tickets =
     map (\<lambda>a. int (DEBATES + la_id a)) (filter (\<lambda>a. la_status a \<noteq> None) load_argument)"
  by (simp_all add: load_debate_tickets_def load_argument_tickets_def)

lemma distinct_load_argument: "distinct load_argument"
  using load_argument_ids by (metis distinct_map distinct_upt)

lemma distinct_load_tickets: "distinct (map t_id load_tickets)"
proof -
  have "inj_on (\<lambda>a. int (DEBATES + la_id a)) (set load_argument)"
    using load_argument_inj by (auto simp: inj_on_def)
  then have "distinct (map t_id load_argument_tickets)"
    unfolding load_ticket_ids distinct_map using distinct_load_argument
    by (auto intro: inj_on_subset)
  moreover have "distinct (map t_id load_debate_tickets)"
    unfolding load_ticket_ids by (simp add: distinct_map)
  moreover have "set (map t_id load_debate_tickets) \<inter> set (map t_id load_argument_tickets) = {}"
    unfolding load_ticket_ids using in_load_argument(1) by force
  ultimately show ?thesis
    by (simp add: load_tickets_def)
qed

lemma load_tickets_positive: "t \<in> set load_tickets \<Longrightarrow> 0 < t_id t"
  by (auto simp: load_tickets_def load_debate_tickets_def load_argument_tickets_def seed_sizes)

lemma load_tickets_people:
  assumes "t \<in> set load_tickets"
  shows "\<exists>u \<in> {1..MODERATORS + USERS}. t_created_by t = int u"
    and "\<forall>m. t_assigned_to t = Some m \<longrightarrow> (\<exists>u \<in> {1..MODERATORS}. m = int u)"
    and "\<exists>b. t_board_list t = Some b \<and> (b = PENDING \<or> t_assigned_to t \<noteq> None)"
proof -
  have reg: "regularUser n \<in> {1..MODERATORS + USERS}" for n
    using regularUser_range[of n] by auto
  then show "\<exists>u \<in> {1..MODERATORS + USERS}. t_created_by t = int u"
    using assms by (auto simp: load_tickets_def load_debate_tickets_def load_argument_tickets_def)
  have "moderator n \<in> {1..MODERATORS}" for n
    using moderator_range[of n] by auto
  then show "\<forall>m. t_assigned_to t = Some m \<longrightarrow> (\<exists>u \<in> {1..MODERATORS}. m = int u)"
    using assms
    by (auto simp: load_tickets_def load_debate_tickets_def load_argument_tickets_def split: if_splits)
  show "\<exists>b. t_board_list t = Some b \<and> (b = PENDING \<or> t_assigned_to t \<noteq> None)"
    using assms
    by (auto simp: load_tickets_def load_debate_tickets_def load_argument_tickets_def load_debate_board_def)
qed

lemma load_tickets_not_Nil: "load_tickets \<noteq> []"
  using series_not_Nil[of 1 DEBATES] by (simp add: load_tickets_def load_debate_tickets_def seed_sizes)

lemma load_comment_ticket: "load_tickets ! (i * SPREAD mod length load_tickets) \<in> set load_tickets"
  using load_tickets_not_Nil by (intro nth_mem) simp

lemma serial_setval:
  assumes "distinct (map k rs)" "\<And>r. r \<in> set rs \<Longrightarrow> 0 < k r" "rs \<noteq> []"
  shows "serial_key k rs (setval (map k rs))"
proof -
  have le: "k r \<le> setval (map k rs)" if "r \<in> set rs" for r
    using that by (simp add: setval_def)
  then show ?thesis
    using assms le[of "hd rs"] by (force simp: serial_key_def list_all_iff dest: hd_in_set)
qed

lemma serial_series:
  assumes "map k rs = map int (generate_series 1 n)"
  shows "serial_key k rs (int n)"
proof -
  have "k r \<in> set (map int (generate_series 1 n))" if "r \<in> set rs" for r
    using that unfolding assms[symmetric] by simp
  moreover have "distinct (map k rs)"
    unfolding assms by (simp add: distinct_map)
  ultimately show ?thesis
    by (fastforce simp: serial_key_def list_all_iff)
qed

lemma load_users_key:
  "map u_id (load_users h e) = map int (generate_series 1 (MODERATORS + USERS))"
  "map dt_id load_tags = map int (generate_series 1 TAGS)"
  "map d_id (load_debates e) = map int (generate_series 1 DEBATES)"
  "map d_ticket_id (load_debates e) = map int (generate_series 1 DEBATES)"
  "map n_id (load_notifications l) = map int (generate_series 1 NOTIFICATIONS)"
  "map tc_id (load_comments l e) = map int (generate_series 1 TICKET_COMMENTS)"
  by (simp_all add: load_users_def load_tags_def load_debates_def load_notifications_def
      load_comments_def comp_def Let_def)

lemma serial_series_setval:
  assumes "map k rs = map int (generate_series 1 n)" "1 \<le> n"
  shows "serial_key k rs (setval (map k rs))"
proof (rule serial_setval)
  show "distinct (map k rs)"
    unfolding assms(1) by (simp add: distinct_map)
  show "rs \<noteq> []"
    using assms(1) series_not_Nil[OF assms(2)] by auto
  show "0 < k r" if "r \<in> set rs" for r
  proof -
    have "k r \<in> set (map k rs)"
      using that by simp
    then show ?thesis
      unfolding assms(1) by auto
  qed
qed

lemma load_argument_not_Nil: "load_argument \<noteq> []"
  using place_in_load_argument[of 1 1] argument_count_range[of 1] by (auto simp: seed_sizes)

lemma load_keys_ok: "keys_ok (load_tables h l n e) (sqs (load_db h l n e))"
proof -
  have "serial_key t_id load_tickets (setval (map t_id load_tickets))"
    using distinct_load_tickets load_tickets_positive load_tickets_not_Nil by (rule serial_setval)
  moreover have "serial_key a_id (load_arguments l e) (setval (map a_id (load_arguments l e)))"
    using distinct_load_arguments
    by (rule serial_setval)
       (use in_load_argument(1) load_argument_not_Nil in \<open>force simp: load_arguments_def\<close>)+
  moreover have "serial_key u_id (load_users h e) (setval (map u_id (load_users h e)))"
    "serial_key d_id (load_debates e) (setval (map d_id (load_debates e)))"
    "serial_key dt_id load_tags (setval (map dt_id load_tags))"
    by (rule serial_series_setval, rule load_users_key, simp add: seed_sizes)+
  moreover have "serial_key n_id (load_notifications n) (int NOTIFICATIONS)"
    "serial_key tc_id (load_comments l e) (int TICKET_COMMENTS)"
    by (rule serial_series, rule load_users_key)+
  ultimately show ?thesis
    by (simp add: keys_ok_def load_tables_def load_db_def Let_def)
qed

lemma mod_close:
  fixes x k k' m :: nat
  assumes "(x + k) mod m = (x + k') mod m" "k < 4" "k' < 4" "4 \<le> m"
  shows "k = k'"
proof -
  have close: "k' \<le> k" if "(x + k) mod m = (x + k') mod m" "k' < 4" for k k'
  proof (rule ccontr)
    assume "\<not> k' \<le> k"
    then have "m dvd (x + k') - (x + k)"
      using mod_eq_dvd_iff_nat[of "x + k" "x + k'" m] that(1) by simp
    then have "m \<le> k' - k"
      using \<open>\<not> k' \<le> k\<close> by (simp add: dvd_imp_le)
    then show False
      using that(2) assms(4) by simp
  qed
  show ?thesis
    using close[of k k'] close[of k' k] assms by (simp add: order_antisym)
qed

lemma distinct_load_names: "inj f \<Longrightarrow> distinct (map (\<lambda>i. f (load_username i)) (generate_series 1 (MODERATORS + USERS)))"
proof -
  assume f: "inj f"
  have "inj_on (\<lambda>i. f (load_username i)) (set (generate_series 1 (MODERATORS + USERS)))"
  proof (rule inj_onI)
    fix i j
    assume "i \<in> set (generate_series 1 (MODERATORS + USERS))" "j \<in> set (generate_series 1 (MODERATORS + USERS))"
      and "f (load_username i) = f (load_username j)"
    then show "i = j"
      using load_username_inj[of i j] injD[OF f] by simp
  qed
  then show ?thesis
    unfolding distinct_map using distinct_series by blast
qed

lemma distinct_rows:
  assumes "distinct xs" "\<And>x. distinct (g x)"
    and "\<And>x y x' y'. y \<in> set (g x) \<Longrightarrow> y' \<in> set (g x') \<Longrightarrow> f x y = f x' y' \<Longrightarrow> x = x' \<and> y = y'"
  shows "distinct (concat (map (\<lambda>x. map (f x) (g x)) xs))"
  using assms(1)
proof (induction xs)
  case (Cons x xs)
  have "distinct (map (f x) (g x))"
    unfolding distinct_map using assms(2,3) by (auto intro: inj_onI)
  moreover have "set (map (f x) (g x)) \<inter> set (concat (map (\<lambda>x. map (f x) (g x)) xs)) = {}"
    using assms(3) Cons.prems by fastforce
  ultimately show ?case
    using Cons by simp
qed simp

lemma in_small_series:
  assumes "k \<in> set (generate_series 0 (d mod 4))"
  shows "k < 4"
proof -
  have "d mod 4 < 4"
    by simp
  then show ?thesis
    using assms by simp
qed

lemma distinct_load_debate_tags: "distinct load_debate_tags"
  unfolding load_debate_tags_def
proof (rule distinct_rows)
  fix d k d' k'
  assume k: "k \<in> set (generate_series 0 (d mod 4))" "k' \<in> set (generate_series 0 (d' mod 4))"
  assume eq: "\<lparr>adt_debate_id = int d, adt_tag_id = int (1 + (d * 7 + k) mod TAGS)\<rparr> =
    \<lparr>adt_debate_id = int d', adt_tag_id = int (1 + (d' * 7 + k') mod TAGS)\<rparr>"
  then have "d = d'"
    by simp
  moreover from eq this have "(d * 7 + k) mod TAGS = (d * 7 + k') mod TAGS"
    by simp
  then have "k = k'"
    using in_small_series[OF k(1)] in_small_series[OF k(2)]
    by (rule mod_close) (simp add: TAGS_def)
  ultimately show "d = d' \<and> k = k'"
    by simp
qed simp_all

lemma load_unique_ok: "unique_ok (load_tables h l n e)"
proof -
  have names: "map u_username (load_users h e) = map (\<lambda>i. id (load_username i)) (generate_series 1 (MODERATORS + USERS))"
    "map u_email (load_users h e) =
       map (\<lambda>i. (\<lambda>s. s @ ''@example.com'') (load_username i)) (generate_series 1 (MODERATORS + USERS))"
    by (simp_all add: load_users_def)
  have "inj (\<lambda>s. s @ ''@example.com'')"
    by (simp add: inj_def)
  then have "distinct (map u_username (load_users h e))" "distinct (map u_email (load_users h e))"
    unfolding names by (intro distinct_load_names inj_on_id, intro distinct_load_names)
  then show ?thesis
    using distinct_load_debate_tags by (simp add: unique_ok_def load_tables_def)
qed

lemma member_ids: "1 \<le> u \<Longrightarrow> u \<le> MODERATORS + USERS \<Longrightarrow> int u \<in> set (user_ids (load_tables h l n e))"
  unfolding user_ids_def load_tables_def by (simp only: tables.simps load_user_ids) simp

lemma regular_member: "int (regularUser i) \<in> set (user_ids (load_tables h l n e))"
  using regularUser_range[of i] by (intro member_ids) auto

lemma load_comment_people:
  assumes "c \<in> set (load_comments l e)"
  shows "\<exists>t \<in> set load_tickets. tc_ticket_id c = t_id t \<and>
    (tc_commenter_id c = t_created_by t \<or> t_assigned_to t = Some (tc_commenter_id c))"
proof -
  obtain i where c: "c = (let t = load_tickets ! (i * SPREAD mod length load_tickets)
              in \<lparr>tc_id = int i, tc_ticket_id = t_id t, tc_content = l,
                  tc_commenter_id = (if i mod 2 = 0 then t_created_by t
                    else case t_assigned_to t of Some m \<Rightarrow> m | None \<Rightarrow> t_created_by t),
                  tc_created_at = e + i * 300, tc_modified_at = e + i * 300\<rparr>)"
    using assms unfolding load_comments_def set_map image_iff by blast
  show ?thesis
    by (rule bexI[OF _ load_comment_ticket[of i]]) (simp add: c Let_def split: option.split)
qed

lemma load_refs_ok: "refs_ok (load_tables h l n e)"
proof -
  let ?ts = "load_tables h l n e"
  have tick: "t_created_by t \<in> set (user_ids ?ts)" "t_assigned_to t = Some m \<Longrightarrow> m \<in> set (user_ids ?ts)"
    if "t \<in> set load_tickets" for t m
    using load_tickets_people(1,2)[OF that] member_ids by fastforce+
  have deb: "int d \<in> set (debate_ids ?ts)" if "1 \<le> d" "d \<le> DEBATES" for d
    using that by (simp add: debate_ids_def load_tables_def load_users_key)
  have arg: "a_debate_id a \<in> set (debate_ids ?ts) \<and> a_created_by a \<in> set (user_ids ?ts)"
    if a: "a \<in> set (load_arguments l e)" for a
  proof -
    obtain r where r: "r \<in> set load_argument" "a_debate_id a = int (la_debate_id r)"
      "a_created_by a = int (regularUser (la_id r))"
      using a by (auto simp: load_arguments_def)
    have "la_debate_id r \<le> DEBATES"
      using in_load_argument(3)[OF r(1)] by (simp add: seed_sizes)
    then show ?thesis
      using deb[of "la_debate_id r"] in_load_argument(3)[OF r(1)] regular_member r by simp
  qed
  have com: "tc_ticket_id c \<in> set (ticket_ids ?ts) \<and> tc_commenter_id c \<in> set (user_ids ?ts)"
    if "c \<in> set (load_comments l e)" for c
    using load_comment_people[OF that] tick by (auto simp: ticket_ids_def load_tables_def)
  have recipient: "n_recipient_id m \<in> set (user_ids ?ts)" if m: "m \<in> set (load_notifications n)" for m
  proof -
    obtain i where "n_recipient_id m = int (notification_recipient i)"
      using m by (auto simp: load_notifications_def)
    then show ?thesis
      using notification_recipient_range[of i] member_ids by simp
  qed
  have tag: "adt_debate_id r \<in> set (debate_ids ?ts)" if r: "r \<in> set load_debate_tags" for r
    using r deb by (auto simp: load_debate_tags_def)
  show ?thesis
    unfolding refs_ok_def list_all_iff
    using tick(1) arg com recipient tag by (simp add: load_tables_def)
qed

lemma sum_list_bound: "(\<And>x. x \<in> set xs \<Longrightarrow> f x \<le> (b::nat)) \<Longrightarrow> sum_list (map f xs) \<le> length xs * b"
  by (induction xs) (auto simp: add_mono)

lemma length_series [simp]: "length (generate_series 1 n) = n"
  by (simp add: generate_series_def)

lemma number_of_arguments: "length argument_places \<le> 6000000"
proof -
  have count: "argument_count d \<le> 3000" for d
    using argument_count_range[of d] by (auto split: if_splits)
  have "length argument_places = sum_list (map argument_count (generate_series 1 ACCEPTED_DEBATES))"
    by (simp add: argument_places_def length_concat comp_def flip: One_nat_def)
  also have "\<dots> \<le> ACCEPTED_DEBATES * 3000"
    using sum_list_bound[of "generate_series 1 ACCEPTED_DEBATES" argument_count 3000] count
    by (simp flip: One_nat_def)
  finally show ?thesis
    by (simp add: ACCEPTED_DEBATES_def)
qed

lemma load_widths_ok: "widths_ok (load_tables h l n e)"
proof -
  have args: "length (a_title a) \<le> 80" if a: "a \<in> set (load_arguments l e)" for a
  proof -
    obtain r where r: "r \<in> set load_argument" "length (a_title a) = 15 + length (nat_to_string (la_id r))"
      using a by (force simp: load_arguments_def)
    have "la_id r < 10 ^ 8"
      using in_load_argument(2)[OF r(1)] number_of_arguments by simp
    then show ?thesis
      using number_title[of "la_id r"] r(2) by simp
  qed
  have user: "length (u_username u) \<le> 80 \<and> length (u_email u) \<le> 255" if u: "u \<in> set (load_users h e)" for u
  proof -
    obtain i where i: "u_username u = load_username i" "u_email u = load_username i @ ''@example.com''"
      using u unfolding load_users_def set_map by fastforce
    show ?thesis
      using length_load_username[of i] unfolding i by simp
  qed
  have deb: "length (d_title d) \<le> 80" if d: "d \<in> set (load_debates e)" for d
  proof -
    obtain i where i: "i \<le> DEBATES" "length (d_title d) = 13 + length (nat_to_string i)"
      using d by (force simp: load_debates_def)
    then show ?thesis
      using number_title[of i] by (simp add: seed_sizes)
  qed
  have title: "length (n_title m) \<le> 40" if m: "m \<in> set (load_notifications n)" for m
  proof -
    obtain i where i: "n_title m = [''New debate proposed'', ''New comment on argument'',
        ''New comment on debate''] ! (i mod 3)"
      using m unfolding load_notifications_def set_map by fastforce
    consider "i mod 3 = 0" | "i mod 3 = 1" | "i mod 3 = 2"
      by linarith
    then show ?thesis
      by cases (simp_all add: i)
  qed
  have tag: "length (dt_name t) \<le> 30" if t: "t \<in> set load_tags" for t
    using t by (auto simp: load_tags_def)
  show ?thesis
    unfolding widths_ok_def list_all_iff using args user deb title tag by (simp add: load_tables_def)
qed

section \<open>The application's invariant\<close>

lemma in_load_users:
  assumes "1 \<le> u" "u \<le> MODERATORS"
  shows "list_ex (\<lambda>r. u_id r = int u \<and> u_role r = Some MODERATOR) (load_users h e)"
proof -
  have "u \<in> set (generate_series 1 (MODERATORS + USERS))"
    using assms by simp
  then show ?thesis
    unfolding load_users_def list_ex_iff set_map using assms(2) by fastforce
qed

lemma load_debates_app: "d \<in> set (load_debates e) \<Longrightarrow> debate_ok (load_tables h l n e) d"
  unfolding debate_ok_def list_ex_iff load_tables_def
  by (force simp: load_debates_def load_tickets_def load_debate_tickets_def)

lemma load_argument_ticket:
  assumes "r \<in> set load_argument" "la_status r \<noteq> None"
  shows "\<exists>t \<in> set load_tickets. t_id t = int (DEBATES + la_id r) \<and> t_created_by t = int (regularUser (la_id r))"
  using assms by (force simp: load_tickets_def load_argument_tickets_def)

lemma load_arguments_app:
  assumes "a \<in> set (load_arguments l e)"
  shows "argument_ok (load_tables h l n e) a"
proof -
  obtain r where r: "r \<in> set load_argument" "a_is_draft a \<longleftrightarrow> la_status r = None"
    "a_ticket_id a = (if la_status r \<noteq> None then Some (int (DEBATES + la_id r)) else None)"
    "a_created_by a = int (regularUser (la_id r))"
    using assms by (auto simp: load_arguments_def)
  show ?thesis
    unfolding argument_ok_def list_ex_iff
    using load_argument_ticket[OF r(1)] r(2-4) by (simp add: load_tables_def)
qed

lemma load_tickets_app:
  assumes "t \<in> set load_tickets"
  shows "ticket_ok (load_tables h l n e) t"
proof -
  have people: "list_ex (\<lambda>u. u_id u = m \<and> u_role u = Some MODERATOR) (load_users h e)"
    if m: "t_assigned_to t = Some m" for m
  proof -
    obtain u where "u \<in> {1..MODERATORS}" "m = int u"
      using load_tickets_people(2)[OF assms, rule_format, OF m] by (elim bexE)
    then show ?thesis
      using in_load_users[of u] by simp
  qed
  obtain b where "t_board_list t = Some b" "b = PENDING \<or> t_assigned_to t \<noteq> None"
    using load_tickets_people(3)[OF assms] by blast
  then show ?thesis
    unfolding ticket_ok_def using people by (simp add: load_tables_def split: option.split)
qed

lemma load_ticket_refs: "distinct (ticket_refs (load_tables h l n e))"
proof -
  have shape: "ticket_refs (load_tables h l n e) = map t_id load_tickets"
    by (simp add: ticket_refs_def load_tables_def load_users_key(4) load_tickets_def load_ticket_ids
        load_arguments_def filter_map comp_def)
  show ?thesis
    unfolding shape by (rule distinct_load_tickets)
qed

lemma load_app_ok: "app_ok (load_tables h l n e)"
proof -
  have tables: "debates (load_tables h l n e) = load_debates e"
    "arguments (load_tables h l n e) = load_arguments l e" "tickets (load_tables h l n e) = load_tickets"
    by (simp_all add: load_tables_def)
  show ?thesis
    unfolding app_ok_def tables list_all_iff
    using load_debates_app load_arguments_app load_tickets_app load_ticket_refs by blast
qed

text \<open>
  C29: The rows of the load-test seed, whatever the password's hash, the two texts and the epoch,
  satisfy the schema (keys, sequences past the rows, unique names and e-mail addresses, references,
  widths) and what the application keeps of its tables (a ticket of its own for every debate and
  every argument that is not a draft, created by the same user; a moderator on every ticket that has
  left PENDING); and an argument's parent is accepted, whatever the argument's own state.
\<close>

theorem load_database_ok:
  "schema_ok (load_db h l n e) \<and> app_ok (tabs (load_db h l n e))
     \<and> list_all (\<lambda>a. case parent_of a of None \<Rightarrow> la_j a < ARGUMENT_BRANCHING
          | Some p \<Rightarrow> la_debate_id p = la_debate_id a \<and> la_status p = Some ACCEPTED) load_argument"
proof (intro conjI)
  have tabs: "tabs (load_db h l n e) = load_tables h l n e"
    by (simp add: load_db_def Let_def)
  show "schema_ok (load_db h l n e)"
    unfolding schema_ok_def tabs
    using load_keys_ok load_unique_ok load_refs_ok load_widths_ok by blast
  show "app_ok (tabs (load_db h l n e))"
    unfolding tabs by (rule load_app_ok)
  show "list_all (\<lambda>a. case parent_of a of None \<Rightarrow> la_j a < ARGUMENT_BRANCHING
          | Some p \<Rightarrow> la_debate_id p = la_debate_id a \<and> la_status p = Some ACCEPTED) load_argument"
    unfolding list_all_iff
    using parent_of_None parent_accepted parent_of_Some(2) by (auto split: option.split)
qed

end
