(* ===== verification/Rich_Editor.thy ===== *)
theory Rich_Editor
  imports Events
begin

text \<open>
  The editor that renders the documents of the notification events
  (\<open>apps/api/src/utils/rich-editor.ts\<close>): one editor for the whole process, filled by
  \<open>insertNodes\<close> and read and cleared by a callback of \<open>setImmediate\<close>. Two parameters stand for the
  Lexical library: \<open>ins\<close>, what inserting nodes makes of the nodes that are there, and \<open>stringify\<close>,
  the JSON text of a state. A call and a callback are each one step, with the microtasks behind
  it: the library commits an update in a microtask, and so runs the \<open>finally\<close> of the promise; the
  callbacks run in the order they were registered, with other work of the process in between.
\<close>

section \<open>The editor\<close>

record rich_editor =
  re_nodes :: document
  re_immediates :: "nat list"
  re_promises :: "string option list"

definition createEditor :: rich_editor where
  "createEditor = \<lparr>re_nodes = [], re_immediates = [], re_promises = []\<rparr>"

definition insertNodes ::
  "(document \<Rightarrow> document \<Rightarrow> document) \<Rightarrow> document \<Rightarrow> rich_editor \<Rightarrow> rich_editor" where
  "insertNodes ins nodes ed = ed\<lparr>re_nodes := ins (re_nodes ed) nodes\<rparr>"

definition clearEditor :: "rich_editor \<Rightarrow> rich_editor" where
  "clearEditor ed = ed\<lparr>re_nodes := []\<rparr>"

text \<open>\<open>getContent\<close> of the inserted nodes: a promise that a callback resolves.\<close>

definition promise_content :: "rich_editor \<Rightarrow> rich_editor" where
  "promise_content ed =
     ed\<lparr>re_immediates := re_immediates ed @ [length (re_promises ed)],
        re_promises := re_promises ed @ [None]\<rparr>"

definition resolve_content :: "(document \<Rightarrow> string) \<Rightarrow> rich_editor \<Rightarrow> rich_editor" where
  "resolve_content stringify ed =
     (case re_immediates ed of
        [] \<Rightarrow> ed
      | i # rest \<Rightarrow>
          clearEditor (ed\<lparr>re_immediates := rest,
            re_promises := (re_promises ed)[i := Some (stringify (re_nodes ed))]\<rparr>))"

text \<open>Every event builds its nodes and asks for their text in one expression.\<close>

definition event_getContent ::
  "(document \<Rightarrow> document \<Rightarrow> document) \<Rightarrow> notification_event_obj \<Rightarrow> rich_editor \<Rightarrow> rich_editor" where
  "event_getContent ins ev ed = promise_content (insertNodes ins (getContent ev) ed)"

section \<open>Requests that overlap\<close>

datatype editor_action = Ask notification_event_obj | Immediate

fun editor_step ::
  "(document \<Rightarrow> document \<Rightarrow> document) \<Rightarrow> (document \<Rightarrow> string) \<Rightarrow> editor_action \<Rightarrow> rich_editor \<Rightarrow> rich_editor" where
  "editor_step ins stringify (Ask ev) ed = event_getContent ins ev ed"
| "editor_step ins stringify Immediate ed = resolve_content stringify ed"

definition run_editor ::
  "(document \<Rightarrow> document \<Rightarrow> document) \<Rightarrow> (document \<Rightarrow> string) \<Rightarrow> editor_action list \<Rightarrow> rich_editor \<Rightarrow> rich_editor" where
  "run_editor ins stringify acts ed = fold (editor_step ins stringify) acts ed"

text \<open>The states in which nothing is scheduled are those in which the editor is empty.\<close>

definition editor_ok :: "rich_editor \<Rightarrow> bool" where
  "editor_ok ed \<longleftrightarrow> (re_immediates ed = [] \<longrightarrow> re_nodes ed = []) \<and>
     (\<exists>k \<le> length (re_promises ed). re_immediates ed = [k..<length (re_promises ed)] \<and>
        list_all (\<lambda>p. p \<noteq> None) (take k (re_promises ed)) \<and>
        list_all (\<lambda>p. p = None) (drop k (re_promises ed)))"

definition idle_editor :: "rich_editor \<Rightarrow> bool" where
  "idle_editor ed \<longleftrightarrow> re_immediates ed = []"

lemmas editor_defs = event_getContent_def promise_content_def insertNodes_def resolve_content_def
  clearEditor_def

lemma editor_ok_step: "editor_ok ed \<Longrightarrow> editor_ok (editor_step ins stringify act ed)"
proof (cases act)
  case (Ask ev)
  assume "editor_ok ed"
  then obtain k where k: "k \<le> length (re_promises ed)" "re_immediates ed = [k..<length (re_promises ed)]"
    "list_all (\<lambda>p. p \<noteq> None) (take k (re_promises ed))" "list_all (\<lambda>p. p = None) (drop k (re_promises ed))"
    by (auto simp: editor_ok_def)
  then show ?thesis
    unfolding editor_ok_def Ask by (auto simp: editor_defs intro!: exI[of _ k])
next
  case Immediate
  assume ok: "editor_ok ed"
  then obtain k where k: "k \<le> length (re_promises ed)" "re_immediates ed = [k..<length (re_promises ed)]"
    "list_all (\<lambda>p. p \<noteq> None) (take k (re_promises ed))" "list_all (\<lambda>p. p = None) (drop k (re_promises ed))"
    by (auto simp: editor_ok_def)
  show ?thesis
  proof (cases "k = length (re_promises ed)")
    case True
    then show ?thesis
      using ok k by (simp add: Immediate resolve_content_def)
  next
    case False
    then have less: "k < length (re_promises ed)"
      using k(1) by simp
    then have queue: "re_immediates ed = k # [Suc k..<length (re_promises ed)]"
      using k(2) upt_conv_Cons by simp
    have "list_all (\<lambda>p. p = None) (drop (Suc k) (re_promises ed))"
      using k(4) less by (simp add: Cons_nth_drop_Suc[symmetric])
    then show ?thesis
      unfolding editor_ok_def Immediate using less queue k(3)
      by (auto simp: editor_defs take_Suc_conv_app_nth intro!: exI[of _ "Suc k"])
  qed
qed

lemma editor_ok_run: "editor_ok ed \<Longrightarrow> editor_ok (run_editor ins stringify acts ed)"
  unfolding run_editor_def by (induction acts arbitrary: ed) (simp_all add: editor_ok_step)

lemma editor_ok_create [simp]: "editor_ok createEditor"
  by (simp add: editor_ok_def createEditor_def)

lemma idle_editor_empty: "editor_ok ed \<Longrightarrow> idle_editor ed \<Longrightarrow> re_nodes ed = []"
  by (simp add: editor_ok_def idle_editor_def)

section \<open>What the callers get\<close>

lemma ask_all:
  "run_editor ins stringify (map Ask evs) ed =
     ed\<lparr>re_nodes := foldl ins (re_nodes ed) (map getContent evs),
        re_immediates := re_immediates ed @ [length (re_promises ed)..<length (re_promises ed) + length evs],
        re_promises := re_promises ed @ replicate (length evs) None\<rparr>"
proof (induction evs arbitrary: ed)
  case Nil
  then show ?case
    by (simp add: run_editor_def)
next
  case (Cons ev evs)
  have "run_editor ins stringify (map Ask (ev # evs)) ed =
      run_editor ins stringify (map Ask evs) (event_getContent ins ev ed)"
    by (simp add: run_editor_def)
  also have "\<dots> = ed\<lparr>re_nodes := foldl ins (re_nodes ed) (map getContent (ev # evs)),
        re_immediates := re_immediates ed @ length (re_promises ed) # [Suc (length (re_promises ed))..<length (re_promises ed) + length (ev # evs)],
        re_promises := re_promises ed @ None # replicate (length evs) None\<rparr>"
    unfolding Cons.IH by (simp add: editor_defs)
  finally show ?case
    by (simp add: upt_conv_Cons del: upt_Suc)
qed

lemma resolve_empty:
  "run_editor ins stringify (replicate n Immediate)
      \<lparr>re_nodes = [], re_immediates = [length ps..<length ps + n],
       re_promises = ps @ replicate n None\<rparr> =
     \<lparr>re_nodes = [], re_immediates = [], re_promises = ps @ replicate n (Some (stringify []))\<rparr>"
proof (induction n arbitrary: ps)
  case 0
  then show ?case
    by (simp add: run_editor_def)
next
  case (Suc n)
  have "run_editor ins stringify (replicate (Suc n) Immediate)
      \<lparr>re_nodes = [], re_immediates = [length ps..<length ps + Suc n],
       re_promises = ps @ replicate (Suc n) None\<rparr> =
    run_editor ins stringify (replicate n Immediate)
      \<lparr>re_nodes = [], re_immediates = [length (ps @ [Some (stringify [])])..<length (ps @ [Some (stringify [])]) + n],
       re_promises = (ps @ [Some (stringify [])]) @ replicate n None\<rparr>"
    by (simp add: run_editor_def editor_defs upt_conv_Cons del: upt_Suc)
  also have "\<dots> = \<lparr>re_nodes = [], re_immediates = [],
      re_promises = (ps @ [Some (stringify [])]) @ replicate n (Some (stringify []))\<rparr>"
    by (rule Suc.IH)
  finally show ?case
    by simp
qed

lemma overlapping_contents:
  assumes "editor_ok ed" "idle_editor ed"
  shows "run_editor ins stringify (map Ask (ev # evs) @ replicate (length (ev # evs)) Immediate) ed =
    ed\<lparr>re_promises := re_promises ed @ Some (stringify (foldl ins [] (map getContent (ev # evs))))
        # replicate (length evs) (Some (stringify []))\<rparr>"
proof -
  let ?n = "length (re_promises ed)"
  let ?first = "Some (stringify (foldl ins [] (map getContent (ev # evs))))"
  have nodes: "re_nodes ed = []" "re_immediates ed = []"
    using idle_editor_empty[OF assms] assms(2) by (simp_all add: idle_editor_def)
  have "run_editor ins stringify (map Ask (ev # evs) @ replicate (length (ev # evs)) Immediate) ed =
      run_editor ins stringify (replicate (length (ev # evs)) Immediate)
        (run_editor ins stringify (map Ask (ev # evs)) ed)"
    by (simp add: run_editor_def)
  also have "\<dots> = run_editor ins stringify (replicate (length evs) Immediate)
      (resolve_content stringify (run_editor ins stringify (map Ask (ev # evs)) ed))"
    by (simp add: run_editor_def)
  also have "resolve_content stringify (run_editor ins stringify (map Ask (ev # evs)) ed) =
      \<lparr>re_nodes = [], re_immediates = [length (re_promises ed @ [?first])..<length (re_promises ed @ [?first]) + length evs],
       re_promises = (re_promises ed @ [?first]) @ replicate (length evs) None\<rparr>"
    unfolding ask_all by (simp add: editor_defs nodes upt_conv_Cons del: upt_Suc)
  also have "run_editor ins stringify (replicate (length evs) Immediate) \<dots> =
      \<lparr>re_nodes = [], re_immediates = [],
       re_promises = (re_promises ed @ [?first]) @ replicate (length evs) (Some (stringify []))\<rparr>"
    by (rule resolve_empty)
  also have "\<dots> = ed\<lparr>re_promises := re_promises ed @ ?first # replicate (length evs) (Some (stringify []))\<rparr>"
    by (cases ed) (use nodes in simp)
  finally show ?thesis .
qed

lemma contents_one_by_one:
  assumes "\<forall>ns. ins [] ns = ns" "editor_ok ed" "idle_editor ed"
  shows "run_editor ins stringify (concat (map (\<lambda>ev. [Ask ev, Immediate]) evs)) ed =
    ed\<lparr>re_promises := re_promises ed @ map (Some \<circ> stringify \<circ> getContent) evs\<rparr>"
  using assms(2,3)
proof (induction evs arbitrary: ed)
  case Nil
  then show ?case
    by (simp add: run_editor_def)
next
  case (Cons ev evs)
  let ?ed = "run_editor ins stringify [Ask ev, Immediate] ed"
  have step: "?ed = ed\<lparr>re_promises := re_promises ed @ [Some (stringify (getContent ev))]\<rparr>"
    using overlapping_contents[OF Cons.prems, of ins stringify ev "[]"] assms(1) by simp
  have "editor_ok ?ed" "idle_editor ?ed"
    using editor_ok_run[OF Cons.prems(1), of ins stringify "[Ask ev, Immediate]"] Cons.prems(2) step
    by (simp_all add: idle_editor_def)
  then have "run_editor ins stringify (concat (map (\<lambda>ev. [Ask ev, Immediate]) evs)) ?ed =
      ?ed\<lparr>re_promises := re_promises ?ed @ map (Some \<circ> stringify \<circ> getContent) evs\<rparr>"
    by (rule Cons.IH)
  moreover have "run_editor ins stringify (concat (map (\<lambda>ev. [Ask ev, Immediate]) (ev # evs))) ed =
      run_editor ins stringify (concat (map (\<lambda>ev. [Ask ev, Immediate]) evs)) ?ed"
    by (simp add: run_editor_def)
  ultimately show ?case
    by (simp add: step)
qed

text \<open>C23: Events whose texts are asked for one after another get their own documents. When several
  ask before the first callback runs, the first gets the nodes of all of them in one text and the
  others get the text of an empty document: each gets its own exactly when it is alone.\<close>

theorem event_contents:
  assumes "\<forall>ns. ins [] ns = ns" "editor_ok ed" "idle_editor ed"
    and "\<forall>ev. stringify (getContent ev) \<noteq> stringify []"
  shows "re_promises (run_editor ins stringify (concat (map (\<lambda>ev. [Ask ev, Immediate]) evs)) ed) =
      re_promises ed @ map (Some \<circ> stringify \<circ> getContent) evs \<and>
    (let together = re_promises (run_editor ins stringify (map Ask (e # es) @ replicate (length (e # es)) Immediate) ed)
     in together = re_promises ed @ Some (stringify (foldl ins (getContent e) (map getContent es)))
            # replicate (length es) (Some (stringify [])) \<and>
        (together = re_promises ed @ map (Some \<circ> stringify \<circ> getContent) (e # es) \<longleftrightarrow> es = []))"
proof -
  have "replicate (length es) (Some (stringify [])) = map (Some \<circ> stringify \<circ> getContent) es \<longleftrightarrow> es = []"
    using assms(4) by (cases es) (simp_all, metis)
  then show ?thesis
    unfolding contents_one_by_one[where ins = ins and ed = ed, OF assms(1-3)] overlapping_contents[OF assms(2,3)] Let_def
    by (auto simp: assms(1))
qed

theorem event_contents_witness:
  "re_promises (run_editor (@) (\<lambda>ns. replicate (length ns) (CHR ''p''))
      [Ask (DebateTicketCreated 1 ''a''), Ask (ArgumentTicketCreated 2 ''b''), Immediate, Immediate] createEditor) =
    [Some ''pp'', Some ''''] \<and>
   re_promises (run_editor (@) (\<lambda>ns. replicate (length ns) (CHR ''p''))
      [Ask (DebateTicketCreated 1 ''a''), Immediate, Ask (ArgumentTicketCreated 2 ''b''), Immediate] createEditor) =
    [Some ''p'', Some ''p'']"
proof -
  have "length (getContent ev) = 1" for ev
    using event_content_link by blast
  then have nonempty: "replicate (length (getContent ev)) (CHR ''p'') \<noteq> replicate (length ([] :: document)) (CHR ''p'')" for ev
    by simp
  have idle: "idle_editor createEditor"
    by (simp add: idle_editor_def createEditor_def)
  note * = event_contents[of "(@)" createEditor "\<lambda>ns. replicate (length ns) (CHR ''p'')"
      "[DebateTicketCreated 1 ''a'', ArgumentTicketCreated 2 ''b'']" "DebateTicketCreated 1 ''a''"
      "[ArgumentTicketCreated 2 ''b'']", OF _ editor_ok_create idle]
  show ?thesis
    using * nonempty by (simp add: createEditor_def ticket_created_document_def Let_def)
qed

end
