(* ===== verification/Dev_Seed.thy ===== *)
theory Dev_Seed
  imports Debates_Correct
begin

text \<open>
  The database of a developer's machine (\<open>packages/db/data/seeds/03_debates.ts\<close>): the statements of
  the seed, run one after another on whatever database is there, and what they leave. The hashes of
  the passwords and the two texts of \<open>fixtures.ts\<close> are parameters. The tables that the model leaves
  out (subscriptions, suggestions, tags of tickets) are taken to be empty, as no code fills them;
  the updates of \<open>Promise.all\<close> touch different rows and are run in the order they are written.
\<close>

section \<open>Emptying the tables\<close>

text \<open>Deleting all rows of a table, with what goes with them by \<open>on delete cascade\<close>.\<close>

definition delete_tickets :: "unit stmt" where
  "delete_tickets = update_stmt
     (\<lambda>ts. ts\<lparr>tickets := [],
             ticket_comments := filter (\<lambda>c. tc_ticket_id c \<notin> set (ticket_ids ts)) (ticket_comments ts)\<rparr>)
     (\<lambda>_. ())"

definition delete_debates :: "unit stmt" where
  "delete_debates = update_stmt
     (\<lambda>ts. ts\<lparr>debates := [],
             assoc_debate_tags := filter (\<lambda>r. adt_debate_id r \<notin> set (debate_ids ts)) (assoc_debate_tags ts),
             arguments := filter (\<lambda>a. a_debate_id a \<notin> set (debate_ids ts)) (arguments ts)\<rparr>)
     (\<lambda>_. ())"

definition delete_assoc_debate_tags :: "unit stmt" where
  "delete_assoc_debate_tags = update_stmt (\<lambda>ts. ts\<lparr>assoc_debate_tags := []\<rparr>) (\<lambda>_. ())"

text \<open>The authors of arguments and of comments keep their users from being deleted.\<close>

definition delete_users :: "unit stmt" where
  "delete_users = (\<lambda>db. let ts = tabs db in
     if list_ex (\<lambda>a. a_created_by a \<in> set (user_ids ts)) (arguments ts)
        \<or> list_ex (\<lambda>c. tc_commenter_id c \<in> set (user_ids ts)) (ticket_comments ts)
     then (Inl ForeignKeyViolation, db)
     else (Inr (), db\<lparr>tabs := ts\<lparr>users := [],
             tickets := filter (\<lambda>t. t_created_by t \<notin> set (user_ids ts)) (tickets ts),
             notifications := filter (\<lambda>n. n_recipient_id n \<notin> set (user_ids ts)) (notifications ts)\<rparr>\<rparr>))"

definition delete_debate_tags :: "unit stmt" where
  "delete_debate_tags = update_stmt (\<lambda>ts. ts\<lparr>debate_tags := []\<rparr>) (\<lambda>_. ())"

definition delete_arguments :: "unit stmt" where
  "delete_arguments = update_stmt (\<lambda>ts. ts\<lparr>arguments := []\<rparr>) (\<lambda>_. ())"

definition delete_ticket_comments :: "unit stmt" where
  "delete_ticket_comments = update_stmt (\<lambda>ts. ts\<lparr>ticket_comments := []\<rparr>) (\<lambda>_. ())"

definition delete_notifications :: "unit stmt" where
  "delete_notifications = update_stmt (\<lambda>ts. ts\<lparr>notifications := []\<rparr>) (\<lambda>_. ())"

text \<open>One awaited statement after another; the first error ends the seed.\<close>

definition after :: "'a stmt \<Rightarrow> ('a \<Rightarrow> 'b stmt) \<Rightarrow> 'b stmt" where
  "after st k = (\<lambda>db. case st db of (Inl e, db') \<Rightarrow> (Inl e, db') | (Inr a, db') \<Rightarrow> k a db')"

definition seed_delete :: "unit stmt" where
  "seed_delete =
     after delete_tickets (\<lambda>_. after delete_debates (\<lambda>_. after delete_assoc_debate_tags (\<lambda>_.
     after delete_users (\<lambda>_. after delete_debate_tags (\<lambda>_. after delete_arguments (\<lambda>_.
     after delete_ticket_comments (\<lambda>_. delete_notifications)))))))"

section \<open>The rows\<close>

definition seed_users :: "string \<Rightarrow> string \<Rightarrow> string \<Rightarrow> (string \<times> string \<times> string \<times> user_role) list" where
  "seed_users h0 h1 h2 =
     [(''foo.bar'', h0, ''foo@bar.com'', USER),
      (''mod.bar'', h1, ''mod@bar.com'', MODERATOR),
      (''mod.beer'', h2, ''mod@beer.com'', MODERATOR)]"

text \<open>The tickets of the debates, of the first debate's arguments and of the second's.\<close>

definition seed_debate_tickets :: "int \<Rightarrow> int \<Rightarrow> (int option \<times> board_list) list" where
  "seed_debate_tickets m0 m1 =
     [(Some m0, ACCEPTED), (Some m0, ACCEPTED), (Some m0, ACCEPTED),
      (Some m1, IN_REVIEW), (Some m1, IN_REVIEW),
      (None, PENDING), (None, PENDING),
      (Some m0, IN_REVIEW)]"

definition seed_debate_titles :: "string list" where
  "seed_debate_titles =
     [''An interesting topic#1'', ''An interesting topic#2'', ''An interesting topic#3'',
      ''An interesting topic#4'', ''An interesting topic#5'', ''pending topic#1'', ''pending topic#2'',
      ''in review topic#1'']"

definition seed_tags :: "string list" where
  "seed_tags = [''history'', ''community'', ''health'']"

definition seed_assoc :: "(nat \<times> nat) list" where
  "seed_assoc = [(0, 0), (0, 1), (1, 0), (2, 1), (2, 2), (3, 2), (4, 2), (5, 0), (6, 1), (7, 2)]"

definition seed_argument_tickets :: "int \<Rightarrow> int \<Rightarrow> (int option \<times> board_list) list" where
  "seed_argument_tickets m0 m1 =
     [(Some m0, ACCEPTED), (Some m0, ACCEPTED), (Some m0, ACCEPTED),
      (Some m1, ACCEPTED), (Some m1, ACCEPTED),
      (Some m1, IN_REVIEW), (Some m0, IN_REVIEW)]"

definition seed_arguments :: "(string \<times> string) list" where
  "seed_arguments =
     [(''Pro#1'', ''PRO''), (''Pro#2'', ''PRO''), (''Pro#3'', ''PRO''), (''Con#1'', ''CON''),
      (''Con#2'', ''CON''), (''Con#3'', ''CON''), (''Con#4'', ''CON'')]"

definition seed_thread_tickets :: "int \<Rightarrow> (int option \<times> board_list) list" where
  "seed_thread_tickets m0 = replicate 13 (Some m0, ACCEPTED)"

definition seed_thread :: "(string \<times> string) list" where
  "seed_thread =
     [(''Pro#1'', ''PRO''), (''Con#1'', ''CON''), (''Con#2'', ''CON''), (''Con#3'', ''CON''),
      (''Pro#2'', ''PRO''), (''Pro#3'', ''PRO''), (''Pro#4'', ''PRO''), (''Pro#5'', ''PRO''),
      (''Pro#6'', ''PRO''), (''Con#4'', ''CON''), (''Con#5'', ''CON''), (''Con#6'', ''CON''),
      (''Pro#7'', ''PRO'')]"

text \<open>Which arguments answer which: the positions in the thread.\<close>

definition seed_answers :: "(nat list \<times> nat) list" where
  "seed_answers =
     [([1, 2, 3], 0), ([4, 5], 1), ([6], 2), ([7, 8], 3), ([9, 10, 11], 7), ([12], 9)]"

definition seed_notifications :: "(string \<times> notification_event \<times> bool) list" where
  "seed_notifications =
     [(''New debate proposed'', EV_DEBATE, False), (''New comment on argument'', EV_ARGUMENT, False),
      (''New comment on debate'', EV_DEBATE, True)]"

section \<open>The statements\<close>

definition insert_seed_user :: "string \<times> string \<times> string \<times> user_role \<Rightarrow> user_row stmt" where
  "insert_seed_user = (\<lambda>(username, password, email, role). insert_user username password email (Some role))"

definition insert_seed_ticket :: "int \<Rightarrow> int option \<times> board_list \<Rightarrow> ticket_row stmt" where
  "insert_seed_ticket user = (\<lambda>(assigned, board). insert_ticket (JNum user) assigned (Some board))"

definition insert_seed_debate :: "int \<Rightarrow> ticket_row \<times> string \<Rightarrow> debate_row stmt" where
  "insert_seed_debate user = (\<lambda>(t, title). insert_debate (t_id t) title (JNum user))"

definition insert_seed_argument ::
  "int \<Rightarrow> string \<Rightarrow> int \<Rightarrow> ticket_row \<times> string \<times> string \<Rightarrow> argument_row stmt" where
  "insert_seed_argument user longText debateId = (\<lambda>(t, title, type).
     insert_argument \<lparr>av_debate_id = JNum debateId, av_ticket_id = Some (t_id t), av_title = title,
       av_content = longText, av_counterargument_to = JNull, av_created_by = JNum user,
       av_type = type, av_is_draft = False\<rparr>)"

definition answer_stmt :: "argument_row list \<Rightarrow> nat list \<times> nat \<Rightarrow> unit stmt" where
  "answer_stmt args = (\<lambda>(is, p). update_stmt
     (\<lambda>ts. ts\<lparr>arguments := map (\<lambda>a. if a_id a \<in> set (map (\<lambda>i. a_id (args ! i)) is)
        then a\<lparr>a_counterargument_to := Some (a_id (args ! p))\<rparr> else a) (arguments ts)\<rparr>)
     (\<lambda>_. ()))"

definition insert_seed_notification ::
  "int \<Rightarrow> string \<Rightarrow> string \<times> notification_event \<times> bool \<Rightarrow> notification_row stmt" where
  "insert_seed_notification user notificationText = (\<lambda>(title, ev, isRead).
     with_param (varchar 40 title) (\<lambda>ttl.
       serial_insert notification_seq (\<lambda>i q. q\<lparr>notification_seq := i\<rparr>) (\<lambda>ts. map n_id (notifications ts))
         (\<lambda>ts. references user (user_ids ts))
         (\<lambda>i t. \<lparr>n_id = i, n_title = ttl, n_content = notificationText, n_recipient_id = user,
                 n_event = ev, n_is_read = isRead\<rparr>)
         (\<lambda>r ts. ts\<lparr>notifications := notifications ts @ [r]\<rparr>)))"

definition seed_debates_part :: "user_row list \<Rightarrow> (ticket_row list \<times> debate_row list) stmt" where
  "seed_debates_part us =
     (let user = u_id (us ! 0); m0 = u_id (us ! 1); m1 = u_id (us ! 2)
      in after (insert_rows (insert_seed_ticket user) (seed_debate_tickets m0 m1)) (\<lambda>ticketsIds.
         after (insert_rows (insert_seed_debate user) (zip ticketsIds seed_debate_titles)) (\<lambda>debateIds.
         after (insert_rows insert_debate_tag seed_tags) (\<lambda>tags.
         after (insert_rows insert_assoc_debate_tag
           (map (\<lambda>(d, t). (d_id (debateIds ! d), JNum (dt_id (tags ! t)))) seed_assoc)) (\<lambda>_ db.
         (Inr (ticketsIds, debateIds), db))))))"

definition seed_arguments_part :: "string \<Rightarrow> user_row list \<Rightarrow> debate_row list \<Rightarrow> unit stmt" where
  "seed_arguments_part longText us debateIds =
     (let user = u_id (us ! 0); m0 = u_id (us ! 1); m1 = u_id (us ! 2)
      in after (insert_rows (insert_seed_ticket user) (seed_argument_tickets m0 m1)) (\<lambda>argTickets.
         after (insert_rows (insert_seed_argument user longText (d_id (debateIds ! 0)))
           (zip argTickets seed_arguments)) (\<lambda>_ db. (Inr (), db))))"

definition seed_thread_part :: "string \<Rightarrow> user_row list \<Rightarrow> debate_row list \<Rightarrow> unit stmt" where
  "seed_thread_part longText us debateIds =
     (let user = u_id (us ! 0); m0 = u_id (us ! 1)
      in after (insert_rows (insert_seed_ticket user) (seed_thread_tickets m0)) (\<lambda>argTickets.
         after (insert_rows (insert_seed_argument user longText (d_id (debateIds ! 1)))
           (zip argTickets seed_thread)) (\<lambda>args.
         after (insert_rows (answer_stmt args) seed_answers) (\<lambda>_ db. (Inr (), db)))))"

definition seed_comments_part :: "string \<Rightarrow> string \<Rightarrow> user_row list \<Rightarrow> ticket_row list \<Rightarrow> unit stmt" where
  "seed_comments_part longText notificationText us ticketsIds =
     (let user = u_id (us ! 0); m0 = u_id (us ! 1)
      in after (insert_rows (insert_ticket_comment (t_id (ticketsIds ! 7)) longText) [user, user, m0, m0]) (\<lambda>_.
         after (insert_rows (insert_seed_notification user notificationText) seed_notifications) (\<lambda>_ db.
         (Inr (), db))))"

definition seed :: "string \<Rightarrow> string \<Rightarrow> string \<Rightarrow> string \<Rightarrow> string \<Rightarrow> unit stmt" where
  "seed h0 h1 h2 longText notificationText =
     after seed_delete (\<lambda>_.
     after (insert_rows insert_seed_user (seed_users h0 h1 h2)) (\<lambda>us.
     after (seed_debates_part us) (\<lambda>(ticketsIds, debateIds).
     after (seed_arguments_part longText us debateIds) (\<lambda>_.
     after (seed_thread_part longText us debateIds) (\<lambda>_.
     seed_comments_part longText notificationText us ticketsIds)))))"

section \<open>What the deletions leave\<close>

lemma seed_delete_run:
  assumes "schema_ok db"
  shows "seed_delete db = (Inr (), db\<lparr>tabs := empty_tables\<rparr>)"
proof -
  have refs: "refs_ok (tabs db)"
    using assms by (simp add: schema_ok_def)
  then have "filter (\<lambda>c. tc_ticket_id c \<notin> set (ticket_ids (tabs db))) (ticket_comments (tabs db)) = []"
    "filter (\<lambda>r. adt_debate_id r \<notin> set (debate_ids (tabs db))) (assoc_debate_tags (tabs db)) = []"
    "filter (\<lambda>a. a_debate_id a \<notin> set (debate_ids (tabs db))) (arguments (tabs db)) = []"
    "filter (\<lambda>n. n_recipient_id n \<notin> set (user_ids (tabs db))) (notifications (tabs db)) = []"
    by (simp_all add: refs_ok_def list_all_iff filter_empty_conv)
  then show ?thesis
    by (simp add: seed_delete_def after_def delete_tickets_def delete_debates_def
        delete_assoc_debate_tags_def delete_users_def delete_debate_tags_def delete_arguments_def
        delete_ticket_comments_def delete_notifications_def update_stmt_def Let_def empty_tables_def
        ticket_ids_def debate_ids_def user_ids_def)
qed

lemma schema_ok_emptied: "schema_ok db \<Longrightarrow> schema_ok (db\<lparr>tabs := empty_tables\<rparr>)"
  by (simp add: schema_ok_def keys_ok_def unique_ok_def refs_ok_def widths_ok_def empty_tables_def
      serial_key_def)

section \<open>What the insertions leave\<close>

text \<open>Rows with the identifiers that follow a given one.\<close>

primrec number_rows :: "(int \<Rightarrow> 'v \<Rightarrow> 'r) \<Rightarrow> int \<Rightarrow> 'v list \<Rightarrow> 'r list" where
  "number_rows row s [] = []"
| "number_rows row s (v # vs) = row (s + 1) v # number_rows row (s + 1) vs"

lemma number_rows_append:
  "number_rows row s (us @ vs) = number_rows row s us @ number_rows row (s + int (length us)) vs"
  by (induction us arbitrary: s) (simp_all add: add.assoc)

lemma number_rows_keys:
  assumes "\<And>i v. k (row i v) = i" "r \<in> set (number_rows row s vs)"
  shows "s < k r \<and> k r \<le> s + int (length vs)"
  using assms(2) by (induction vs arbitrary: s) (fastforce simp: assms(1))+

lemma insert_rows_put:
  assumes "\<And>us v. (\<exists>ws. vs = us @ v # ws) \<Longrightarrow> ins v (put (number_rows row s us)) =
      (Inr (row (s + int (length us) + 1) v), put (number_rows row s (us @ [v])))"
  shows "insert_rows ins vs (put []) = (Inr (number_rows row s vs), put (number_rows row s vs))"
proof -
  have "insert_rows ins ws (put (number_rows row s us)) =
      (Inr (number_rows row (s + int (length us)) ws), put (number_rows row s vs))" if "vs = us @ ws" for us ws
    using that
  proof (induction ws arbitrary: us)
    case (Cons v ws)
    have step: "ins v (put (number_rows row s us)) =
        (Inr (row (s + int (length us) + 1) v), put (number_rows row s (us @ [v])))"
      using assms Cons.prems by blast
    have "insert_rows ins ws (put (number_rows row s (us @ [v]))) =
        (Inr (number_rows row (s + int (length (us @ [v]))) ws), put (number_rows row s vs))"
      using Cons.prems by (intro Cons.IH) simp
    then show ?case
      using step by (simp add: algebra_simps)
  qed simp
  from this[of "[]" vs] show ?thesis
    by simp
qed

definition ticket_numbered :: "int \<Rightarrow> int \<Rightarrow> int option \<times> board_list \<Rightarrow> ticket_row" where
  "ticket_numbered user i v =
     \<lparr>t_id = i, t_created_by = user, t_assigned_to = fst v, t_board_list = Some (snd v)\<rparr>"

lemma insert_tickets_run:
  assumes "int4 user" "user \<in> set (user_ids (tabs db))" "\<forall>t \<in> set (tickets (tabs db)). t_id t \<le> s"
    "ticket_seq (sqs db) = s" "s + int (length vs) \<le> 2147483647"
  shows "insert_rows (insert_seed_ticket user) vs db =
    (Inr (number_rows (ticket_numbered user) s vs),
     db\<lparr>sqs := (sqs db)\<lparr>ticket_seq := s + int (length vs)\<rparr>,
        tabs := (tabs db)\<lparr>tickets := tickets (tabs db) @ number_rows (ticket_numbered user) s vs\<rparr>\<rparr>)"
proof -
  let ?row = "ticket_numbered user"
  define put where "put rs = db\<lparr>sqs := (sqs db)\<lparr>ticket_seq := s + int (length rs)\<rparr>,
    tabs := (tabs db)\<lparr>tickets := tickets (tabs db) @ rs\<rparr>\<rparr>" for rs
  have len: "length (number_rows ?row s us) = length us" for us
    by (induction us arbitrary: s) simp_all
  have "insert_rows (insert_seed_ticket user) vs (put []) =
      (Inr (number_rows ?row s vs), put (number_rows ?row s vs))"
  proof (rule insert_rows_put)
    fix us v
    assume "\<exists>ws. vs = us @ v # ws"
    then have room: "s + int (length us) < 2147483647"
      using assms(5) by auto
    have "s + int (length us) + 1 \<notin> set (ticket_ids (tabs (put (number_rows ?row s us))))"
      using assms(3) number_rows_keys[of t_id ?row _ s us]
      by (fastforce simp: put_def ticket_ids_def ticket_numbered_def)
    moreover have "user \<in> set (user_ids (tabs (put rs)))" for rs
      using assms(2) by (simp add: put_def user_ids_def)
    ultimately show "insert_seed_ticket user v (put (number_rows ?row s us)) =
        (Inr (?row (s + int (length us) + 1) v), put (number_rows ?row s (us @ [v])))"
      using assms(1) room
      by (simp add: insert_seed_ticket_def insert_ticket_def with_param_def serial_insert_def nextval_def
          references_def case_prod_beta number_rows_append ticket_numbered_def put_def len Let_def
          not_null_def int_param.simps(3))
  qed
  moreover have "put [] = db"
    using assms(4) by (simp add: put_def)
  ultimately show ?thesis
    by (simp add: put_def len)
qed

lemma length_number_rows [simp]: "length (number_rows row s vs) = length vs"
  by (induction vs arbitrary: s) simp_all

definition debate_numbered :: "int \<Rightarrow> nat \<Rightarrow> int \<Rightarrow> ticket_row \<times> string \<Rightarrow> debate_row" where
  "debate_numbered user at i v =
     \<lparr>d_id = i, d_ticket_id = t_id (fst v), d_title = snd v, d_created_at = at, d_modified_at = at,
      d_created_by = user\<rparr>"

lemma insert_debates_run:
  assumes "int4 user" "debates (tabs db) = []" "\<forall>v \<in> set vs. length (snd v) \<le> 80"
    "debate_seq (sqs db) = s" "s + int (length vs) \<le> 2147483647" "now db = at"
  shows "insert_rows (insert_seed_debate user) vs db =
    (Inr (number_rows (debate_numbered user at) s vs),
     db\<lparr>sqs := (sqs db)\<lparr>debate_seq := s + int (length vs)\<rparr>,
        tabs := (tabs db)\<lparr>debates := number_rows (debate_numbered user at) s vs\<rparr>\<rparr>)"
proof -
  let ?row = "debate_numbered user at"
  define put where "put rs = db\<lparr>sqs := (sqs db)\<lparr>debate_seq := s + int (length rs)\<rparr>,
    tabs := (tabs db)\<lparr>debates := rs\<rparr>\<rparr>" for rs
  have "insert_rows (insert_seed_debate user) vs (put []) =
      (Inr (number_rows ?row s vs), put (number_rows ?row s vs))"
  proof (rule insert_rows_put)
    fix us v
    assume v: "\<exists>ws. vs = us @ v # ws"
    then have room: "s + int (length us) < 2147483647" and "length (snd v) \<le> 80"
      using assms(3,5) by auto
    moreover have "s + int (length us) + 1 \<notin> set (debate_ids (tabs (put (number_rows ?row s us))))"
      using number_rows_keys[of d_id ?row _ s us]
      by (fastforce simp: put_def debate_ids_def debate_numbered_def)
    ultimately show "insert_seed_debate user v (put (number_rows ?row s us)) =
        (Inr (?row (s + int (length us) + 1) v), put (number_rows ?row s (us @ [v])))"
      using assms(1,6)
      by (simp add: insert_seed_debate_def insert_debate_def with_param_def serial_insert_def nextval_def
          case_prod_beta number_rows_append debate_numbered_def put_def Let_def varchar_short
          not_null_def int_param.simps(3))
  qed
  moreover have "put [] = db"
    using assms(2,4) by (simp add: put_def)
  ultimately show ?thesis
    by (simp add: put_def)
qed

definition argument_numbered ::
  "int \<Rightarrow> string \<Rightarrow> int \<Rightarrow> nat \<Rightarrow> int \<Rightarrow> ticket_row \<times> string \<times> string \<Rightarrow> argument_row" where
  "argument_numbered user longText did at i = (\<lambda>(t, title, type).
     \<lparr>a_id = i, a_debate_id = did, a_ticket_id = Some (t_id t), a_title = title, a_content = longText,
      a_counterargument_to = None, a_created_by = user, a_created_at = at,
      a_type = parse_argument_type type, a_is_draft = False\<rparr>)"

lemma insert_arguments_run:
  assumes "int4 user" "int4 did" "user \<in> set (user_ids (tabs db))" "did \<in> set (debate_ids (tabs db))"
    "\<forall>a \<in> set (arguments (tabs db)). a_id a \<le> s"
    "\<forall>(t, title, type) \<in> set vs. length title \<le> 80 \<and> parse_argument_type type \<noteq> None"
    "argument_seq (sqs db) = s" "s + int (length vs) \<le> 2147483647" "now db = at"
  shows "insert_rows (insert_seed_argument user longText did) vs db =
    (Inr (number_rows (argument_numbered user longText did at) s vs),
     db\<lparr>sqs := (sqs db)\<lparr>argument_seq := s + int (length vs)\<rparr>,
        tabs := (tabs db)\<lparr>arguments := arguments (tabs db)
          @ number_rows (argument_numbered user longText did at) s vs\<rparr>\<rparr>)"
proof -
  let ?row = "argument_numbered user longText did at"
  define put where "put rs = db\<lparr>sqs := (sqs db)\<lparr>argument_seq := s + int (length rs)\<rparr>,
    tabs := (tabs db)\<lparr>arguments := arguments (tabs db) @ rs\<rparr>\<rparr>" for rs
  have "insert_rows (insert_seed_argument user longText did) vs (put []) =
      (Inr (number_rows ?row s vs), put (number_rows ?row s vs))"
  proof (rule insert_rows_put)
    fix us v
    assume v: "\<exists>ws. vs = us @ v # ws"
    then have room: "s + int (length us) < 2147483647"
      using assms(8) by auto
    obtain t title type ty where parts: "v = (t, title, type)" "length title \<le> 80"
      "parse_argument_type type = Some ty"
      using v assms(6) by (cases v) force
    have keys: "a_id (?row i v) = i" for i v
      by (simp add: argument_numbered_def case_prod_beta)
    have "s + int (length us) + 1 \<notin> set (map a_id (arguments (tabs (put (number_rows ?row s us)))))"
      using assms(5) number_rows_keys[of a_id ?row, OF keys, of _ s us] by (fastforce simp: put_def)
    moreover have "user \<in> set (user_ids (tabs (put rs)))" "did \<in> set (debate_ids (tabs (put rs)))" for rs
      using assms(3,4) by (simp_all add: put_def user_ids_def debate_ids_def)
    ultimately show "insert_seed_argument user longText did v (put (number_rows ?row s us)) =
        (Inr (?row (s + int (length us) + 1) v), put (number_rows ?row s (us @ [v])))"
      using assms(1,2,9) room parts
      by (simp add: insert_seed_argument_def insert_argument_def with_param_def serial_insert_def
          nextval_def references_def number_rows_append argument_numbered_def put_def Let_def
          varchar_short not_null_def enum_param_def int_param.simps(3))
  qed
  moreover have "put [] = db"
    using assms(7) by (simp add: put_def)
  ultimately show ?thesis
    by (simp add: put_def)
qed

section \<open>The seeded database\<close>

definition dev_users :: "string \<Rightarrow> string \<Rightarrow> string \<Rightarrow> database \<Rightarrow> user_row list" where
  "dev_users h0 h1 h2 db = number_rows (\<lambda>i (un, pw, em, role). \<lparr>u_id = i, u_username = un,
     u_password = pw, u_email = em, u_created_at = now db, u_role = Some role\<rparr>)
     (user_seq (sqs db)) (seed_users h0 h1 h2)"

lemma insert_users_run:
  assumes "list_all (\<lambda>h. length h \<le> 65) [h0, h1, h2]" "user_seq (sqs db) + 3 \<le> 2147483647"
    "users (tabs db) = []"
  shows "insert_rows insert_seed_user (seed_users h0 h1 h2) db =
    (Inr (dev_users h0 h1 h2 db),
     db\<lparr>sqs := (sqs db)\<lparr>user_seq := user_seq (sqs db) + 3\<rparr>,
        tabs := (tabs db)\<lparr>users := dev_users h0 h1 h2 db\<rparr>\<rparr>)"
  using assms
  by (simp add: seed_users_def dev_users_def insert_seed_user_def insert_user_def with_param_def
      serial_insert_def nextval_def varchar_short user_ids_def Let_def)

definition dev_tags :: "database \<Rightarrow> debate_tag_row list" where
  "dev_tags db = number_rows (\<lambda>i name. \<lparr>dt_id = i, dt_name = name\<rparr>) (debate_tag_seq (sqs db)) seed_tags"

lemma insert_tags_run:
  assumes "debate_tag_seq (sqs db) + 3 \<le> 2147483647" "debate_tags (tabs db) = []"
  shows "insert_rows insert_debate_tag seed_tags db =
    (Inr (dev_tags db), db\<lparr>sqs := (sqs db)\<lparr>debate_tag_seq := debate_tag_seq (sqs db) + 3\<rparr>,
        tabs := (tabs db)\<lparr>debate_tags := dev_tags db\<rparr>\<rparr>)"
  using assms
  by (simp add: seed_tags_def dev_tags_def insert_debate_tag_def with_param_def serial_insert_def
      nextval_def varchar_short Let_def)

definition dev_assoc :: "debate_row list \<Rightarrow> debate_tag_row list \<Rightarrow> assoc_row list" where
  "dev_assoc ds gs = map (\<lambda>(d, g). \<lparr>adt_debate_id = d_id (ds ! d), adt_tag_id = dt_id (gs ! g)\<rparr>) seed_assoc"

lemma insert_assoc_put:
  assumes "distinct (map (\<lambda>(d, g). \<lparr>adt_debate_id = d, adt_tag_id = g\<rparr>) vs)"
    "\<forall>(d, g) \<in> set vs. d \<in> set (debate_ids (tabs db)) \<and> int4 g"
    "\<forall>(d, g) \<in> set vs. \<lparr>adt_debate_id = d, adt_tag_id = g\<rparr> \<notin> set (assoc_debate_tags (tabs db))"
  shows "insert_rows insert_assoc_debate_tag (map (\<lambda>(d, g). (d, JNum g)) vs) db =
    (let rows = map (\<lambda>(d, g). \<lparr>adt_debate_id = d, adt_tag_id = g\<rparr>) vs
     in (Inr rows, db\<lparr>tabs := (tabs db)\<lparr>assoc_debate_tags := assoc_debate_tags (tabs db) @ rows\<rparr>\<rparr>))"
  using assms
proof (induction vs arbitrary: db)
  case (Cons v vs)
  obtain d g where v: "v = (d, g)" by (cases v)
  let ?r = "\<lparr>adt_debate_id = d, adt_tag_id = g\<rparr>"
  let ?db = "db\<lparr>tabs := (tabs db)\<lparr>assoc_debate_tags := assoc_debate_tags (tabs db) @ [?r]\<rparr>\<rparr>"
  have "insert_assoc_debate_tag (d, JNum g) db = (Inr ?r, ?db)"
    using Cons.prems(2,3)
    by (simp add: v insert_assoc_debate_tag_def with_param_def not_null_def int_param.simps(3) Let_def)
  moreover have "insert_rows insert_assoc_debate_tag (map (\<lambda>(d, g). (d, JNum g)) vs) ?db =
    (let rows = map (\<lambda>(d, g). \<lparr>adt_debate_id = d, adt_tag_id = g\<rparr>) vs
     in (Inr rows, ?db\<lparr>tabs := (tabs ?db)\<lparr>assoc_debate_tags := assoc_debate_tags (tabs ?db) @ rows\<rparr>\<rparr>))"
    using Cons.prems by (intro Cons.IH) (auto simp: v debate_ids_def)
  ultimately show ?case
    by (simp add: v Let_def)
qed (simp add: Let_def)

lemma nth_number_rows: "i < length vs \<Longrightarrow> number_rows row s vs ! i = row (s + 1 + int i) (vs ! i)"
proof (induction vs arbitrary: i s)
  case (Cons v vs)
  then show ?case
    by (cases i) (simp_all add: algebra_simps)
qed simp

text \<open>The rows by the last values of the sequences before: of users, tickets, debates, tags, arguments.\<close>

definition dev_debate_tickets :: "int \<Rightarrow> int \<Rightarrow> ticket_row list" where
  "dev_debate_tickets u t = number_rows (ticket_numbered (u + 1)) t (seed_debate_tickets (u + 2) (u + 3))"

definition dev_debates :: "int \<Rightarrow> int \<Rightarrow> int \<Rightarrow> nat \<Rightarrow> debate_row list" where
  "dev_debates u t d at =
     number_rows (debate_numbered (u + 1) at) d (zip (dev_debate_tickets u t) seed_debate_titles)"

definition dev_pairs :: "int \<Rightarrow> int \<Rightarrow> (int \<times> int) list" where
  "dev_pairs d g = map (\<lambda>(i, j). (d + 1 + int i, g + 1 + int j)) seed_assoc"

definition room :: "database \<Rightarrow> bool" where
  "room db \<longleftrightarrow> (let q = sqs db in
     0 \<le> user_seq q \<and> user_seq q + 3 \<le> 2147483647
     \<and> 0 \<le> ticket_seq q \<and> ticket_seq q + 28 \<le> 2147483647
     \<and> 0 \<le> debate_seq q \<and> debate_seq q + 8 \<le> 2147483647
     \<and> 0 \<le> debate_tag_seq q \<and> debate_tag_seq q + 3 \<le> 2147483647
     \<and> 0 \<le> argument_seq q \<and> argument_seq q + 20 \<le> 2147483647
     \<and> 0 \<le> ticket_comment_seq q \<and> ticket_comment_seq q + 4 \<le> 2147483647
     \<and> 0 \<le> notification_seq q \<and> notification_seq q + 3 \<le> 2147483647)"

lemma dev_users_ids:
  "map u_id (dev_users h0 h1 h2 db) = [user_seq (sqs db) + 1, user_seq (sqs db) + 2, user_seq (sqs db) + 3]"
  by (simp add: dev_users_def seed_users_def)

lemma seed_lengths:
  "length (seed_debate_tickets m0 m1) = 8" "length seed_debate_titles = 8"
  "length (seed_argument_tickets m0 m1) = 7" "length seed_arguments = 7"
  "length (seed_thread_tickets m0) = 13" "length seed_thread = 13" "length seed_tags = 3"
  by (simp_all add: seed_debate_tickets_def seed_debate_titles_def seed_argument_tickets_def
      seed_arguments_def seed_thread_tickets_def seed_thread_def seed_tags_def)

lemma debates_part_run:
  assumes us: "map u_id us = [u + 1, u + 2, u + 3]" "users (tabs db) = us" "0 \<le> u" "u + 3 \<le> 2147483647"
    and empty: "tickets (tabs db) = []" "debates (tabs db) = []" "debate_tags (tabs db) = []"
      "assoc_debate_tags (tabs db) = []"
    and room: "ticket_seq (sqs db) + 8 \<le> 2147483647" "debate_seq (sqs db) + 8 \<le> 2147483647"
      "0 \<le> debate_tag_seq (sqs db)" "debate_tag_seq (sqs db) + 3 \<le> 2147483647"
  defines "t \<equiv> ticket_seq (sqs db)" and "d \<equiv> debate_seq (sqs db)" and "g \<equiv> debate_tag_seq (sqs db)"
  shows "seed_debates_part us db = (Inr (dev_debate_tickets u t, dev_debates u t d (now db)),
    db\<lparr>sqs := (sqs db)\<lparr>ticket_seq := t + 8, debate_seq := d + 8, debate_tag_seq := g + 3\<rparr>,
       tabs := (tabs db)\<lparr>tickets := dev_debate_tickets u t, debates := dev_debates u t d (now db),
         debate_tags := dev_tags db,
         assoc_debate_tags := map (\<lambda>(i, j). \<lparr>adt_debate_id = i, adt_tag_id = j\<rparr>) (dev_pairs d g)\<rparr>\<rparr>)"
proof -
  obtain a b c where abc: "us = [a, b, c]" "u_id a = u + 1" "u_id b = u + 2" "u_id c = u + 3"
    using us(1) by (auto simp: map_eq_Cons_conv)
  have int4: "int4 (u + 1)"
    using us(3,4) by (simp add: int4_def)
  have mem: "u + 1 \<in> set (user_ids (tabs db))"
    by (simp add: user_ids_def us(2) abc)
  define db1 where "db1 = db\<lparr>sqs := (sqs db)\<lparr>ticket_seq := t + 8\<rparr>,
    tabs := (tabs db)\<lparr>tickets := dev_debate_tickets u t\<rparr>\<rparr>"
  define db2 where "db2 = db1\<lparr>sqs := (sqs db1)\<lparr>debate_seq := d + 8\<rparr>,
    tabs := (tabs db1)\<lparr>debates := dev_debates u t d (now db)\<rparr>\<rparr>"
  define db3 where "db3 = db2\<lparr>sqs := (sqs db2)\<lparr>debate_tag_seq := g + 3\<rparr>,
    tabs := (tabs db2)\<lparr>debate_tags := dev_tags db\<rparr>\<rparr>"
  have 1: "insert_rows (insert_seed_ticket (u + 1)) (seed_debate_tickets (u + 2) (u + 3)) db =
      (Inr (dev_debate_tickets u t), db1)"
    unfolding db1_def dev_debate_tickets_def
    by (subst insert_tickets_run[OF int4 mem, of t])
       (use empty room in \<open>simp_all add: t_def room_def Let_def seed_lengths\<close>)
  have titles: "\<forall>v \<in> set (zip (dev_debate_tickets u t) seed_debate_titles). length (snd v) \<le> 80"
    by (auto dest!: set_zip_rightD simp: seed_debate_titles_def)
  have 2: "insert_rows (insert_seed_debate (u + 1)) (zip (dev_debate_tickets u t) seed_debate_titles) db1 =
      (Inr (dev_debates u t d (now db)), db2)"
    unfolding db2_def dev_debates_def
    by (subst insert_debates_run[OF int4 _ titles, of _ d "now db"])
       (use empty room in \<open>simp_all add: db1_def d_def room_def Let_def dev_debate_tickets_def seed_lengths\<close>)
  have 3: "insert_rows insert_debate_tag seed_tags db2 = (Inr (dev_tags db), db3)"
    unfolding db3_def
    by (subst insert_tags_run) (use empty room in
        \<open>simp_all add: db1_def db2_def g_def room_def Let_def dev_tags_def\<close>)
  have ids: "d_id (dev_debates u t d at ! i) = d + 1 + int i" if "i < 8" for i at
    using that by (simp add: dev_debates_def nth_number_rows dev_debate_tickets_def seed_lengths debate_numbered_def)
  have tag: "dt_id (dev_tags db ! j) = g + 1 + int j" if "j < 3" for j
    using that by (simp add: dev_tags_def nth_number_rows seed_lengths g_def)
  have pairs: "map (\<lambda>(i, j). (d_id (dev_debates u t d (now db) ! i), JNum (dt_id (dev_tags db ! j)))) seed_assoc
      = map (\<lambda>(i, j). (i, JNum j)) (dev_pairs d g)"
    by (simp add: seed_assoc_def dev_pairs_def ids tag)
  have "d + 1 + int i \<in> set (debate_ids (tabs db3))" if "i < 8" for i
  proof -
    have "dev_debates u t d (now db) ! i \<in> set (dev_debates u t d (now db))"
      using that by (intro nth_mem) (simp add: dev_debates_def dev_debate_tickets_def seed_lengths)
    from imageI[OF this, of d_id] show ?thesis
      unfolding ids[OF that] by (simp add: db3_def db2_def debate_ids_def)
  qed
  moreover have "int4 (g + 1 + int j)" if "j < 3" for j
    using that room by (auto simp: int4_def g_def room_def Let_def)
  moreover have "list_all (\<lambda>(i, j). i < 8 \<and> j < 3) seed_assoc"
    by (simp add: seed_assoc_def)
  ultimately have known: "\<forall>(i, j) \<in> set (dev_pairs d g). i \<in> set (debate_ids (tabs db3)) \<and> int4 j"
    by (fastforce simp: dev_pairs_def list_all_iff)
  have 4: "insert_rows insert_assoc_debate_tag (map (\<lambda>(i, j). (i, JNum j)) (dev_pairs d g)) db3 =
      (Inr (map (\<lambda>(i, j). \<lparr>adt_debate_id = i, adt_tag_id = j\<rparr>) (dev_pairs d g)),
       db3\<lparr>tabs := (tabs db3)\<lparr>assoc_debate_tags :=
         map (\<lambda>(i, j). \<lparr>adt_debate_id = i, adt_tag_id = j\<rparr>) (dev_pairs d g)\<rparr>\<rparr>)"
    by (subst insert_assoc_put[OF _ known])
       (use empty in \<open>simp_all add: db1_def db2_def db3_def Let_def dev_pairs_def seed_assoc_def\<close>)
  show ?thesis
    unfolding seed_debates_part_def Let_def after_def
    by (simp add: abc 1 2 3 pairs 4) (simp add: db1_def db2_def db3_def)
qed

definition dev_argument_tickets :: "int \<Rightarrow> int \<Rightarrow> ticket_row list" where
  "dev_argument_tickets u t = number_rows (ticket_numbered (u + 1)) (t + 8) (seed_argument_tickets (u + 2) (u + 3))"

definition dev_thread_tickets :: "int \<Rightarrow> int \<Rightarrow> ticket_row list" where
  "dev_thread_tickets u t = number_rows (ticket_numbered (u + 1)) (t + 15) (seed_thread_tickets (u + 2))"

definition dev_arguments :: "string \<Rightarrow> int \<Rightarrow> int \<Rightarrow> int \<Rightarrow> int \<Rightarrow> nat \<Rightarrow> argument_row list" where
  "dev_arguments l u t d a at =
     number_rows (argument_numbered (u + 1) l (d + 1) at) a (zip (dev_argument_tickets u t) seed_arguments)"

definition dev_thread :: "string \<Rightarrow> int \<Rightarrow> int \<Rightarrow> int \<Rightarrow> int \<Rightarrow> nat \<Rightarrow> argument_row list" where
  "dev_thread l u t d a at =
     number_rows (argument_numbered (u + 1) l (d + 2) at) (a + 7) (zip (dev_thread_tickets u t) seed_thread)"

lemma dev_lengths [simp]:
  "length (dev_debate_tickets u t) = 8" "length (dev_argument_tickets u t) = 7"
  "length (dev_thread_tickets u t) = 13" "length (dev_debates u t d at) = 8"
  "length (dev_arguments l u t d a at) = 7" "length (dev_thread l u t d a at) = 13"
  by (simp_all add: dev_debate_tickets_def dev_argument_tickets_def dev_thread_tickets_def
      dev_debates_def dev_arguments_def dev_thread_def seed_lengths)

lemma argument_numbered_id [simp]: "a_id (argument_numbered user l did at i v) = i"
  by (simp add: argument_numbered_def case_prod_beta)

lemma ticket_numbered_id [simp]: "t_id (ticket_numbered user i v) = i"
  by (simp add: ticket_numbered_def)

lemma dev_ids:
  "i < 8 \<Longrightarrow> d_id (dev_debates u t d at ! i) = d + 1 + int i"
  "i < 8 \<Longrightarrow> t_id (dev_debate_tickets u t ! i) = t + 1 + int i"
  "i < 13 \<Longrightarrow> a_id (dev_thread l u t d a at ! i) = a + 8 + int i"
  by (simp_all add: dev_debates_def dev_debate_tickets_def dev_thread_def dev_thread_tickets_def
      nth_number_rows seed_lengths debate_numbered_def)

text \<open>A group of arguments with its tickets, on a database that has the user and the debate.\<close>

lemma argument_group_run:
  fixes l :: string
  assumes "int4 user" "int4 did" "user \<in> set (user_ids (tabs db))" "did \<in> set (debate_ids (tabs db))"
    "\<forall>t \<in> set (tickets (tabs db)). t_id t \<le> s" "ticket_seq (sqs db) = s"
    "s + int (length vs) \<le> 2147483647"
    "\<forall>a \<in> set (arguments (tabs db)). a_id a \<le> r" "argument_seq (sqs db) = r"
    "r + int (length texts) \<le> 2147483647" "length texts = length vs"
    "list_all (\<lambda>(title, type). length title \<le> 80 \<and> parse_argument_type type \<noteq> None) texts"
  defines "tk \<equiv> number_rows (ticket_numbered user) s vs"
  defines "as \<equiv> number_rows (argument_numbered user l did (now db)) r (zip tk texts)"
  shows "after (insert_rows (insert_seed_ticket user) vs) (\<lambda>argTickets.
      after (insert_rows (insert_seed_argument user l did) (zip argTickets texts)) k) db =
    k as (db\<lparr>sqs := (sqs db)\<lparr>ticket_seq := s + int (length vs), argument_seq := r + int (length texts)\<rparr>,
      tabs := (tabs db)\<lparr>tickets := tickets (tabs db) @ tk, arguments := arguments (tabs db) @ as\<rparr>\<rparr>)"
proof -
  let ?db = "db\<lparr>sqs := (sqs db)\<lparr>ticket_seq := s + int (length vs)\<rparr>,
      tabs := (tabs db)\<lparr>tickets := tickets (tabs db) @ tk\<rparr>\<rparr>"
  have 1: "insert_rows (insert_seed_ticket user) vs db = (Inr tk, ?db)"
    unfolding tk_def using assms(1,3,5,6,7) by (rule insert_tickets_run)
  have len: "length (zip tk texts) = length texts"
    using assms(11) by (simp add: tk_def)
  have "\<forall>(t, title, type) \<in> set (zip tk texts). length title \<le> 80 \<and> parse_argument_type type \<noteq> None"
    using assms(12) by (auto dest!: set_zip_rightD simp: list_all_iff)
  then have 2: "insert_rows (insert_seed_argument user l did) (zip tk texts) ?db =
      (Inr as, ?db\<lparr>sqs := (sqs ?db)\<lparr>argument_seq := r + int (length texts)\<rparr>,
        tabs := (tabs ?db)\<lparr>arguments := arguments (tabs ?db) @ as\<rparr>\<rparr>)"
    unfolding as_def len[symmetric] using assms(3,4,8-10) len
    by (intro insert_arguments_run assms(1,2)) (simp_all add: user_ids_def debate_ids_def)
  show ?thesis
    by (simp add: after_def 1 2)
qed

definition answer :: "argument_row list \<Rightarrow> nat list \<times> nat \<Rightarrow> argument_row \<Rightarrow> argument_row" where
  "answer args v a = (if a_id a \<in> set (map (\<lambda>i. a_id (args ! i)) (fst v))
     then a\<lparr>a_counterargument_to := Some (a_id (args ! snd v))\<rparr> else a)"

lemma answers_run:
  "insert_rows (answer_stmt args) vs db = (Inr (map (\<lambda>_. ()) vs),
     db\<lparr>tabs := (tabs db)\<lparr>arguments := map (fold (answer args) vs) (arguments (tabs db))\<rparr>\<rparr>)"
proof (induction vs arbitrary: db)
  case (Cons v vs)
  have "answer_stmt args v db = (Inr (),
      db\<lparr>tabs := (tabs db)\<lparr>arguments := map (answer args v) (arguments (tabs db))\<rparr>\<rparr>)"
    by (simp add: answer_stmt_def update_stmt_def answer_def case_prod_beta)
  then show ?case
    using Cons.IH by simp
qed simp

definition dev_comments :: "string \<Rightarrow> int \<Rightarrow> int \<Rightarrow> int \<Rightarrow> nat \<Rightarrow> comment_row list" where
  "dev_comments l u t c at = number_rows (\<lambda>i w. \<lparr>tc_id = i, tc_ticket_id = t + 8, tc_content = l,
     tc_commenter_id = w, tc_created_at = at, tc_modified_at = at\<rparr>) c [u + 1, u + 1, u + 2, u + 2]"

definition dev_notifications :: "string \<Rightarrow> int \<Rightarrow> int \<Rightarrow> notification_row list" where
  "dev_notifications text u n = number_rows (\<lambda>i (title, ev, isRead). \<lparr>n_id = i, n_title = title,
     n_content = text, n_recipient_id = u + 1, n_event = ev, n_is_read = isRead\<rparr>) n seed_notifications"

lemma insert_comments_run:
  assumes "ticket_comments (tabs db) = []" "t + 8 \<in> set (ticket_ids (tabs db))"
    "{u + 1, u + 2} \<subseteq> set (user_ids (tabs db))" "ticket_comment_seq (sqs db) = c" "c + 4 \<le> 2147483647"
  shows "insert_rows (insert_ticket_comment (t + 8) l) [u + 1, u + 1, u + 2, u + 2] db =
    (Inr (dev_comments l u t c (now db)), db\<lparr>sqs := (sqs db)\<lparr>ticket_comment_seq := c + 4\<rparr>,
       tabs := (tabs db)\<lparr>ticket_comments := dev_comments l u t c (now db)\<rparr>\<rparr>)"
  using assms
  by (simp add: dev_comments_def insert_ticket_comment_def serial_insert_def nextval_def references_def
      ticket_ids_def user_ids_def Let_def)

lemma insert_notifications_run:
  assumes "notifications (tabs db) = []" "u + 1 \<in> set (user_ids (tabs db))"
    "notification_seq (sqs db) = n" "n + 3 \<le> 2147483647"
  shows "insert_rows (insert_seed_notification (u + 1) text) seed_notifications db =
    (Inr (dev_notifications text u n), db\<lparr>sqs := (sqs db)\<lparr>notification_seq := n + 3\<rparr>,
       tabs := (tabs db)\<lparr>notifications := dev_notifications text u n\<rparr>\<rparr>)"
  using assms
  by (simp add: dev_notifications_def seed_notifications_def insert_seed_notification_def with_param_def
      varchar_short serial_insert_def nextval_def references_def user_ids_def Let_def)

text \<open>The tables that the seed leaves on a database with these sequences.\<close>

definition dev_tables ::
  "string \<Rightarrow> string \<Rightarrow> string \<Rightarrow> string \<Rightarrow> string \<Rightarrow> database \<Rightarrow> tables" where
  "dev_tables h0 h1 h2 l text db =
     (let q = sqs db; u = user_seq q; t = ticket_seq q; d = debate_seq q; a = argument_seq q; at = now db;
          th = dev_thread l u t d a at
      in \<lparr>users = dev_users h0 h1 h2 db, notifications = dev_notifications text u (notification_seq q),
          tickets = dev_debate_tickets u t @ dev_argument_tickets u t @ dev_thread_tickets u t,
          debates = dev_debates u t d at, debate_tags = dev_tags db,
          assoc_debate_tags = map (\<lambda>(i, j). \<lparr>adt_debate_id = i, adt_tag_id = j\<rparr>)
            (dev_pairs d (debate_tag_seq q)),
          arguments = map (fold (answer th) seed_answers) (dev_arguments l u t d a at @ th),
          ticket_comments = dev_comments l u t (ticket_comment_seq q) at\<rparr>)"

lemma numbered_below:
  "x \<in> set (number_rows row s vs) \<Longrightarrow> (\<And>i v. k (row i v) = i) \<Longrightarrow> s + int (length vs) \<le> m \<Longrightarrow> k x \<le> m"
  using number_rows_keys[of k row x s vs] by fastforce

lemma in_dev:
  "x \<in> set (dev_debate_tickets u t) \<Longrightarrow> t_id x \<le> t + 8"
  "x \<in> set (dev_argument_tickets u t) \<Longrightarrow> t_id x \<le> t + 15"
  "y \<in> set (dev_arguments l u t d a at) \<Longrightarrow> a_id y \<le> a + 7"
  unfolding dev_debate_tickets_def dev_argument_tickets_def dev_arguments_def
  by (erule numbered_below; simp add: seed_lengths dev_lengths[unfolded dev_argument_tickets_def])+

theorem seed_run:
  assumes ok: "schema_ok db" and room: "room db" and h: "list_all (\<lambda>h. length h \<le> 65) [h0, h1, h2]"
  shows "\<exists>q. seed h0 h1 h2 l text db = (Inr (), db\<lparr>sqs := q, tabs := dev_tables h0 h1 h2 l text db\<rparr>)"
proof -
  define u where "u = user_seq (sqs db)"
  define t where "t = ticket_seq (sqs db)"
  define d where "d = debate_seq (sqs db)"
  define a where "a = argument_seq (sqs db)"
  define us where "us = dev_users h0 h1 h2 db"
  let ?th = "dev_thread l u t d a (now db)"
  have bounds: "0 \<le> u" "u + 3 \<le> 2147483647" "0 \<le> t" "t + 28 \<le> 2147483647" "0 \<le> d" "d + 8 \<le> 2147483647"
    "0 \<le> a" "a + 20 \<le> 2147483647"
    using room by (simp_all add: room_def Let_def u_def t_def d_def a_def)
  have us_ids: "map u_id us = [u + 1, u + 2, u + 3]"
    by (simp add: us_def dev_users_ids u_def)
  then obtain x y z where xyz: "us = [x, y, z]" "u_id x = u + 1" "u_id y = u + 2" "u_id z = u + 3"
    by (auto simp: map_eq_Cons_conv)
  define db0 where "db0 = db\<lparr>tabs := empty_tables\<rparr>"
  define db1 where "db1 = db0\<lparr>sqs := (sqs db)\<lparr>user_seq := u + 3\<rparr>, tabs := empty_tables\<lparr>users := us\<rparr>\<rparr>"
  have 1: "insert_rows insert_seed_user (seed_users h0 h1 h2) db0 = (Inr us, db1)"
    using insert_users_run[OF h, of db0] bounds
    by (simp add: db0_def db1_def us_def u_def empty_tables_def dev_users_def)
  obtain db2 where 2: "seed_debates_part us db1 = (Inr (dev_debate_tickets u t, dev_debates u t d (now db)), db2)"
    and db2: "db2 = db1\<lparr>sqs := (sqs db1)\<lparr>ticket_seq := t + 8, debate_seq := d + 8,
        debate_tag_seq := debate_tag_seq (sqs db) + 3\<rparr>,
       tabs := (tabs db1)\<lparr>tickets := dev_debate_tickets u t, debates := dev_debates u t d (now db),
         debate_tags := dev_tags db,
         assoc_debate_tags := map (\<lambda>(i, j). \<lparr>adt_debate_id = i, adt_tag_id = j\<rparr>)
           (dev_pairs d (debate_tag_seq (sqs db)))\<rparr>\<rparr>"
    using debates_part_run[OF us_ids, of db1] bounds room
    by (simp add: db1_def db0_def empty_tables_def t_def d_def room_def Let_def dev_tags_def)
  have int4: "int4 (u + 1)" "int4 (d + 1)" "int4 (d + 2)"
    using bounds by (simp_all add: int4_def)
  have mem: "u + 1 \<in> set (user_ids (tabs db2))" "d + 1 \<in> set (debate_ids (tabs db2))"
    "d + 2 \<in> set (debate_ids (tabs db2))"
  proof -
    show "u + 1 \<in> set (user_ids (tabs db2))"
      by (simp add: db2 db1_def user_ids_def xyz)
    have "d_id (dev_debates u t d (now db) ! i) \<in> d_id ` set (dev_debates u t d (now db))" if "i < 8" for i
      using that by (intro imageI nth_mem) simp
    from this[of 0] this[of 1] show "d + 1 \<in> set (debate_ids (tabs db2))" "d + 2 \<in> set (debate_ids (tabs db2))"
      by (simp_all add: dev_ids db2 db1_def debate_ids_def algebra_simps)
  qed
  obtain db3 where 3: "seed_arguments_part l us (dev_debates u t d (now db)) db2 = (Inr (), db3)"
    and db3: "db3 = db2\<lparr>sqs := (sqs db2)\<lparr>ticket_seq := t + 15, argument_seq := a + 7\<rparr>,
      tabs := (tabs db2)\<lparr>tickets := dev_debate_tickets u t @ dev_argument_tickets u t,
        arguments := dev_arguments l u t d a (now db)\<rparr>\<rparr>"
  proof -
    have "seed_arguments_part l us (dev_debates u t d (now db)) db2 =
      (Inr (), db2\<lparr>sqs := (sqs db2)\<lparr>ticket_seq := t + 15, argument_seq := a + 7\<rparr>,
        tabs := (tabs db2)\<lparr>tickets := dev_debate_tickets u t @ dev_argument_tickets u t,
          arguments := dev_arguments l u t d a (now db)\<rparr>\<rparr>)"
      unfolding seed_arguments_part_def Let_def
      by (simp add: xyz dev_ids, subst argument_group_run[OF int4(1,2) mem(1,2), of "t + 8" _ a])
         (use bounds in \<open>simp_all add: db2 db1_def db0_def a_def seed_lengths in_dev empty_tables_def
            seed_arguments_def parse_argument_type_def dev_argument_tickets_def dev_arguments_def\<close>)
    with that show thesis by blast
  qed
  have people: "u_id (us ! 0) = u + 1" "u_id (us ! 1) = u + 2"
    by (simp_all add: xyz)
  have thread_debate: "d_id (dev_debates u t d at ! 1) = d + 2" for at
    using dev_ids(1)[of 1] by simp
  have mem3: "u + 1 \<in> set (user_ids (tabs db3))" "d + 2 \<in> set (debate_ids (tabs db3))"
    using mem by (simp_all add: db3 user_ids_def debate_ids_def)
  obtain db4 where 4: "seed_thread_part l us (dev_debates u t d (now db)) db3 = (Inr (), db4)"
    and db4: "db4 = db3\<lparr>sqs := (sqs db3)\<lparr>ticket_seq := t + 28, argument_seq := a + 20\<rparr>,
      tabs := (tabs db3)\<lparr>tickets := tickets (tabs db3) @ dev_thread_tickets u t,
        arguments := map (fold (answer ?th) seed_answers) (dev_arguments l u t d a (now db) @ ?th)\<rparr>\<rparr>"
  proof -
    have "seed_thread_part l us (dev_debates u t d (now db)) db3 =
      (Inr (), db3\<lparr>sqs := (sqs db3)\<lparr>ticket_seq := t + 28, argument_seq := a + 20\<rparr>,
        tabs := (tabs db3)\<lparr>tickets := tickets (tabs db3) @ dev_thread_tickets u t,
          arguments := map (fold (answer ?th) seed_answers) (dev_arguments l u t d a (now db) @ ?th)\<rparr>\<rparr>)"
      unfolding seed_thread_part_def Let_def people thread_debate
      by (subst argument_group_run[OF int4(1,3) mem3, of "t + 15" _ "a + 7"])
         (use bounds in \<open>auto simp: db3 db2 db1_def db0_def seed_lengths in_dev seed_thread_def
            parse_argument_type_def dev_thread_tickets_def dev_thread_def after_def answers_run
            intro: order_trans[OF in_dev(1)]\<close>)
    with that show thesis by blast
  qed
  have t8: "t_id (dev_debate_tickets u t ! 7) = t + 8"
    using dev_ids(2)[of 7] by simp
  have mem4: "t + 8 \<in> set (ticket_ids (tabs db4))" "{u + 1, u + 2} \<subseteq> set (user_ids (tabs db4))"
  proof -
    have "dev_debate_tickets u t ! 7 \<in> set (dev_debate_tickets u t)"
      by (intro nth_mem) simp
    from imageI[OF this, of t_id] show "t + 8 \<in> set (ticket_ids (tabs db4))"
      by (simp add: t8 db4 db3 ticket_ids_def)
    show "{u + 1, u + 2} \<subseteq> set (user_ids (tabs db4))"
      by (simp add: db4 db3 db2 db1_def user_ids_def xyz)
  qed
  let ?c = "ticket_comment_seq (sqs db)" and ?n = "notification_seq (sqs db)"
  define db5 where "db5 = db4\<lparr>sqs := (sqs db4)\<lparr>ticket_comment_seq := ?c + 4, notification_seq := ?n + 3\<rparr>,
    tabs := (tabs db4)\<lparr>ticket_comments := dev_comments l u t ?c (now db),
      notifications := dev_notifications text u ?n\<rparr>\<rparr>"
  have 5: "seed_comments_part l text us (dev_debate_tickets u t) db4 = (Inr (), db5)"
  proof -
    let ?db = "db4\<lparr>sqs := (sqs db4)\<lparr>ticket_comment_seq := ?c + 4\<rparr>,
      tabs := (tabs db4)\<lparr>ticket_comments := dev_comments l u t ?c (now db)\<rparr>\<rparr>"
    have A: "insert_rows (insert_ticket_comment (t + 8) l) [u + 1, u + 1, u + 2, u + 2] db4 =
        (Inr (dev_comments l u t ?c (now db)), ?db)"
      by (subst insert_comments_run[OF _ mem4])
         (use room in \<open>simp_all add: db4 db3 db2 db1_def db0_def empty_tables_def room_def Let_def\<close>)
    have B: "insert_rows (insert_seed_notification (u + 1) text) seed_notifications ?db =
        (Inr (dev_notifications text u ?n), db5)"
      by (subst insert_notifications_run)
         (use room mem4 in \<open>simp_all add: db5_def db4 db3 db2 db1_def db0_def empty_tables_def room_def
            Let_def user_ids_def\<close>)
    show ?thesis
      unfolding seed_comments_part_def Let_def people t8 after_def A prod.case sum.case B ..
  qed
  have "seed h0 h1 h2 l text db = (Inr (), db5)"
    using seed_delete_run[OF ok] 1 2 3 4 5
    by (simp add: seed_def after_def db0_def)
  moreover have "db5 = db\<lparr>sqs := sqs db5, tabs := dev_tables h0 h1 h2 l text db\<rparr>"
    by (simp add: db5_def db4 db3 db2 db1_def db0_def dev_tables_def Let_def empty_tables_def us_def
        flip: u_def t_def d_def a_def)
  ultimately show ?thesis
    by metis
qed

section \<open>Its integrity\<close>

definition keeps_schema :: "'a stmt \<Rightarrow> bool" where
  "keeps_schema st \<longleftrightarrow> (\<forall>db. schema_ok db \<longrightarrow> schema_ok (snd (st db)))"

lemma keeps_schema_after [intro]:
  assumes "keeps_schema st" "\<And>x. keeps_schema (k x)"
  shows "keeps_schema (after st k)"
  using assms unfolding keeps_schema_def after_def by (fastforce split: prod.splits sum.splits)

lemma keeps_schema_stmt: "stmt_ok st \<Longrightarrow> keeps_schema st"
  by (simp add: keeps_schema_def stmt_ok_def)

lemma keeps_schema_return [intro]: "keeps_schema (\<lambda>db. (r, db))"
  by (simp add: keeps_schema_def)

lemma stmt_ok_answer [simp]: "stmt_ok (answer_stmt args v)"
  by (cases v) (auto simp: answer_stmt_def intro!: stmt_ok_update schema_ok_update_argument)

lemma stmt_ok_seed_rows [simp]:
  "stmt_ok (insert_seed_user v)" "stmt_ok (insert_seed_ticket user w)" "stmt_ok (insert_seed_debate user x)"
  "stmt_ok (insert_seed_argument user l did y)"
  by (simp_all add: insert_seed_user_def insert_seed_ticket_def insert_seed_debate_def
      insert_seed_argument_def case_prod_beta)

lemma stmt_ok_seed_notification [simp]: "stmt_ok (insert_seed_notification user l v)"
  unfolding insert_seed_notification_def case_prod_beta
  by (intro stmt_ok_with_param stmt_ok_serial_insert) (auto simp: insert_ok dest!: varchar_length)

lemmas keeps_schema_rows = keeps_schema_stmt[OF stmt_ok_insert_rows]

text \<open>Whether the seed ends or fails on its way, the database keeps the integrity of the schema.\<close>

lemma seed_keeps_schema:
  assumes "schema_ok db"
  shows "schema_ok (snd (seed h0 h1 h2 l text db))"
proof -
  have "keeps_schema (seed_debates_part us)" "keeps_schema (seed_arguments_part l us ds)"
    "keeps_schema (seed_thread_part l us ds)" "keeps_schema (seed_comments_part l text us ts)" for us ds ts
    unfolding seed_debates_part_def seed_arguments_part_def seed_thread_part_def seed_comments_part_def Let_def
    by (intro keeps_schema_after keeps_schema_rows keeps_schema_return; simp)+
  then have "keeps_schema (after (insert_rows insert_seed_user (seed_users h0 h1 h2)) (\<lambda>us.
     after (seed_debates_part us) (\<lambda>(ticketsIds, debateIds).
     after (seed_arguments_part l us debateIds) (\<lambda>_.
     after (seed_thread_part l us debateIds) (\<lambda>_.
     seed_comments_part l text us ticketsIds)))))"
    unfolding case_prod_beta by (intro keeps_schema_after keeps_schema_rows; simp)
  then show ?thesis
    using schema_ok_emptied[OF assms]
    by (simp add: seed_def after_def[of seed_delete] seed_delete_run[OF assms] keeps_schema_def)
qed

text \<open>The rows by their values.\<close>

lemma number_rows_values: "x \<in> set (number_rows row s vs) \<Longrightarrow> \<exists>i. \<exists>v \<in> set vs. x = row i v"
  by (induction vs arbitrary: s) fastforce+

lemma map_number_rows: "(\<And>i v. f (row i v) = g v) \<Longrightarrow> map f (number_rows row s vs) = map g vs"
  by (induction vs arbitrary: s) simp_all

lemma number_rows_ids: "(\<And>i v. k (row i v) = i) \<Longrightarrow> map k (number_rows row s vs) = [s + 1..s + int (length vs)]"
proof (induction vs arbitrary: s)
  case (Cons v vs)
  then have "map k (number_rows row (s + 1) vs) = [s + 1 + 1..s + 1 + int (length vs)]"
    by blast
  then show ?case
    using Cons.prems by (simp add: upto_rec1[of "s + 1"] add.assoc)
qed simp

lemma answers_keep [simp]:
  "a_id (fold (answer th) vs x) = a_id x" "a_ticket_id (fold (answer th) vs x) = a_ticket_id x"
  "a_is_draft (fold (answer th) vs x) = a_is_draft x" "a_created_by (fold (answer th) vs x) = a_created_by x"
  "a_debate_id (fold (answer th) vs x) = a_debate_id x" "a_type (fold (answer th) vs x) = a_type x"
  by (induction vs arbitrary: x) (simp_all add: answer_def)

lemma dev_ticket_ids:
  "map t_id (dev_debate_tickets u t) = [t + 1..t + 8]"
  "map t_id (dev_argument_tickets u t) = [t + 9..t + 15]"
  "map t_id (dev_thread_tickets u t) = [t + 16..t + 28]"
  by (simp_all add: dev_debate_tickets_def dev_argument_tickets_def dev_thread_tickets_def
      number_rows_ids[of t_id] seed_lengths add.assoc)

lemma dev_refs:
  "map d_ticket_id (dev_debates u t d at) = [t + 1..t + 8]"
  "map (the \<circ> a_ticket_id) (dev_arguments l u t d a at) = [t + 9..t + 15]"
  "map (the \<circ> a_ticket_id) (dev_thread l u t d a at) = [t + 16..t + 28]"
proof -
  have fst: "map (\<lambda>v. t_id (fst v)) (zip ts vs) = map t_id ts" if "length ts = length vs"
    for ts :: "ticket_row list" and vs :: "'v list"
    using that by (simp flip: map_map[unfolded comp_def])
  show "map d_ticket_id (dev_debates u t d at) = [t + 1..t + 8]"
    unfolding dev_debates_def
    by (subst map_number_rows[where g = "\<lambda>v. t_id (fst v)"])
       (simp_all add: debate_numbered_def fst seed_lengths dev_ticket_ids)
  show "map (the \<circ> a_ticket_id) (dev_arguments l u t d a at) = [t + 9..t + 15]"
    unfolding dev_arguments_def
    by (subst map_number_rows[where g = "\<lambda>v. t_id (fst v)"])
       (simp_all add: argument_numbered_def case_prod_beta fst seed_lengths dev_ticket_ids)
  show "map (the \<circ> a_ticket_id) (dev_thread l u t d a at) = [t + 16..t + 28]"
    unfolding dev_thread_def
    by (subst map_number_rows[where g = "\<lambda>v. t_id (fst v)"])
       (simp_all add: argument_numbered_def case_prod_beta fst seed_lengths dev_ticket_ids)
qed

text \<open>The rows of the three groups of tickets.\<close>

lemma dev_tickets_values:
  assumes "x \<in> set (dev_debate_tickets u t @ dev_argument_tickets u t @ dev_thread_tickets u t)"
  shows "t_created_by x = u + 1"
    "t_assigned_to x = None \<and> t_board_list x = Some PENDING
     \<or> t_board_list x \<noteq> None \<and> t_assigned_to x \<in> {Some (u + 2), Some (u + 3)}"
proof -
  let ?vs = "set (seed_debate_tickets (u + 2) (u + 3) @ seed_argument_tickets (u + 2) (u + 3)
    @ seed_thread_tickets (u + 2))"
  obtain i v where x: "x = ticket_numbered (u + 1) i v" and v: "v \<in> ?vs"
    using assms unfolding dev_debate_tickets_def dev_argument_tickets_def dev_thread_tickets_def
    by (auto dest!: number_rows_values)
  show "t_created_by x = u + 1"
    by (simp add: x ticket_numbered_def)
  have "list_all (\<lambda>v. fst v = None \<and> snd v = PENDING \<or> fst v \<in> {Some (u + 2), Some (u + 3)})
      (seed_debate_tickets (u + 2) (u + 3) @ seed_argument_tickets (u + 2) (u + 3) @ seed_thread_tickets (u + 2))"
    by (simp add: seed_debate_tickets_def seed_argument_tickets_def seed_thread_tickets_def list_all_iff)
  then show "t_assigned_to x = None \<and> t_board_list x = Some PENDING
     \<or> t_board_list x \<noteq> None \<and> t_assigned_to x \<in> {Some (u + 2), Some (u + 3)}"
    using v by (auto simp: x ticket_numbered_def list_all_iff)
qed

lemma dev_arguments_values:
  assumes "x \<in> set (dev_arguments l u t d a at @ dev_thread l u t d a at)"
  shows "\<not> a_is_draft x" "a_created_by x = u + 1"
    "\<exists>tk \<in> set (dev_argument_tickets u t @ dev_thread_tickets u t). a_ticket_id x = Some (t_id tk)"
proof -
  obtain i v did where x: "x = argument_numbered (u + 1) l did at i v"
    and v: "v \<in> set (zip (dev_argument_tickets u t) seed_arguments @ zip (dev_thread_tickets u t) seed_thread)"
    using assms unfolding dev_arguments_def dev_thread_def by (auto dest!: number_rows_values)
  show "\<not> a_is_draft x" "a_created_by x = u + 1"
    by (simp_all add: x argument_numbered_def case_prod_beta)
  have "fst v \<in> set (dev_argument_tickets u t @ dev_thread_tickets u t)"
    using v by (cases v rule: prod.exhaust) (auto dest: set_zip_leftD)
  then show "\<exists>tk \<in> set (dev_argument_tickets u t @ dev_thread_tickets u t). a_ticket_id x = Some (t_id tk)"
    by (auto simp: x argument_numbered_def case_prod_beta)
qed

lemma dev_app_ok: "app_ok (dev_tables h0 h1 h2 l text db)"
proof -
  define u where "u = user_seq (sqs db)"
  define t where "t = ticket_seq (sqs db)"
  define d where "d = debate_seq (sqs db)"
  define a where "a = argument_seq (sqs db)"
  let ?ts = "dev_tables h0 h1 h2 l text db"
  let ?th = "dev_thread l u t d a (now db)" and ?as = "dev_arguments l u t d a (now db)"
  have tk: "tickets ?ts = dev_debate_tickets u t @ dev_argument_tickets u t @ dev_thread_tickets u t"
    and ds: "debates ?ts = dev_debates u t d (now db)"
    and as: "arguments ?ts = map (fold (answer ?th) seed_answers) (?as @ ?th)"
    and us: "users ?ts = dev_users h0 h1 h2 db"
    by (simp_all add: dev_tables_def Let_def u_def t_def d_def a_def)
  have mods: "list_ex (\<lambda>x. u_id x = m \<and> u_role x = Some MODERATOR) (users ?ts)" if "m = u + 2 \<or> m = u + 3" for m
    using that by (auto simp: us dev_users_def seed_users_def u_def)
  have "debate_ok ?ts x" if x: "x \<in> set (debates ?ts)" for x
  proof -
    obtain i v where v: "x = debate_numbered (u + 1) (now db) i v"
      "v \<in> set (zip (dev_debate_tickets u t) seed_debate_titles)"
      using x unfolding ds dev_debates_def by (auto dest!: number_rows_values)
    then have "fst v \<in> set (tickets ?ts)"
      by (cases v) (auto simp: tk dest: set_zip_leftD)
    moreover have "t_created_by (fst v) = u + 1"
      using dev_tickets_values(1) calculation by (simp add: tk)
    ultimately show ?thesis
      by (auto simp: debate_ok_def list_ex_iff v(1) debate_numbered_def)
  qed
  moreover have "argument_ok ?ts x" if "x \<in> set (arguments ?ts)" for x
  proof -
    obtain y where y: "x = fold (answer ?th) seed_answers y" "y \<in> set (?as @ ?th)"
      using \<open>x \<in> set (arguments ?ts)\<close> by (auto simp: as)
    obtain k where k: "k \<in> set (dev_argument_tickets u t @ dev_thread_tickets u t)" "a_ticket_id y = Some (t_id k)"
      using dev_arguments_values(3)[OF y(2)] by blast
    moreover have "t_created_by k = u + 1"
      using k(1) by (intro dev_tickets_values(1)) auto
    ultimately show ?thesis
      using dev_arguments_values(1,2)[OF y(2)]
      by (auto simp: argument_ok_def y(1) list_ex_iff tk)
  qed
  moreover have "ticket_ok ?ts x" if "x \<in> set (tickets ?ts)" for x
    using dev_tickets_values(2)[OF that[unfolded tk]] mods by (auto simp: ticket_ok_def)
  moreover have "distinct (ticket_refs ?ts)"
  proof -
    have "a_ticket_id x \<noteq> None" if x: "x \<in> set (?as @ ?th)" for x
      using dev_arguments_values(3)[OF x] by auto
    then have all: "filter (\<lambda>x. a_ticket_id x \<noteq> None) (arguments ?ts) = arguments ?ts"
      by (auto simp: as filter_id_conv)
    have "map (the \<circ> a_ticket_id) (arguments ?ts) = map (the \<circ> a_ticket_id) (?as @ ?th)"
      by (simp add: as)
    then have "ticket_refs ?ts = [t + 1..t + 8] @ [t + 9..t + 15] @ [t + 16..t + 28]"
      by (simp only: ticket_refs_def all ds dev_refs map_append)
    then show ?thesis
      by auto
  qed
  ultimately show ?thesis
    by (simp add: app_ok_def list_all_iff)
qed

text \<open>The thread of the second debate: identifiers, types and what they answer.\<close>

lemma number_rows_map:
  "(\<And>i v. f (row i v) = row' i (g v)) \<Longrightarrow> map f (number_rows row s vs) = number_rows row' s (map g vs)"
  by (induction vs arbitrary: s) simp_all

lemma dev_thread_types:
  "map (\<lambda>x. (a_id x, a_type x)) (dev_thread l u t d a at) =
   [(a + 8, Some PRO), (a + 9, Some CON), (a + 10, Some CON), (a + 11, Some CON), (a + 12, Some PRO),
    (a + 13, Some PRO), (a + 14, Some PRO), (a + 15, Some PRO), (a + 16, Some PRO), (a + 17, Some CON),
    (a + 18, Some CON), (a + 19, Some CON), (a + 20, Some PRO)]"
proof -
  have "map (\<lambda>x. (a_id x, a_type x)) (dev_thread l u t d a at) =
      number_rows (\<lambda>i w. (i, parse_argument_type (snd w))) (a + 7) seed_thread"
    unfolding dev_thread_def
    by (subst number_rows_map[where g = snd and row' = "\<lambda>i w. (i, parse_argument_type (snd w))"])
       (simp_all add: argument_numbered_def case_prod_beta seed_lengths)
  then show ?thesis
    by (simp add: seed_thread_def parse_argument_type_def)
qed

definition thread_parent :: "(int list \<times> int) list \<Rightarrow> int \<Rightarrow> int option" where
  "thread_parent vs i = fold (\<lambda>(is, p) c. if i \<in> set is then Some p else c) vs None"

lemma answers_parent:
  assumes "a_counterargument_to x = None"
  shows "a_counterargument_to (fold (answer th) vs x) =
    thread_parent (map (\<lambda>(is, p). (map (\<lambda>i. a_id (th ! i)) is, a_id (th ! p))) vs) (a_id x)"
proof -
  have "a_counterargument_to (fold (answer th) vs x) =
    fold (\<lambda>(is, p) c. if a_id x \<in> set is then Some p else c)
      (map (\<lambda>(is, p). (map (\<lambda>i. a_id (th ! i)) is, a_id (th ! p))) vs) (a_counterargument_to x)"
    by (induction vs arbitrary: x) (simp_all add: answer_def case_prod_beta)
  then show ?thesis
    by (simp add: thread_parent_def assms)
qed

lemma dev_answers:
  "map (\<lambda>(is, p). (map (\<lambda>i. a_id (dev_thread l u t d a at ! i)) is, a_id (dev_thread l u t d a at ! p))) seed_answers =
   [([a + 9, a + 10, a + 11], a + 8), ([a + 12, a + 13], a + 9), ([a + 14], a + 10),
    ([a + 15, a + 16], a + 11), ([a + 17, a + 18, a + 19], a + 15), ([a + 20], a + 17)]"
  by (simp add: seed_answers_def dev_ids)

text \<open>An argument of the thread answers one of the opposite type, or nothing.\<close>

lemma dev_thread_opposite:
  assumes "x \<in> set (dev_thread l u t d a at)"
    and "a_counterargument_to (fold (answer (dev_thread l u t d a at)) seed_answers x) = Some p"
  shows "\<exists>y \<in> set (dev_thread l u t d a at). a_id y = p \<and> a_type y \<noteq> a_type x"
proof -
  let ?th = "dev_thread l u t d a at"
  let ?rows = "map (\<lambda>x. (a_id x, a_type x)) ?th"
  let ?vs = "[([a + 9, a + 10, a + 11], a + 8), ([a + 12, a + 13], a + 9), ([a + 14], a + 10),
    ([a + 15, a + 16], a + 11), ([a + 17, a + 18, a + 19], a + 15), ([a + 20], a + 17)]"
  have "a_counterargument_to x = None"
    using assms(1) unfolding dev_thread_def
    by (auto dest!: number_rows_values simp: argument_numbered_def)
  then have p: "thread_parent ?vs (a_id x) = Some p"
    using assms(2) by (simp add: answers_parent dev_answers)
  have "list_all (\<lambda>(i, ty). case thread_parent ?vs i of None \<Rightarrow> True
      | Some p \<Rightarrow> list_ex (\<lambda>(j, ty'). j = p \<and> ty' \<noteq> ty) ?rows) ?rows"
    unfolding dev_thread_types by (simp add: thread_parent_def)
  then show ?thesis
    using assms(1) p by (fastforce simp: list_all_iff list_ex_iff)
qed

lemma answers_of_first:
  assumes "x \<in> set (dev_arguments l u t d a at)"
  shows "a_counterargument_to (fold (answer (dev_thread l u t d a at)) seed_answers x) = None"
proof -
  have "a_counterargument_to x = None"
    using assms unfolding dev_arguments_def
    by (auto dest!: number_rows_values simp: argument_numbered_def)
  then show ?thesis
    using in_dev(3)[OF assms] by (simp add: answers_parent dev_answers thread_parent_def)
qed

text \<open>Every argument of the thread has an accepted ticket and belongs to the second debate.\<close>

lemma dev_thread_accepted:
  assumes "x \<in> set (dev_thread l u t d a at)"
  shows "a_debate_id x = d + 2"
    "\<exists>tk \<in> set (dev_thread_tickets u t). a_ticket_id x = Some (t_id tk) \<and> t_board_list tk = Some ACCEPTED"
proof -
  obtain i v where x: "x = argument_numbered (u + 1) l (d + 2) at i v"
    and v: "v \<in> set (zip (dev_thread_tickets u t) seed_thread)"
    using assms unfolding dev_thread_def by (auto dest!: number_rows_values)
  show "a_debate_id x = d + 2"
    by (simp add: x argument_numbered_def case_prod_beta)
  have tk: "fst v \<in> set (dev_thread_tickets u t)"
    using v by (cases v rule: prod.exhaust) (auto dest: set_zip_leftD)
  moreover have "t_board_list (fst v) = Some ACCEPTED"
    using tk unfolding dev_thread_tickets_def seed_thread_tickets_def
    by (auto dest!: number_rows_values simp: ticket_numbered_def)
  ultimately show "\<exists>tk \<in> set (dev_thread_tickets u t). a_ticket_id x = Some (t_id tk) \<and> t_board_list tk = Some ACCEPTED"
    by (auto simp: x argument_numbered_def case_prod_beta)
qed

definition answers_well :: "tables \<Rightarrow> argument_row \<Rightarrow> bool" where
  "answers_well ts x \<longleftrightarrow> (case a_counterargument_to x of None \<Rightarrow> True
     | Some p \<Rightarrow> list_ex (\<lambda>y. a_id y = p \<and> a_debate_id y = a_debate_id x \<and> a_type y \<noteq> a_type x
         \<and> is_public ts y) (arguments ts))"

lemma dev_answers_well:
  assumes ok: "schema_ok db'" and tabs: "tabs db' = dev_tables h0 h1 h2 l text db"
  shows "list_all (answers_well (tabs db')) (arguments (tabs db'))"
proof -
  define u where "u = user_seq (sqs db)"
  define t where "t = ticket_seq (sqs db)"
  define d where "d = debate_seq (sqs db)"
  define a where "a = argument_seq (sqs db)"
  let ?th = "dev_thread l u t d a (now db)" and ?as = "dev_arguments l u t d a (now db)"
  let ?put = "fold (answer ?th) seed_answers"
  have tk: "set (dev_thread_tickets u t) \<subseteq> set (tickets (tabs db'))"
    and as: "arguments (tabs db') = map ?put (?as @ ?th)"
    by (auto simp: tabs dev_tables_def Let_def u_def t_def d_def a_def)
  have public: "is_public (tabs db') (?put y)" if y: "y \<in> set ?th" for y
  proof -
    obtain k where k: "k \<in> set (dev_thread_tickets u t)" "a_ticket_id y = Some (t_id k)"
      "t_board_list k = Some ACCEPTED"
      using dev_thread_accepted(2)[OF y] by blast
    then have "ticket_of (tabs db') (t_id k) = Some k"
      using tk tables_ok_lookup(1)[OF schema_tables_ok[OF ok]] by blast
    then show ?thesis
      by (simp add: is_public_def arg_ticket_def k(2,3))
  qed
  have "answers_well (tabs db') (?put x)" if x: "x \<in> set ?th" for x
  proof (cases "a_counterargument_to (?put x)")
    case (Some p)
    then obtain y where y: "y \<in> set ?th" "a_id y = p" "a_type y \<noteq> a_type x"
      using dev_thread_opposite[OF x] by blast
    have same: "a_debate_id y = a_debate_id x"
      by (simp only: dev_thread_accepted(1)[OF x] dev_thread_accepted(1)[OF y(1)])
    have "?put y \<in> set (arguments (tabs db'))"
      using y(1) by (auto simp: as)
    then show ?thesis
      using y(2,3) same public[OF y(1)]
      by (auto simp: answers_well_def Some list_ex_iff intro!: bexI[of _ "?put y"])
  qed (simp add: answers_well_def)
  moreover have "answers_well (tabs db') (?put x)" if "x \<in> set ?as" for x
    using answers_of_first[OF that] by (simp add: answers_well_def)
  ultimately show ?thesis
    by (auto simp: as list_all_iff)
qed

lemma sample_room: "room sample_db"
  by (simp add: room_def sample_db_def)



end
