(* ===== verification/Toolbar.thy ===== *)
theory Toolbar
  imports Prelude Complex_Main
begin

text \<open>
  The toolbar of the rich editor (\<open>components/RichEditor/plugins/ToolbarPlugin.tsx\<close>): its state, what
  it reads of a selection, its buttons with the commands they dispatch, the list of block types and
  the floating editor of a link. Lexical is outside: a selection is the data that its functions
  answer, a command is dispatched to it, and how it carries the command out is not said here.
\<close>

section \<open>Nodes and selections as Lexical answers them\<close>

datatype heading_tag = H1 | H2 | H3 | H4 | H5 | H6

datatype list_tag = OL | UL

datatype node_class =
    RootNode | ParagraphNode | HeadingNode heading_tag | QuoteNode | CodeNode | ListNode list_tag
  | ListItemNode | LinkNode string | TextNode

fun heading_name :: "heading_tag \<Rightarrow> string" where
  "heading_name H1 = ''h1''" | "heading_name H2 = ''h2''" | "heading_name H3 = ''h3''"
| "heading_name H4 = ''h4''" | "heading_name H5 = ''h5''" | "heading_name H6 = ''h6''"

fun list_name :: "list_tag \<Rightarrow> string" where
  "list_name OL = ''ol''" | "list_name UL = ''ul''"

fun getType :: "node_class \<Rightarrow> string" where
  "getType RootNode = ''root''"
| "getType ParagraphNode = ''paragraph''"
| "getType (HeadingNode h) = ''heading''"
| "getType QuoteNode = ''quote''"
| "getType CodeNode = ''code''"
| "getType (ListNode l) = ''list''"
| "getType ListItemNode = ''listitem''"
| "getType (LinkNode url) = ''link''"
| "getType TextNode = ''text''"

record lnode =
  ln_key :: string
  ln_class :: node_class

text \<open>A node with its ancestors: the node itself first, the root last.\<close>

type_synonym place = "lnode list"

definition getParent :: "place \<Rightarrow> lnode option" where
  "getParent p = (case p of n # m # _ \<Rightarrow> Some m | _ \<Rightarrow> None)"

fun getTopLevelElement :: "place \<Rightarrow> lnode option" where
  "getTopLevelElement (n # m # p) =
     (if ln_class m = RootNode then Some n else getTopLevelElement (m # p))"
| "getTopLevelElement _ = None"

definition list_of :: "lnode \<Rightarrow> list_tag option" where
  "list_of n = (case ln_class n of ListNode t \<Rightarrow> Some t | _ \<Rightarrow> None)"

definition link_of :: "lnode \<Rightarrow> string option" where
  "link_of n = (case ln_class n of LinkNode url \<Rightarrow> Some url | _ \<Rightarrow> None)"

definition nearest_list :: "place \<Rightarrow> list_tag option" where
  "nearest_list p = (case filter (\<lambda>n. list_of n \<noteq> None) p of [] \<Rightarrow> None | n # _ \<Rightarrow> list_of n)"

record range_selection =
  rs_anchor :: place
  rs_focus :: place
  rs_isBackward :: bool
  rs_anchorAtNodeEnd :: bool
  rs_focusAtNodeEnd :: bool
  rs_formats :: "string list"

datatype editor_selection = NoSelection | OtherSelection | RangeSelection range_selection

definition hasFormat :: "range_selection \<Rightarrow> string \<Rightarrow> bool" where
  "hasFormat s f = (f \<in> set (rs_formats s))"

text \<open>The commands that the toolbar dispatches, and the wrapping of the selection's blocks.\<close>

datatype editor_command =
    UNDO_COMMAND | REDO_COMMAND | FORMAT_TEXT_COMMAND string | FORMAT_ELEMENT_COMMAND string
  | INSERT_ORDERED_LIST_COMMAND | INSERT_UNORDERED_LIST_COMMAND | REMOVE_LIST_COMMAND
  | TOGGLE_LINK_COMMAND "string option" | WrapNodes node_class

section \<open>The state of the toolbar\<close>

definition supportedBlockTypes :: "string list" where
  "supportedBlockTypes = [''paragraph'', ''quote'', ''code'', ''h1'', ''h2'', ''ul'', ''ol'']"

definition blockTypeToBlockName :: "string \<Rightarrow> string option" where
  "blockTypeToBlockName = map_of
     [(''code'', ''Code Block''), (''h1'', ''Large Heading''), (''h2'', ''Small Heading''),
      (''h3'', ''Heading''), (''h4'', ''Heading''), (''h5'', ''Heading''), (''ol'', ''Numbered List''),
      (''paragraph'', ''Normal''), (''quote'', ''Quote''), (''ul'', ''Bulleted List'')]"

record toolbar =
  canUndo :: bool
  canRedo :: bool
  blockType :: string
  showBlockOptionsDropDown :: bool
  isLink :: bool
  isBold :: bool
  isItalic :: bool
  isUnderline :: bool
  isStrikethrough :: bool

definition toolbar_init :: toolbar where
  "toolbar_init =
     \<lparr>canUndo = False, canRedo = False, blockType = ''paragraph'', showBlockOptionsDropDown = False,
      isLink = False, isBold = False, isItalic = False, isUnderline = False, isStrikethrough = False\<rparr>"

text \<open>The node on which links are looked for; nodes are compared by identity, which is their key.\<close>

definition getSelectedNode :: "range_selection \<Rightarrow> place" where
  "getSelectedNode s =
     (if map ln_key (take 1 (rs_anchor s)) = map ln_key (take 1 (rs_focus s)) then rs_anchor s
      else if rs_isBackward s then (if rs_focusAtNodeEnd s then rs_anchor s else rs_focus s)
      else (if rs_anchorAtNodeEnd s then rs_focus s else rs_anchor s))"

definition link_at :: "place \<Rightarrow> string option" where
  "link_at p = (case Option.bind (getParent p) link_of of
      Some url \<Rightarrow> Some url
    | None \<Rightarrow> (case p of [] \<Rightarrow> None | n # _ \<Rightarrow> link_of n))"

text \<open>
  \<open>updateToolbar\<close> on the editor's selection, with the nodes that have an element in the document;
  None is the error of \<open>getTopLevelElementOrThrow\<close> on a node that is not below the root.
\<close>

definition selected_element :: "range_selection \<Rightarrow> lnode option" where
  "selected_element s = (case rs_anchor s of
      [] \<Rightarrow> None
    | n # _ \<Rightarrow> if ln_key n = ''root'' then Some n else getTopLevelElement (rs_anchor s))"

definition block_type :: "place \<Rightarrow> lnode \<Rightarrow> string" where
  "block_type anchor element = (case ln_class element of
      ListNode t \<Rightarrow> list_name (case nearest_list anchor of Some t' \<Rightarrow> t' | None \<Rightarrow> t)
    | HeadingNode h \<Rightarrow> heading_name h
    | c \<Rightarrow> getType c)"

definition updateToolbar :: "(string \<Rightarrow> bool) \<Rightarrow> editor_selection \<Rightarrow> toolbar \<Rightarrow> toolbar option" where
  "updateToolbar hasElement selection t = (case selection of
      RangeSelection s \<Rightarrow>
        (case selected_element s of
           None \<Rightarrow> None
         | Some element \<Rightarrow>
             let ty = block_type (rs_anchor s) element;
                 t1 = (if hasElement (ln_key element) \<and> blockTypeToBlockName ty \<noteq> None
                       then t\<lparr>blockType := ty\<rparr> else t)
             in Some (t1\<lparr>isBold := hasFormat s ''bold'', isItalic := hasFormat s ''italic'',
                  isUnderline := hasFormat s ''underline'',
                  isStrikethrough := hasFormat s ''strikethrough'',
                  isLink := link_at (getSelectedNode s) \<noteq> None\<rparr>))
    | _ \<Rightarrow> Some t)"

section \<open>The list of block types\<close>

definition wrap_selection :: "editor_selection \<Rightarrow> node_class \<Rightarrow> editor_command list" where
  "wrap_selection selection block =
     (case selection of RangeSelection _ \<Rightarrow> [WrapNodes block] | _ \<Rightarrow> [])"

definition close_dropdown :: "toolbar \<Rightarrow> toolbar" where
  "close_dropdown t = t\<lparr>showBlockOptionsDropDown := False\<rparr>"

definition formatParagraph :: "editor_selection \<Rightarrow> toolbar \<Rightarrow> toolbar \<times> editor_command list" where
  "formatParagraph sel t = (close_dropdown t,
     if blockType t \<noteq> ''paragraph'' then wrap_selection sel ParagraphNode else [])"

definition formatLargeHeading :: "editor_selection \<Rightarrow> toolbar \<Rightarrow> toolbar \<times> editor_command list" where
  "formatLargeHeading sel t = (close_dropdown t,
     if blockType t \<noteq> ''h1'' then wrap_selection sel (HeadingNode H1) else [])"

definition formatSmallHeading :: "editor_selection \<Rightarrow> toolbar \<Rightarrow> toolbar \<times> editor_command list" where
  "formatSmallHeading sel t = (close_dropdown t,
     if blockType t \<noteq> ''h2'' then wrap_selection sel (HeadingNode H2) else [])"

definition formatBulletList :: "toolbar \<Rightarrow> toolbar \<times> editor_command list" where
  "formatBulletList t = (close_dropdown t,
     if blockType t \<noteq> ''ul'' then [INSERT_UNORDERED_LIST_COMMAND] else [REMOVE_LIST_COMMAND])"

definition formatNumberedList :: "toolbar \<Rightarrow> toolbar \<times> editor_command list" where
  "formatNumberedList t = (close_dropdown t,
     if blockType t \<noteq> ''ol'' then [INSERT_ORDERED_LIST_COMMAND] else [REMOVE_LIST_COMMAND])"

definition formatQuote :: "editor_selection \<Rightarrow> toolbar \<Rightarrow> toolbar \<times> editor_command list" where
  "formatQuote sel t = (close_dropdown t,
     if blockType t \<noteq> ''quote'' then wrap_selection sel QuoteNode else [])"

text \<open>The entries of the list: their text, the block type that marks them active, their handler.\<close>

definition block_options ::
  "(string \<times> string \<times> (editor_selection \<Rightarrow> toolbar \<Rightarrow> toolbar \<times> editor_command list)) list" where
  "block_options =
     [(''Normal'', ''paragraph'', formatParagraph), (''Large Heading'', ''h1'', formatLargeHeading),
      (''Small Heading'', ''h2'', formatSmallHeading), (''Bullet List'', ''ul'', \<lambda>_. formatBulletList),
      (''Numbered List'', ''ol'', \<lambda>_. formatNumberedList), (''Quote'', ''quote'', formatQuote)]"

definition active_options :: "toolbar \<Rightarrow> string list" where
  "active_options t = map fst (filter (\<lambda>(_, b, _). blockType t = b) block_options)"

text \<open>The list is there only while the button of the block type is.\<close>

definition block_button :: "toolbar \<Rightarrow> bool" where
  "block_button t = (blockType t \<in> set supportedBlockTypes)"

definition dropdown_open :: "toolbar \<Rightarrow> bool" where
  "dropdown_open t = (block_button t \<and> showBlockOptionsDropDown t)"

text \<open>A click anywhere in the document, while the list is there.\<close>

definition document_click :: "bool \<Rightarrow> bool \<Rightarrow> toolbar \<Rightarrow> toolbar" where
  "document_click inDropDown inToolbar t =
     (if \<not> inDropDown \<and> \<not> inToolbar then close_dropdown t else t)"

section \<open>The buttons\<close>

definition insertLink :: "toolbar \<Rightarrow> editor_command list" where
  "insertLink t = [TOGGLE_LINK_COMMAND (if \<not> isLink t then Some ''https://'' else None)]"

record toolbar_button =
  tb_label :: string
  tb_enabled :: bool
  tb_active :: bool
  tb_click :: "toolbar \<Rightarrow> toolbar \<times> editor_command list"

definition dispatching :: "string \<Rightarrow> bool \<Rightarrow> bool \<Rightarrow> editor_command \<Rightarrow> toolbar_button" where
  "dispatching label enabled active c =
     \<lparr>tb_label = label, tb_enabled = enabled, tb_active = active, tb_click = (\<lambda>t. (t, [c]))\<rparr>"

definition history_buttons :: "toolbar \<Rightarrow> toolbar_button list" where
  "history_buttons t =
     [dispatching ''Undo'' (canUndo t) False UNDO_COMMAND,
      dispatching ''Redo'' (canRedo t) False REDO_COMMAND]"

definition block_buttons :: "toolbar \<Rightarrow> toolbar_button list" where
  "block_buttons t = (if block_button t
     then [\<lparr>tb_label = ''Formatting Options'', tb_enabled = True, tb_active = False,
            tb_click = (\<lambda>t. (t\<lparr>showBlockOptionsDropDown := \<not> showBlockOptionsDropDown t\<rparr>, []))\<rparr>]
     else [])"

definition format_buttons :: "toolbar \<Rightarrow> toolbar_button list" where
  "format_buttons t =
     [dispatching ''Format Bold'' True (isBold t) (FORMAT_TEXT_COMMAND ''bold''),
      dispatching ''Format Italics'' True (isItalic t) (FORMAT_TEXT_COMMAND ''italic''),
      dispatching ''Format Underline'' True (isUnderline t) (FORMAT_TEXT_COMMAND ''underline''),
      dispatching ''Format Strikethrough'' True (isStrikethrough t) (FORMAT_TEXT_COMMAND ''strikethrough''),
      \<lparr>tb_label = ''Insert Link'', tb_enabled = True, tb_active = isLink t,
       tb_click = (\<lambda>t. (t, insertLink t))\<rparr>]"

definition align_buttons :: "toolbar_button list" where
  "align_buttons =
     [dispatching ''Left Align'' True False (FORMAT_ELEMENT_COMMAND ''left''),
      dispatching ''Center Align'' True False (FORMAT_ELEMENT_COMMAND ''center''),
      dispatching ''Right Align'' True False (FORMAT_ELEMENT_COMMAND ''right''),
      dispatching ''Justify Align'' True False (FORMAT_ELEMENT_COMMAND ''justify'')]"

definition toolbar_buttons :: "toolbar \<Rightarrow> toolbar_button list" where
  "toolbar_buttons t = history_buttons t @ block_buttons t @ format_buttons t @ align_buttons"

section \<open>What happens to the toolbar\<close>

text \<open>
  The listeners, a press on an enabled button that is there, a choice and a click while the list is
  open. An error of \<open>updateToolbar\<close> sets nothing.
\<close>

datatype toolbar_event =
    EditorUpdated "string \<Rightarrow> bool" editor_selection
  | CanUndo bool
  | CanRedo bool
  | ButtonPressed string
  | OptionChosen string editor_selection
  | DocumentClicked bool bool

fun on_toolbar :: "toolbar_event \<Rightarrow> toolbar \<Rightarrow> toolbar \<times> editor_command list" where
  "on_toolbar (EditorUpdated hasElement sel) t =
     (case updateToolbar hasElement sel t of None \<Rightarrow> t | Some t' \<Rightarrow> t', [])"
| "on_toolbar (CanUndo payload) t = (t\<lparr>canUndo := payload\<rparr>, [])"
| "on_toolbar (CanRedo payload) t = (t\<lparr>canRedo := payload\<rparr>, [])"
| "on_toolbar (ButtonPressed label) t =
     (case find (\<lambda>b. tb_label b = label \<and> tb_enabled b) (toolbar_buttons t) of
        None \<Rightarrow> (t, []) | Some b \<Rightarrow> tb_click b t)"
| "on_toolbar (OptionChosen label sel) t =
     (case (if dropdown_open t then map_of block_options label else None) of
        None \<Rightarrow> (t, []) | Some (b, f) \<Rightarrow> f sel t)"
| "on_toolbar (DocumentClicked inDropDown inToolbar) t =
     (if dropdown_open t then document_click inDropDown inToolbar t else t, [])"

definition toolbar_after :: "toolbar_event list \<Rightarrow> toolbar" where
  "toolbar_after es = fold (\<lambda>e t. fst (on_toolbar e t)) es toolbar_init"

lemma toolbar_after_simps [simp]:
  "toolbar_after [] = toolbar_init"
  "toolbar_after (es @ [e]) = fst (on_toolbar e (toolbar_after es))"
  by (simp_all add: toolbar_after_def)

section \<open>The floating editor of a link\<close>

record dom_rect =
  r_top :: rat
  r_left :: rat
  r_width :: rat
  r_height :: rat

datatype link_position = Hidden | ShownAt rat rat

text \<open>
  \<open>positionEditorElement\<close>: the offsets of the page, the width of the editor and the rectangle;
  \<open>Hidden\<close> is opacity 0 outside of the window.
\<close>

definition positionEditorElement :: "rat \<times> rat \<Rightarrow> rat \<Rightarrow> dom_rect option \<Rightarrow> link_position" where
  "positionEditorElement page offsetWidth rect = (case rect of
      None \<Rightarrow> Hidden
    | Some r \<Rightarrow> ShownAt (r_top r + r_height r + snd page + 10)
        (r_left r + fst page - offsetWidth / 2 + r_width r / 2))"

text \<open>Where the list of block types is placed under the toolbar.\<close>

definition dropdown_position :: "dom_rect \<Rightarrow> rat \<times> rat" where
  "dropdown_position toolbar_rect = (r_top toolbar_rect + 40, r_left toolbar_rect)"

datatype dom_element = Element dom_rect "dom_element list"

fun innermost_rect :: "dom_element \<Rightarrow> dom_rect" where
  "innermost_rect (Element r []) = r"
| "innermost_rect (Element r (e # es)) = innermost_rect e"

text \<open>What the window says: its selection with the anchor inside the root or being it, the focus.\<close>

record native_selection =
  ns_isCollapsed :: bool
  ns_anchorInRoot :: bool
  ns_anchorIsRoot :: bool
  ns_rangeRect :: dom_rect

record window_state =
  ws_selection :: "native_selection option"
  ws_root :: "dom_element option"
  ws_activeClass :: "string option"
  ws_page :: "rat \<times> rat"
  ws_offsetWidth :: rat

record link_editor =
  linkUrl :: string
  isEditMode :: bool
  lastSelection :: editor_selection
  le_position :: link_position

definition link_editor_init :: link_editor where
  "link_editor_init =
     \<lparr>linkUrl = '''', isEditMode = False, lastSelection = NoSelection, le_position = Hidden\<rparr>"

text \<open>
  \<open>updateLinkEditor\<close>, once the element is there. No handler sets \<open>mouseDownRef\<close>, so the element is
  placed whenever the selection is a stretch of the editor.
\<close>

definition native_rect :: "window_state \<Rightarrow> editor_selection \<Rightarrow> dom_rect option" where
  "native_rect w sel = (case (ws_selection w, ws_root w) of
      (Some ns, Some rootElement) \<Rightarrow>
        if sel \<noteq> NoSelection \<and> \<not> ns_isCollapsed ns \<and> ns_anchorInRoot ns
        then Some (if ns_anchorIsRoot ns then innermost_rect rootElement else ns_rangeRect ns) else None
    | _ \<Rightarrow> None)"

definition updateLinkEditor :: "window_state \<Rightarrow> editor_selection \<Rightarrow> link_editor \<Rightarrow> link_editor" where
  "updateLinkEditor w sel e =
     (let e1 = (case sel of
          RangeSelection s \<Rightarrow> e\<lparr>linkUrl := (case link_at (getSelectedNode s) of Some url \<Rightarrow> url | None \<Rightarrow> '''')\<rparr>
        | _ \<Rightarrow> e)
      in case native_rect w sel of
           Some r \<Rightarrow> e1\<lparr>le_position := positionEditorElement (ws_page w) (ws_offsetWidth w) (Some r),
                       lastSelection := sel\<rparr>
         | None \<Rightarrow>
             if ws_activeClass w \<noteq> Some ''link-input''
             then e1\<lparr>le_position := positionEditorElement (ws_page w) (ws_offsetWidth w) None,
                     lastSelection := NoSelection, isEditMode := False, linkUrl := ''''\<rparr>
             else e1)"

definition onLinkEdit :: "link_editor \<Rightarrow> link_editor" where
  "onLinkEdit e = e\<lparr>isEditMode := True\<rparr>"

definition onLinkChange :: "string \<Rightarrow> link_editor \<Rightarrow> link_editor" where
  "onLinkChange value e = e\<lparr>linkUrl := value\<rparr>"

definition onLinkKeyDown :: "string \<Rightarrow> link_editor \<Rightarrow> link_editor \<times> editor_command list" where
  "onLinkKeyDown key e =
     (if key = ''Enter'' then
        (if lastSelection e \<noteq> NoSelection
         then (e\<lparr>isEditMode := False\<rparr>,
               if linkUrl e \<noteq> '''' then [TOGGLE_LINK_COMMAND (Some (linkUrl e))] else [])
         else (e, []))
      else if key = ''Escape'' then (e\<lparr>isEditMode := False\<rparr>, [])
      else (e, []))"

section \<open>The editor around the toolbar\<close>

text \<open>\<open>RichEditor\<close>: the toolbar is left out exactly when \<open>configOptions.editable\<close> says false.\<close>

definition shouldDisplayToolbar :: "bool option \<Rightarrow> bool" where
  "shouldDisplayToolbar editable = (case editable of Some b \<Rightarrow> b | None \<Rightarrow> True)"

section \<open>The toolbar follows the selection\<close>

lemma named_block: "blockTypeToBlockName ty \<noteq> None \<longleftrightarrow>
    ty \<in> {''code'', ''h1'', ''h2'', ''h3'', ''h4'', ''h5'', ''ol'', ''paragraph'', ''quote'', ''ul''}"
  by (simp add: blockTypeToBlockName_def)

lemma options_keep_block:
  "map_of block_options label = Some (b, f) \<Longrightarrow> blockType (fst (f sel t)) = blockType t"
  by (auto simp: block_options_def formatParagraph_def formatLargeHeading_def formatSmallHeading_def
      formatBulletList_def formatNumberedList_def formatQuote_def close_dropdown_def split: if_splits)

lemma buttons_keep_block:
  "b \<in> set (toolbar_buttons t) \<Longrightarrow> blockType (fst (tb_click b u)) = blockType u"
proof -
  have "list_all (\<lambda>b. \<forall>u. blockType (fst (tb_click b u)) = blockType u) (toolbar_buttons t)"
    by (simp add: toolbar_buttons_def history_buttons_def block_buttons_def format_buttons_def
        align_buttons_def dispatching_def)
  then show "b \<in> set (toolbar_buttons t) \<Longrightarrow> blockType (fst (tb_click b u)) = blockType u"
    by (simp add: list_all_iff)
qed

lemma find_in: "find P xs = Some x \<Longrightarrow> x \<in> set xs"
  by (induction xs) (auto split: if_splits)

lemma block_named: "blockTypeToBlockName (blockType (toolbar_after es)) \<noteq> None"
proof (induction es rule: rev_induct)
  case (snoc e es)
  let ?t = "toolbar_after es"
  have "blockTypeToBlockName (blockType (fst (on_toolbar e ?t))) \<noteq> None"
  proof (cases e)
    case (EditorUpdated hasElement sel)
    then show ?thesis
      using snoc.IH by (auto simp: updateToolbar_def Let_def split: editor_selection.splits option.splits)
  next
    case (ButtonPressed label)
    then show ?thesis
      using snoc.IH buttons_keep_block by (auto split: option.splits dest!: find_in)
  next
    case (OptionChosen label sel)
    then show ?thesis
      using snoc.IH options_keep_block by (auto split: option.splits)
  qed (use snoc.IH in \<open>simp_all add: document_click_def close_dropdown_def\<close>)
  then show ?case
    unfolding toolbar_after_simps .
qed (simp add: toolbar_init_def blockTypeToBlockName_def)

text \<open>What choosing a block type should ask for, on a selection in a block of another or the same type.\<close>

definition option_commands :: "string \<Rightarrow> string \<Rightarrow> editor_command list" where
  "option_commands b ty =
     (if ty = b then (if b = ''ol'' \<or> b = ''ul'' then [REMOVE_LIST_COMMAND] else [])
      else if b = ''ol'' then [INSERT_ORDERED_LIST_COMMAND]
      else if b = ''ul'' then [INSERT_UNORDERED_LIST_COMMAND]
      else [WrapNodes (if b = ''h1'' then HeadingNode H1 else if b = ''h2'' then HeadingNode H2
         else if b = ''quote'' then QuoteNode else ParagraphNode)])"

lemma option_commands_asked:
  "\<forall>(label, b, f) \<in> set block_options. snd (f (RangeSelection s) t) = option_commands b (blockType t)"
proof -
  have "list_all (\<lambda>(label, b, f). snd (f (RangeSelection s) t) = option_commands b (blockType t)) block_options"
    by (simp add: block_options_def option_commands_def wrap_selection_def formatParagraph_def
        formatLargeHeading_def formatSmallHeading_def formatBulletList_def formatNumberedList_def
        formatQuote_def)
  then show ?thesis
    by (simp add: list_all_iff)
qed

definition active_labels :: "range_selection \<Rightarrow> string list" where
  "active_labels s = map fst (filter snd
     [(''Format Bold'', hasFormat s ''bold''), (''Format Italics'', hasFormat s ''italic''),
      (''Format Underline'', hasFormat s ''underline''),
      (''Format Strikethrough'', hasFormat s ''strikethrough''),
      (''Insert Link'', link_at (getSelectedNode s) \<noteq> None)])"

lemma active_buttons:
  "map tb_label (filter tb_active (toolbar_buttons t)) =
     map fst (filter snd [(''Format Bold'', isBold t), (''Format Italics'', isItalic t),
       (''Format Underline'', isUnderline t), (''Format Strikethrough'', isStrikethrough t),
       (''Insert Link'', isLink t)])"
  by (simp add: toolbar_buttons_def history_buttons_def block_buttons_def format_buttons_def
      align_buttons_def dispatching_def)

text \<open>
  C24: Whatever happened to the toolbar before, after an update on a range selection its active buttons
  are the formats that the selection has and the link it is in; it shows the type of the selected
  block when it has a name for it, and then each entry of the list of block types asks the editor
  for exactly what that entry means on this block; for a type without a name it keeps the type it
  showed. The type it shows always has a name.
\<close>

theorem toolbar_follows_selection:
  assumes "selected_element s = Some e" and "hasElement (ln_key e)"
    and "t = toolbar_after (es @ [EditorUpdated hasElement (RangeSelection s)])"
    and "ty = block_type (rs_anchor s) e"
  shows "map tb_label (filter tb_active (toolbar_buttons t)) = active_labels s
    \<and> blockTypeToBlockName (blockType t) \<noteq> None
    \<and> blockType t = (if blockTypeToBlockName ty \<noteq> None then ty else blockType (toolbar_after es))
    \<and> (\<forall>(label, b, f) \<in> set block_options. snd (f (RangeSelection s) t) = option_commands b (blockType t))"
proof (intro conjI)
  have t: "t = (let t1 = (if blockTypeToBlockName ty \<noteq> None then (toolbar_after es)\<lparr>blockType := ty\<rparr>
      else toolbar_after es)
    in t1\<lparr>isBold := hasFormat s ''bold'', isItalic := hasFormat s ''italic'',
      isUnderline := hasFormat s ''underline'', isStrikethrough := hasFormat s ''strikethrough'',
      isLink := link_at (getSelectedNode s) \<noteq> None\<rparr>)"
    using assms by (simp add: updateToolbar_def Let_def)
  show "map tb_label (filter tb_active (toolbar_buttons t)) = active_labels s"
    by (simp only: active_buttons active_labels_def) (simp add: t Let_def)
  show "blockTypeToBlockName (blockType t) \<noteq> None"
    unfolding assms(3) by (rule block_named)
  show "blockType t = (if blockTypeToBlockName ty \<noteq> None then ty else blockType (toolbar_after es))"
    by (simp add: t Let_def)
  show "\<forall>(label, b, f) \<in> set block_options. snd (f (RangeSelection s) t) = option_commands b (blockType t)"
    by (rule option_commands_asked)
qed

definition sample_selection :: "node_class \<Rightarrow> range_selection" where
  "sample_selection c =
     (let p = [\<lparr>ln_key = ''3'', ln_class = TextNode\<rparr>, \<lparr>ln_key = ''2'', ln_class = LinkNode ''https://a''\<rparr>,
        \<lparr>ln_key = ''1'', ln_class = c\<rparr>, \<lparr>ln_key = ''root'', ln_class = RootNode\<rparr>]
      in \<lparr>rs_anchor = p, rs_focus = p, rs_isBackward = False, rs_anchorAtNodeEnd = False,
          rs_focusAtNodeEnd = True, rs_formats = [''bold'']\<rparr>)"

lemmas sample_selection_defs = sample_selection_def selected_element_def block_type_def
  getSelectedNode_def link_at_def getParent_def link_of_def hasFormat_def

theorem toolbar_follows_selection_witness:
  "map tb_label (filter tb_active (toolbar_buttons
      (toolbar_after [EditorUpdated (\<lambda>_. True) (RangeSelection (sample_selection QuoteNode))])))
     = [''Format Bold'', ''Insert Link'']
   \<and> blockType (toolbar_after [EditorUpdated (\<lambda>_. True) (RangeSelection (sample_selection QuoteNode))])
     = ''quote''"
proof -
  let ?s = "sample_selection QuoteNode"
  have e: "selected_element ?s = Some \<lparr>ln_key = ''1'', ln_class = QuoteNode\<rparr>"
    by (simp add: sample_selection_defs Let_def)
  have "active_labels ?s = [''Format Bold'', ''Insert Link'']"
    by (simp add: active_labels_def sample_selection_defs Let_def)
  moreover have "block_type (rs_anchor ?s) \<lparr>ln_key = ''1'', ln_class = QuoteNode\<rparr> = ''quote''"
    by (simp add: block_type_def)
  ultimately show ?thesis
    using toolbar_follows_selection[OF e, of "\<lambda>_. True", OF TrueI refl refl, of "[]"]
    by (simp add: blockTypeToBlockName_def del: toolbar_after_simps)
qed

section \<open>What the toolbar does not show\<close>

text \<open>
  The heading of level 6 that the Markdown shortcuts make has no name: after a paragraph the toolbar
  still says Normal, and choosing Normal asks for nothing.
\<close>

lemma heading6_not_shown:
  fixes hasElement :: "string \<Rightarrow> bool"
  assumes "selected_element s = Some e" and "ln_class e = HeadingNode H6"
    and "blockType (toolbar_after es) = ''paragraph''"
  defines "t \<equiv> toolbar_after (es @ [EditorUpdated hasElement (RangeSelection s)])"
  shows "blockType t = ''paragraph''" and "snd (formatParagraph (RangeSelection s) t) = []"
  using assms
  by (simp_all add: t_def updateToolbar_def block_type_def blockTypeToBlockName_def formatParagraph_def
      Let_def)

text \<open>The headings of levels 3 to 5 have names, but the button that would show them is left out.\<close>

lemma heading3_no_button:
  fixes hasElement :: "string \<Rightarrow> bool" and es :: "toolbar_event list"
  assumes "selected_element s = Some e" and "ln_class e = HeadingNode h" and "h \<in> {H3, H4, H5}"
    and "hasElement (ln_key e)"
  defines "t \<equiv> toolbar_after (es @ [EditorUpdated hasElement (RangeSelection s)])"
  shows "blockTypeToBlockName (blockType t) = Some ''Heading''" and "\<not> block_button t"
    and "on_toolbar (OptionChosen label sel) t = (t, [])"
proof -
  have h: "blockTypeToBlockName (heading_name h) = Some ''Heading''" "heading_name h \<notin> set supportedBlockTypes"
    using assms(3) by (auto simp: blockTypeToBlockName_def supportedBlockTypes_def)
  have "blockType t = heading_name h"
    using assms(1,2,4) h(1) by (simp add: t_def updateToolbar_def block_type_def Let_def)
  then show "blockTypeToBlockName (blockType t) = Some ''Heading''" and no: "\<not> block_button t"
    using h by (simp_all add: block_button_def)
  from no show "on_toolbar (OptionChosen label sel) t = (t, [])"
    by (simp add: dropdown_open_def)
qed

text \<open>
  The input of the link has the class that the style sheet's module gives \<open>linkInput\<close>. As that is not
  \<open>link-input\<close>, an update while the input has the focus and the window's selection is not a stretch
  of the editor hides the link editor and leaves its edit mode.
\<close>

lemma link_input_not_spared:
  assumes "ws_activeClass w = Some (styles ''linkInput'')" and "styles ''linkInput'' \<noteq> ''link-input''"
    and "native_rect w sel = None"
  shows "\<not> isEditMode (updateLinkEditor w sel e)" and "le_position (updateLinkEditor w sel e) = Hidden"
    and "linkUrl (updateLinkEditor w sel e) = ''''"
  using assms
  by (simp_all add: updateLinkEditor_def Let_def positionEditorElement_def split: editor_selection.split)

text \<open>The Enter key sends a link only for a selection that was a stretch of the editor, never an empty one.\<close>

lemma link_sent:
  assumes "snd (onLinkKeyDown key e) \<noteq> []"
  shows "key = ''Enter''" and "lastSelection e \<noteq> NoSelection" and "linkUrl e \<noteq> ''''"
    and "snd (onLinkKeyDown key e) = [TOGGLE_LINK_COMMAND (Some (linkUrl e))]"
  using assms by (auto simp: onLinkKeyDown_def split: if_splits)

end
