(* ===== verification/Board_Page.thy ===== *)
theory Board_Page
  imports Client_Board
begin

text \<open>
  The moderators' page as it runs (\<open>activity/page.tsx\<close>): its board and card objects in a store, as the
  handlers change some of them in place and replace others, and the handlers of drag and drop, which
  react-dnd keeps as they were when the lists were first rendered. The first part says what the page
  offers for a card and a preview; the second relates the page to the handlers of \<open>Client_Board\<close>, which
  read the lists that are shown; the third says what an approval before a drop comes to.
\<close>

section \<open>What the page offers\<close>

datatype card_body =
    DebateBody "string option" "tag_json list"
  | ArgumentBody "string option" "string option"

text \<open>A card: its label, what can be done with it, its body and the name of its moderator.\<close>

record card_face =
  cf_label :: card_label
  cf_clickable :: bool
  cf_draggable :: bool
  cf_approve :: bool
  cf_body :: card_body
  cf_moderator :: string

definition card_face :: "client_user option \<Rightarrow> board_card \<Rightarrow> card_face" where
  "card_face crtUser cardData =
     \<lparr>cf_label = bc_ticketLabel cardData,
      cf_clickable = hasRightsOnTicket crtUser cardData,
      cf_draggable = hasRightsOnTicket crtUser cardData,
      cf_approve = approve_offered crtUser cardData,
      cf_body = (if bc_ticketLabel cardData = LABEL_DEBATE
         then DebateBody (bc_ticketTitle cardData) (bc_tags cardData)
         else ArgumentBody (bc_debateTitle cardData) (bc_ticketTitle cardData)),
      cf_moderator = (case bc_moderatorUsername cardData of
           Some n \<Rightarrow> if n = [] then ''unassigned'' else n | None \<Rightarrow> ''unassigned'')\<rparr>"

record board_face =
  bf_title :: string
  bf_count :: nat
  bf_cards :: "card_face list"
  bf_acceptsDrops :: bool

definition board_face :: "client_user option \<Rightarrow> board_data \<Rightarrow> board_face" where
  "board_face crtUser b =
     \<lparr>bf_title = board_list_name (bd_boardList b), bf_count = length (bd_cards b),
      bf_cards = map (card_face crtUser) (bd_cards b),
      bf_acceptsDrops = canAcceptDrops (bd_boardList b)\<rparr>"

section \<open>The preview\<close>

text \<open>What the API adds to a card that is previewed.\<close>

record preview_data =
  pd_title :: "string option"
  pd_content :: "string option"
  pd_username :: "string option"

record preview_state =
  pv_card :: "(board_card \<times> preview_data) option"
  pv_isArgumentLoading :: bool
  pv_isDebateLoading :: bool

definition preview_init :: preview_state where
  "preview_init = \<lparr>pv_card = None, pv_isArgumentLoading = False, pv_isDebateLoading = False\<rparr>"

definition number_text :: "int option \<Rightarrow> string" where
  "number_text i = (case i of None \<Rightarrow> ''undefined'' | Some k \<Rightarrow> int_to_string k)"

definition fetchArgument :: "int option \<Rightarrow> int option \<Rightarrow> string" where
  "fetchArgument debateId argId =
     ''moderator/debates/'' @ number_text debateId @ ''/argument/'' @ number_text argId"

definition fetchDebateByTicketId :: "int \<Rightarrow> string" where
  "fetchDebateByTicketId ticketId = ''/moderator/debate/'' @ int_to_string ticketId"

definition onCardClick :: "board_card \<Rightarrow> preview_state \<Rightarrow> preview_state \<times> string" where
  "onCardClick cardData s = (case bc_ticketLabel cardData of
      LABEL_ARGUMENT \<Rightarrow> (s\<lparr>pv_isArgumentLoading := True\<rparr>, fetchArgument (bc_debateId cardData) (bc_argumentId cardData))
    | LABEL_DEBATE \<Rightarrow> (s\<lparr>pv_isDebateLoading := True\<rparr>, fetchDebateByTicketId (bc_ticketId cardData)))"

definition card_answered :: "board_card \<Rightarrow> preview_data \<Rightarrow> preview_state \<Rightarrow> preview_state" where
  "card_answered cardData answer s = (case bc_ticketLabel cardData of
      LABEL_ARGUMENT \<Rightarrow> s\<lparr>pv_isArgumentLoading := False, pv_card := Some (cardData, answer)\<rparr>
    | LABEL_DEBATE \<Rightarrow> s\<lparr>pv_isDebateLoading := False, pv_card := Some (cardData, answer)\<rparr>)"

definition onPreviewCardModalClose :: "preview_state \<Rightarrow> preview_state" where
  "onPreviewCardModalClose s = s\<lparr>pv_card := None\<rparr>"

datatype preview_body =
    LoadingText string
  | ArgumentPreview "string option" "string option"
  | DebatePreview "string option"

record preview_face =
  pf_expand :: bool
  pf_body :: preview_body
  pf_addedBy :: "string option"

text \<open>The dialog, when it is open; its expand button is left out for a pending card.\<close>

definition preview_face :: "preview_state \<Rightarrow> preview_face option" where
  "preview_face s = map_option (\<lambda>(crd, d).
     \<lparr>pf_expand = (bc_boardList crd \<noteq> PENDING),
      pf_body = (if bc_ticketLabel crd = LABEL_ARGUMENT
         then (if pv_isArgumentLoading s then LoadingText ''Loading...''
               else ArgumentPreview (bc_ticketTitle crd) (pd_content d))
         else if pv_isDebateLoading s then LoadingText ''Loading debate...''
         else DebatePreview (pd_title d)),
      pf_addedBy = pd_username d\<rparr>) (pv_card s)"

section \<open>The objects of the page\<close>

text \<open>A board object refers to its cards; the page's state refers to the boards.\<close>

record board_object =
  bo_boardList :: board_list
  bo_cards :: "nat list"

text \<open>
  The store, the state \<open>activityBoards\<close>, and what the drop handlers hold: the boards and the moderator
  of the render in which the lists came up, as \<open>useDrop\<close> gets a function and no dependencies.
\<close>

record board_page =
  bp_boards :: "nat \<Rightarrow> board_object"
  bp_cards :: "nat \<Rightarrow> board_card"
  bp_nextBoard :: nat
  bp_nextCard :: nat
  bp_activityBoards :: "nat list"
  bp_held :: "nat list"
  bp_heldModerator :: "client_user option"

fun board_objects :: "nat \<Rightarrow> board_data list \<Rightarrow> board_object list" where
  "board_objects k [] = []"
| "board_objects k (b # bs) =
     \<lparr>bo_boardList = bd_boardList b, bo_cards = [k..<k + length (bd_cards b)]\<rparr>
       # board_objects (k + length (bd_cards b)) bs"

text \<open>The lists have been loaded and rendered for the first time.\<close>

definition boards_loaded :: "client_user option \<Rightarrow> board_data list \<Rightarrow> board_page" where
  "boards_loaded crtModerator data =
     (let cards = concat (map bd_cards data); objs = board_objects 0 data
      in \<lparr>bp_boards = (!) objs, bp_cards = (!) cards, bp_nextBoard = length objs,
          bp_nextCard = length cards, bp_activityBoards = [0..<length objs], bp_held = [0..<length objs],
          bp_heldModerator = crtModerator\<rparr>)"

definition shown_board :: "board_page \<Rightarrow> nat \<Rightarrow> board_data" where
  "shown_board p r = \<lparr>bd_boardList = bo_boardList (bp_boards p r),
     bd_cards = map (bp_cards p) (bo_cards (bp_boards p r))\<rparr>"

lemma shown_board_state [simp]: "shown_board (p\<lparr>bp_activityBoards := rs\<rparr>) = shown_board p"
  by (simp add: shown_board_def fun_eq_iff)

definition shown :: "board_page \<Rightarrow> board_data list" where
  "shown p = map (shown_board p) (bp_activityBoards p)"

section \<open>Its handlers\<close>

text \<open>The item of a drag: the list its card was rendered in and the card.\<close>

text \<open>
  The new card data of a drop: an object of its own when the moderator changes. Then its list is set,
  in place.
\<close>

definition drop_item ::
  "client_user option \<Rightarrow> board_list \<Rightarrow> board_list \<Rightarrow> board_page \<times> nat \<Rightarrow> board_page \<times> nat" where
  "drop_item crtModerator from dest = (\<lambda>(p, item).
     let (p, item) =
       (if from \<noteq> PENDING \<and> dest = PENDING then
          (p\<lparr>bp_cards := (bp_cards p)(bp_nextCard p := (bp_cards p item)
               \<lparr>bc_moderatorId := None, bc_moderatorUsername := None\<rparr>),
             bp_nextCard := bp_nextCard p + 1\<rparr>, bp_nextCard p)
        else if from = PENDING \<and> dest \<noteq> PENDING then
          (p\<lparr>bp_cards := (bp_cards p)(bp_nextCard p := (bp_cards p item)
               \<lparr>bc_moderatorId := map_option fst crtModerator,
                bc_moderatorUsername := map_option snd crtModerator\<rparr>),
             bp_nextCard := bp_nextCard p + 1\<rparr>, bp_nextCard p)
        else (p, item))
     in (p\<lparr>bp_cards := (bp_cards p)(item := (bp_cards p item)\<lparr>bc_boardList := dest\<rparr>)\<rparr>, item))"

text \<open>One board of the map in \<open>onItemDropped\<close>.\<close>

definition drop_on ::
  "client_user option \<Rightarrow> board_list \<Rightarrow> board_list \<Rightarrow> nat \<Rightarrow> board_page \<times> nat \<Rightarrow> board_page \<times> nat" where
  "drop_on crtModerator from dest a = (\<lambda>(p, item).
     if bo_boardList (bp_boards p a) = from then
       (p\<lparr>bp_boards := (bp_boards p)(a := (bp_boards p a)\<lparr>bo_cards :=
            filter (\<lambda>c. bc_ticketId (bp_cards p c) \<noteq> bc_ticketId (bp_cards p item)) (bo_cards (bp_boards p a))\<rparr>)\<rparr>,
        item)
     else if bo_boardList (bp_boards p a) = dest then
       (let (p, item) = drop_item crtModerator from dest (p, item)
        in (p\<lparr>bp_boards := (bp_boards p)(a := (bp_boards p a)\<lparr>bo_cards := bo_cards (bp_boards p a) @ [item]\<rparr>)\<rparr>,
            item))
     else (p, item))"

definition page_drop :: "board_list \<Rightarrow> nat \<Rightarrow> board_list \<Rightarrow> board_page \<Rightarrow> board_page \<times> (int \<times> string) option" where
  "page_drop from item dest p =
     (if \<not> canAcceptDrops dest \<or> dest = ACCEPTED \<or> from = dest then (p, None)
      else if from = PENDING \<and> dest \<noteq> PENDING \<and> no_moderator (bp_heldModerator p) then (p, None)
      else let (p', item') = fold (drop_on (bp_heldModerator p) from dest) (bp_held p) (p, item)
        in (p'\<lparr>bp_activityBoards := bp_held p\<rparr>,
            Some (bc_ticketId (bp_cards p' item'), board_list_name dest)))"

text \<open>
  \<open>onApproveTicket\<close> once the API has answered: the card's list is set in place, the two boards
  concerned are replaced by new objects, in the boards that are shown.
\<close>

definition approve_on ::
  "board_list \<Rightarrow> nat \<Rightarrow> nat \<Rightarrow> board_page \<times> nat list \<Rightarrow> board_page \<times> nat list" where
  "approve_on updatedBoardList crd b = (\<lambda>(p, bs).
     let ob = bp_boards p b; n = bp_nextBoard p
     in if bo_boardList ob \<noteq> updatedBoardList \<and> bo_boardList ob \<noteq> ACCEPTED then (p, bs @ [b])
        else (p\<lparr>bp_boards := (bp_boards p)(n :=
            (if bo_boardList ob = ACCEPTED then ob\<lparr>bo_cards := bo_cards ob @ [crd]\<rparr>
             else ob\<lparr>bo_cards := filter (\<lambda>c. bc_ticketId (bp_cards p c) \<noteq> bc_ticketId (bp_cards p crd))
               (bo_cards ob)\<rparr>)), bp_nextBoard := n + 1\<rparr>, bs @ [n]))"

definition page_approved :: "board_list \<Rightarrow> nat \<Rightarrow> board_page \<Rightarrow> board_page" where
  "page_approved updatedBoardList crd p =
     (let p0 = p\<lparr>bp_cards := (bp_cards p)(crd := (bp_cards p crd)\<lparr>bc_boardList := ACCEPTED\<rparr>)\<rparr>;
          (p', bs) = fold (approve_on updatedBoardList crd) (bp_activityBoards p0) (p0, [])
      in p'\<lparr>bp_activityBoards := bs\<rparr>)"

section \<open>As long as nothing was approved, the page drops what it shows\<close>

definition cards_of :: "board_page \<Rightarrow> nat \<Rightarrow> nat list" where
  "cards_of p r = bo_cards (bp_boards p r)"

definition list_at :: "board_page \<Rightarrow> nat \<Rightarrow> board_list" where
  "list_at p r = bo_boardList (bp_boards p r)"

text \<open>The boards that are shown are those the drop handlers hold; no two share a list or a card.\<close>

definition page_ok :: "board_page \<Rightarrow> bool" where
  "page_ok p \<longleftrightarrow> bp_activityBoards p = bp_held p \<and> distinct (bp_held p)
     \<and> inj_on (list_at p) (set (bp_held p))
     \<and> (\<forall>r \<in> set (bp_held p). r < bp_nextBoard p \<and> (\<forall>c \<in> set (cards_of p r). c < bp_nextCard p))
     \<and> (\<forall>r \<in> set (bp_held p). \<forall>s \<in> set (bp_held p). r \<noteq> s \<longrightarrow> set (cards_of p r) \<inter> set (cards_of p s) = {})"

text \<open>The page in the middle of a drop, the boards \<open>xs\<close> being done.\<close>

definition fresh_item :: "board_list \<Rightarrow> board_list \<Rightarrow> bool" where
  "fresh_item frm dest \<longleftrightarrow> (frm = PENDING) \<noteq> (dest = PENDING)"

definition new_item :: "board_page \<Rightarrow> board_list \<Rightarrow> board_list \<Rightarrow> nat \<Rightarrow> nat" where
  "new_item p frm dest item = (if fresh_item frm dest then bp_nextCard p else item)"

definition new_cards ::
  "board_page \<Rightarrow> client_user option \<Rightarrow> board_list \<Rightarrow> board_list \<Rightarrow> nat \<Rightarrow> nat \<Rightarrow> board_card" where
  "new_cards p m frm dest item = (bp_cards p)(new_item p frm dest item :=
     dropped_card m \<lparr>di_fromBoardList = frm, di_cardData = bp_cards p item\<rparr> dest)"

definition done_board :: "board_page \<Rightarrow> board_list \<Rightarrow> board_list \<Rightarrow> nat \<Rightarrow> nat \<Rightarrow> board_object" where
  "done_board p frm dest item r = (let ob = bp_boards p r in
     if bo_boardList ob = frm
     then ob\<lparr>bo_cards := filter (\<lambda>c. bc_ticketId (bp_cards p c) \<noteq> bc_ticketId (bp_cards p item)) (bo_cards ob)\<rparr>
     else if bo_boardList ob = dest then ob\<lparr>bo_cards := bo_cards ob @ [new_item p frm dest item]\<rparr> else ob)"

definition dest_done :: "board_page \<Rightarrow> board_list \<Rightarrow> nat list \<Rightarrow> bool" where
  "dest_done p dest xs \<longleftrightarrow> dest \<in> list_at p ` set xs"

definition half_dropped ::
  "board_page \<Rightarrow> client_user option \<Rightarrow> board_list \<Rightarrow> board_list \<Rightarrow> nat \<Rightarrow> nat list \<Rightarrow> board_page \<times> nat" where
  "half_dropped p m frm dest item xs =
     (p\<lparr>bp_boards := (\<lambda>r. if r \<in> set xs then done_board p frm dest item r else bp_boards p r),
        bp_cards := if dest_done p dest xs then new_cards p m frm dest item else bp_cards p,
        bp_nextCard := if dest_done p dest xs \<and> fresh_item frm dest then bp_nextCard p + 1 else bp_nextCard p\<rparr>,
      if dest_done p dest xs then new_item p frm dest item else item)"

lemma drop_item_new:
  "frm \<noteq> dest \<Longrightarrow> drop_item m frm dest (p, item) =
     (p\<lparr>bp_cards := new_cards p m frm dest item,
        bp_nextCard := if fresh_item frm dest then bp_nextCard p + 1 else bp_nextCard p\<rparr>,
      new_item p frm dest item)"
  by (auto simp: drop_item_def new_cards_def new_item_def fresh_item_def dropped_card_def Let_def)

lemma new_card_boards [simp]:
  "new_item (p\<lparr>bp_boards := bs\<rparr>) frm dest item = new_item p frm dest item"
  "new_cards (p\<lparr>bp_boards := bs\<rparr>) m frm dest item = new_cards p m frm dest item"
  by (simp_all add: new_item_def new_cards_def)

lemma new_card_ticket:
  "item < bp_nextCard p \<Longrightarrow> c < bp_nextCard p \<Longrightarrow>
     bc_ticketId (new_cards p m frm dest item c) = bc_ticketId (bp_cards p c)"
  by (auto simp: new_cards_def new_item_def dropped_card_def Let_def)

lemma new_item_ticket:
  "bc_ticketId (new_cards p m frm dest item (new_item p frm dest item)) = bc_ticketId (bp_cards p item)"
  by (simp add: new_cards_def dropped_card_def Let_def)

lemma half_dropped_step:
  assumes ok: "page_ok p" and item: "item < bp_nextCard p" and "frm \<noteq> dest"
    and xs: "set xs \<subseteq> set (bp_held p)" "a \<in> set (bp_held p)" "a \<notin> set xs"
  shows "drop_on m frm dest a (half_dropped p m frm dest item xs) = half_dropped p m frm dest item (xs @ [a])"
proof -
  have boards: "(\<lambda>r. if r \<in> set xs then done_board p frm dest item r else bp_boards p r)(a := done_board p frm dest item a)
      = (\<lambda>r. if r \<in> set (xs @ [a]) then done_board p frm dest item r else bp_boards p r)"
    by (auto simp: fun_eq_iff)
  have below: "c < bp_nextCard p" if "c \<in> set (bo_cards (bp_boards p a))" for c
    using ok xs(2) that by (auto simp: page_ok_def cards_of_def)
  consider (frm) "bo_boardList (bp_boards p a) = frm" | (dest) "bo_boardList (bp_boards p a) = dest"
    | (other) "bo_boardList (bp_boards p a) \<noteq> frm" "bo_boardList (bp_boards p a) \<noteq> dest" by blast
  then show ?thesis
  proof cases
    case frm
    then have "dest_done p dest (xs @ [a]) = dest_done p dest xs"
      using assms(3) by (auto simp: dest_done_def list_at_def)
    moreover have "filter (\<lambda>c. bc_ticketId (new_cards p m frm dest item c) \<noteq> bc_ticketId (bp_cards p item)) (bo_cards (bp_boards p a))
        = filter (\<lambda>c. bc_ticketId (bp_cards p c) \<noteq> bc_ticketId (bp_cards p item)) (bo_cards (bp_boards p a))"
      using new_card_ticket[OF item below] by (intro filter_cong) simp_all
    ultimately show ?thesis
      using frm xs(3) boards by (simp add: half_dropped_def drop_on_def new_item_ticket done_board_def Let_def)
  next
    case dest
    have "\<not> dest_done p dest xs"
    proof
      assume "dest_done p dest xs"
      then obtain b where "b \<in> set xs" "list_at p b = list_at p a"
        using dest by (auto simp: dest_done_def list_at_def)
      then show False
        using ok xs by (metis inj_onD page_ok_def subsetD)
    qed
    moreover have "dest_done p dest (xs @ [a])"
      using dest by (simp add: dest_done_def list_at_def)
    moreover have "done_board p frm dest item a =
        (bp_boards p a)\<lparr>bo_cards := bo_cards (bp_boards p a) @ [new_item p frm dest item]\<rparr>"
      using dest assms(3) by (simp add: done_board_def Let_def)
    ultimately show ?thesis
      using dest assms(3) xs(3) boards
      by (simp add: half_dropped_def drop_on_def drop_item_new)
  next
    case other
    then have "dest_done p dest (xs @ [a]) = dest_done p dest xs"
      by (auto simp: dest_done_def list_at_def)
    moreover have "(\<lambda>r. if r \<in> set (xs @ [a]) then done_board p frm dest item r else bp_boards p r)
        = (\<lambda>r. if r \<in> set xs then done_board p frm dest item r else bp_boards p r)"
      using other by (auto simp: fun_eq_iff done_board_def)
    ultimately show ?thesis
      using other xs(3) unfolding half_dropped_def by (simp only:) (simp add: drop_on_def)
  qed
qed

lemma fold_drop:
  assumes "page_ok p" "item < bp_nextCard p" "frm \<noteq> dest"
  shows "fold (drop_on m frm dest) (bp_held p) (p, item) = half_dropped p m frm dest item (bp_held p)"
proof -
  have "fold (drop_on m frm dest) xs (p, item) = half_dropped p m frm dest item xs"
    if "distinct xs" "set xs \<subseteq> set (bp_held p)" for xs
    using that
  proof (induction xs rule: rev_induct)
    case (snoc a xs)
    then show ?case
      using half_dropped_step[OF assms] by simp
  qed (simp add: half_dropped_def dest_done_def)
  then show ?thesis
    using assms(1) by (simp add: page_ok_def)
qed

lemma done_board_list [simp]: "bo_boardList (done_board p frm dest item r) = bo_boardList (bp_boards p r)"
  by (simp add: done_board_def Let_def)

lemma new_item_not_shown:
  assumes "page_ok p" "r \<in> set (bp_held p)" "item \<in> set (cards_of p r)" "s \<in> set (bp_held p)" "s \<noteq> r"
  shows "new_item p frm dest item \<notin> set (cards_of p s)"
proof (cases "fresh_item frm dest")
  case True
  then show ?thesis
    using assms(1,4) by (fastforce simp: page_ok_def new_item_def)
next
  case False
  then show ?thesis
    using assms unfolding page_ok_def new_item_def by auto
qed

lemma done_board_shown:
  assumes ok: "page_ok p" and r: "r \<in> set (bp_held p)" "item \<in> set (cards_of p r)" "list_at p r = frm"
    and s: "s \<in> set (bp_held p)" and "frm \<noteq> dest"
    and cards: "cards = (if dest_done p dest (bp_held p) then new_cards p m frm dest item else bp_cards p)"
  shows "\<lparr>bd_boardList = list_at p s, bd_cards = map cards (bo_cards (done_board p frm dest item s))\<rparr> =
    (let a = shown_board p s; i = bc_ticketId (bp_cards p item) in
     if bd_boardList a = frm then a\<lparr>bd_cards := filter (\<lambda>c. bc_ticketId c \<noteq> i) (bd_cards a)\<rparr>
     else if bd_boardList a = dest then a\<lparr>bd_cards := bd_cards a
       @ [dropped_card m \<lparr>di_fromBoardList = frm, di_cardData = bp_cards p item\<rparr> dest]\<rparr> else a)"
proof -
  let ?n = "new_item p frm dest item"
  have same: "map cards cs = map (bp_cards p) cs" if "?n \<notin> set cs" for cs
    using that by (auto simp: cards new_cards_def)
  consider (frm) "list_at p s = frm" | (dest) "list_at p s = dest" | (other) "list_at p s \<noteq> frm" "list_at p s \<noteq> dest"
    by blast
  then show ?thesis
  proof cases
    case frm
    have "?n \<notin> set (filter (\<lambda>c. bc_ticketId (bp_cards p c) \<noteq> bc_ticketId (bp_cards p item)) (cards_of p s))"
      using ok s by (auto simp: new_item_def page_ok_def)
    from same[OF this] show ?thesis
      using frm by (simp add: done_board_def shown_board_def list_at_def cards_of_def Let_def filter_map comp_def)
  next
    case dest
    then have "s \<noteq> r" using r(3) assms(6) by auto
    have "cards ?n = dropped_card m \<lparr>di_fromBoardList = frm, di_cardData = bp_cards p item\<rparr> dest"
      using dest s by (auto simp: cards dest_done_def new_cards_def)
    moreover have "map cards (cards_of p s) = map (bp_cards p) (cards_of p s)"
      by (rule same, rule new_item_not_shown[OF ok r(1,2) s \<open>s \<noteq> r\<close>])
    ultimately show ?thesis
      using dest assms(6) by (simp add: done_board_def shown_board_def list_at_def cards_of_def Let_def)
  next
    case other
    then have "s \<noteq> r" using r(3) by auto
    have "map cards (cards_of p s) = map (bp_cards p) (cards_of p s)"
      by (rule same, rule new_item_not_shown[OF ok r(1,2) s \<open>s \<noteq> r\<close>])
    then show ?thesis
      using other by (simp add: done_board_def shown_board_def list_at_def cards_of_def Let_def)
  qed
qed

definition drop_allowed :: "board_page \<Rightarrow> board_list \<Rightarrow> board_list \<Rightarrow> bool" where
  "drop_allowed p frm dest \<longleftrightarrow> dest \<noteq> ACCEPTED \<and> frm \<noteq> dest
     \<and> \<not> (frm = PENDING \<and> no_moderator (bp_heldModerator p))"

definition dropped_page :: "board_page \<Rightarrow> board_list \<Rightarrow> board_list \<Rightarrow> nat \<Rightarrow> board_page" where
  "dropped_page p frm dest item =
     fst (half_dropped p (bp_heldModerator p) frm dest item (bp_held p))\<lparr>bp_activityBoards := bp_held p\<rparr>"

lemma page_drop_run:
  assumes "page_ok p" "item < bp_nextCard p" "drop_allowed p frm dest"
  shows "page_drop frm item dest p =
    (dropped_page p frm dest item, Some (bc_ticketId (bp_cards p item), board_list_name dest))"
proof -
  have "bc_ticketId (new_cards p m frm dest item item) = bc_ticketId (bp_cards p item)" for m
    by (rule new_card_ticket[OF assms(2,2)])
  moreover have "dest \<noteq> ACCEPTED" "frm \<noteq> dest" "frm = PENDING \<Longrightarrow> \<not> no_moderator (bp_heldModerator p)"
    using assms(3) by (auto simp: drop_allowed_def)
  ultimately show ?thesis
    using assms(1,2)
    by (simp add: page_drop_def canAcceptDrops_def fold_drop dropped_page_def half_dropped_def
        new_item_ticket)
qed

lemma dropped_page_shown:
  assumes ok: "page_ok p" and r: "r \<in> set (bp_held p)" "item \<in> set (cards_of p r)" "list_at p r = frm"
    and allowed: "drop_allowed p frm dest"
  shows "shown (dropped_page p frm dest item) =
    fst (board_drop (bp_heldModerator p) (shown p) \<lparr>di_fromBoardList = frm, di_cardData = bp_cards p item\<rparr> dest)"
proof -
  let ?m = "bp_heldModerator p"
  let ?item = "\<lparr>di_fromBoardList = frm, di_cardData = bp_cards p item\<rparr>"
  let ?f = "\<lambda>a. if bd_boardList a = frm
      then a\<lparr>bd_cards := filter (\<lambda>c. bc_ticketId c \<noteq> bc_ticketId (bp_cards p item)) (bd_cards a)\<rparr>
      else if bd_boardList a = dest then a\<lparr>bd_cards := bd_cards a @ [dropped_card ?m ?item dest]\<rparr> else a"
  have allowed': "dest \<noteq> ACCEPTED" "frm \<noteq> dest" "\<not> (frm = PENDING \<and> no_moderator ?m)"
    using allowed by (auto simp: drop_allowed_def)
  have "shown_board (dropped_page p frm dest item) s = ?f (shown_board p s)" if "s \<in> set (bp_held p)" for s
    using done_board_shown[OF ok r that allowed'(2) refl, of ?m] that
    by (simp add: shown_board_def dropped_page_def half_dropped_def list_at_def Let_def)
  then have "shown (dropped_page p frm dest item) = map ?f (shown p)"
    using ok by (simp add: shown_def dropped_page_def page_ok_def)
  moreover have "fst (board_drop ?m (shown p) ?item dest) = map ?f (shown p)"
    using allowed' by (auto simp: board_drop_def canAcceptDrops_def onItemDropped_def Let_def)
  ultimately show ?thesis
    by simp
qed

lemma dropped_page_simps [simp]:
  "bp_activityBoards (dropped_page p frm dest item) = bp_held p"
  "bp_held (dropped_page p frm dest item) = bp_held p"
  "bp_heldModerator (dropped_page p frm dest item) = bp_heldModerator p"
  "bp_nextBoard (dropped_page p frm dest item) = bp_nextBoard p"
  by (simp_all add: dropped_page_def half_dropped_def)

lemma dropped_page_board:
  "s \<in> set (bp_held p) \<Longrightarrow> bp_boards (dropped_page p frm dest item) s = done_board p frm dest item s"
  by (simp add: dropped_page_def half_dropped_def)

lemma dropped_cards:
  assumes "page_ok p" "r \<in> set (bp_held p)" "item \<in> set (cards_of p r)" "list_at p r = frm"
    and s: "s \<in> set (bp_held p)"
  shows "set (cards_of (dropped_page p frm dest item) s) \<subseteq>
      set (cards_of p s) - {new_item p frm dest item}
      \<union> (if list_at p s = dest then {new_item p frm dest item} else {})"
proof -
  have fresh: "new_item p frm dest item \<notin> set (cards_of p s)" if "list_at p s \<noteq> frm"
    using that assms(4) by (intro new_item_not_shown[OF assms(1-3) s]) auto
  have frm: "new_item p frm dest item \<notin> set (filter (\<lambda>c. bc_ticketId (bp_cards p c) \<noteq> bc_ticketId (bp_cards p item)) (cards_of p s))"
    using assms(1) s by (auto simp: new_item_def page_ok_def)
  show ?thesis
    using fresh frm s
    by (auto simp: cards_of_def dropped_page_board done_board_def Let_def list_at_def)
qed

lemma page_ok_dropped:
  assumes ok: "page_ok p" and r: "r \<in> set (bp_held p)" "item \<in> set (cards_of p r)" "list_at p r = frm"
  shows "page_ok (dropped_page p frm dest item)"
proof -
  let ?q = "dropped_page p frm dest item" and ?n = "new_item p frm dest item"
  have lists: "list_at ?q s = list_at p s" if "s \<in> set (bp_held p)" for s
    using that by (simp add: list_at_def dropped_page_board)
  have inj: "inj_on (list_at p) (set (bp_held p))"
    using ok by (simp add: page_ok_def)
  have next_card: "bp_nextCard ?q = (if dest_done p dest (bp_held p) \<and> fresh_item frm dest then bp_nextCard p + 1 else bp_nextCard p)"
    by (simp add: dropped_page_def half_dropped_def)
  have below: "c < bp_nextCard ?q" if s: "s \<in> set (bp_held p)" and c: "c \<in> set (cards_of ?q s)" for s c
  proof (cases "c \<in> set (cards_of p s)")
    case True
    then have "c < bp_nextCard p"
      using ok s by (simp add: page_ok_def)
    then show ?thesis
      by (simp add: next_card)
  next
    case False
    then have n: "c = ?n" "list_at p s = dest"
      using dropped_cards[OF ok r s, of dest] c by (auto split: if_splits)
    then have "dest_done p dest (bp_held p)"
      using s by (auto simp: dest_done_def)
    moreover have "item < bp_nextCard p"
      using ok r by (simp add: page_ok_def)
    ultimately show ?thesis
      by (simp add: n(1) next_card new_item_def)
  qed
  have apart: "set (cards_of ?q s) \<inter> set (cards_of ?q t) = {}"
    if "s \<in> set (bp_held p)" "t \<in> set (bp_held p)" "s \<noteq> t" for s t
  proof -
    have "list_at p s \<noteq> list_at p t"
      using inj that by (auto dest: inj_onD)
    moreover have "set (cards_of p s) \<inter> set (cards_of p t) = {}"
      using ok that by (simp add: page_ok_def)
    ultimately show ?thesis
      using dropped_cards[OF ok r that(1), of dest] dropped_cards[OF ok r that(2), of dest]
      by (auto split: if_splits)
  qed
  have "inj_on (list_at ?q) (set (bp_held p))"
    using inj lists by (simp cong: inj_on_cong)
  then show ?thesis
    using ok below apart unfolding page_ok_def by simp
qed

section \<open>The page when it is loaded\<close>

lemma board_objects_lists: "map bo_boardList (board_objects k bs) = map bd_boardList bs"
  by (induction bs arbitrary: k) simp_all

lemma board_objects_shown:
  "map (\<lambda>ob. \<lparr>bd_boardList = bo_boardList ob, bd_cards = map ((!) (pre @ concat (map bd_cards bs))) (bo_cards ob)\<rparr>)
     (board_objects (length pre) bs) = bs"
proof (induction bs arbitrary: pre)
  case (Cons b bs)
  have "map ((!) (pre @ bd_cards b @ rest)) [length pre..<length pre + length (bd_cards b)] = bd_cards b" for rest
    by (rule nth_equalityI) (simp_all add: nth_append)
  moreover have "map (\<lambda>ob. \<lparr>bd_boardList = bo_boardList ob,
      bd_cards = map ((!) ((pre @ bd_cards b) @ concat (map bd_cards bs))) (bo_cards ob)\<rparr>)
      (board_objects (length (pre @ bd_cards b)) bs) = bs"
    by (rule Cons.IH)
  ultimately show ?case
    by simp
qed simp

lemma board_objects_bounds:
  "ob \<in> set (board_objects k bs) \<Longrightarrow> c \<in> set (bo_cards ob) \<Longrightarrow> k \<le> c \<and> c < k + length (concat (map bd_cards bs))"
  by (induction bs arbitrary: k) fastforce+

lemma board_objects_apart:
  "sorted_wrt (\<lambda>x y. set (bo_cards x) \<inter> set (bo_cards y) = {}) (board_objects k bs)"
proof (induction bs arbitrary: k)
  case (Cons b bs)
  have "set [k..<k + length (bd_cards b)] \<inter> set (bo_cards y) = {}"
    if "y \<in> set (board_objects (k + length (bd_cards b)) bs)" for y
    using board_objects_bounds[OF that] by fastforce
  then show ?case
    using Cons.IH by simp
qed simp

lemma page_ok_loaded:
  assumes "distinct (map bd_boardList bs)"
  shows "page_ok (boards_loaded m bs)"
proof -
  let ?objs = "board_objects 0 bs"
  have "distinct (map bo_boardList ?objs)"
    using assms by (simp add: board_objects_lists)
  from nth_eq_iff_index_eq[OF this] have inj: "inj_on (\<lambda>r. bo_boardList (?objs ! r)) {0..<length ?objs}"
    by (intro inj_onI) simp
  have apart: "set (bo_cards (?objs ! r)) \<inter> set (bo_cards (?objs ! s)) = {}"
    if "r < length ?objs" "s < length ?objs" "r \<noteq> s" for r s
    using sorted_wrt_nth_less[OF board_objects_apart[of 0 bs], of r s]
      sorted_wrt_nth_less[OF board_objects_apart[of 0 bs], of s r] that
    by (cases r s rule: linorder_cases) auto
  show ?thesis
    using inj apart board_objects_bounds[OF nth_mem]
    by (force simp: page_ok_def boards_loaded_def Let_def list_at_def[abs_def] cards_of_def)
qed

lemma shown_loaded: "shown (boards_loaded m bs) = bs"
proof -
  let ?objs = "board_objects 0 bs"
  let ?shown = "\<lambda>ob. \<lparr>bd_boardList = bo_boardList ob, bd_cards = map ((!) (concat (map bd_cards bs))) (bo_cards ob)\<rparr>"
  have "shown (boards_loaded m bs) = map (\<lambda>r. ?shown (?objs ! r)) [0..<length ?objs]"
    by (simp add: shown_def shown_board_def[abs_def] boards_loaded_def Let_def)
  also have "\<dots> = map ?shown ?objs"
    by (rule nth_equalityI) simp_all
  also have "\<dots> = bs"
    using board_objects_shown[of "[]" bs] by simp
  finally show ?thesis .
qed

section \<open>A drop on the page\<close>

lemma shown_board_in: "r \<in> set (bp_activityBoards p) \<Longrightarrow> shown_board p r \<in> set (shown p)"
  by (simp add: shown_def)

text \<open>
  C8: On a page whose boards came up with the moderator signed in, after any drops that were accepted
  and no approval: dragging a card that the page offers to drag onto another list that takes drops
  changes the objects of the page and asks for a move that the API accepts; the page then shows
  every ticket in the list and with the moderator that the API gave it, and is again such a page.
\<close>

theorem page_drop_refines:
  assumes "page_ok p" and "bp_heldModerator p = Some (m, n)" and "\<not> no_moderator (Some (m, n))"
    and "board_matches (wtabs w) (shown p)" and "app_ok (wtabs w)" and "tables_ok (wtabs w)"
    and "txn w = NoTxn" and "faults w = []"
    and "r \<in> set (bp_activityBoards p)" and "c \<in> set (cards_of p r)"
    and "cf_draggable (card_face (Some (m, n)) (bp_cards p c))"
    and "canAcceptDrops dest" and "list_at p r \<noteq> dest"
    and "int4 m" and "int4 (bc_ticketId (bp_cards p c))"
  shows "\<exists>p' w'. page_drop (list_at p r) c dest p
      = (p', Some (bc_ticketId (bp_cards p c), board_list_name dest))
    \<and> updateTicket \<lparr>ut_userId = m, ut_ticketId = bc_ticketId (bp_cards p c),
        ut_boardList = board_list_name dest\<rparr> w = (Inr (), w')
    \<and> board_matches (wtabs w') (shown p') \<and> page_ok p' \<and> bp_heldModerator p' = Some (m, n)"
proof -
  let ?c = "bp_cards p c" and ?frm = "list_at p r"
  have held: "r \<in> set (bp_held p)" and below: "c < bp_nextCard p"
    using assms(1,9,10) by (simp_all add: page_ok_def)
  have allowed: "drop_allowed p ?frm dest"
    using assms(2,3,12,13) by (simp add: drop_allowed_def canAcceptDrops_def)
  have "?c \<in> set (bd_cards (shown_board p r))" "bd_boardList (shown_board p r) = ?frm"
    using assms(10) by (simp_all add: shown_board_def cards_of_def list_at_def)
  moreover have "hasRightsOnTicket (Some (m, n)) ?c"
    using assms(11) by (simp add: card_face_def)
  ultimately obtain boards' w' where w':
    "board_drop (Some (m, n)) (shown p) \<lparr>di_fromBoardList = ?frm, di_cardData = ?c\<rparr> dest
       = (boards', Some (bc_ticketId ?c, board_list_name dest))"
    "updateTicket \<lparr>ut_userId = m, ut_ticketId = bc_ticketId ?c, ut_boardList = board_list_name dest\<rparr> w = (Inr (), w')"
    "board_matches (wtabs w') boards'"
    using drop_refines[OF assms(4-8) shown_board_in[OF assms(9)], of ?c m n dest] assms(3,12-15) by auto
  have "shown (dropped_page p ?frm dest c) = boards'"
    using dropped_page_shown[OF assms(1) held assms(10) refl allowed] w'(1) assms(2) by simp
  then show ?thesis
    using page_drop_run[OF assms(1) below allowed] w'(2,3) page_ok_dropped[OF assms(1) held assms(10) refl]
      assms(2) by auto
qed

theorem page_drop_refines_witness:
  "\<exists>k p' w'. page_drop PENDING k IN_REVIEW
        (boards_loaded (Some (2, ''bob'')) (boards_of (table_boards (wtabs sample_world))))
      = (p', Some (2, ''IN REVIEW''))
    \<and> updateTicket \<lparr>ut_userId = 2, ut_ticketId = 2, ut_boardList = ''IN REVIEW''\<rparr> sample_world = (Inr (), w')
    \<and> board_matches (wtabs w') (shown p')"
proof -
  let ?bs = "boards_of (table_boards (wtabs sample_world))"
  let ?p = "boards_loaded (Some (2, ''bob'')) ?bs"
  have "has_card (wtabs sample_world) 2"
    by (simp add: has_card_def sample_defs)
  then obtain a c where c: "a \<in> set ?bs" "bd_boardList a = PENDING" "c \<in> set (bd_cards a)" "bc_ticketId c = 2"
      "bc_moderatorId c = None"
    using sample_card[of "sample_ticket 2 None PENDING" PENDING]
    by (auto simp: sample_tables_def sample_ticket_def)
  have "a \<in> set (shown ?p)"
    using c(1) by (simp add: shown_loaded)
  then obtain r where r: "r \<in> set (bp_activityBoards ?p)" "a = shown_board ?p r"
    by (auto simp: shown_def)
  then obtain k where k: "k \<in> set (cards_of ?p r)" "c = bp_cards ?p k"
    using c(3) by (auto simp: shown_board_def cards_of_def)
  have list: "list_at ?p r = PENDING"
    using c(2) r(2) by (simp add: shown_board_def list_at_def)
  have "app_ok (wtabs sample_world)" by (simp add: app_defs sample_defs)
  moreover have "tables_ok (wtabs sample_world)" using schema_tables_ok[OF sample_db_ok] by simp
  moreover have "page_ok ?p"
    by (rule page_ok_loaded) (simp add: boards_of_def table_boards_def)
  moreover have "board_matches (wtabs sample_world) (shown ?p)"
    using sample_matches by (simp add: shown_loaded)
  moreover have "bp_heldModerator ?p = Some (2, ''bob'')"
    by (simp add: boards_loaded_def Let_def)
  moreover have "cf_draggable (card_face (Some (2, ''bob'')) (bp_cards ?p k))"
    using c(5) k(2) by (simp add: card_face_def hasRightsOnTicket_def)
  ultimately show ?thesis
    using page_drop_refines[OF _ _ _ _ _ _ _ _ r(1) k(1), of 2 "''bob''" sample_world IN_REVIEW] list c(4) k(2)
    by (auto simp: no_moderator_def canAcceptDrops_def int4_def)
qed

section \<open>An approval before a drop\<close>

text \<open>The tickets of a board with their moderators, list by list in the order shown.\<close>

definition tickets_shown :: "board_data list \<Rightarrow> (board_list \<times> (int \<times> int option) list) list" where
  "tickets_shown = map (\<lambda>b. (bd_boardList b, map (\<lambda>c. (bc_ticketId c, bc_moderatorId c)) (bd_cards b)))"

definition unlisted :: "board_card \<Rightarrow> board_card" where
  "unlisted c = c\<lparr>bc_boardList := PENDING\<rparr>"

lemma unlisted_fields:
  assumes "unlisted c = unlisted d"
  shows "bc_ticketId c = bc_ticketId d" "bc_moderatorId c = bc_moderatorId d"
    "unlisted (c\<lparr>bc_moderatorId := i, bc_moderatorUsername := u\<rparr>) = unlisted (d\<lparr>bc_moderatorId := i, bc_moderatorUsername := u\<rparr>)"
    "c\<lparr>bc_boardList := b\<rparr> = d\<lparr>bc_boardList := b\<rparr>"
  using assms by (cases c, cases d, simp add: unlisted_def)+

text \<open>Pages that a drop cannot tell apart.\<close>

definition agree :: "board_page \<Rightarrow> board_page \<Rightarrow> bool" where
  "agree p q \<longleftrightarrow> bp_held p = bp_held q \<and> bp_heldModerator p = bp_heldModerator q
     \<and> bp_nextCard p = bp_nextCard q \<and> (\<forall>r \<in> set (bp_held p). bp_boards p r = bp_boards q r)
     \<and> (\<forall>c. unlisted (bp_cards p c) = unlisted (bp_cards q c))"

lemma agree_tickets: "agree p q \<Longrightarrow> bc_ticketId (bp_cards p c) = bc_ticketId (bp_cards q c)"
  unfolding agree_def by (blast intro: unlisted_fields)

lemma agree_drop_item:
  assumes "agree p q"
  shows "agree (fst (drop_item m frm dest (p, i))) (fst (drop_item m frm dest (q, i)))
    \<and> snd (drop_item m frm dest (p, i)) = snd (drop_item m frm dest (q, i))"
proof -
  have "unlisted (bp_cards p c) = unlisted (bp_cards q c)" for c
    using assms by (simp add: agree_def)
  from unlisted_fields(3,4)[OF this] this show ?thesis
    using assms by (simp add: drop_item_def agree_def Let_def unlisted_def)
qed

lemma agree_drop_on:
  assumes "agree p q" and "a \<in> set (bp_held p)"
  shows "agree (fst (drop_on m frm dest a (p, i))) (fst (drop_on m frm dest a (q, i)))
    \<and> snd (drop_on m frm dest a (p, i)) = snd (drop_on m frm dest a (q, i))"
proof -
  obtain p' q' j where item: "drop_item m frm dest (p, i) = (p', j)" "drop_item m frm dest (q, i) = (q', j)" "agree p' q'"
    using agree_drop_item[OF assms(1), of m frm dest i]
    by (cases "drop_item m frm dest (p, i)"; cases "drop_item m frm dest (q, i)") auto
  have "bp_boards p' = bp_boards p" "bp_boards q' = bp_boards q"
    using item(1,2) by (auto simp: drop_item_def Let_def split: if_splits)
  moreover have "bp_boards p a = bp_boards q a"
    using assms by (simp add: agree_def)
  ultimately show ?thesis
    using assms(1) item agree_tickets[OF assms(1)]
    by (auto simp: drop_on_def agree_def Let_def)
qed

lemma drop_on_held [simp]: "bp_held (fst (drop_on m frm dest a s)) = bp_held (fst s)"
  by (cases s) (auto simp: drop_on_def drop_item_def Let_def)

lemma agree_fold:
  assumes "agree p q" and "set xs \<subseteq> set (bp_held p)"
  shows "agree (fst (fold (drop_on m frm dest) xs (p, i))) (fst (fold (drop_on m frm dest) xs (q, i)))
    \<and> snd (fold (drop_on m frm dest) xs (p, i)) = snd (fold (drop_on m frm dest) xs (q, i))"
  using assms
proof (induction xs arbitrary: p q i)
  case (Cons a xs)
  obtain p' q' j where step: "drop_on m frm dest a (p, i) = (p', j)" "drop_on m frm dest a (q, i) = (q', j)" "agree p' q'"
    using agree_drop_on[OF Cons.prems(1), of a m frm dest i] Cons.prems(2)
    by (cases "drop_on m frm dest a (p, i)"; cases "drop_on m frm dest a (q, i)") auto
  moreover have "bp_held p' = bp_held p"
    using drop_on_held[of m frm dest a "(p, i)"] step(1) by simp
  ultimately show ?case
    using Cons.IH[of p' q' j] Cons.prems(2) by simp
qed simp

lemma agree_shown:
  assumes "agree p q"
  shows "tickets_shown (shown (p\<lparr>bp_activityBoards := bp_held p\<rparr>))
    = tickets_shown (shown (q\<lparr>bp_activityBoards := bp_held q\<rparr>))"
proof -
  have "unlisted (bp_cards p c) = unlisted (bp_cards q c)" for c
    using assms by (simp add: agree_def)
  note fields = unlisted_fields(1,2)[OF this]
  show ?thesis
    using assms by (simp add: tickets_shown_def shown_def shown_board_def agree_def fields)
qed

text \<open>An approval allocates new boards and leaves those that the drop handlers hold.\<close>

definition approved_board :: "board_list \<Rightarrow> board_card \<Rightarrow> board_data \<Rightarrow> board_data" where
  "approved_board l crd b =
     (if bd_boardList b \<noteq> l \<and> bd_boardList b \<noteq> ACCEPTED then b
      else if bd_boardList b = ACCEPTED then b\<lparr>bd_cards := bd_cards b @ [crd]\<rparr>
      else b\<lparr>bd_cards := filter (\<lambda>c. bc_ticketId c \<noteq> bc_ticketId crd) (bd_cards b)\<rparr>)"

lemma approve_fold:
  assumes "\<forall>r \<in> set xs. r < bp_nextBoard p"
  shows "\<exists>p' ys. fold (approve_on l crd) xs (p, bs) = (p', bs @ ys)
    \<and> map (shown_board p') ys = map (approved_board l (bp_cards p crd) \<circ> shown_board p) xs
    \<and> (\<forall>r < bp_nextBoard p. bp_boards p' r = bp_boards p r)
    \<and> bp_cards p' = bp_cards p \<and> bp_held p' = bp_held p \<and> bp_heldModerator p' = bp_heldModerator p
    \<and> bp_nextCard p' = bp_nextCard p"
  using assms
proof (induction xs arbitrary: p bs)
  case (Cons x xs)
  let ?l = "bo_boardList (bp_boards p x)"
  obtain q y where step: "approve_on l crd x (p, bs) = (q, bs @ [y])"
    and same: "\<forall>r < bp_nextBoard p. bp_boards q r = bp_boards p r" "bp_cards q = bp_cards p"
      "bp_held q = bp_held p" "bp_heldModerator q = bp_heldModerator p" "bp_nextCard q = bp_nextCard p"
      "bp_nextBoard p \<le> bp_nextBoard q"
    and y: "shown_board q y = approved_board l (bp_cards p crd) (shown_board p x)" "y < bp_nextBoard q"
  proof (cases "?l \<noteq> l \<and> ?l \<noteq> ACCEPTED")
    case True
    then show thesis
      using Cons.prems that[of p x] by (simp add: approve_on_def approved_board_def shown_board_def Let_def)
  next
    case False
    then show thesis
      using that[of "fst (approve_on l crd x (p, bs))" "bp_nextBoard p"]
      by (auto simp: approve_on_def approved_board_def shown_board_def Let_def filter_map comp_def)
  qed
  have old: "shown_board q r = shown_board p r" if "r \<in> set xs" for r
    using Cons.prems same(1,2) that by (simp add: shown_board_def)
  obtain p' ys where run: "fold (approve_on l crd) xs (q, bs @ [y]) = (p', (bs @ [y]) @ ys)"
    and p': "map (shown_board p') ys = map (approved_board l (bp_cards q crd) \<circ> shown_board q) xs"
      "\<forall>r < bp_nextBoard q. bp_boards p' r = bp_boards q r" "bp_cards p' = bp_cards q"
      "bp_held p' = bp_held q" "bp_heldModerator p' = bp_heldModerator q" "bp_nextCard p' = bp_nextCard q"
    using Cons.IH[of q "bs @ [y]"] Cons.prems same(6) by fastforce
  have "shown_board p' y = shown_board q y"
    using p'(2,3) y(2) by (simp add: shown_board_def)
  then have "map (shown_board p') (y # ys) = map (approved_board l (bp_cards p crd) \<circ> shown_board p) (x # xs)"
    using p'(1) y(1) old same(2) by simp
  moreover have "\<forall>r < bp_nextBoard p. bp_boards p' r = bp_boards p r"
    using p'(2) same(1,6) by simp
  ultimately show ?case
    using step run p' same by (intro exI[of _ p'] exI[of _ "y # ys"]) simp
qed simp

lemma tickets_shown_approved:
  assumes "tickets_shown bs = tickets_shown bs'" and "bc_ticketId c = bc_ticketId c'" "bc_moderatorId c = bc_moderatorId c'"
  shows "tickets_shown (map (approved_board l c) bs) = tickets_shown (map (approved_board l c') bs')"
proof -
  have eq: "tickets_shown (map (approved_board l c) bs) = map (\<lambda>(b, ts).
      if b \<noteq> l \<and> b \<noteq> ACCEPTED then (b, ts) else if b = ACCEPTED then (b, ts @ [(bc_ticketId c, bc_moderatorId c)])
      else (b, filter (\<lambda>t. fst t \<noteq> bc_ticketId c) ts)) (tickets_shown bs)" for bs c
    by (simp add: tickets_shown_def approved_board_def filter_map comp_def)
  show ?thesis
    by (simp only: eq assms)
qed

lemma page_approved_run:
  assumes "page_ok p"
  shows "agree (page_approved l crd p) p"
    and "tickets_shown (shown (page_approved l crd p)) = tickets_shown (ticket_approved l (bp_cards p crd) (shown p))"
proof -
  let ?p0 = "p\<lparr>bp_cards := (bp_cards p)(crd := (bp_cards p crd)\<lparr>bc_boardList := ACCEPTED\<rparr>)\<rparr>"
  have below: "\<forall>r \<in> set (bp_held p). r < bp_nextBoard p" and boards: "bp_activityBoards p = bp_held p"
    using assms by (simp_all add: page_ok_def)
  obtain p' ys where run: "fold (approve_on l crd) (bp_held p) (?p0, []) = (p', ys)"
    and p': "map (shown_board p') ys = map (approved_board l (bp_cards ?p0 crd) \<circ> shown_board ?p0) (bp_held p)"
      "\<forall>r < bp_nextBoard p. bp_boards p' r = bp_boards p r" "bp_cards p' = bp_cards ?p0"
      "bp_held p' = bp_held p" "bp_heldModerator p' = bp_heldModerator p" "bp_nextCard p' = bp_nextCard p"
    using approve_fold[of "bp_held p" ?p0 l crd "[]"] below by auto
  have page: "page_approved l crd p = p'\<lparr>bp_activityBoards := ys\<rparr>"
    using run boards by (simp add: page_approved_def)
  show "agree (page_approved l crd p) p"
    using p' below by (simp add: page agree_def unlisted_def)
  have "shown (page_approved l crd p) = map (approved_board l (bp_cards ?p0 crd)) (map (shown_board ?p0) (bp_held p))"
    using p'(1) by (simp add: page shown_def)
  moreover have "tickets_shown (map (shown_board ?p0) (bp_held p)) = tickets_shown (shown p)"
    by (simp add: tickets_shown_def shown_board_def shown_def boards)
  ultimately have "tickets_shown (shown (page_approved l crd p)) =
      tickets_shown (map (approved_board l ((bp_cards p crd)\<lparr>bc_boardList := ACCEPTED\<rparr>)) (shown p))"
    by (simp only:) (rule tickets_shown_approved, simp_all)
  moreover have "map (approved_board l ((bp_cards p crd)\<lparr>bc_boardList := ACCEPTED\<rparr>)) (shown p)
      = ticket_approved l (bp_cards p crd) (shown p)"
    by (auto simp: ticket_approved_def approved_board_def)
  ultimately show "tickets_shown (shown (page_approved l crd p)) = tickets_shown (ticket_approved l (bp_cards p crd) (shown p))"
    by simp
qed

text \<open>
  C9: The screen shows an approval, until the next drop: the drop handlers still hold the boards of
  before the approval, so the page then shows, list by list, what it would show had nothing been
  approved, with the approved ticket back in review and out of the accepted list.
\<close>

theorem approval_undone_by_drop:
  assumes "page_ok p" and "drop_allowed p frm dest"
  shows "tickets_shown (shown (page_approved l crd p)) = tickets_shown (ticket_approved l (bp_cards p crd) (shown p))
    \<and> tickets_shown (shown (fst (page_drop frm item dest (page_approved l crd p))))
        = tickets_shown (shown (fst (page_drop frm item dest p)))
    \<and> snd (page_drop frm item dest (page_approved l crd p)) = snd (page_drop frm item dest p)"
proof -
  let ?q = "page_approved l crd p" and ?m = "bp_heldModerator p"
  have q: "agree ?q p"
    by (rule page_approved_run(1)[OF assms(1)])
  then have held: "bp_held ?q = bp_held p" "bp_heldModerator ?q = ?m"
    by (simp_all add: agree_def)
  obtain p1 q1 i where run: "fold (drop_on ?m frm dest) (bp_held p) (p, item) = (p1, i)"
    "fold (drop_on ?m frm dest) (bp_held p) (?q, item) = (q1, i)" "agree q1 p1"
    using agree_fold[OF q, of "bp_held p" ?m frm dest item] held(1)
    by (cases "fold (drop_on ?m frm dest) (bp_held p) (p, item)";
        cases "fold (drop_on ?m frm dest) (bp_held p) (?q, item)") auto
  have still: "bp_held (fst (fold (drop_on m frm dest) xs s)) = bp_held (fst s)" for m xs s
    by (induction xs arbitrary: s) simp_all
  have "bp_held p1 = bp_held p" "bp_held q1 = bp_held p"
    using still[of ?m "bp_held p" "(p, item)"] still[of ?m "bp_held p" "(?q, item)"] run(1,2) held(1) by simp_all
  then have "tickets_shown (shown (q1\<lparr>bp_activityBoards := bp_held p\<rparr>)) = tickets_shown (shown (p1\<lparr>bp_activityBoards := bp_held p\<rparr>))"
    using agree_shown[OF run(3)] by simp
  moreover have allowed: "dest \<noteq> ACCEPTED" "frm \<noteq> dest" "\<not> (frm = PENDING \<and> dest \<noteq> PENDING \<and> no_moderator ?m)"
    using assms(2) by (auto simp: drop_allowed_def)
  moreover have "page_drop frm item dest p
      = (p1\<lparr>bp_activityBoards := bp_held p\<rparr>, Some (bc_ticketId (bp_cards p1 i), board_list_name dest))"
    "page_drop frm item dest ?q
      = (q1\<lparr>bp_activityBoards := bp_held p\<rparr>, Some (bc_ticketId (bp_cards q1 i), board_list_name dest))"
    using allowed run(1,2) held by (auto simp: page_drop_def canAcceptDrops_def)
  ultimately show ?thesis
    using page_approved_run(2)[OF assms(1), of l crd] agree_tickets[OF run(3)] by simp
qed

definition sample_page_card :: "int \<Rightarrow> board_list \<Rightarrow> int option \<Rightarrow> board_card" where
  "sample_page_card i b m =
     \<lparr>bc_ticketId = i, bc_boardList = b, bc_moderatorId = m, bc_moderatorUsername = None,
      bc_ticketLabel = LABEL_DEBATE, bc_ticketTitle = None, bc_debateId = None, bc_debateTitle = None,
      bc_argumentId = None, bc_tags = []\<rparr>"

definition sample_page :: board_page where
  "sample_page = boards_loaded (Some (2, ''bob''))
     [\<lparr>bd_boardList = PENDING, bd_cards = [sample_page_card 2 PENDING None]\<rparr>,
      \<lparr>bd_boardList = IN_REVIEW, bd_cards = [sample_page_card 3 IN_REVIEW (Some 2)]\<rparr>,
      \<lparr>bd_boardList = ACCEPTED, bd_cards = []\<rparr>, \<lparr>bd_boardList = CANCELED, bd_cards = []\<rparr>]"

text \<open>Ticket 3 is approved and shown so; moving ticket 2 brings it back to the review list.\<close>

theorem approval_undone_by_drop_witness:
  "tickets_shown (shown (page_approved IN_REVIEW 1 sample_page))
     = [(PENDING, [(2, None)]), (IN_REVIEW, []), (ACCEPTED, [(3, Some 2)]), (CANCELED, [])]
   \<and> tickets_shown (shown (fst (page_drop PENDING 0 IN_REVIEW (page_approved IN_REVIEW 1 sample_page))))
     = [(PENDING, []), (IN_REVIEW, [(3, Some 2), (2, Some 2)]), (ACCEPTED, []), (CANCELED, [])]"
proof -
  have ok: "page_ok sample_page"
    unfolding sample_page_def by (rule page_ok_loaded) simp
  have "drop_allowed sample_page PENDING IN_REVIEW"
    by (simp add: drop_allowed_def sample_page_def boards_loaded_def no_moderator_def Let_def)
  note undone = approval_undone_by_drop[OF ok this, of IN_REVIEW 1 0]
  have "tickets_shown (ticket_approved IN_REVIEW (bp_cards sample_page 1) (shown sample_page))
     = [(PENDING, [(2, None)]), (IN_REVIEW, []), (ACCEPTED, [(3, Some 2)]), (CANCELED, [])]"
    by code_simp
  moreover have "tickets_shown (shown (fst (page_drop PENDING 0 IN_REVIEW sample_page)))
     = [(PENDING, []), (IN_REVIEW, [(3, Some 2), (2, Some 2)]), (ACCEPTED, []), (CANCELED, [])]"
    by code_simp
  ultimately show ?thesis
    using undone by simp
qed

end
