(* ===== verification/Review_View.thy ===== *)
theory Review_View
  imports Client_Review
begin

text \<open>
  What the review pages show and offer (\<open>app/review/argument/[id]/page.tsx\<close>, its twin for debates and
  \<open>components/Comments\<close>): how a page is opened, its main part for the moderator and for the author, the
  list of comments with the buttons of each, the composer, and the panel of the countered argument.
  The requests that the controls send are those of \<open>Client_Review\<close>; the lemmas say that the API accepts
  what a page offers.
\<close>

section \<open>Opening a page\<close>

text \<open>
  Without a user the page goes home; a request that fails, for whatever reason, goes home and forgets
  the user.
\<close>

datatype 'item opened = GoHome bool | Opened 'item

definition opened_by :: "js_error + 'a \<Rightarrow> ('a \<Rightarrow> 'item) \<Rightarrow> 'item opened" where
  "opened_by answer read = (case answer of Inr r \<Rightarrow> Opened (read r) | Inl e \<Rightarrow> GoHome True)"

text \<open>What the views have of an argument beside what the handlers use.\<close>

record argument_details =
  ad_argumentType :: "argument_type option"
  ad_counterargumentToTitle :: "string option"
  ad_username :: "string option"
  ad_moderatorId :: "int option"
  ad_moderatorUsername :: "string option"

definition moderator_argument :: "argument_as_moderator \<Rightarrow> page_argument \<times> argument_details" where
  "moderator_argument r = (fetchArgumentAsModerator r,
     \<lparr>ad_argumentType = am_argument_type r, ad_counterargumentToTitle = am_counterargument_to_title r,
      ad_username = Some (am_username r), ad_moderatorId = None, ad_moderatorUsername = None\<rparr>)"

definition user_argument :: "argument_as_user \<Rightarrow> page_argument \<times> argument_details" where
  "user_argument r = (fetchArgumentAsUser r,
     \<lparr>ad_argumentType = au_argument_type r, ad_counterargumentToTitle = au_counterargument_to_title r,
      ad_username = None, ad_moderatorId = au_moderator_id r, ad_moderatorUsername = au_moderator_username r\<rparr>)"

definition open_argument ::
  "user_cookie option \<Rightarrow> string \<Rightarrow> world \<Rightarrow> (page_argument \<times> argument_details) opened" where
  "open_argument user ticketId w = (case user of
      None \<Rightarrow> GoHome False
    | Some u \<Rightarrow> if uc_role u = Some MODERATOR
        then opened_by (fst (handle_getArgumentAsModerator u ticketId w)) moderator_argument
        else opened_by (fst (handle_getArgumentAsUser u ticketId w)) user_argument)"

record debate_details =
  dd_tags :: "tag_json list"
  dd_username :: "string option"
  dd_moderatorId :: "int option"
  dd_moderatorUsername :: "string option"

definition moderator_debate :: "debate_as_moderator \<times> tag_json list \<Rightarrow> page_debate \<times> debate_details" where
  "moderator_debate = (\<lambda>(r, tags). (fetchDebateAsModerator r,
     \<lparr>dd_tags = tags, dd_username = Some (dm_username r), dd_moderatorId = None, dd_moderatorUsername = None\<rparr>))"

definition user_debate :: "debate_as_user \<times> tag_json list \<Rightarrow> page_debate \<times> debate_details" where
  "user_debate = (\<lambda>(r, tags). (fetchDebateAsUser r,
     \<lparr>dd_tags = tags, dd_username = None, dd_moderatorId = du_moderator_id r, dd_moderatorUsername = du_moderator_username r\<rparr>))"

definition open_debate ::
  "user_cookie option \<Rightarrow> string \<Rightarrow> world \<Rightarrow> (page_debate \<times> debate_details) opened" where
  "open_debate user ticketId w = (case user of
      None \<Rightarrow> GoHome False
    | Some u \<Rightarrow> if uc_role u = Some MODERATOR
        then opened_by (fst (handle_getDebateAsModerator u ticketId w)) moderator_debate
        else opened_by (fst (handle_getDebateAsUser u ticketId w)) user_debate)"

section \<open>The item\<close>

datatype title_field = TitleText string | TitleInput "string option"

record argument_view =
  aw_debateTitle :: string
  aw_title :: title_field
  aw_argumentType :: "argument_type option"
  aw_counters :: "string option option"
  aw_content :: string
  aw_editable :: bool
  aw_footer :: string
  aw_buttons :: "string list"

text \<open>An identifier that counts as false, and a text that is shown as nothing when it is not there.\<close>

definition no_id :: "int option \<Rightarrow> bool" where
  "no_id i = (i = None \<or> i = Some 0)"

definition shown :: "string option \<Rightarrow> string" where
  "shown t = (case t of None \<Rightarrow> [] | Some n \<Rightarrow> n)"

text \<open>The link to the countered argument, with its title, when there is one.\<close>

definition counterargument_link :: "page_argument \<Rightarrow> argument_details \<Rightarrow> string option option" where
  "counterargument_link argumentData d = (if no_id (pa_counterargumentToId argumentData) then None
     else Some (ad_counterargumentToTitle d))"

definition ModeratorArgumentContent :: "page_argument \<Rightarrow> argument_details \<Rightarrow> argument_view" where
  "ModeratorArgumentContent argumentData d =
     \<lparr>aw_debateTitle = pa_debateTitle argumentData, aw_title = TitleText (pa_argumentTitle argumentData),
      aw_argumentType = ad_argumentType d, aw_counters = counterargument_link argumentData d,
      aw_content = pa_argumentContent argumentData, aw_editable = False,
      aw_footer = ''Added by '' @ shown (ad_username d), aw_buttons = []\<rparr>"

text \<open>The buttons of an author: none on an accepted item.\<close>

definition edit_buttons :: "string \<Rightarrow> bool \<Rightarrow> bool \<Rightarrow> string list" where
  "edit_buttons edit canEdit isEditMode =
     (if canEdit then (if isEditMode then [''Save Changes'', ''Cancel Changes''] else [edit]) else [])"

definition UserArgumentContent :: "page_argument \<Rightarrow> argument_details \<Rightarrow> argument_edit \<Rightarrow> argument_view" where
  "UserArgumentContent argumentData d s =
     \<lparr>aw_debateTitle = pa_debateTitle argumentData,
      aw_title = (if ae_isEditMode s then TitleInput (ae_argumentTitle s)
        else TitleText (pa_argumentTitle argumentData)),
      aw_argumentType = ad_argumentType d, aw_counters = counterargument_link argumentData d,
      aw_content = ae_editor s, aw_editable = ae_isEditMode s,
      aw_footer = (if no_id (ad_moderatorId d) then ''No moderator assigned.''
        else ''Reviewed by '' @ shown (ad_moderatorUsername d)),
      aw_buttons = edit_buttons ''Edit Argument'' (canEditArgument (Some argumentData)) (ae_isEditMode s)\<rparr>"

record debate_view_data =
  dw_title :: title_field
  dw_tags :: "string list"
  dw_footer :: "string option"
  dw_buttons :: "string list"

definition ModeratorDebateContent :: "page_debate \<Rightarrow> debate_details \<Rightarrow> debate_view_data" where
  "ModeratorDebateContent debateData d =
     \<lparr>dw_title = TitleText (pd_title debateData), dw_tags = map tg_name (dd_tags d),
      dw_footer = Some (''Added by: '' @ shown (dd_username d)), dw_buttons = []\<rparr>"

definition UserDebateContent :: "page_debate \<Rightarrow> debate_details \<Rightarrow> debate_edit \<Rightarrow> debate_view_data" where
  "UserDebateContent debateData d s =
     \<lparr>dw_title = (if de_isEditMode s then TitleInput (de_title s) else TitleText (pd_title debateData)),
      dw_tags = map tg_name (dd_tags d),
      dw_footer = (if no_id (dd_moderatorId d) then None
        else Some (''Reviewed by: '' @ shown (dd_moderatorUsername d))),
      dw_buttons = edit_buttons ''Edit title'' (canEditDebate (Some debateData)) (de_isEditMode s)\<rparr>"

section \<open>The comments\<close>

record comment_header =
  ch_commenter :: string
  ch_isOwnComment :: bool
  ch_createdAt :: nat
  ch_edited :: bool
  ch_canEdit :: bool

record comment_view =
  cv_header :: "comment_header option"
  cv_editable :: bool
  cv_buttons :: "string list"

definition comment_view :: "int option \<Rightarrow> comments_pane \<Rightarrow> sent_comment \<Rightarrow> comment_view" where
  "comment_view userId s c = (let editing = pn_editing s = Some (sc_comment_id c); own = userId = Some (sc_commenter_id c)
     in \<lparr>cv_header = (if editing then None else Some
           \<lparr>ch_commenter = sc_commenter_username c, ch_isOwnComment = own, ch_createdAt = sc_created_at c,
            ch_edited = True, ch_canEdit = own\<rparr>),
         cv_editable = editing,
         cv_buttons = (if editing then [''Cancel Edits'', ''Save Edits''] else [])\<rparr>)"

text \<open>The composer with its button, which waits while a comment is edited.\<close>

record pane_view =
  pw_comments :: "comment_view list"
  pw_composer :: bool
  pw_addEnabled :: "bool option"

definition pane_view :: "int option \<Rightarrow> bool \<Rightarrow> comments_pane \<Rightarrow> pane_view" where
  "pane_view userId canAddComments s =
     \<lparr>pw_comments = map (comment_view userId s) (pn_comments s), pw_composer = canAddComments,
      pw_addEnabled = (if canAddComments then Some (\<not> is_editing s) else None)\<rparr>"

section \<open>The panel of the countered argument\<close>

record right_panel =
  rp_windowWidth :: int
  rp_shouldDisplay :: bool
  rp_counterargument :: "(string \<times> string) option"

definition right_panel_init :: right_panel where
  "right_panel_init = \<lparr>rp_windowWidth = 0, rp_shouldDisplay = False, rp_counterargument = None\<rparr>"

definition handleResize :: "int \<Rightarrow> right_panel \<Rightarrow> right_panel" where
  "handleResize innerWidth s = s\<lparr>rp_windowWidth := innerWidth\<rparr>"

text \<open>The click on the link and on the button that closes: the panel is toggled, the argument asked for.\<close>

definition onCounterargumentClick ::
  "page_argument option \<Rightarrow> right_panel \<Rightarrow> right_panel \<times> (int \<times> int option) option" where
  "onCounterargumentClick argument s = (case argument of
      None \<Rightarrow> (s, None)
    | Some a \<Rightarrow> (s\<lparr>rp_shouldDisplay := \<not> rp_shouldDisplay s\<rparr>,
        if rp_counterargument s \<noteq> None then None else Some (pa_debateId a, pa_counterargumentToId a)))"

definition counterargument_fetched :: "string \<times> string \<Rightarrow> right_panel \<Rightarrow> right_panel" where
  "counterargument_fetched counterarg s = s\<lparr>rp_counterargument := Some counterarg\<rparr>"

definition RIGHT_PANEL_WIDTH :: int where
  "RIGHT_PANEL_WIDTH = 400"

text \<open>The width of the left part in pixels, None for the whole.\<close>

definition left_width :: "right_panel \<Rightarrow> int option" where
  "left_width s = (if rp_shouldDisplay s then Some (rp_windowWidth s - RIGHT_PANEL_WIDTH) else None)"

definition panel_content :: "right_panel \<Rightarrow> (string \<times> string) option" where
  "panel_content s = (if rp_shouldDisplay s then rp_counterargument s else None)"

section \<open>The pages\<close>

datatype 'view main_part = Loading | MainPart 'view

definition argument_main ::
  "(page_argument \<times> argument_details) option \<Rightarrow> argument_edit \<Rightarrow> argument_view main_part" where
  "argument_main argument s = (case argument of
      None \<Rightarrow> Loading
    | Some (a, d) \<Rightarrow> MainPart (case pa_reviewItemType a of
        Review_MODERATOR \<Rightarrow> ModeratorArgumentContent a d | Review_USER \<Rightarrow> UserArgumentContent a d s))"

definition debate_main ::
  "(page_debate \<times> debate_details) option \<Rightarrow> debate_edit \<Rightarrow> debate_view_data main_part" where
  "debate_main debate s = (case debate of
      None \<Rightarrow> Loading
    | Some (a, d) \<Rightarrow> MainPart (case pd_reviewItemType a of
        Review_MODERATOR \<Rightarrow> ModeratorDebateContent a d | Review_USER \<Rightarrow> UserDebateContent a d s))"

definition argument_page ::
  "user_cookie option \<Rightarrow> (page_argument \<times> argument_details) option \<Rightarrow> argument_edit \<Rightarrow> comments_pane
    \<Rightarrow> right_panel \<Rightarrow> argument_view main_part \<times> pane_view \<times> int option \<times> (string \<times> string) option" where
  "argument_page user argument e s p =
     (argument_main argument e,
      pane_view (map_option uc_id user) (canEditArgument (map_option fst argument)) s,
      left_width p, panel_content p)"

definition debate_page ::
  "user_cookie option \<Rightarrow> (page_debate \<times> debate_details) option \<Rightarrow> debate_edit \<Rightarrow> comments_pane
    \<Rightarrow> debate_view_data main_part \<times> pane_view" where
  "debate_page user debate e s =
     (debate_main debate e, pane_view (map_option uc_id user) (canEditDebate (map_option fst debate)) s)"

section \<open>What a page offers, the API accepts\<close>

lemma int_given: "int4 i \<Longrightarrow> not_null (int_param (JNum i)) = Inr i"
  by simp

lemma fetch_row:
  assumes "txn w = NoTxn" and "faults w = []"
    and run: "fst (parse_int_param (int_to_string i) (\<lambda>i. bnd (client_query (f i) (Inr \<circ> first_row) onerr) k) w) = Inr r"
    and none: "\<And>v. isl (fst (k None v))"
  shows "\<exists>rows d x. f i (pg w) = (Inr rows, d) \<and> x \<in> set rows"
proof -
  obtain rows d v where rows: "f i (pg w) = (Inr rows, d)" "fst (k (first_row rows) v) = Inr r"
    using run by (auto simp: parse_int_param_def bnd_run client_query_run[OF assms(1,2)] Let_def
        split: prod.splits sum.splits)
  then obtain x where "first_row rows = Some x"
    using none[of v] by (cases "first_row rows") auto
  from first_row_in[OF this] show ?thesis
    using rows(1) by auto
qed

lemma opened_by_Opened: "opened_by answer read = Opened x \<longleftrightarrow> (\<exists>r. answer = Inr r \<and> x = read r)"
  by (auto simp: opened_by_def split: sum.splits)

lemma open_argument_participant:
  assumes w: "txn w = NoTxn" "faults w = []" "int4 i"
    and opened: "open_argument (Some u) (int_to_string i) w = Opened x"
  shows "participant (wtabs w) i (uc_id u) \<and> argument_has_ticket (wtabs w) i"
proof (cases "uc_role u = Some MODERATOR")
  case True
  then obtain r where "fst (handle_getArgumentAsModerator u (int_to_string i) w) = Inr r"
    using opened by (auto simp: open_argument_def opened_by_Opened)
  from fetch_row[OF w(1,2) this[unfolded handle_getArgumentAsModerator_def getArgumentAsModerator_def]]
  obtain rows d y where "select_argument_as_moderator u i (pg w) = (Inr rows, d)" "y \<in> set rows"
    by (auto simp: some_or_404_def raise_def)
  then show ?thesis
    using int_given[OF w(3)]
    by (auto simp: select_argument_as_moderator_def with_param_def select_stmt_def participant_def
        argument_has_ticket_def list_ex_iff split: if_splits)
next
  case False
  then obtain r where "fst (handle_getArgumentAsUser u (int_to_string i) w) = Inr r"
    using opened by (auto simp: open_argument_def opened_by_Opened)
  from fetch_row[OF w(1,2) this[unfolded handle_getArgumentAsUser_def getArgumentAsUser_def]]
  obtain rows d y where "select_argument_as_user u i (pg w) = (Inr rows, d)" "y \<in> set rows"
    by (auto simp: some_or_404_def raise_def)
  then show ?thesis
    using int_given[OF w(3)]
    by (auto simp: select_argument_as_user_def with_param_def select_stmt_def participant_def
        argument_has_ticket_def list_ex_iff split: if_splits)
qed

lemma open_debate_participant:
  assumes w: "txn w = NoTxn" "faults w = []" "int4 i"
    and opened: "open_debate (Some u) (int_to_string i) w = Opened x"
  shows "participant (wtabs w) i (uc_id u) \<and> debate_has_ticket (wtabs w) i"
proof (cases "uc_role u = Some MODERATOR")
  case True
  then obtain r where "fst (handle_getDebateAsModerator u (int_to_string i) w) = Inr r"
    using opened by (auto simp: open_debate_def opened_by_Opened)
  from fetch_row[OF w(1,2) this[unfolded handle_getDebateAsModerator_def getDebateAsModerator_def]]
  obtain rows d y where "select_debate_as_moderator u i (pg w) = (Inr rows, d)" "y \<in> set rows"
    by (auto simp: some_or_404_def raise_def bnd_run)
  then show ?thesis
    using int_given[OF w(3)]
    by (auto simp: select_debate_as_moderator_def with_param_def select_stmt_def participant_def
        debate_has_ticket_def list_ex_iff split: if_splits option.splits)
next
  case False
  then obtain r where "fst (handle_getDebateAsUser u (int_to_string i) w) = Inr r"
    using opened by (auto simp: open_debate_def opened_by_Opened)
  from fetch_row[OF w(1,2) this[unfolded handle_getDebateAsUser_def getDebateAsUser_def]]
  obtain rows d y where "select_debate_as_user u i (pg w) = (Inr rows, d)" "y \<in> set rows"
    by (auto simp: some_or_404_def raise_def bnd_run)
  then show ?thesis
    using int_given[OF w(3)]
    by (auto simp: select_debate_as_user_def with_param_def select_stmt_def participant_def
        debate_has_ticket_def list_ex_iff split: if_splits option.splits)
qed

lemma participant_stored:
  assumes "schema_ok (pg w)" and "app_ok (wtabs w)" and "participant (wtabs w) i uid"
  shows "uid \<in> set (user_ids (wtabs w))" and "i \<in> set (ticket_ids (wtabs w))"
proof -
  obtain t where t: "t \<in> set (tickets (wtabs w))" "t_id t = i" "t_created_by t = uid \<or> t_assigned_to t = Some uid"
    using assms(3) by (auto simp: participant_def list_ex_iff)
  show "i \<in> set (ticket_ids (wtabs w))"
    using t(1,2) by (auto simp: ticket_ids_def)
  have "t_created_by t \<in> set (user_ids (wtabs w))"
    using assms(1) t(1) by (simp add: schema_ok_def refs_ok_def list_all_iff)
  moreover have "uid \<in> set (user_ids (wtabs w))" if "t_assigned_to t = Some uid"
  proof -
    have "ticket_ok (wtabs w) t"
      using assms(2) t(1) by (simp add: app_ok_def list_all_iff)
    then show ?thesis
      using that by (auto simp: ticket_ok_def list_ex_iff user_ids_def)
  qed
  ultimately show "uid \<in> set (user_ids (wtabs w))"
    using t(3) by blast
qed

lemma comment_key_fresh: "schema_ok db \<Longrightarrow> ticket_comment_seq (sqs db) + 1 \<notin> set (map tc_id (ticket_comments (tabs db)))"
  by (force simp: schema_ok_def keys_ok_def serial_key_def list_all_iff)

lemma add_comment_accepted:
  assumes w: "txn w = NoTxn" "faults w = []" "schema_ok (pg w)" "app_ok (wtabs w)"
    and "int4 i" "int4 uid" "ticket_comment_seq (sqs (pg w)) < 2147483647"
    and on: "target (wtabs w) i" "participant (wtabs w) i uid"
  shows "\<exists>c w'. client_query (insert_comment_stmt target \<lparr>acd_ticketId = JNum i, acd_content = content,
      acd_commenterId = uid\<rparr>) comment_or_404 (\<lambda>err. err) w = (Inr c, w')
    \<and> sc_content c = content \<and> sc_commenter_id c = uid"
proof -
  note stored = participant_stored[OF w(3,4) on(2)]
  obtain c db where ins: "insert_ticket_comment i content uid (pg w) = (Inr c, db)" "tc_content c = content"
    "tc_commenter_id c = uid" "users (tabs db) = users (wtabs w)"
    using stored comment_key_fresh[OF w(3)] assms(7)
    by (simp add: insert_ticket_comment_def serial_insert_def nextval_def references_def Let_def)
  obtain x where "x \<in> set (users (wtabs w))" "u_id x = uid"
    using stored(1) by (auto simp: user_ids_def)
  then obtain y ys where "filter (\<lambda>u. u_id u = uid) (users (wtabs w)) = y # ys"
    by (cases "filter (\<lambda>u. u_id u = uid) (users (wtabs w))") (auto simp: filter_empty_conv)
  then show ?thesis
    using ins on assms(5,6)
    by (simp add: client_query_run[OF w(1,2)] insert_comment_stmt_def with_param_def comment_or_404_def
        comment_columns_def int_param.simps(3) not_null_def)
qed

lemma edit_answer:
  assumes w: "txn w = NoTxn" "faults w = []" "schema_ok (pg w)" and c: "c \<in> set (ticket_comments (wtabs w))"
    and "int4 (tc_id c)"
  shows "fst (updateComment u \<lparr>ucd_commentId = JNum (tc_id c), ucd_content = content\<rparr> w)
    = Inr (if tc_commenter_id c = uc_id u then 1 else 0)"
proof -
  have "distinct (map tc_id (ticket_comments (wtabs w)))"
    using w(3) by (simp add: schema_ok_def keys_ok_def serial_key_def)
  then have "filter (\<lambda>x. tc_id x = tc_id c) (ticket_comments (wtabs w)) = [c]"
    using filter_key_find[of tc_id "ticket_comments (wtabs w)" "tc_id c"]
      find_key_Some[of tc_id "ticket_comments (wtabs w)" "tc_id c" c] c by simp
  moreover have "filter (own_comment (Some (tc_id c)) (uc_id u)) (ticket_comments (wtabs w))
      = filter (\<lambda>x. tc_commenter_id x = uc_id u) (filter (\<lambda>x. tc_id x = tc_id c) (ticket_comments (wtabs w)))"
    by (auto simp: own_comment_def intro: filter_cong)
  ultimately have "length (filter (own_comment (Some (tc_id c)) (uc_id u)) (ticket_comments (wtabs w)))
      = (if tc_commenter_id c = uc_id u then 1 else 0)"
    by simp
  then show ?thesis
    using assms(5) by (simp add: updateComment_def client_query_run[OF w(1,2)] update_comment_stmt_def with_param_def
        update_stmt_def int_param.simps(3))
qed

text \<open>A comment that was fetched, and whether its menu is offered.\<close>

definition edit_offered :: "user_cookie \<Rightarrow> comments_pane \<Rightarrow> sent_comment \<Rightarrow> bool" where
  "edit_offered u s c = (case cv_header (comment_view (Some (uc_id u)) s c) of
      None \<Rightarrow> False | Some h \<Rightarrow> ch_canEdit h)"

definition add_offered :: "user_cookie \<Rightarrow> bool \<Rightarrow> comments_pane \<Rightarrow> bool" where
  "add_offered u canAddComments s = (pw_addEnabled (pane_view (Some (uc_id u)) canAddComments s) = Some True)"



section \<open>What a page gets wrong\<close>

text \<open>
  The view is chosen by the role alone: the page of an item that a moderator proposed asks for the
  view of its moderator, is refused unless the item is assigned to them, and the user is forgotten.
\<close>

lemma own_item_of_moderator:
  assumes w: "txn w = NoTxn" "faults w = []" and "int4 i"
    and "uc_role u = Some MODERATOR"
    and "\<forall>t \<in> set (tickets (wtabs w)). t_id t = i \<longrightarrow> t_assigned_to t \<noteq> Some (uc_id u)"
  shows "open_argument (Some u) (int_to_string i) w = GoHome True"
proof (cases "open_argument (Some u) (int_to_string i) w")
  case (GoHome x)
  then show ?thesis
    using assms(4) by (auto simp: open_argument_def opened_by_def split: sum.splits)
next
  case (Opened x)
  then obtain r where "fst (handle_getArgumentAsModerator u (int_to_string i) w) = Inr r"
    using assms(4) by (auto simp: open_argument_def opened_by_Opened)
  from fetch_row[OF w(1,2) this[unfolded handle_getArgumentAsModerator_def getArgumentAsModerator_def]]
  obtain rows d y where "select_argument_as_moderator u i (pg w) = (Inr rows, d)" "y \<in> set rows"
    by (auto simp: some_or_404_def raise_def)
  then show ?thesis
    using int_given[OF assms(3)] assms(5)
    by (auto simp: select_argument_as_moderator_def with_param_def select_stmt_def split: if_splits)
qed

text \<open>Before the window was resized once, its width counts as 0 and the left part gets a negative one.\<close>

lemma panel_before_resize:
  "left_width (fst (onCounterargumentClick (Some a) right_panel_init)) = Some (- 400)"
  by (simp add: onCounterargumentClick_def right_panel_init_def left_width_def RIGHT_PANEL_WIDTH_def)

text \<open>Every comment says that it was edited, also one that nobody has edited.\<close>

lemma comment_says_edited:
  "pn_editing s \<noteq> Some (sc_comment_id c) \<Longrightarrow> map_option ch_edited (cv_header (comment_view userId s c)) = Some True"
  by (simp add: comment_view_def Let_def)

text \<open>An author is offered to edit an item exactly while it is not accepted.\<close>

lemma edit_offered_unless_accepted:
  "aw_buttons (UserArgumentContent a d s) \<noteq> [] \<longleftrightarrow> pa_boardList a \<noteq> Some ACCEPTED"
  "dw_buttons (UserDebateContent b e t) \<noteq> [] \<longleftrightarrow> pd_boardList b \<noteq> Some ACCEPTED"
  by (simp_all add: UserArgumentContent_def UserDebateContent_def edit_buttons_def canEditArgument_def
      canEditDebate_def)

end
