(* ===== verification/Debates_Page.thy ===== *)
theory Debates_Page
  imports Client_Tags Proposals
begin

text \<open>
  The page of all debates (\<open>app/debates/page.tsx\<close>, \<open>DebatesClient.tsx\<close>) with the form of the filters
  (\<open>DebateFilters.tsx\<close>, \<open>SimpleCollapse.tsx\<close>, the debounced \<open>Input.tsx\<close>), the cards of the debates and
  the dialog of a new debate. Keystrokes wait for their timers and requests for their answers, which
  may interleave. The lemmas say what the page shows when all is answered, and what comes of a
  proposal whose tags exist already.
\<close>

section \<open>The form of the filters\<close>

text \<open>
  The timers of the debounced input, each with the render whose function started it and the flag that
  this render's \<open>applyFilters\<close> captured.
\<close>

record filters_form =
  fm_input :: string
  fm_isOpen :: bool
  fm_shouldUseTagsFilter :: bool
  fm_tagsMatchingStrategy :: tags_strategy
  fm_tags :: tags_state
  fm_render :: nat
  fm_timers :: "(nat \<times> bool) list"

definition initial_form :: "client_tag list \<Rightarrow> filters_form" where
  "initial_form debateTags =
     \<lparr>fm_input = [], fm_isOpen = False, fm_shouldUseTagsFilter = False,
      fm_tagsMatchingStrategy = Strategy_any, fm_tags = initial_tags debateTags,
      fm_render = 0, fm_timers = []\<rparr>"

text \<open>A render makes a new \<open>applyFilters\<close>, and with it a new debounced function.\<close>

definition rendered :: "filters_form \<Rightarrow> filters_form" where
  "rendered f = f\<lparr>fm_render := fm_render f + 1\<rparr>"

text \<open>A keystroke starts the timer of its render's function anew; timers of other renders go on.\<close>

definition debounce :: "filters_form \<Rightarrow> filters_form" where
  "debounce f = f\<lparr>fm_timers := filter (\<lambda>(r, _). r \<noteq> fm_render f) (fm_timers f)
     @ [(fm_render f, fm_shouldUseTagsFilter f)]\<rparr>"

definition typed :: "string \<Rightarrow> filters_form \<Rightarrow> filters_form" where
  "typed text f = debounce (f\<lparr>fm_input := text\<rparr>)"

definition handleExpandChange :: "filters_form \<Rightarrow> filters_form" where
  "handleExpandChange f =
     rendered (f\<lparr>fm_isOpen := \<not> fm_isOpen f, fm_shouldUseTagsFilter := \<not> fm_isOpen f\<rparr>)"

definition strategy_chosen :: "tags_strategy \<Rightarrow> filters_form \<Rightarrow> filters_form" where
  "strategy_chosen m f = f\<lparr>fm_tagsMatchingStrategy := m\<rparr>"

text \<open>The identifiers of the selected tags, a type error for a missing tag or identifier.\<close>

definition selected_values :: "tags_state \<Rightarrow> js_error + string list" where
  "selected_values s =
     (case getSelectedTags s of
        Inl e \<Rightarrow> Inl e
      | Inr (tags, _) \<Rightarrow>
          (if list_ex (\<lambda>t. case t of None \<Rightarrow> True | Some t \<Rightarrow> ct_id t \<in> {JUndefined, JNull}) tags
           then Inl TypeError
           else Inr (map (template_number \<circ> ct_id \<circ> the) tags)))"

definition form_filters :: "bool \<Rightarrow> filters_form \<Rightarrow> js_error + applied_debate_filters" where
  "form_filters shouldUseTagsFilter f =
     (if shouldUseTagsFilter
      then (case selected_values (fm_tags f) of
              Inl e \<Rightarrow> Inl e
            | Inr ids \<Rightarrow> Inr (applyFilters (Some (fm_input f)) True (Some ids) (fm_tagsMatchingStrategy f)))
      else Inr (applyFilters (Some (fm_input f)) False None (fm_tagsMatchingStrategy f)))"

section \<open>The page\<close>

definition client_tag_of :: "tag_json \<Rightarrow> client_tag" where
  "client_tag_of t =
     \<lparr>ct_id = (case tg_id t of None \<Rightarrow> JUndefined | Some i \<Rightarrow> JStr i), ct_name = tg_name t\<rparr>"

text \<open>The hooks of \<open>DebatesClient\<close>, the form, the dialog, the requests under way and the toasts.\<close>

record debates_page =
  lp_debates :: "debate_json list"
  lp_form :: filters_form
  lp_isDebateModalOpen :: bool
  lp_title :: string
  lp_createDebateTags :: "tags_state option"
  lp_searches :: "applied_debate_filters list"
  lp_proposals :: "create_debate_data list"
  lp_toasts :: "string list"

definition debateTags :: "debate_json list \<Rightarrow> client_tag list" where
  "debateTags ds = page_tags (map (map client_tag_of \<circ> dj_tags) ds)"

text \<open>\<open>DebatesPage\<close>: no debates when the request fails.\<close>

definition DebatesPage :: "js_error + debate_json list \<Rightarrow> debate_json list" where
  "DebatesPage answer = (case answer of Inl e \<Rightarrow> [] | Inr data \<Rightarrow> data)"

definition DebatesClient :: "debate_json list \<Rightarrow> debates_page" where
  "DebatesClient ds =
     \<lparr>lp_debates = ds, lp_form = initial_form (debateTags ds), lp_isDebateModalOpen = False,
      lp_title = [], lp_createDebateTags = None, lp_searches = [], lp_proposals = [], lp_toasts = []\<rparr>"

definition on_form :: "(filters_form \<Rightarrow> filters_form) \<Rightarrow> debates_page \<Rightarrow> debates_page" where
  "on_form g s = s\<lparr>lp_form := g (lp_form s)\<rparr>"

definition onApplyFilters :: "applied_debate_filters \<Rightarrow> debates_page \<Rightarrow> debates_page" where
  "onApplyFilters filters s = s\<lparr>lp_searches := lp_searches s @ [filters]\<rparr>"

text \<open>\<open>applyFilters\<close> of a render, which captured the flag.\<close>

definition filters_applied :: "bool \<Rightarrow> debates_page \<Rightarrow> debates_page" where
  "filters_applied shouldUseTagsFilter s =
     (case form_filters shouldUseTagsFilter (lp_form s) of Inl e \<Rightarrow> s | Inr f \<Rightarrow> onApplyFilters f s)"

definition apply_clicked :: "debates_page \<Rightarrow> debates_page" where
  "apply_clicked s = filters_applied (fm_shouldUseTagsFilter (lp_form s)) s"

definition remove_nth :: "nat \<Rightarrow> 'a list \<Rightarrow> 'a list" where
  "remove_nth k xs = take k xs @ drop (Suc k) xs"

definition timer_fired :: "nat \<Rightarrow> debates_page \<Rightarrow> debates_page" where
  "timer_fired k s =
     filters_applied (snd (fm_timers (lp_form s) ! k))
       (on_form (\<lambda>f. f\<lparr>fm_timers := remove_nth k (fm_timers f)\<rparr>) s)"

text \<open>The answer to a search, which renders the form again; a failure changes nothing.\<close>

definition search_answered :: "nat \<Rightarrow> js_error + debate_json list \<Rightarrow> debates_page \<Rightarrow> debates_page" where
  "search_answered k answer s =
     (let s' = s\<lparr>lp_searches := remove_nth k (lp_searches s)\<rparr>
      in case answer of Inl e \<Rightarrow> s' | Inr data \<Rightarrow> on_form rendered (s'\<lparr>lp_debates := data\<rparr>))"

definition redirectToDebatePage :: "debate_json \<Rightarrow> string" where
  "redirectToDebatePage debate = ''/debates/'' @ int_to_string (dj_id debate)"

text \<open>The dialog mounts its tag picker with the tags of that moment.\<close>

definition startDebate :: "debates_page \<Rightarrow> debates_page" where
  "startDebate s = on_form rendered (s\<lparr>lp_isDebateModalOpen := True,
     lp_createDebateTags := Some (initial_tags (debateTags (lp_debates s)))\<rparr>)"

definition onStartDebateModalClosed :: "debates_page \<Rightarrow> debates_page" where
  "onStartDebateModalClosed s =
     on_form rendered (s\<lparr>lp_isDebateModalOpen := False, lp_createDebateTags := None\<rparr>)"

definition new_debate_submitted :: "debates_page \<Rightarrow> debates_page" where
  "new_debate_submitted s = (case lp_createDebateTags s of
      None \<Rightarrow> s
    | Some selection \<Rightarrow>
        (let s' = (onStartDebateModalClosed s)\<lparr>lp_title := []\<rparr>
         in case onNewDebateSubmit (lp_title s) selection of
              Inl e \<Rightarrow> s'
            | Inr debateData \<Rightarrow> s'\<lparr>lp_proposals := lp_proposals s' @ [debateData]\<rparr>))"

definition proposal_answered :: "nat \<Rightarrow> js_error + string \<Rightarrow> debates_page \<Rightarrow> debates_page" where
  "proposal_answered k answer s =
     (let s' = s\<lparr>lp_proposals := remove_nth k (lp_proposals s)\<rparr>
      in case answer of Inl e \<Rightarrow> s' | Inr message \<Rightarrow> s'\<lparr>lp_toasts := lp_toasts s' @ [message]\<rparr>)"

section \<open>What the page shows\<close>

record debate_card =
  dc_title :: string
  dc_username :: string
  dc_tags :: "string list"

definition DebateCard :: "debate_json \<Rightarrow> debate_card" where
  "DebateCard cardData =
     \<lparr>dc_title = dj_title cardData, dc_username = dj_username cardData,
      dc_tags = map tg_name (dj_tags cardData)\<rparr>"

record debates_view =
  vw_filterTags :: "client_tag list"
  vw_startButton :: bool
  vw_cards :: "(debate_card \<times> string) list"
  vw_noDebates :: bool
  vw_dialog :: bool

definition debates_view :: "user_cookie option \<Rightarrow> debates_page \<Rightarrow> debates_view" where
  "debates_view user s =
     \<lparr>vw_filterTags = ts_tags (fm_tags (lp_form s)), vw_startButton = (user \<noteq> None),
      vw_cards = map (\<lambda>d. (DebateCard d, redirectToDebatePage d)) (lp_debates s),
      vw_noDebates = (lp_debates s = []), vw_dialog = lp_isDebateModalOpen s\<rparr>"

section \<open>The picker on the page\<close>

record tag_item =
  ti_text :: string
  ti_selected :: bool
  ti_created :: bool

definition isTagSelected :: "tags_state \<Rightarrow> client_tag \<Rightarrow> bool" where
  "isTagSelected s tag = (ct_id tag \<in> set (ts_selected s))"

definition selectedTags :: "tags_state \<Rightarrow> client_tag option list" where
  "selectedTags s = map (find_tag (ts_tags s)) (ts_selected s)"

definition itemRenderer :: "tags_state \<Rightarrow> bool \<Rightarrow> client_tag \<Rightarrow> tag_item option" where
  "itemRenderer s matchesPredicate tag = (if matchesPredicate
     then Some \<lparr>ti_text = ct_name tag, ti_selected = isTagSelected s tag, ti_created = is_created s (ct_id tag)\<rparr>
     else None)"

text \<open>A selected tag with its mark for a new one; a type error when it is missing.\<close>

definition tagRenderer :: "tags_state \<Rightarrow> client_tag option \<Rightarrow> js_error + string \<times> bool" where
  "tagRenderer s tag = (case tag of
      None \<Rightarrow> Inl TypeError | Some t \<Rightarrow> Inr (ct_name t, is_created s (ct_id t)))"

text \<open>The items that the list shows for a text, and the selected tags.\<close>

definition Tags :: "string \<Rightarrow> tags_state \<Rightarrow> tag_item list \<times> (js_error + string \<times> bool) list" where
  "Tags text s = (List.map_filter (\<lambda>t. itemRenderer s (filterTag text t) t) (ts_tags s),
     map (tagRenderer s) (selectedTags s))"

text \<open>Every selected tag is shown, marked as new exactly when the page does not offer it.\<close>

lemma selected_tags_shown:
  assumes "picker canCreate base s"
  shows "\<exists>ts :: client_tag list. map ct_id ts = ts_selected s
    \<and> snd (Tags text s) = map (\<lambda>t. Inr (ct_name t, ct_id t \<notin> ct_id ` set base)) ts"
proof -
  note inv = picker_invariant[OF assms]
  have "set (ts_selected s) \<subseteq> ct_id ` set (ts_tags s)"
    using inv by (simp add: picker_inv_def)
  from map_find_tag[OF this] obtain ts where
    ts: "map (find_tag (ts_tags s)) (ts_selected s) = map Some ts" "map ct_id ts = ts_selected s"
      "set ts \<subseteq> set (ts_tags s)" by blast
  have "is_created s (ct_id t) \<longleftrightarrow> ct_id t \<notin> ct_id ` set base" if "t \<in> set ts" for t
    using created_iff[OF inv, of "ct_id t"] that ts(3) by blast
  then have "snd (Tags text s) = map (\<lambda>t. Inr (ct_name t, ct_id t \<notin> ct_id ` set base)) ts"
    by (simp add: Tags_def selectedTags_def ts(1) tagRenderer_def)
  with ts(2) show ?thesis by blast
qed

section \<open>Runs of the page\<close>

text \<open>
  What the user does in the form and in the dialog, the answers to proposals included; the dialog's
  picker may create tags, the form's may not.
\<close>

inductive quiet_step :: "debates_page \<Rightarrow> debates_page \<Rightarrow> bool" where
  quiet_typed: "quiet_step s (on_form (typed text) s)"
| quiet_expand: "quiet_step s (on_form handleExpandChange s)"
| quiet_strategy: "quiet_step s (on_form (strategy_chosen m) s)"
| quiet_select: "t \<in> set (ts_tags (fm_tags (lp_form s))) \<Longrightarrow>
    quiet_step s (on_form (\<lambda>f. f\<lparr>fm_tags := handleItemSelect t (fm_tags f)\<rparr>) s)"
| quiet_deselect: "quiet_step s (on_form (\<lambda>f. f\<lparr>fm_tags := deselectTag i (fm_tags f)\<rparr>) s)"
| quiet_clear: "quiet_step s (on_form (\<lambda>f. f\<lparr>fm_tags := handleOnClear (debateTags (lp_debates s)) (fm_tags f)\<rparr>) s)"
| quiet_start: "quiet_step s (startDebate s)"
| quiet_close: "quiet_step s (onStartDebateModalClosed s)"
| quiet_title: "quiet_step s (s\<lparr>lp_title := text\<rparr>)"
| quiet_dialog: "quiet_step s (s\<lparr>lp_createDebateTags := map_option (handleItemSelect t) (lp_createDebateTags s)\<rparr>)"
| quiet_dialog_remove: "quiet_step s (s\<lparr>lp_createDebateTags := map_option (deselectTag i) (lp_createDebateTags s)\<rparr>)"
| quiet_submit: "quiet_step s (new_debate_submitted s)"
| quiet_proposal: "k < length (lp_proposals s) \<Longrightarrow> quiet_step s (proposal_answered k answer s)"

text \<open>
  A run with the searches it sent, in order. The answers come in the order of the requests; timers
  fire in any order.
\<close>

definition sent :: "debates_page \<Rightarrow> debates_page \<Rightarrow> applied_debate_filters list" where
  "sent s s' = drop (length (lp_searches s)) (lp_searches s')"

inductive page_run ::
  "(applied_debate_filters \<Rightarrow> js_error + debate_json list) \<Rightarrow> debates_page \<Rightarrow> applied_debate_filters list
    \<Rightarrow> debates_page \<Rightarrow> bool" for api s0 where
  run_start: "page_run api s0 [] s0"
| run_quiet: "page_run api s0 log s \<Longrightarrow> quiet_step s s' \<Longrightarrow> page_run api s0 log s'"
| run_timer: "page_run api s0 log s \<Longrightarrow> k < length (fm_timers (lp_form s)) \<Longrightarrow>
    page_run api s0 (log @ sent s (timer_fired k s)) (timer_fired k s)"
| run_click: "page_run api s0 log s \<Longrightarrow> page_run api s0 (log @ sent s (apply_clicked s)) (apply_clicked s)"
| run_answer: "page_run api s0 log s \<Longrightarrow> lp_searches s \<noteq> [] \<Longrightarrow>
    page_run api s0 log (search_answered 0 (api (hd (lp_searches s))) s)"

text \<open>What is shown once a search is answered.\<close>

definition shown_after ::
  "(applied_debate_filters \<Rightarrow> js_error + debate_json list) \<Rightarrow> applied_debate_filters
    \<Rightarrow> debate_json list \<Rightarrow> debate_json list" where
  "shown_after api f ds = (case api f of Inl e \<Rightarrow> ds | Inr data \<Rightarrow> data)"

lemmas page_ops = on_form_def startDebate_def onStartDebateModalClosed_def new_debate_submitted_def
  proposal_answered_def Let_def

lemma quiet_step_keeps:
  "quiet_step s s' \<Longrightarrow> lp_debates s' = lp_debates s \<and> lp_searches s' = lp_searches s"
  by (induction rule: quiet_step.induct) (simp_all add: page_ops split: option.splits sum.splits)

lemma filters_applied_cases:
  "filters_applied b s = s \<or> (\<exists>f. filters_applied b s = onApplyFilters f s)"
  by (cases "form_filters b (lp_form s)") (auto simp: filters_applied_def)

lemma sent_applied:
  assumes "lp_searches t = lp_searches s" and "lp_debates t = lp_debates s"
  shows "lp_searches (filters_applied b t) = lp_searches s @ sent s (filters_applied b t)
    \<and> lp_debates (filters_applied b t) = lp_debates s"
  using filters_applied_cases[of b t] assms by (auto simp: sent_def onApplyFilters_def)

lemma timer_sent:
  "lp_searches (timer_fired k s) = lp_searches s @ sent s (timer_fired k s)
    \<and> lp_debates (timer_fired k s) = lp_debates s"
  unfolding timer_fired_def by (rule sent_applied) (simp_all add: on_form_def)

lemma click_sent:
  "lp_searches (apply_clicked s) = lp_searches s @ sent s (apply_clicked s)
    \<and> lp_debates (apply_clicked s) = lp_debates s"
  unfolding apply_clicked_def by (rule sent_applied) simp_all

lemma answered_page:
  assumes "lp_searches s \<noteq> []"
  shows "lp_searches (search_answered 0 (api (hd (lp_searches s))) s) = tl (lp_searches s)
    \<and> lp_debates (search_answered 0 (api (hd (lp_searches s))) s)
      = shown_after api (hd (lp_searches s)) (lp_debates s)"
  by (simp add: search_answered_def remove_nth_def shown_after_def on_form_def Let_def drop_Suc
      split: sum.splits)

text \<open>The searches split into those answered, which the page shows one after another, and the rest.\<close>

lemma run_shows:
  assumes "page_run api s0 log s"
  shows "\<exists>ds. lp_searches s0 @ log = ds @ lp_searches s
    \<and> lp_debates s = fold (shown_after api) ds (lp_debates s0)"
  using assms
proof (induction rule: page_run.induct)
  case run_start
  show ?case by (rule exI[of _ "[]"]) simp
next
  case (run_quiet log s s')
  then show ?case using quiet_step_keeps by metis
next
  case (run_timer log s k)
  then show ?case using timer_sent[of k s] by (metis append.assoc)
next
  case (run_click log s)
  then show ?case using click_sent[of s] by (metis append.assoc)
next
  case (run_answer log s)
  then obtain ok where ok: "lp_searches s0 @ log = ok @ lp_searches s"
    "lp_debates s = fold (shown_after api) ok (lp_debates s0)"
    by blast
  show ?case
    by (rule exI[of _ "ok @ [hd (lp_searches s)]"]) (use ok answered_page run_answer(2) in auto)
qed

section \<open>The picker of the form\<close>

definition with_ids :: "debate_json list \<Rightarrow> bool" where
  "with_ids ds \<longleftrightarrow> (\<forall>d \<in> set ds. \<forall>t \<in> set (dj_tags d). tg_id t \<noteq> None)"

definition text_id :: "client_tag \<Rightarrow> bool" where
  "text_id t \<longleftrightarrow> (\<exists>i. ct_id t = JStr i)"

definition page_inv :: "debates_page \<Rightarrow> bool" where
  "page_inv s \<longleftrightarrow> with_ids (lp_debates s)
     \<and> (\<exists>base. picker False base (fm_tags (lp_form s)) \<and> (\<forall>t \<in> set base. text_id t))"

lemma debateTags_good:
  assumes "with_ids ds"
  shows "good_tags (debateTags ds)" and "\<forall>t \<in> set (debateTags ds). text_id t"
proof -
  let ?tags = "map (map client_tag_of \<circ> dj_tags) ds"
  have ids: "\<forall>t \<in> set (concat ?tags). text_id t"
    using assms by (fastforce simp: with_ids_def text_id_def client_tag_of_def)
  then show "good_tags (debateTags ds)"
    unfolding debateTags_def by (intro page_tags_good(1)) (simp add: text_id_def)
  have "set (debateTags ds) \<subseteq> set (concat ?tags)"
    unfolding debateTags_def page_tags_def using unique_tags_facts by blast
  with ids show "\<forall>t \<in> set (debateTags ds). text_id t"
    by blast
qed

lemma form_tags_kept [simp]:
  "fm_tags (rendered f) = fm_tags f" "fm_tags (typed text f) = fm_tags f"
  "fm_tags (handleExpandChange f) = fm_tags f" "fm_tags (strategy_chosen m f) = fm_tags f"
  by (simp_all add: rendered_def typed_def debounce_def handleExpandChange_def strategy_chosen_def)

lemma page_inv_quiet:
  assumes "quiet_step s s'" and "page_inv s"
  shows "page_inv s'"
proof -
  obtain base where base: "picker False base (fm_tags (lp_form s))" "\<forall>t \<in> set base. text_id t"
    and ids: "with_ids (lp_debates s)"
    using assms(2) by (auto simp: page_inv_def)
  have "\<exists>base. picker False base (fm_tags (lp_form s')) \<and> (\<forall>t \<in> set base. text_id t)"
    using assms(1)
  proof cases
    case (quiet_select t)
    then show ?thesis using picker_select[OF base(1)] base(2) by (auto simp: on_form_def)
  next
    case (quiet_deselect i)
    then show ?thesis using picker_deselect[OF base(1)] base(2) by (auto simp: on_form_def)
  next
    case quiet_clear
    then show ?thesis
      using picker_clear[OF base(1) debateTags_good(1)[OF ids]] debateTags_good(2)[OF ids]
      by (auto simp: on_form_def)
  qed (use base in \<open>auto simp: page_ops split: option.splits sum.splits\<close>)
  then show ?thesis
    using ids quiet_step_keeps[OF assms(1)] by (simp add: page_inv_def)
qed

lemma applied_form: "lp_form (filters_applied b s) = lp_form s"
  using filters_applied_cases[of b s] by (auto simp: onApplyFilters_def)

lemma page_inv_run:
  assumes "page_run api s0 log s" and "page_inv s0"
    and api: "\<And>f data. api f = Inr data \<Longrightarrow> with_ids data"
  shows "page_inv s"
  using assms(1)
proof (induction rule: page_run.induct)
  case (run_quiet log s s')
  then show ?case using page_inv_quiet by blast
next
  case (run_timer log s k)
  have "fm_tags (lp_form (timer_fired k s)) = fm_tags (lp_form s)"
    unfolding timer_fired_def applied_form by (simp add: on_form_def)
  then show ?case using run_timer(3) timer_sent by (simp add: page_inv_def)
next
  case (run_click log s)
  then show ?case using click_sent by (simp add: page_inv_def apply_clicked_def applied_form)
next
  case (run_answer log s)
  then show ?case
    using api by (cases "api (hd (lp_searches s))")
      (simp_all add: search_answered_def on_form_def page_inv_def Let_def)
qed (rule assms(2))

lemma page_inv_mounted: "with_ids ds \<Longrightarrow> page_inv (DebatesClient ds)"
  unfolding page_inv_def
  using debateTags_good[of ds] picker_initial[of "debateTags ds" False]
  by (auto simp: DebatesClient_def initial_form_def)

text \<open>In such a page the form reads exactly the selected identifiers.\<close>

lemma selected_values_run:
  assumes "picker False base s" and "\<forall>t \<in> set base. text_id t"
  shows "selected_values s = Inr (map template_number (ts_selected s))"
proof -
  note inv = picker_invariant[OF assms(1)]
  have base: "ts_tags s = base" "set (ts_selected s) \<subseteq> ct_id ` set base"
    using inv by (auto simp: picker_inv_def)
  obtain ts names where sel: "getSelectedTags s = Inr (map Some ts, names)"
    "map ct_id ts = filter (\<lambda>i. i \<in> ct_id ` set base) (ts_selected s)" "set ts \<subseteq> set base"
    using selection_split[OF inv] by (elim exE conjE, intro that) assumption+
  have "filter (\<lambda>i. i \<in> ct_id ` set base) (ts_selected s) = ts_selected s"
    using base(2) by (auto simp: filter_id_conv)
  then have ids: "map ct_id ts = ts_selected s"
    using sel(2) by simp
  have "\<forall>t \<in> set ts. ct_id t \<noteq> JUndefined \<and> ct_id t \<noteq> JNull"
    using sel(3) assms(2) by (fastforce simp: text_id_def)
  then show ?thesis
    by (auto simp: selected_values_def sel(1) list_ex_iff comp_def simp flip: ids)
qed

section \<open>What is shown when all is answered\<close>

definition search_answer ::
  "(nat list \<Rightarrow> string) \<Rightarrow> (string \<Rightarrow> raw_filters option) \<Rightarrow> world \<Rightarrow> applied_debate_filters
    \<Rightarrow> js_error + debate_json list" where
  "search_answer other other_json w f =
     fst (handle_getAll (decode_filters other other_json) (Some (received_q (fetchDebatesWithFilters f))) w)"

lemma listed_tags:
  assumes "list_all comma_free (debate_tags ts)" and "listed ts d"
  shows "dj_tags (debate_to_json (listing_row ts d)) = map tag_json_of (tags_of ts (d_id d))"
proof -
  have "list_all comma_free (tags_of ts (d_id d))"
    using assms(1) by (auto simp: list_all_iff set_tags_of)
  then show ?thesis
    using assms(2) by (simp add: debate_to_json_def listing_row_def Let_def pair_tags_agg listed_def)
qed

lemma select_debates_sub: "select_debates c db = (Inr rows, d) \<Longrightarrow> set rows \<subseteq> set (debates_listing (tabs db))"
  by (auto simp: select_debates_def select_stmt_def split: option.splits if_splits)

lemma answer_with_ids:
  assumes w: "schema_ok (pg w)" "txn w = NoTxn" "faults w = []" and "list_all comma_free (debate_tags (wtabs w))"
    and "fst (handle_getAll decode q w) = Inr js"
  shows "with_ids js"
proof -
  obtain rows c d where "js = map debate_to_json rows" "select_debates c (pg w) = (Inr rows, d)"
    using assms(5) w(2,3)
    by (auto simp: handle_getAll_def getAll_def map_svc_def sq_run bnd_run pool_connect_def next_fault_def
        raise_def try_finally_def try_catch_def query_def exchange_def run_stmt_def release_def
        split: sum.splits option.splits prod.splits)
  moreover have "debates_listing (wtabs w) = map (listing_row (wtabs w)) (filter (listed (wtabs w)) (debates (wtabs w)))"
    using debates_listing_eq schema_tables_ok w(1) by blast
  ultimately have "\<forall>x \<in> set js. \<exists>d. listed (wtabs w) d \<and> x = debate_to_json (listing_row (wtabs w) d)"
    using select_debates_sub by force
  then show ?thesis
    using listed_tags[OF assms(4)] by (fastforce simp: with_ids_def tag_json_of_def)
qed

lemma fold_shown_after: "api f = Inr data \<Longrightarrow> fold (shown_after api) (fs @ [f]) ds = data"
  by (simp add: shown_after_def)

lemma card_of_row:
  "dc_title (DebateCard (debate_to_json (listing_row ts d))) = d_title d"
  "redirectToDebatePage (debate_to_json (listing_row ts d)) = ''/debates/'' @ int_to_string (d_id d)"
  by (simp_all add: DebateCard_def redirectToDebatePage_def debate_to_json_def listing_row_def Let_def)

lemma click_sends:
  assumes "picker False base (fm_tags (lp_form s))" and "\<forall>t \<in> set base. text_id t"
    and "ts_selected (fm_tags (lp_form s)) = map (JStr \<circ> int_to_string) ids"
  shows "apply_clicked s = onApplyFilters (applyFilters (Some (fm_input (lp_form s)))
      (fm_shouldUseTagsFilter (lp_form s)) (Some (map int_to_string ids)) (fm_tagsMatchingStrategy (lp_form s))) s"
  using selected_values_run[OF assms(1,2)] assms(3)
  by (cases "fm_shouldUseTagsFilter (lp_form s)")
    (simp_all add: apply_clicked_def filters_applied_def form_filters_def applyFilters_def comp_def)


text \<open>A search on the sample: the text, the tag panel and the tag of games.\<close>

definition sample_listing :: debates_page where
  "sample_listing = DebatesClient (DebatesPage (fst (handle_getAll (\<lambda>_. None) None sample_world)))"

definition games :: client_tag where
  "games = \<lparr>ct_id = JStr ''1'', ct_name = ''games''\<rparr>"

definition sample_search :: debates_page where
  "sample_search = on_form (\<lambda>f. f\<lparr>fm_tags := handleItemSelect games (fm_tags f)\<rparr>)
     (on_form handleExpandChange (on_form (typed ''chE'') sample_listing))"

lemma sample_listing_tags:
  "ts_tags (fm_tags (lp_form sample_listing)) = [games, \<lparr>ct_id = JStr ''2'', ct_name = ''sport''\<rparr>]"
  by code_simp


section \<open>What the page gets wrong\<close>

text \<open>Of two searches whose answers come in the other order, the earlier one is shown in the end.\<close>

lemma earlier_search_shown:
  assumes "lp_searches s = [f, g]"
  shows "lp_debates (search_answered 0 (Inr first) (search_answered 1 (Inr second) s)) = first
    \<and> lp_searches (search_answered 0 (Inr first) (search_answered 1 (Inr second) s)) = []"
  using assms by (simp add: search_answered_def remove_nth_def on_form_def Let_def)

text \<open>A render between two keystrokes leaves both timers; without one the second replaces the first.\<close>

lemma timers_of_two_keystrokes:
  assumes "fm_timers f = []"
  shows "length (fm_timers (typed b (typed a f))) = 1"
    and "length (fm_timers (typed b (rendered (typed a f)))) = 2"
  using assms by (simp_all add: typed_def debounce_def rendered_def)

text \<open>A timer started before the panel was expanded searches without the tags.\<close>

lemma timer_has_old_flag:
  assumes "fm_timers (lp_form s) = []" and "\<not> fm_shouldUseTagsFilter (lp_form s)"
  shows "lp_searches (timer_fired 0 (on_form handleExpandChange (on_form (typed text) s)))
    = lp_searches s @ [applyFilters (Some text) False None (fm_tagsMatchingStrategy (lp_form s))]"
  using assms by (simp add: timer_fired_def on_form_def typed_def debounce_def handleExpandChange_def
      rendered_def filters_applied_def form_filters_def onApplyFilters_def remove_nth_def)

text \<open>Clearing the picker leaves it the tags of the debates that the last search found.\<close>

lemma clear_narrows:
  "ts_tags (handleOnClear (debateTags (lp_debates (search_answered k (Inr data) s))) picker_state) = debateTags data"
  by (simp add: handleOnClear_def search_answered_def on_form_def Let_def)

text \<open>The body of the request.\<close>

definition proposal_dto :: "create_debate_data \<Rightarrow> create_debate_dto" where
  "proposal_dto data =
     \<lparr>cd_title = cdd_title data, cd_tagsIds = cdd_tagsIds data, cd_createdTags = Some (cdd_createdTags data)\<rparr>"

text \<open>
  C10: The dialog offers the tags of the debates that the page shows; a tag that exists but is not
  among them can only be created by its name. When a debate is proposed with such names alone, the
  proposal succeeds, but no tag is stored for it: the debate is not in the listing, neither now nor
  after any change that leaves the tags of debates alone, such as a moderator accepting it.
\<close>

theorem existing_tags_dropped:
  assumes "idle w" and "schema_ok (pg w)"
    and run: "createDebate render user (proposal_dto data) w = (Inr u, w')"
    and "cdd_tagsIds data = []" and "\<forall>name \<in> set (cdd_createdTags data). \<not> is_new_tag (wtabs w) name"
  shows "\<exists>d. debates (wtabs w') = debates (wtabs w) @ [d] \<and> d_created_by d = uc_id user
    \<and> debate_tags (wtabs w') = debate_tags (wtabs w)
    \<and> (\<forall>ts. assoc_debate_tags ts = assoc_debate_tags (wtabs w') \<longrightarrow> \<not> listed ts d)"
proof -
  have "\<exists>i. debate_created user (proposal_dto data) (wtabs w) i (wtabs w')"
    using createDebate.transaction_atomic[OF assms(1) notify_moderators_returns run[unfolded createDebate_def]]
    by simp
  moreover have "filter (is_new_tag (wtabs w)) (cdd_createdTags data) = []"
    using assms(5) by (simp add: filter_empty_conv)
  ultimately obtain d t where d: "d_created_by d = uc_id user" "d_id d \<notin> set (debate_ids (wtabs w))"
    and tabs: "wtabs w' = (wtabs w)\<lparr>tickets := tickets (wtabs w) @ [t], debates := debates (wtabs w) @ [d]\<rparr>"
    using assms(4) by (auto simp: debate_created_def proposal_dto_def)
  have "\<forall>a \<in> set (assoc_debate_tags (wtabs w)). adt_debate_id a \<in> set (debate_ids (wtabs w))"
    using assms(2) by (simp add: schema_ok_def refs_ok_def list_all_iff)
  then have "\<not> listed ts d" if "assoc_debate_tags ts = assoc_debate_tags (wtabs w')" for ts
    using that d(2) by (auto simp: listed_def tags_of_def tabs)
  with d(1) show ?thesis
    by (auto simp: tabs)
qed

definition sample_proposal :: create_debate_data where
  "sample_proposal = \<lparr>cdd_title = ''Draughts'', cdd_tagsIds = [], cdd_createdTags = ['' Sport'']\<rparr>"

theorem existing_tags_dropped_witness:
  "\<exists>w' d. createDebate (\<lambda>_. ''doc'') alice_cookie (proposal_dto sample_proposal) sample_world = (Inr (), w')
    \<and> debates (wtabs w') = debates (wtabs sample_world) @ [d]
    \<and> \<not> listed ((wtabs w')\<lparr>tickets := map (\<lambda>t. t\<lparr>t_board_list := Some ACCEPTED\<rparr>) (tickets (wtabs w'))\<rparr>) d"
proof -
  obtain w' where run: "createDebate (\<lambda>_. ''doc'') alice_cookie (proposal_dto sample_proposal) sample_world = (Inr (), w')"
  proof -
    have "fst (createDebate (\<lambda>_. ''doc'') alice_cookie (proposal_dto sample_proposal) sample_world) = Inr ()"
      by code_simp
    then show thesis
      by (metis prod.collapse that)
  qed
  have "\<forall>name \<in> set (cdd_createdTags sample_proposal). \<not> is_new_tag (wtabs sample_world) name"
    by code_simp
  with existing_tags_dropped[OF sample_idle _ run] show ?thesis
    using run by (fastforce simp: sample_proposal_def)
qed

end
