(* ===== verification/Debate_View.thy ===== *)
theory Debate_View
  imports Client_Debate
begin

text \<open>
  What the page of a debate shows (\<open>app/debates/[id]/page.tsx\<close>, the rendering of
  \<open>DebatePageClient.tsx\<close> and the cards of \<open>DebateArgument.tsx\<close>) on the states of \<open>Client_Debate\<close>. The
  lemmas say that every card is that of a public argument of the debate, and what it offers.
\<close>

section \<open>Opening the page\<close>

datatype debate_route = RedirectHome | DebatePageClient current_debate

text \<open>The transformation keeps the identifier and the title beside the arguments.\<close>

definition debate_info :: "debate_view \<Rightarrow> current_debate option" where
  "debate_info v = map_option (\<lambda>m.
     \<lparr>cd_args = getDebateDTO (map client_arg_of (dv_args v)), cd_debate_id = md_debate_id m,
      cd_debate_title = md_debate_title m, cd_expanded = None\<rparr>) (dv_metadata v)"

definition DebatePage :: "string \<Rightarrow> js_error + debate_view \<Rightarrow> debate_route" where
  "DebatePage i answer =
     (if i = [] \<or> to_number i = JNaN then RedirectHome
      else case answer of
             Inl e \<Rightarrow> RedirectHome
           | Inr v \<Rightarrow> (case debate_info v of None \<Rightarrow> RedirectHome | Some d \<Rightarrow> DebatePageClient d))"

section \<open>The card of an argument\<close>

datatype expand_button = ReadMore int | Collapse int

record menu_entry =
  me_text :: string
  me_disabled :: bool

record argument_card =
  ac_title :: string
  ac_actions :: "menu_entry list option"
  ac_body :: "string option"
  ac_username :: string
  ac_expand :: "expand_button option"

text \<open>The body is shown when the card is expanded and has a content that is not empty.\<close>

definition DebateArgument ::
  "client_arg \<Rightarrow> bool \<Rightarrow> menu_entry list option \<Rightarrow> bool \<Rightarrow> argument_card" where
  "DebateArgument debateArgumentData isExpanded additionalActions isAbleToExpand =
     \<lparr>ac_title = ca_title debateArgumentData, ac_actions = additionalActions,
      ac_body = (if isExpanded then truthy (ca_content debateArgumentData) else None),
      ac_username = ca_username debateArgumentData,
      ac_expand = (if isAbleToExpand
        then Some (if isExpanded then Collapse (ca_id debateArgumentData) else ReadMore (ca_id debateArgumentData))
        else None)\<rparr>"

definition renderAdditionalActions :: "user_cookie option \<Rightarrow> 'd debate_page \<Rightarrow> client_arg \<Rightarrow> menu_entry list" where
  "renderAdditionalActions crtUser s arg =
     (if crtUser \<noteq> None then [\<lparr>me_text = ''Add counterargument'', me_disabled = False\<rparr>] else [])
     @ [\<lparr>me_text = ''See the counterarguments'', me_disabled = shouldDisableCounterargsButton arg s\<rparr>]"

definition page_card :: "user_cookie option \<Rightarrow> 'd debate_page \<Rightarrow> client_arg \<Rightarrow> argument_card" where
  "page_card crtUser s p =
     DebateArgument p (ca_id p \<in> expandedArgumentsIDs s) (Some (renderAdditionalActions crtUser s p)) True"

section \<open>The page\<close>

record debate_page_view =
  dpv_actionButtons :: "string list"
  dpv_title :: string
  dpv_breadcrumbs :: "string list option"
  dpv_pros :: "argument_card list"
  dpv_noPros :: bool
  dpv_cons :: "argument_card list"
  dpv_noCons :: bool

text \<open>
  The title is that of the debate in the store, of the given one before it is there. The notice of a
  thread, with its history, is shown while the inspected argument is found.
\<close>

definition debate_page_view ::
  "current_debate \<Rightarrow> user_cookie option \<Rightarrow> 'd debate_page \<Rightarrow> debate_page_view" where
  "debate_page_view debateInfo crtUser s =
     \<lparr>dpv_actionButtons = (if crtUser \<noteq> None then [''Add PRO/CON argument'', ''Subscribe to discussion''] else [])
        @ [''Back to debates''],
      dpv_title = cd_debate_title (case dbs_crtDebate (dp_store s) of None \<Rightarrow> debateInfo | Some d \<Rightarrow> d),
      dpv_breadcrumbs = (if inspectedCounterargsOfArgument s = None then None
        else Some (map fst (historyBreadcrumbItems s))),
      dpv_pros = map (page_card crtUser s) (pros s), dpv_noPros = (pros s = []),
      dpv_cons = map (page_card crtUser s) (cons s), dpv_noCons = (cons s = [])\<rparr>"

section \<open>The cards are the public arguments\<close>

lemma calm_page_step: "calm_step api s s' \<Longrightarrow> page_step s s'"
  by (induction rule: calm_step.induct) (auto intro: page_step.intros)

lemma calm_steps: "(calm_step api)\<^sup>*\<^sup>* s s' \<Longrightarrow> page_step\<^sup>*\<^sup>* s s'"
  by (induction rule: rtranclp_induct) (auto intro: rtranclp.rtrancl_into_rtrancl calm_page_step)

lemma column_arg:
  assumes "a \<in> set (column ty s)"
  shows "a \<in> set (dp_detailed s) \<and> ca_type a = Some ty"
proof -
  have found: "b \<in> set xs" if "find_arg xs i = Some b" for xs b i
    using that by (induction xs) (auto simp: find_arg_def split: if_splits)
  show ?thesis
    using assms by (auto simp: column_def inspectedCounterargsOfArgument_def dest: found found[OF sym]
        split: option.splits if_splits)
qed

text \<open>The row behind an argument of the page.\<close>

lemma page_row:
  assumes "schema_ok db" and "map frame (dp_detailed s) = map frame (getDebateDTO (map client_arg_of (dv_args (public_view (tabs db) d))))"
    and "a \<in> set (dp_detailed s)"
  shows "\<exists>row \<in> set (public_rows (tabs db) d). ca_id a = a_id row \<and> ca_title a = a_title row
    \<and> ca_username a = u_username (the (user_of (tabs db) (a_created_by row)))
    \<and> ca_counterarguments a = counterarguments_of (map client_arg_of (dv_args (public_view (tabs db) d))) (a_id row)"
proof -
  let ?rows = "public_rows (tabs db) d"
  define conv where "conv = client_arg_of \<circ> arg_data.truncate \<circ> argument_json False (tabs db)"
  have args: "map client_arg_of (dv_args (public_view (tabs db) d)) = map conv ?rows"
    by (simp add: public_view_def public_rows_def conv_def)
  have cols: "ca_id (conv r) = a_id r" "ca_title (conv r) = a_title r"
    "ca_username (conv r) = u_username (the (user_of (tabs db) (a_created_by r)))" for r
    by (simp_all add: conv_def client_arg_of_def argument_json_def argument_columns_def arg_data.truncate_def)
  have "0 < a_id r" if "r \<in> set ?rows" for r
    using assms(1) that by (auto simp: public_rows_def table_defs serial_key_def list_all_iff)
  then have nonzero: "\<forall>a \<in> set (map conv ?rows). ca_id a \<noteq> 0" by (force simp: cols)
  note frames = assms(2)[unfolded args]
  obtain b where b: "b \<in> set (getDebateDTO (map conv ?rows))" "frame b = frame a"
    using frame_member[OF frames assms(3)] by blast
  then obtain r where r: "r \<in> set ?rows" "b = (conv r)\<lparr>ca_counterarguments := counterarguments_of (map conv ?rows) (a_id r)\<rparr>"
    unfolding getDebateDTO_alt[OF nonzero] by (auto simp: cols)
  have "ca_id b = ca_id a" "ca_title b = ca_title a" "ca_username b = ca_username a"
    using arg_cong[OF b(2), of ca_id] arg_cong[OF b(2), of ca_title] arg_cong[OF b(2), of ca_username]
    by (simp_all add: frame_def)
  moreover have "ca_counterarguments a = counterarguments_of (map conv ?rows) (ca_id a)"
    using displayed_arg[OF frames nonzero assms(3)] by blast
  ultimately show ?thesis
    using r cols unfolding args by (intro bexI[of _ r]) auto
qed

text \<open>The API's answer to a read of a public argument of the debate.\<close>

definition read_text :: "world \<Rightarrow> int \<Rightarrow> int \<Rightarrow> string" where
  "read_text w debateId argId =
     (case fst (handle_getDebateArgument (int_to_string debateId) (int_to_string argId) w) of
        Inl e \<Rightarrow> []
      | Inr r \<Rightarrow> (case ag_content r of None \<Rightarrow> [] | Some content \<Rightarrow> content))"

lemma public_row_alone:
  assumes "schema_ok db" and "row \<in> set (public_rows (tabs db) d)"
  shows "filter (\<lambda>a. case arg_ticket (tabs db) a of None \<Rightarrow> False
      | Some t \<Rightarrow> a_debate_id a = d_id d \<and> t_board_list t = Some ACCEPTED \<and> a_id a = a_id row) (arguments (tabs db)) = [row]"
proof -
  have row: "row \<in> set (arguments (tabs db))" "a_debate_id row = d_id d" "is_public (tabs db) row"
    using assms(2) by (auto simp: public_rows_def)
  have "distinct (map a_id (arguments (tabs db)))"
    using assms(1) by (simp add: schema_ok_def keys_ok_def serial_key_def)
  then have only: "filter (\<lambda>a. a_id a = a_id row) (arguments (tabs db)) = [row]"
    using filter_key_find[of a_id "arguments (tabs db)" "a_id row"]
      find_key_Some[of a_id "arguments (tabs db)" "a_id row" row] row(1) by simp
  have "filter (\<lambda>a. case arg_ticket (tabs db) a of None \<Rightarrow> False
      | Some t \<Rightarrow> a_debate_id a = d_id d \<and> t_board_list t = Some ACCEPTED \<and> a_id a = a_id row) (arguments (tabs db))
    = filter (\<lambda>a. a_debate_id a = d_id d \<and> is_public (tabs db) a) (filter (\<lambda>a. a_id a = a_id row) (arguments (tabs db)))"
    by (auto simp: is_public_def intro: filter_cong split: option.splits)
  then show ?thesis
    using row by (simp add: only)
qed

lemma read_text_public:
  assumes "txn w = NoTxn" and "faults w = []" and "schema_ok (pg w)"
    and "row \<in> set (public_rows (wtabs w) d)" and "int4 (d_id d)" and "int4 (a_id row)"
  shows "read_text w (d_id d) (a_id row) = a_content row"
proof -
  have "select_debate_argument (\<lambda>t. t_board_list t = Some ACCEPTED) (d_id d) (a_id row) (pg w)
      = (Inr [argument_json True (wtabs w) row], pg w)"
    using assms(5,6) public_row_alone[OF assms(3,4)]
    by (simp add: select_debate_argument_def with_param_Inr select_stmt_def
        arguments_join_eq[OF schema_tables_ok[OF assms(3)]])
  then show ?thesis
    by (simp add: read_text_def handle_getDebateArgument_def parse_int_param_def bnd_run getDebateArgument_def
        client_query_run[OF assms(1,2)] first_or_404_def argument_json_def argument_columns_def)
qed

lemma countering_public:
  "countering (map client_arg_of (dv_args (public_view ts d))) i
    = map a_id (filter (\<lambda>b. a_counterargument_to b = Some i) (public_rows ts d))"
  by (simp add: countering_def public_view_def public_rows_def filter_map comp_def client_arg_of_def
      argument_json_def argument_columns_def arg_data.truncate_def)


text \<open>The sample's debate, its argument read by a visitor who is signed in.\<close>

definition chess_info :: current_debate where
  "chess_info = the (debate_info (public_view sample_tables (debates sample_tables ! 0)))"

definition chess_page :: "unit debate_page" where
  "chess_page = mount_page chess_info initial_debates"

definition chess_read :: "unit debate_page" where
  "chess_read = read_answered 0 (Some (read_text sample_world 1 1)) (onReadArgument True 1 chess_page)"


end
