(* ===== verification/Spec2Isabelle.thy ===== *)
theory Spec2Isabelle
  imports System Client_Tags Client_Debate Client_Board Review_Room Client_Notifications
    Client_Activity Connection_Drain Request_Logging Config_Env Seed_Load Rich_Editor
    Dev_Seed Toolbar Board_Page Review_View Debates_Page Debate_View
begin

text \<open>
  A verification library for Decent Debates: an application in which users propose debates and
  arguments, moderators review them on a board of tickets, and the accepted ones are public. The
  repository holds an API (\<open>apps/api\<close>, NestJS on PostgreSQL and Redis), a worker that turns queued
  jobs into notifications (\<open>apps/notification-worker\<close>), a web client (\<open>apps/client\<close>, React), and
  shared packages (\<open>packages\<close>): the schema with its seeds, the configuration, logging and telemetry.

  \<^bold>\<open>The parts and how they interact.\<close> A request passes the guards (\<open>guards\<close>), a controller and a
  service, which talks to the database over a client of the pool, to the cache and to the job queue.
  A proposal creates a ticket with its debate or argument; a moderator moves the ticket between the
  lists PENDING, IN REVIEW, ACCEPTED and CANCELED; what is on an ACCEPTED ticket is public. The
  author and the moderator talk on the ticket's review page, over HTTP and a websocket gateway. Most
  changes enqueue a notification event; the worker stores the notifications and publishes a message
  that the API streams to the widgets of the client.

  \<^bold>\<open>Theories of the API and the worker.\<close>
  \<^item> \<open>Prelude\<close>: strings as the program uses them, and lists. \<open>Svc\<close>: asynchronous methods as state
    transformers with exceptions, and the locale \<open>world_order\<close> of what a program keeps.
  \<^item> \<open>Schema\<close>: a record per table of \<open>migrations/20261015000000_init.ts\<close>, the statements with the
    checks of the server (keys, references, widths), and the integrity predicate \<open>schema_ok\<close>.
  \<^item> \<open>Backend\<close>: the world of a request (database, open transaction, pool, cache, queue, messages,
    sockets), each exchange with a fault before or after it; the transaction, the client and the
    queue patterns of the services; the locales \<open>backend_order\<close> and \<open>txn_body\<close>. \<open>Sample\<close>: the
    database on which theorems are instantiated.
  \<^item> \<open>App_State\<close>: the invariant \<open>app_ok\<close> that the services keep beyond the schema.
  \<^item> \<open>Tags\<close>, \<open>Debates_Query\<close>, \<open>Debates_Service\<close>, \<open>Debates_Correct\<close>, \<open>Drafts\<close>: \<open>debates.service.ts\<close>
    and the query pipe. \<open>Proposals\<close>: its proposals, edits and drafts, end to end.
  \<^item> \<open>Moderator_Service\<close>, \<open>Moderator_Correct\<close>: \<open>moderator.service.ts\<close>, with the life of a ticket as
    its abstract specification. \<open>User_Service\<close>, \<open>Comments\<close>: \<open>user.service.ts\<close>, \<open>auth.service.ts\<close> and
    \<open>comment.service.ts\<close> (the locale \<open>comment_store\<close> with its two implementations).
  \<^item> \<open>Controllers\<close>, \<open>Board\<close>: the guards, the routes' metadata and the handlers. \<open>Access\<close>: the access
    policy and the accounts. \<open>Activity\<close>, \<open>Public_View\<close>: the moderators' board and the public page.
  \<^item> \<open>Events\<close>, \<open>Rich_Editor\<close>, \<open>Notifications\<close>: the notification events, the one editor that renders
    them, the worker and the stream. \<open>Review_Gateway\<close>: \<open>review.gateway.ts\<close>.
  \<^item> \<open>System\<close>: requests, socket events, jobs and the environment as one step relation.
  \<^item> \<open>Config_Env\<close>, \<open>Process_Lifecycle\<close>, \<open>Connection_Drain\<close>, \<open>Request_Logging\<close>: configuration, telemetry,
    probes, shutdown, the draining of connections, request identifiers and log lines.
  \<^item> \<open>Seed_Load\<close>, \<open>Dev_Seed\<close>: the load tests' database and the seed of a developer's machine.

  \<^bold>\<open>Theories of the client.\<close> \<open>Query_Codec\<close> and \<open>Search\<close> (the filters and their way to the API),
  \<open>Client_Tags\<close> (the tag picker), \<open>Debates_Page\<close> (the page of all debates with its form, its searches
  and its dialog), \<open>Client_Debate\<close> and \<open>Debate_View\<close> (the page of a debate), \<open>Client_Board\<close> and
  \<open>Board_Page\<close> (the board, with the objects that its handlers share), \<open>Client_Review\<close>, \<open>Review_View\<close>
  and \<open>Review_Room\<close> (the review pages, what they show and offer, and the room),
  \<open>Client_Notifications\<close> (the widget with the stream), \<open>Client_Argument\<close> and \<open>Client_Drafts\<close> (the page
  of a new argument and drafts), \<open>Client_Activity\<close> (the session and the page of one's own activity),
  \<open>Toolbar\<close> (the toolbar of the rich editor). A component with hooks
  is a record of its state, its handlers are functions on it, and where answers, timers or messages
  may interleave a step relation says in which orders.

  \<^bold>\<open>What the lemmas show.\<close>
  \<^item> Whatever requests come and whatever fails, every reachable state of the system satisfies the
    schema and \<open>app_ok\<close>, and what is public has passed a moderator (\<open>System\<close>). The transactions are all
    or nothing, complete without a failure and give their client back (\<open>Proposals\<close>).
  \<^item> The operations of a moderator refine the life of a ticket; the routes enforce one access policy;
    comments and edits are those of the participants (\<open>Moderator_Correct\<close>, \<open>Access\<close>, \<open>Comments\<close>).
  \<^item> The listing, the board, the public page and the activity return exactly what they should, and the
    filters mean on tag sets and titles what the form says (\<open>Debates_Query\<close>, \<open>Activity\<close>, \<open>Public_View\<close>,
    \<open>Search\<close>, \<open>Client_Activity\<close>).
  \<^item> The client's states keep their invariants and its updates are those of the API: the thread, the
    picker, the board, the pages of a room, the badge; what a review page offers, the API accepts. Filters and drafts come back as they were
    chosen and saved.
  \<^item> The processes end in time with the right code, closing connections are not left idle, the walk to
    the package root ends, and both seeds leave a database that satisfies the invariant.
  \<^item> Where the code does not do what it means to, a lemma says what it does: overlapping events in the
    one editor, overlapping reads, a client lost to the pool, a submission before the page has loaded,
    a message that the badge forgets, a text that does not arrive, an approval that a drop takes back,
    a tag that exists already and is dropped from the proposal.

  \<^bold>\<open>Bounds and fuel.\<close> A job is attempted at most \<open>job_attempts\<close> = 3 times, the number that
  \<open>app.module.ts\<close> configures. A list of faults is consumed one entry per exchange and a list that has
  ended means no more failures; theorems quantify over all lists. The only loop that might not end,
  the walk to the package root, is a partial function, and its theorem bounds its steps by the length
  of the directory's name. Integers of PostgreSQL are bounded where a parameter is coerced; those of
  JavaScript are taken as exact below 2^53. The limits of the shutdown (15 and 5 seconds) are the
  code's.

  \<^bold>\<open>Assumptions of the model.\<close> A request of the API runs to its end before the next one starts; the
  theories whose subject is the overlap of actions (\<open>Review_Room\<close>, \<open>Client_Debate\<close>, \<open>Debates_Page\<close>,
  \<open>Client_Notifications\<close>, \<open>Client_Argument\<close>, \<open>Rich_Editor\<close>, \<open>Connection_Drain\<close>) interleave them step by
  step. \<open>string_agg\<close> takes rows in the order of the join. A character is one of 256 codes and case
  folding is the ASCII one. JSON, base64 and the query string are defined as far as both ends use
  them. Opening a review page connects the socket and fetches the comments in one step, the clock is
  not set back, and the other requests leave that ticket's comments alone. The badge is compared in
  states where no read of the notifications is under way when a message arrives. A promise that
  settles in the millisecond of its limit counts as late. On the page of a new argument the effects
  of a render run before its timers. Parameters stand for bcrypt, the session store and the cookie
  parser, Lexical's insertion and serialisation, dotenv and zod's object schemas, the SDK of the
  telemetry, pino and the browser's layout; a law assumed of one is a hypothesis of the theorem that
  needs it, and a witness instantiates it.

  \<^bold>\<open>Not modelled.\<close> How a view is drawn, styles and what the editor does with a command (React,
  Blueprint, react-dnd and Lexical do the work; what the modelled pages show and offer is data here); the construction of the framework's modules, of the exporters and of the API
  documentation (\<open>main.ts\<close>, the modules, \<open>instrumentation.ts\<close>), which only reads flags; the
  counting of the throttler and the storage of sessions, which belong to their packages; the load
  driver and the scripts; the tables that no code uses.
\<close>

end
